(* ===== verification/Prelude.thy ===== *)
theory Prelude
  imports Main "HOL-Library.AList" "HOL-Library.Char_ord" "HOL-Library.List_Lexorder"
    "HOL-Library.Signed_Division" "HOL-Library.Multiset"
begin

text \<open>
  What the TypeScript sources use of the language and its standard library, as HOL functions.
  A JavaScript string is a \<open>string\<close>: one \<open>char\<close> per UTF-16 code unit, for code units below 256; the few
  fixed messages with a character beyond that are written with its UTF-8 bytes.
  A \<open>bigint\<close> is an \<open>int\<close>; its \<open>/\<close> and \<open>%\<close> truncate towards zero, which is \<open>sdiv\<close> and \<open>smod\<close> of
  \<open>HOL-Library.Signed_Division\<close>. A \<open>Map\<close> keeps insertion order, which is an association list under
  \<open>AList.update\<close>. \<open>Array.prototype.sort\<close> is stable. A thrown error is the left of a sum.
  The rules a component proof wants are collected under \<open>js_simps\<close> (rewriting) and \<open>js_total\<close>
  (sums and multisets under sorting and updating).
\<close>

named_theorems js_simps
named_theorems js_total

section \<open>Errors as values\<close>

definition and_then :: "'e + 'a \<Rightarrow> ('a \<Rightarrow> 'e + 'b) \<Rightarrow> 'e + 'b" where
  "and_then r f = (case r of Inl e \<Rightarrow> Inl e | Inr a \<Rightarrow> f a)"

lemma and_then_simps [simp, js_simps]:
  "and_then (Inl e) f = Inl e" "and_then (Inr a) f = f a"
  by (simp_all add: and_then_def)

lemma and_then_Inr: "and_then r f = Inr b \<longleftrightarrow> (\<exists>a. r = Inr a \<and> f a = Inr b)"
  by (cases r) auto

lemma and_then_Inl: "and_then r f = Inl e \<longleftrightarrow> r = Inl e \<or> (\<exists>a. r = Inr a \<and> f a = Inl e)"
  by (cases r) auto

text \<open>A loop that may throw, collecting the results in order: the first error wins.\<close>

fun map_result :: "('a \<Rightarrow> 'e + 'b) \<Rightarrow> 'a list \<Rightarrow> 'e + 'b list" where
  "map_result f [] = Inr []"
| "map_result f (x # xs) =
     and_then (f x) (\<lambda>y. and_then (map_result f xs) (\<lambda>ys. Inr (y # ys)))"

lemma map_result_Inr_length: "map_result f xs = Inr ys \<Longrightarrow> length ys = length xs"
  by (induction xs arbitrary: ys) (auto simp: and_then_Inr)

lemma map_result_Inr_nth:
  "map_result f xs = Inr ys \<Longrightarrow> i < length xs \<Longrightarrow> f (xs ! i) = Inr (ys ! i)"
  by (induction xs arbitrary: ys i) (auto simp: and_then_Inr nth_Cons split: nat.splits)

lemma map_result_Inr_map: "map_result (\<lambda>x. Inr (f x)) xs = Inr (map f xs)"
  by (induction xs) auto

lemma map_result_forall2:
  "map_result f xs = Inr ys \<Longrightarrow> list_all2 (\<lambda>x y. f x = Inr y) xs ys"
  by (induction xs arbitrary: ys) (auto simp: and_then_Inr)

section \<open>Decimal digits\<close>

definition is_digit :: "char \<Rightarrow> bool" where
  "is_digit c \<longleftrightarrow> 48 \<le> (of_char c :: nat) \<and> (of_char c :: nat) \<le> 57"

definition digit_char :: "nat \<Rightarrow> char" where
  "digit_char d = char_of (48 + d)"

definition char_digit :: "char \<Rightarrow> nat" where
  "char_digit c = of_char c - 48"

text \<open>\<open>String(n)\<close> and \<open>n.toString()\<close> of a non-negative integer, then of any \<open>bigint\<close>.\<close>

fun nat_to_string :: "nat \<Rightarrow> string" where
  "nat_to_string n =
     (if n < 10 then [digit_char n] else nat_to_string (n div 10) @ [digit_char (n mod 10)])"

declare nat_to_string.simps [simp del]

definition int_to_string :: "int \<Rightarrow> string" where
  "int_to_string i = (if i < 0 then CHR ''-'' # nat_to_string (nat (- i)) else nat_to_string (nat i))"

text \<open>The value of a string of digits, most significant first; the empty string is zero.\<close>

definition digits_value :: "string \<Rightarrow> nat" where
  "digits_value s = foldl (\<lambda>n c. 10 * n + char_digit c) 0 s"

lemma of_char_digit_char [simp]: "d < 10 \<Longrightarrow> of_char (digit_char d) = (48 + d :: nat)"
  by (simp add: digit_char_def)

lemma is_digit_digit_char [simp]: "d < 10 \<Longrightarrow> is_digit (digit_char d)"
  by (simp add: is_digit_def)

lemma char_digit_digit_char [simp]: "d < 10 \<Longrightarrow> char_digit (digit_char d) = d"
  by (simp add: char_digit_def)

lemma char_digit_less [simp]: "is_digit c \<Longrightarrow> char_digit c < 10"
  unfolding is_digit_def char_digit_def by linarith

lemma digit_char_char_digit [simp]: "is_digit c \<Longrightarrow> digit_char (char_digit c) = c"
  by (simp add: is_digit_def char_digit_def digit_char_def)

lemma digits_value_Nil [simp]: "digits_value [] = 0"
  by (simp add: digits_value_def)

lemma digits_value_snoc [simp]: "digits_value (s @ [c]) = 10 * digits_value s + char_digit c"
  by (simp add: digits_value_def)

lemma digits_value_append:
  "digits_value (s @ t) = digits_value s * 10 ^ length t + digits_value t"
proof (induction t rule: rev_induct)
  case Nil
  then show ?case by simp
next
  case (snoc c t)
  have "digits_value (s @ t @ [c]) = 10 * digits_value (s @ t) + char_digit c"
    using digits_value_snoc [of "s @ t" c] by simp
  with snoc show ?case by (simp add: algebra_simps)
qed

lemma digits_value_Cons:
  "digits_value (c # t) = char_digit c * 10 ^ length t + digits_value t"
  using digits_value_append [of "[c]" t] by (simp add: digits_value_def)

lemma digits_value_bound: "list_all is_digit s \<Longrightarrow> digits_value s < 10 ^ length s"
proof (induction s rule: rev_induct)
  case Nil
  then show ?case by simp
next
  case (snoc c s)
  then have "digits_value s + 1 \<le> 10 ^ length s" and "char_digit c < 10" by simp_all
  then show ?case by simp
qed

lemma digits_value_nat_to_string [simp, js_simps]: "digits_value (nat_to_string n) = n"
proof (induction n rule: nat_to_string.induct)
  case (1 n)
  then show ?case
    by (cases "n < 10") (simp_all add: nat_to_string.simps [of n] digits_value_Cons)
qed

lemma nat_to_string_digits [simp, js_simps]: "list_all is_digit (nat_to_string n)"
proof (induction n rule: nat_to_string.induct)
  case (1 n)
  then show ?case by (cases "n < 10") (simp_all add: nat_to_string.simps [of n])
qed

lemma nat_to_string_nonempty [simp, js_simps]: "nat_to_string n \<noteq> []"
  by (subst nat_to_string.simps) simp

lemma nat_to_string_inject [simp, js_simps]: "nat_to_string m = nat_to_string n \<longleftrightarrow> m = n"
  by (metis digits_value_nat_to_string)

lemma digits_value_zeros [simp]: "digits_value (replicate k CHR ''0'') = 0"
  by (induction k) (simp_all add: digits_value_Cons char_digit_def)

lemma digits_value_pad_right [simp]:
  "digits_value (s @ replicate k CHR ''0'') = digits_value s * 10 ^ k"
  by (simp add: digits_value_append)

lemma digits_value_pad_left [simp]:
  "digits_value (replicate k CHR ''0'' @ s) = digits_value s"
  by (simp add: digits_value_append)

text \<open>Two digit strings of one length with one value are the same string.\<close>

lemma digits_value_eq_iff:
  assumes "list_all is_digit s" "list_all is_digit t" "length s = length t"
  shows "digits_value s = digits_value t \<longleftrightarrow> s = t"
proof
  assume eq: "digits_value s = digits_value t"
  from assms(3,1,2) eq show "s = t"
  proof (induction s t rule: rev_induct2)
    case 1
    then show ?case by simp
  next
    case (4 c s d t)
    then have vals: "10 * digits_value s + char_digit c = 10 * digits_value t + char_digit d"
      and dig: "is_digit c" "is_digit d"
      by simp_all
    moreover have "char_digit c < 10" "char_digit d < 10" using dig by simp_all
    ultimately have same: "digits_value s = digits_value t" by linarith
    then have eqs: "digits_value s = digits_value t" "char_digit c = char_digit d"
      using vals by simp_all
    have "c = d" using dig eqs(2) by (metis digit_char_char_digit)
    then show ?case using 4 eqs(1) by simp
  qed simp_all
qed simp

section \<open>Strings\<close>

definition pad_start :: "nat \<Rightarrow> char \<Rightarrow> string \<Rightarrow> string" where
  "pad_start n c s = replicate (n - length s) c @ s"

definition pad_end :: "nat \<Rightarrow> char \<Rightarrow> string \<Rightarrow> string" where
  "pad_end n c s = s @ replicate (n - length s) c"

lemma digits_replicate_zero [simp, js_simps]: "list_all is_digit (replicate n CHR ''0'')"
  by (induction n) (simp_all add: is_digit_def)

lemma digits_take_drop [simp, js_simps]:
  "list_all is_digit s \<Longrightarrow> list_all is_digit (take n s)"
  "list_all is_digit s \<Longrightarrow> list_all is_digit (drop n s)"
  by (auto simp: list_all_iff dest: in_set_takeD in_set_dropD)

lemma digits_pad_start [simp, js_simps]:
  "list_all is_digit (pad_start n CHR ''0'' s) \<longleftrightarrow> list_all is_digit s"
  by (simp add: pad_start_def)

lemma digits_pad_end [simp, js_simps]:
  "list_all is_digit (pad_end n CHR ''0'' s) \<longleftrightarrow> list_all is_digit s"
  by (simp add: pad_end_def)

lemma digits_value_pad_start [simp, js_simps]:
  "digits_value (pad_start n CHR ''0'' s) = digits_value s"
  by (simp add: pad_start_def)

lemma digits_value_pad_end [simp, js_simps]:
  "digits_value (w @ pad_end n CHR ''0'' s) = digits_value (w @ s) * 10 ^ (n - length s)"
  using digits_value_pad_right [of "w @ s"] by (simp add: pad_end_def)

lemma length_pad_start [simp]: "length (pad_start n c s) = max n (length s)"
  by (simp add: pad_start_def)

lemma length_pad_end [simp]: "length (pad_end n c s) = max n (length s)"
  by (simp add: pad_end_def)

fun starts_with :: "string \<Rightarrow> string \<Rightarrow> bool" where
  "starts_with [] s = True"
| "starts_with (p # ps) [] = False"
| "starts_with (p # ps) (c # s) = (p = c \<and> starts_with ps s)"

lemma digits_not_minus [simp]: "list_all is_digit w \<Longrightarrow> \<not> starts_with ''-'' w"
  by (cases w) (auto simp: is_digit_def)

text \<open>\<open>s.split(c)\<close> for a one-character separator; never the empty list.\<close>

fun split_on :: "char \<Rightarrow> string \<Rightarrow> string list" where
  "split_on c [] = [[]]"
| "split_on c (x # xs) =
     (if x = c then [] # split_on c xs
      else (case split_on c xs of [] \<Rightarrow> [[x]] | y # ys \<Rightarrow> (x # y) # ys))"

text \<open>\<open>const [a = d] = xs\<close>: the item at an index, or the default when the array is too short.\<close>

definition item_or :: "'a list \<Rightarrow> nat \<Rightarrow> 'a \<Rightarrow> 'a" where
  "item_or xs i d = (if i < length xs then xs ! i else d)"

lemma item_or_simps [simp, js_simps]:
  "item_or (x # xs) 0 d = x" "item_or [] i d = d" "item_or (x # xs) (Suc i) d = item_or xs i d"
  by (simp_all add: item_or_def)

lemma item_or_1 [simp, js_simps]: "item_or (x # xs) 1 d = item_or xs 0 d"
  by (simp add: item_or_def)

lemma split_on_ne [simp]: "split_on c s \<noteq> []"
  by (induction s) (auto split: list.splits)

lemma split_on_free [simp]: "c \<notin> set s \<Longrightarrow> split_on c s = [s]"
  by (induction s) auto

lemma split_on_append [simp]: "c \<notin> set a \<Longrightarrow> split_on c (a @ c # b) = a # split_on c b"
  by (induction a) auto

lemma split_on_single_iff: "split_on c s = [w] \<longleftrightarrow> s = w \<and> c \<notin> set w"
proof
  show "split_on c s = [w] \<Longrightarrow> s = w \<and> c \<notin> set w"
  proof (induction s arbitrary: w)
    case Nil
    then show ?case by simp
  next
    case (Cons x xs)
    then have "x \<noteq> c" by auto
    moreover from this Cons.prems obtain y where "split_on c xs = [y]" "w = x # y"
      by (cases "split_on c xs") auto
    ultimately show ?case using Cons.IH [of y] by simp
  qed
qed simp

lemma split_on_pair_iff:
  "split_on c s = [w, f] \<longleftrightarrow> s = w @ c # f \<and> c \<notin> set w \<and> c \<notin> set f"
proof
  show "split_on c s = [w, f] \<Longrightarrow> s = w @ c # f \<and> c \<notin> set w \<and> c \<notin> set f"
  proof (induction s arbitrary: w)
    case Nil
    then show ?case by simp
  next
    case (Cons x xs)
    show ?case
    proof (cases "x = c")
      case True
      with Cons.prems show ?thesis by (simp add: split_on_single_iff)
    next
      case False
      with Cons.prems obtain y where "split_on c xs = [y, f]" "w = x # y"
        by (cases "split_on c xs") auto
      with Cons.IH [of y] False show ?thesis by simp
    qed
  qed
qed simp

text \<open>\<open>xs.join(sep)\<close>.\<close>

fun join_with :: "string \<Rightarrow> string list \<Rightarrow> string" where
  "join_with sep [] = []"
| "join_with sep [x] = x"
| "join_with sep (x # y # xs) = x @ sep @ join_with sep (y # xs)"

text \<open>The pattern \<open>^\d+(\.\d+)?$\<close> of decimals on the wire.\<close>

definition is_decimal :: "string \<Rightarrow> bool" where
  "is_decimal s \<longleftrightarrow>
     (case split_on CHR ''.'' s of
        [w] \<Rightarrow> w \<noteq> [] \<and> list_all is_digit w
      | [w, f] \<Rightarrow> w \<noteq> [] \<and> list_all is_digit w \<and> f \<noteq> [] \<and> list_all is_digit f
      | _ \<Rightarrow> False)"

lemma dot_not_digit [simp]: "\<not> is_digit CHR ''.''" "\<not> is_digit CHR ''-''" "\<not> is_digit CHR ''+''"
  by (simp_all add: is_digit_def)

lemma digits_free [simp]:
  "list_all is_digit w \<Longrightarrow> CHR ''.'' \<notin> set w" "list_all is_digit w \<Longrightarrow> CHR ''-'' \<notin> set w"
  by (auto simp: list_all_iff)

lemma is_decimal_whole [simp]: "w \<noteq> [] \<Longrightarrow> list_all is_digit w \<Longrightarrow> is_decimal w"
  by (simp add: is_decimal_def)

lemma is_decimal_fraction [simp]:
  "w \<noteq> [] \<Longrightarrow> list_all is_digit w \<Longrightarrow> f \<noteq> [] \<Longrightarrow> list_all is_digit f \<Longrightarrow>
   is_decimal (w @ CHR ''.'' # f)"
  by (simp add: is_decimal_def)

lemma is_decimal_cases:
  assumes "is_decimal s"
  obtains (whole) "s \<noteq> []" "list_all is_digit s"
  | (fraction) w f where "s = w @ CHR ''.'' # f" "w \<noteq> []" "list_all is_digit w" "f \<noteq> []"
      "list_all is_digit f"
  using assms unfolding is_decimal_def
  by (auto split: list.splits simp: split_on_single_iff split_on_pair_iff)

text \<open>\<open>BigInt(s)\<close>: \<open>None\<close> is the \<open>SyntaxError\<close> it throws.\<close>

definition is_space :: "char \<Rightarrow> bool" where
  "is_space c \<longleftrightarrow> (of_char c :: nat) \<in> {9, 10, 11, 12, 13, 32, 160}"

definition js_trim :: "string \<Rightarrow> string" where
  "js_trim s = rev (dropWhile is_space (rev (dropWhile is_space s)))"

definition radix_digit :: "char \<Rightarrow> nat" where
  "radix_digit c = (let n = of_char c in
     if 48 \<le> n \<and> n \<le> 57 then n - 48 else if 97 \<le> n \<and> n \<le> 122 then n - 87
     else if 65 \<le> n \<and> n \<le> 90 then n - 55 else 99)"

definition radix_value :: "nat \<Rightarrow> string \<Rightarrow> int option" where
  "radix_value r s =
     (if s \<noteq> [] \<and> list_all (\<lambda>c. radix_digit c < r) s
      then Some (int (foldl (\<lambda>n c. r * n + radix_digit c) 0 s)) else None)"

definition BigInt :: "string \<Rightarrow> int option" where
  "BigInt s = (let t = js_trim s in
     if list_all is_digit t then Some (int (digits_value t))
     else if starts_with ''-'' t then
       (if drop 1 t \<noteq> [] \<and> list_all is_digit (drop 1 t) then Some (- int (digits_value (drop 1 t))) else None)
     else if starts_with ''+'' t then
       (if drop 1 t \<noteq> [] \<and> list_all is_digit (drop 1 t) then Some (int (digits_value (drop 1 t))) else None)
     else if take 2 t \<in> {''0x'', ''0X''} then radix_value 16 (drop 2 t)
     else if take 2 t \<in> {''0o'', ''0O''} then radix_value 8 (drop 2 t)
     else if take 2 t \<in> {''0b'', ''0B''} then radix_value 2 (drop 2 t)
     else None)"

lemma digit_not_space [simp]: "is_digit c \<Longrightarrow> \<not> is_space c"
  by (auto simp: is_digit_def is_space_def)

lemma dropWhile_head_false: "xs = [] \<or> \<not> P (hd xs) \<Longrightarrow> dropWhile P xs = xs"
  by (cases xs) auto

lemma js_trim_digits [simp]: "list_all is_digit s \<Longrightarrow> js_trim s = s"
  by (cases s rule: rev_cases) (auto simp: js_trim_def dropWhile_head_false list_all_iff hd_append)

lemma BigInt_digits [simp, js_simps]: "list_all is_digit s \<Longrightarrow> BigInt s = Some (int (digits_value s))"
  by (simp add: BigInt_def)

text \<open>
  \<open>toUpperCase\<close> and \<open>toLowerCase\<close> on the modelled range. The two letters whose upper case lies outside
  it (the micro sign and y with diaeresis) are left as they are.
\<close>

definition upper_char :: "char \<Rightarrow> string" where
  "upper_char c = (let n = (of_char c :: nat) in
     if n = 223 then ''SS''
     else if (97 \<le> n \<and> n \<le> 122) \<or> (224 \<le> n \<and> n \<le> 254 \<and> n \<noteq> 247) then [char_of (n - 32)] else [c])"

definition toUpperCase :: "string \<Rightarrow> string" where
  "toUpperCase s = concat (map upper_char s)"

definition lower_char :: "char \<Rightarrow> char" where
  "lower_char c = (let n = (of_char c :: nat) in
     if (65 \<le> n \<and> n \<le> 90) \<or> (192 \<le> n \<and> n \<le> 222 \<and> n \<noteq> 215) then char_of (n + 32) else c)"

definition toLowerCase :: "string \<Rightarrow> string" where
  "toLowerCase s = map lower_char s"

text \<open>\<open>JSON.stringify\<close> of a string: quotes, backslashes and control characters are escaped.\<close>

definition hex_char :: "nat \<Rightarrow> char" where
  "hex_char d = (if d < 10 then char_of (48 + d) else char_of (87 + d))"

definition json_char :: "char \<Rightarrow> string" where
  "json_char c = (let n = (of_char c :: nat) in
     if n = 34 then [CHR 0x5C, CHR 0x22]
     else if n = 92 then [CHR 0x5C, CHR 0x5C]
     else if n = 8 then CHR 0x5C # ''b'' else if n = 9 then CHR 0x5C # ''t''
     else if n = 10 then CHR 0x5C # ''n'' else if n = 12 then CHR 0x5C # ''f''
     else if n = 13 then CHR 0x5C # ''r''
     else if n < 32 then CHR 0x5C # ''u00'' @ [hex_char (n div 16), hex_char (n mod 16)]
     else [c])"

definition json_string :: "string \<Rightarrow> string" where
  "json_string s = CHR 0x22 # concat (map json_char s) @ [CHR 0x22]"

section \<open>Stable sorting by a comparator\<close>

text \<open>
  \<open>xs.sort(cmp)\<close>: stable, and for a consistent comparator every stable sort is this one. \<open>cmp_or\<close> is
  the \<open>a || b\<close> that chains two comparisons.
\<close>

fun insert_by :: "('a \<Rightarrow> 'a \<Rightarrow> int) \<Rightarrow> 'a \<Rightarrow> 'a list \<Rightarrow> 'a list" where
  "insert_by cmp x [] = [x]"
| "insert_by cmp x (y # ys) = (if cmp x y \<le> 0 then x # y # ys else y # insert_by cmp x ys)"

fun sort_by :: "('a \<Rightarrow> 'a \<Rightarrow> int) \<Rightarrow> 'a list \<Rightarrow> 'a list" where
  "sort_by cmp [] = []"
| "sort_by cmp (x # xs) = insert_by cmp x (sort_by cmp xs)"

definition cmp_or :: "int \<Rightarrow> int \<Rightarrow> int" where
  "cmp_or a b = (if a \<noteq> 0 then a else b)"

definition int_compare :: "int \<Rightarrow> int \<Rightarrow> int" where
  "int_compare a b = a - b"

lemma mset_insert_by [simp, js_total]: "mset (insert_by cmp x xs) = add_mset x (mset xs)"
  by (induction xs) auto

lemma mset_sort_by [simp, js_total]: "mset (sort_by cmp xs) = mset xs"
  by (induction xs) auto

lemma set_sort_by [simp, js_total]: "set (sort_by cmp xs) = set xs"
  by (metis mset_sort_by set_mset_mset)

lemma length_sort_by [simp, js_total]: "length (sort_by cmp xs) = length xs"
  by (metis mset_sort_by size_mset)

lemma distinct_sort_by [simp]: "distinct (sort_by cmp xs) = distinct xs"
  by (metis mset_sort_by mset_eq_imp_distinct_iff)

lemma sum_list_sort_by [simp, js_total]:
  fixes f :: "'a \<Rightarrow> 'b::comm_monoid_add"
  shows "sum_list (map f (sort_by cmp xs)) = sum_list (map f xs)"
  by (metis mset_map mset_sort_by sum_mset_sum_list)

lemma sort_by_Nil_iff [simp]: "sort_by cmp xs = [] \<longleftrightarrow> xs = []"
  by (metis length_0_conv length_sort_by)

lemma filter_insert_by_reject: "\<not> P x \<Longrightarrow> filter P (insert_by cmp x xs) = filter P xs"
  by (induction xs) auto

text \<open>
  The contract a comparator owes \<open>sort\<close>: antisymmetric in sign and transitive. Under it the result
  is ordered, and where only equal items compare equal it does not depend on the input order.
\<close>

locale comparator =
  fixes cmp :: "'a \<Rightarrow> 'a \<Rightarrow> int"
  assumes cmp_anti: "sgn (cmp x y) = - sgn (cmp y x)"
    and cmp_trans: "cmp x y \<le> 0 \<Longrightarrow> cmp y z \<le> 0 \<Longrightarrow> cmp x z \<le> 0"
begin

lemma cmp_total: "\<not> cmp x y \<le> 0 \<Longrightarrow> cmp y x \<le> 0"
  using cmp_anti [of x y] by (auto simp: sgn_if split: if_splits)

lemma insert_by_sorted:
  "sorted_wrt (\<lambda>a b. cmp a b \<le> 0) xs \<Longrightarrow> sorted_wrt (\<lambda>a b. cmp a b \<le> 0) (insert_by cmp x xs)"
proof (induction xs)
  case Nil
  then show ?case by simp
next
  case (Cons y ys)
  have members: "set (insert_by cmp x ys) = insert x (set ys)"
    by (metis mset_insert_by set_mset_add_mset_insert set_mset_mset)
  show ?case
  proof (cases "cmp x y \<le> 0")
    case True
    with Cons.prems show ?thesis by (auto intro: cmp_trans)
  next
    case False
    with Cons show ?thesis by (auto simp: members intro: cmp_total)
  qed
qed

lemma sort_by_sorted: "sorted_wrt (\<lambda>a b. cmp a b \<le> 0) (sort_by cmp xs)"
  by (induction xs) (simp_all add: insert_by_sorted)

lemma insert_by_least: "(\<And>y. y \<in> set xs \<Longrightarrow> cmp x y \<le> 0) \<Longrightarrow> insert_by cmp x xs = x # xs"
  by (cases xs) auto

lemma sort_by_id: "sorted_wrt (\<lambda>a b. cmp a b \<le> 0) xs \<Longrightarrow> sort_by cmp xs = xs"
  by (induction xs) (auto simp: insert_by_least)

end

locale strict_comparator = comparator +
  assumes cmp_eq: "cmp x y = 0 \<Longrightarrow> x = y"
begin

lemma sorted_unique:
  assumes "sorted_wrt (\<lambda>a b. cmp a b \<le> 0) xs" "sorted_wrt (\<lambda>a b. cmp a b \<le> 0) ys"
    "mset xs = mset ys"
  shows "xs = ys"
  using assms
proof (induction xs arbitrary: ys)
  case Nil
  then show ?case by simp
next
  case (Cons x xs)
  then obtain y ys' where ys: "ys = y # ys'" by (cases ys) auto
  have "cmp x y \<le> 0" "cmp y x \<le> 0"
  proof -
    have "x = y \<or> (y \<in> set xs \<and> x \<in> set ys')"
      using Cons.prems(3) ys by (metis insert_noteq_member list.set_intros(1) mset.simps(2)
          set_ConsD set_mset_mset)
    moreover have "x = y \<Longrightarrow> cmp x y \<le> 0" using cmp_total [of x x] by auto
    ultimately show "cmp x y \<le> 0" "cmp y x \<le> 0" using Cons.prems(1,2) ys cmp_total [of x x] by auto
  qed
  then have "cmp x y = 0" using cmp_anti [of x y] by (auto simp: sgn_if split: if_splits)
  then have "x = y" by (rule cmp_eq)
  then show ?case using Cons ys by simp
qed

lemma sort_by_mset_cong: "mset xs = mset ys \<Longrightarrow> sort_by cmp xs = sort_by cmp ys"
  by (rule sorted_unique) (simp_all add: sort_by_sorted)

end

section \<open>Sets and maps in insertion order\<close>

text \<open>\<open>[...new Set(xs)]\<close>: the first occurrence of each item, in order.\<close>

fun js_set :: "'a list \<Rightarrow> 'a list" where
  "js_set [] = []"
| "js_set (x # xs) = x # filter (\<lambda>y. y \<noteq> x) (js_set xs)"

lemma set_js_set [simp, js_total]: "set (js_set xs) = set xs"
  by (induction xs) auto

lemma distinct_js_set [simp]: "distinct (js_set xs)"
  by (induction xs) auto

lemma js_set_Nil_iff [simp]: "js_set xs = [] \<longleftrightarrow> xs = []"
  by (cases xs) auto

lemma js_set_snoc: "js_set (xs @ [x]) = (if x \<in> set xs then js_set xs else js_set xs @ [x])"
  by (induction xs) (auto simp: filter_id_conv)

lemma js_set_constant: "xs \<noteq> [] \<Longrightarrow> (\<And>x. x \<in> set xs \<Longrightarrow> x = a) \<Longrightarrow> js_set xs = [a]"
proof (induction xs)
  case Nil
  then show ?case by simp
next
  case (Cons x xs)
  then show ?case by (cases "xs = []") auto
qed

lemma length_js_set_1: "length (js_set xs) \<le> 1 \<Longrightarrow> x \<in> set xs \<Longrightarrow> y \<in> set xs \<Longrightarrow> x = y"
proof -
  assume "length (js_set xs) \<le> 1" "x \<in> set xs" "y \<in> set xs"
  then have "\<exists>a. js_set xs = [a]" by (cases "js_set xs") auto
  with \<open>x \<in> set xs\<close> \<open>y \<in> set xs\<close> show "x = y" by (metis empty_iff empty_set list.set_intros(1)
      set_ConsD set_js_set)
qed

text \<open>
  Collecting items into a \<open>Map\<close> of lists under a key, one \<open>get\<close> and one \<open>set\<close> per item; its values are
  the items of each key in order, its keys in order of first appearance.
\<close>

definition group_step :: "('a \<Rightarrow> 'k) \<Rightarrow> ('k \<times> 'a list) list \<Rightarrow> 'a \<Rightarrow> ('k \<times> 'a list) list" where
  "group_step key m x =
     AList.update (key x) ((case map_of m (key x) of None \<Rightarrow> [] | Some l \<Rightarrow> l) @ [x]) m"

definition group_by :: "('a \<Rightarrow> 'k) \<Rightarrow> 'a list \<Rightarrow> ('k \<times> 'a list) list" where
  "group_by key xs = foldl (group_step key) [] xs"

lemma update_map_keys_present:
  "distinct ks \<Longrightarrow> k \<in> set ks \<Longrightarrow>
   AList.update k v (map (\<lambda>j. (j, f j)) ks) = map (\<lambda>j. (j, if j = k then v else f j)) ks"
  by (induction ks) auto

lemma update_map_keys_absent:
  "k \<notin> set ks \<Longrightarrow> AList.update k v (map (\<lambda>j. (j, f j)) ks) = map (\<lambda>j. (j, f j)) ks @ [(k, v)]"
  by (induction ks) auto

lemma map_of_map_keys: "map_of (map (\<lambda>j. (j, f j)) ks) k = (if k \<in> set ks then Some (f k) else None)"
  by (induction ks) auto

lemma group_by_filter:
  "group_by key xs = map (\<lambda>k. (k, filter (\<lambda>x. key x = k) xs)) (js_set (map key xs))"
proof (induction xs rule: rev_induct)
  case Nil
  then show ?case by (simp add: group_by_def)
next
  case (snoc x xs)
  have "group_by key (xs @ [x]) = group_step key (group_by key xs) x"
    by (simp add: group_by_def)
  also have "\<dots> = map (\<lambda>k. (k, filter (\<lambda>y. key y = k) (xs @ [x]))) (js_set (map key (xs @ [x])))"
  proof (cases "key x \<in> set (map key xs)")
    case True
    then show ?thesis
      by (simp add: snoc group_step_def map_of_map_keys js_set_snoc update_map_keys_present)
  next
    case False
    then have "\<forall>y\<in>set xs. key y \<noteq> key x" by (metis imageI set_map)
    then have "filter (\<lambda>y. key y = key x) xs = []" by (simp add: filter_empty_conv)
    with False show ?thesis
      by (auto simp: snoc group_step_def map_of_map_keys js_set_snoc update_map_keys_absent)
  qed
  finally show ?case .
qed

lemma sum_list_one_key:
  fixes g :: "'k \<Rightarrow> 'b::comm_monoid_add"
  assumes "distinct ks" "k0 \<in> set ks"
  shows "(\<Sum>k\<leftarrow>ks. if k0 = k then v + g k else g k) = v + (\<Sum>k\<leftarrow>ks. g k)"
  using assms
proof (induction ks)
  case Nil
  then show ?case by simp
next
  case (Cons k ks)
  show ?case
  proof (cases "k0 = k")
    case True
    with Cons.prems have "(\<Sum>j\<leftarrow>ks. if k = j then v + g j else g j) = (\<Sum>j\<leftarrow>ks. g j)"
      by (intro arg_cong [where f = sum_list] map_cong) auto
    with True show ?thesis by (simp add: ac_simps)
  next
    case False
    with Cons show ?thesis by (simp add: ac_simps)
  qed
qed

lemma sum_filter_partition:
  fixes f :: "'a \<Rightarrow> 'b::comm_monoid_add"
  assumes "distinct ks" "set (map key xs) \<subseteq> set ks"
  shows "(\<Sum>k\<leftarrow>ks. \<Sum>x\<leftarrow>filter (\<lambda>x. key x = k) xs. f x) = (\<Sum>x\<leftarrow>xs. f x)"
  using assms(2)
proof (induction xs)
  case Nil
  then show ?case by (induction ks) auto
next
  case (Cons x xs)
  have "(\<Sum>k\<leftarrow>ks. if key x = k then f x + g k else g k) = f x + (\<Sum>k\<leftarrow>ks. g k)" for g
    using assms(1) Cons.prems by (intro sum_list_one_key) auto
  moreover have "(\<Sum>y\<leftarrow>filter (\<lambda>y. key y = k) (x # xs). f y) =
      (if key x = k then f x + (\<Sum>y\<leftarrow>filter (\<lambda>y. key y = k) xs. f y)
       else (\<Sum>y\<leftarrow>filter (\<lambda>y. key y = k) xs. f y))" for k
    by simp
  ultimately show ?case using Cons by simp
qed

lemma sum_group_by [js_total]:
  fixes f :: "'a \<Rightarrow> 'b::comm_monoid_add"
  shows "(\<Sum>g\<leftarrow>group_by key xs. \<Sum>x\<leftarrow>snd g. f x) = (\<Sum>x\<leftarrow>xs. f x)"
  by (simp add: group_by_filter comp_def sum_filter_partition)

lemma set_group_by: "(k, g) \<in> set (group_by key xs) \<Longrightarrow> g = filter (\<lambda>x. key x = k) xs \<and> g \<noteq> []"
  by (auto simp: group_by_filter filter_empty_conv)

lemma distinct_concat_groups:
  "distinct xs \<Longrightarrow> distinct (concat (map snd (group_by key xs)))"
proof -
  assume xs: "distinct xs"
  have "distinct ks \<Longrightarrow> distinct (concat (map (\<lambda>k. filter (\<lambda>x. key x = k) xs) ks))" for ks
    using xs by (induction ks) auto
  then show ?thesis by (simp add: group_by_filter comp_def)
qed

lemma set_concat_groups: "set (concat (map snd (group_by key xs))) = set xs"
  by (auto simp: group_by_filter)

text \<open>\<open>new Map(entries)\<close>: a later entry with the same key wins.\<close>

definition js_map :: "('k \<times> 'v) list \<Rightarrow> ('k \<times> 'v) list" where
  "js_map entries = foldl (\<lambda>m e. AList.update (fst e) (snd e) m) [] entries"

lemma map_of_js_map [js_simps]: "map_of (js_map entries) = map_of (rev entries)"
  by (induction entries rule: rev_induct) (auto simp: js_map_def AList.update_conv' fun_eq_iff)

lemma set_js_map: "set (js_map entries) \<subseteq> set entries"
proof (induction entries rule: rev_induct)
  case (snoc e entries)
  have "set (AList.update k v m) \<subseteq> insert (k, v) (set m)" for k :: 'a and v :: 'b and m
    by (induction m) auto
  then show ?case using snoc by (fastforce simp: js_map_def)
qed (simp add: js_map_def)

section \<open>Largest remainders\<close>

text \<open>
  Integer division of non-negative numbers, rounding half up: the shape both the currency conversion
  and the invoice pricing use. Handing one unit to each of the first items of a list of distinct
  positions adds exactly as many units as there are.
\<close>

lemma sdiv_nonneg: "0 \<le> a \<Longrightarrow> 0 \<le> b \<Longrightarrow> a sdiv b = a div b" for a b :: int
  by (simp add: signed_divide_int_def sgn_if)

lemma smod_nonneg: "0 \<le> a \<Longrightarrow> 0 \<le> b \<Longrightarrow> a smod b = a mod b" for a b :: int
  by (simp add: signed_modulo_int_def signed_divide_int_def sgn_if minus_div_mult_eq_mod)

lemma sum_list_update_add:
  fixes xs :: "int list"
  shows "i < length xs \<Longrightarrow> sum_list (xs[i := xs ! i + d]) = sum_list xs + d"
  by (induction xs arbitrary: i) (auto split: nat.splits)

lemma sum_floor_bounds:
  fixes s :: int
  assumes "0 < s"
  shows "s * (\<Sum>a\<leftarrow>xs. f a div s) \<le> (\<Sum>a\<leftarrow>xs. f a)"
    and "(\<Sum>a\<leftarrow>xs. f a) \<le> s * (\<Sum>a\<leftarrow>xs. f a div s) + int (length xs) * (s - 1)"
proof -
  have bounds: "s * (x div s) \<le> x" "x \<le> s * (x div s) + (s - 1)" for x
  proof -
    have "x = s * (x div s) + x mod s" "0 \<le> x mod s" "x mod s < s" using assms by simp_all
    then show "s * (x div s) \<le> x" "x \<le> s * (x div s) + (s - 1)" by linarith+
  qed
  show "s * (\<Sum>a\<leftarrow>xs. f a div s) \<le> (\<Sum>a\<leftarrow>xs. f a)"
  proof (induction xs)
    case (Cons a xs)
    with bounds(1) [of "f a"] show ?case by (simp add: distrib_left)
  qed simp
  show "(\<Sum>a\<leftarrow>xs. f a) \<le> s * (\<Sum>a\<leftarrow>xs. f a div s) + int (length xs) * (s - 1)"
  proof (induction xs)
    case (Cons a xs)
    with bounds(2) [of "f a"] show ?case by (simp add: algebra_simps)
  qed simp
qed

lemma round_half_up_bounds:
  fixes s x :: int
  assumes "0 < s"
  shows "2 * s * ((2 * x + s) div (2 * s)) \<le> 2 * x + s"
    and "2 * x + s < 2 * s * ((2 * x + s) div (2 * s)) + 2 * s"
proof -
  have "2 * x + s = 2 * s * ((2 * x + s) div (2 * s)) + (2 * x + s) mod (2 * s)"
    "0 \<le> (2 * x + s) mod (2 * s)" "(2 * x + s) mod (2 * s) < 2 * s"
    using assms by simp_all
  then show "2 * s * ((2 * x + s) div (2 * s)) \<le> 2 * x + s"
    "2 * x + s < 2 * s * ((2 * x + s) div (2 * s)) + 2 * s" by linarith+
qed

text \<open>What is left after every share is rounded down is never negative and at most one unit per share.\<close>

lemma leftover_bounds:
  fixes s :: int and f :: "'a \<Rightarrow> int"
  assumes "0 < s" "0 < length xs"
  defines "tot \<equiv> (2 * (\<Sum>a\<leftarrow>xs. f a) + s) div (2 * s)"
  shows "0 \<le> tot - (\<Sum>a\<leftarrow>xs. f a div s)" "tot - (\<Sum>a\<leftarrow>xs. f a div s) \<le> int (length xs)"
proof -
  let ?F = "\<Sum>a\<leftarrow>xs. f a div s" and ?S = "\<Sum>a\<leftarrow>xs. f a" and ?n = "int (length xs)"
  note r = round_half_up_bounds [OF assms(1), of ?S, folded tot_def]
  note b = sum_floor_bounds [OF assms(1), of f xs]
  have "2 * s * ?F < 2 * s * (tot + 1)" using r(2) b(1) assms(1) by (simp add: algebra_simps)
  then show "0 \<le> tot - ?F" using assms(1) by (simp add: mult_less_cancel_left)
  have "2 * s * tot < 2 * s * (?F + ?n + 1)"
    using r(1) b(2) assms(1,2) by (simp add: algebra_simps)
  then show "tot - ?F \<le> ?n" using assms(1) by (simp add: mult_less_cancel_left)
qed

end
