(* ===== verification/Violations.thy ===== *)
theory Violations
  imports Prelude
begin

text \<open>
  \<^verbatim>\<open>packages/core/src/violation-messages.ts\<close> and \<^verbatim>\<open>errors.ts\<close>: the catalogue of every sentence
  the domain refuses a command with, its rendering, and the violation and error values the other
  components throw. The catalogue is an association list in the order of the source, in four parts.
  Its two characters outside the modelled range (a dash and a quote) are written as UTF-8 bytes.
\<close>

definition em_dash :: string where
  "em_dash = [CHR 0xE2, CHR 0x80, CHR 0x94]"

definition dquote :: string where
  "dquote = [CHR 0x22]"

definition right_quote :: string where
  "right_quote = [CHR 0xE2, CHR 0x80, CHR 0x99]"

definition violation_messages_1 :: "(string \<times> string \<times> string) list" where
  "violation_messages_1 =
    [(''account_blocked'', ''account_blocked'',
       ''Account {accountNumber} ({name}) is blocked for posting.''),
     (''approval_by_script'', ''approval_by_script'',
       ''An approval has to be somebody looking. A script cannot authorise a cost, though a human working through the API with a token can.''),
     (''approval_by_submitter.not_a_script'', ''approval_by_submitter'',
       ''A payment batch has to be approved by a person. A script cannot be the second pair of eyes.''),
     (''approval_by_submitter.not_the_submitter'', ''approval_by_submitter'',
       ''A payment batch has to be approved by somebody other than the person who submitted it.''),
     (''unknown_invitation'', ''unknown_invitation'',
       ''There is no such open invitation.''),
     (''unknown_member.not_a_member'', ''unknown_member'',
       ''That person is not a member of this administration.''),
     (''unknown_member.say_who'', ''unknown_member'',
       ''Say who is being removed.''),
     (''dimension_value_blocked'', ''dimension_value_blocked'',
       ''Dimension value {dimensionType}/{dimensionValue} is blocked.''),
     (''duplicate_dimension_type'', ''duplicate_dimension_type'',
       ''Dimension {dimensionType} is assigned more than once on this line.''),
     (''entry_too_few_lines.entry_least_two'', ''entry_too_few_lines'',
       ''An entry has at least two lines. One line cannot balance.''),
     (''entry_too_few_lines.invoice_line'', ''entry_too_few_lines'',
       ''An invoice needs a line.''),
     (''entry_unbalanced.allocations_exceed_line'', ''entry_unbalanced'',
       ''The allocations come to {allocated}, which is more than the {available} this line accounts for.''),
     (''entry_unbalanced.does_not_balance'', ''entry_unbalanced'',
       ''Entry does not balance in {currency}: debits minus credits is {difference} minor units.''),
     (''entry_unbalanced.file_control_totals'', ''entry_unbalanced'',
       ''The file's own control totals do not match its contents: it declares {declaredLines} lines, {declaredDebit} debit and {declaredCredit} credit; it contains {lineCount}, {totalDebit} and {totalCredit}.''),
     (''entry_unbalanced_functional'', ''entry_unbalanced_functional'',
       ''Entry does not balance in {functionalCurrency}: debits minus credits is {difference} minor units. If this is a realised exchange result, post the remainder to an exchange-difference account.''),
     (''idempotency_key_reused'', ''idempotency_key_reused'',
       ''This idempotency key was used for a different request. Keys are per request, not per client.''),
     (''invalid_currency'', ''invalid_currency'',
       ''Use a three-letter ISO 4217 code.''),
     (''invalid_date.booking_date_calendar'', ''invalid_date'',
       ''Booking date must be a real calendar date, YYYY-MM-DD.''),
     (''invalid_date.date'', ''invalid_date'',
       ''{date} is not a date.''),
     (''invalid_date.date_yyyy_mm'', ''invalid_date'',
       ''A date is yyyy-mm-dd.''),
     (''invalid_date.declaration_year_four'', ''invalid_date'',
       ''A declaration year is four digits.''),
     (''invalid_date.document_date_calendar'', ''invalid_date'',
       ''Document date must be a real calendar date, YYYY-MM-DD.''),
     (''invalid_date.fiscal_year_labelled'', ''invalid_date'',
       ''A fiscal year is labelled by its four-digit start year.''),
     (''invalid_date.fiscal_year_out_of_range'', ''invalid_date'',
       ''A book year must be between {min} and {max}.''),
     (''invalid_date.starting_month'', ''invalid_date'',
       ''The starting month is 1 to 12.''),
     (''invalid_date.validfrom_date'', ''invalid_date'',
       ''validFrom must be a date.'')]"

definition violation_messages_2 :: "(string \<times> string \<times> string) list" where
  "violation_messages_2 =
    [(''invalid_date.validity_window_end'', ''invalid_date'',
       ''A validity window cannot end before it starts.''),
     (''invalid_date.validto_date_null'', ''invalid_date'',
       ''validTo must be a date or null.''),
     (''invalid_document.document_invoice_lines'', ''invalid_document'',
       ''The document has no invoice lines.''),
     (''invalid_document.expected_ubl_invoice'', ''invalid_document'',
       ''Expected a UBL Invoice or CreditNote, found <{name}>.''),
     (''invalid_document.readable_xml'', ''invalid_document'',
       ''This is not readable XML: {error}''),
     (''invalid_email'', ''invalid_email'',
       ''That is not an email address.''),
     (''invalid_exchange_rate.decimal_number'', ''invalid_exchange_rate'',
       dquote @ ''{value}'' @ dquote @ '' is not a decimal number.''),
     (''invalid_exchange_rate.exchange_rate_positive'', ''invalid_exchange_rate'',
       ''An exchange rate is a positive decimal string.''),
     (''invalid_kvk_number'', ''invalid_kvk_number'',
       ''A KvK number is eight digits.''),
     (''invalid_name.administration_name'', ''invalid_name'',
       ''An administration needs a name.''),
     (''invalid_name.filing_legal_name'', ''invalid_name'',
       ''The filing needs the entity'' @ right_quote @ ''s legal name.''),
     (''invalid_name.name_most_characters'', ''invalid_name'',
       ''A name is at most 200 characters.''),
     (''invalid_tax_code.aangifte_base_box'', ''invalid_tax_code'',
       ''The aangifte has no base box for this kind of transaction '' @ em_dash @ '' rubriek 5b reports VAT only. Leave it empty.''),
     (''invalid_tax_code.article_deferment_applies'', ''invalid_tax_code'',
       ''Article 23 deferment applies to imports. Set the scope to import.''),
     (''invalid_tax_code.base_box_named'', ''invalid_tax_code'',
       ''This transaction has a base box on the aangifte, so the code must name it.''),
     (''invalid_tax_code.deductibility_describes_input'', ''invalid_tax_code'',
       ''Deductibility describes input VAT. An output code has none.''),
     (''invalid_tax_code.pro_rata_code'', ''invalid_tax_code'',
       ''A pro rata code needs a recoverable share strictly between 0 and 10000 basis points. Use full or none for the ends.''),
     (''invalid_tax_code.rate_basis_points'', ''invalid_tax_code'',
       ''A rate is 0 to 10000 basis points.''),
     (''invalid_tax_code.rate_needs_rubriek'', ''invalid_tax_code'',
       ''A code with a rate above zero produces VAT, so it needs a rubriek to declare it in.''),
     (''invalid_tax_code.recoverable_share_only'', ''invalid_tax_code'',
       ''A recoverable share only means something on a pro rata code.''),
     (''invalid_tax_code.rubriek_reports_base'', ''invalid_tax_code'',
       ''Rubriek {id} reports no base amount.''),
     (''invalid_tax_code.rubriek_reports_vat'', ''invalid_tax_code'',
       ''Rubriek {id} reports no VAT amount.''),
     (''invalid_tax_code.scope_declares_base'', ''invalid_tax_code'',
       ''Scope {scope} declares its base in {allowed}, not {baseRubriek}.''),
     (''invalid_tax_code.self_assesses_vat'', ''invalid_tax_code'',
       ''{taxCode} self-assesses its VAT but names no deduction code, so the voorbelasting side has nowhere to go. Set deductionCode on it.''),
     (''invalid_tax_code.supply_kind_named'', ''invalid_tax_code'',
       ''The ICP opgaaf reports goods and services separately, so an intra-community supply must say which it is.''),
     (''invalid_tax_code.tax_code_code'', ''invalid_tax_code'',
       ''A tax code needs a code.'')]"

definition violation_messages_3 :: "(string \<times> string \<times> string) list" where
  "violation_messages_3 =
    [(''invalid_tax_code.tax_code_rule'', ''invalid_tax_code'',
       ''Tax code {taxCode} has no rule valid on {invoiceDate}. This should have been caught before posting.''),
     (''invalid_tax_code.under_domestic_reverse'', ''invalid_tax_code'',
       ''Under a domestic reverse charge the supplier charges no VAT. The rate on the outgoing code is zero.''),
     (''invalid_tax_code.zero_rate_code'', ''invalid_tax_code'',
       ''A zero-rate code produces no VAT. Leave its VAT rubriek empty.''),
     (''invalid_vat_number.omzetbelastingnummer'', ''invalid_vat_number'',
       ''The aangifte is identified by the omzetbelastingnummer, and {vatNumber} is not one. Fill it in under Instellingen.''),
     (''invalid_vat_number.dutch_vat_number'', ''invalid_vat_number'',
       ''A Dutch VAT number looks like NL123456789B01.''),
     (''last_owner.make_somebody_owner'', ''last_owner'',
       ''This is the last owner. Make somebody else an owner first.''),
     (''last_owner.without_owner'', ''last_owner'',
       ''This is the last owner. An administration cannot be left without one.''),
     (''line_debit_and_credit'', ''line_debit_and_credit'',
       ''A line is either a debit or a credit, never both.''),
     (''line_negative_amount.allocation_point_way'', ''line_negative_amount'',
       ''The allocation to {invoiceNumber} does not point the same way as the payment.''),
     (''line_negative_amount.amounts_unsigned'', ''line_negative_amount'',
       ''Amounts are unsigned. A negative debit is a credit, and must be posted as one.''),
     (''line_negative_amount.charges_negative'', ''line_negative_amount'',
       ''Charges cannot be negative.''),
     (''line_no_amount.bank_line_amount'', ''line_no_amount'',
       ''A bank line with no amount cannot be matched.''),
     (''line_no_amount.bank_line_zero'', ''line_no_amount'',
       ''A bank line of zero posts nothing.''),
     (''line_no_amount.invoice_totalling_zero'', ''line_no_amount'',
       ''An invoice totalling zero posts nothing.''),
     (''line_no_amount.line_amount_posts'', ''line_no_amount'',
       ''A line with no amount posts nothing.''),
     (''missing_exchange_rate'', ''missing_exchange_rate'',
       ''A {currency} line needs a rate to {functionalCurrency}, and a source for it.''),
     (''missing_required_dimension'', ''missing_required_dimension'',
       ''Account {accountNumber} requires a {dimensionType} dimension.''),
     (''no_period_for_date'', ''no_period_for_date'',
       ''No fiscal period contains {bookingDate}. Create the fiscal year first.''),
     (''period_already_filed'', ''period_already_filed'',
       ''This period has been declared and the figures have not changed. There is nothing to correct, so there is no suppletie to file.''),
     (''period_hard_closed'', ''period_hard_closed'',
       ''Period {fiscalYear}-{period} is closed. Post to an open period.''),
     (''period_soft_closed'', ''period_soft_closed'',
       ''Period {fiscalYear}-{period} is provisionally closed. Only the owner or accountant can post here.''),
     (''reversal_target_already_reversed'', ''reversal_target_already_reversed'',
       ''Entry {reversesEntryId} was already reversed by {reversedBy}.''),
     (''reversal_target_not_found'', ''reversal_target_not_found'',
       ''No entry {reversesEntryId} to reverse.''),
     (''unexpected_exchange_rate'', ''unexpected_exchange_rate'',
       ''A line already in the functional currency ({functionalCurrency}) must not carry a rate.''),
     (''unknown_account.account'', ''unknown_account'',
       ''No account {accountNumber}.''),
     (''unknown_account.account_appropriate_result'', ''unknown_account'',
       ''No account {accountNumber} to appropriate the result to.'')]"

definition violation_messages_4 :: "(string \<times> string \<times> string) list" where
  "violation_messages_4 =
    [(''unknown_account.account_year_s'', ''unknown_account'',
       ''Account {accountNumber} is {accountType}. The year's result is appropriated to equity.''),
     (''unknown_account.accounted_say_account'', ''unknown_account'',
       ''{remainder} is not accounted for. Say which account it belongs to.''),
     (''unknown_account.charges_account_post'', ''unknown_account'',
       ''Charges need an account to post to.''),
     (''unknown_account.tax_code'', ''unknown_account'',
       ''No tax code {taxCode}.''),
     (''unknown_account.tax_code_no_account'', ''unknown_account'',
       ''Tax code {taxCode} has no ledger account. Set one before booking with it.''),
     (''unknown_account.deduction_code_no_account'', ''unknown_account'',
       ''Tax code {deductionCode} has no ledger account. Set one before booking with it.''),
     (''unknown_account.tax_code_no_account_invoicing'', ''unknown_account'',
       ''Tax code {taxCode} has no ledger account. Set one before invoicing with it.''),
     (''unknown_dimension_type'', ''unknown_dimension_type'',
       ''No dimension type {dimensionType}.''),
     (''unknown_dimension_value'', ''unknown_dimension_value'',
       ''No value {dimensionValue} for dimension {dimensionType}.''),
     (''unknown_entity'', ''unknown_entity'',
       ''No entity {entityId}.''),
     (''unknown_entry'', ''unknown_entry'',
       ''The entry recorded for this idempotency key no longer exists.''),
     (''unknown_journal'', ''unknown_journal'',
       ''No journal {journalCode}.''),
     (''unknown_role'', ''unknown_role'',
       ''Role must be owner, bookkeeper, accountant or auditor.''),
     (''unknown_rubriek.rubriek_btw_aangifte'', ''unknown_rubriek'',
       ''{id} is not a rubriek on the BTW-aangifte.''),
     (''unknown_rubriek.rubriek_computed_subtotal'', ''unknown_rubriek'',
       ''Rubriek {id} is a computed subtotal. A tax code cannot write to it.''),
     (''unknown_tax_code'', ''unknown_tax_code'',
       ''This file uses {count} tax code(s) this administration does not have: {codesWithNames}. Create them, mapped to their rubrieken, and try again '' @ em_dash @ '' importing without them would post a year that declares no VAT.''),
     (''unknown_taxonomy.mapping_maps_btw'', ''unknown_taxonomy'',
       ''Mapping {version} maps {report}, not the BTW-aangifte.''),
     (''unknown_taxonomy.rubriek_base_mapping'', ''unknown_taxonomy'',
       ''Rubriek {id} has a base of {baseMinorUnits} and mapping {version} has no element for it.''),
     (''unknown_taxonomy.rubriek_vat_mapping'', ''unknown_taxonomy'',
       ''Rubriek {id} has VAT of {vatMinorUnits} and mapping {version} has no element for it.''),
     (''unknown_taxonomy.taxonomy_mapping_covers'', ''unknown_taxonomy'',
       ''No {report} taxonomy mapping covers {periodFrom}..{periodTo}. Loaded: {loaded}. A taxonomy is a data release '' @ em_dash @ '' see docs/compliance-calendar.md.''),
     (''unknown_taxonomy.taxonomy_mappings_claim'', ''unknown_taxonomy'',
       ''{count} taxonomy mappings claim {periodFrom}..{periodTo}: {versions}. Fix their validity windows.''),
     (''unknown_vat_period'', ''unknown_vat_period'',
       ''{code} is not a declaration period. Use 2026, 2026-Q1 or 2026-03.''),
     (''vat_out_of_balance.accepting_warning_reason'', ''vat_out_of_balance'',
       ''Accepting a warning needs a reason. It becomes part of the evidence for this period.''),
     (''vat_out_of_balance.return_warning_s'', ''vat_out_of_balance'',
       ''This return has {count} warning(s). Read them and accept them explicitly, with a reason, or fix them.''),
     (''wrong_batch_state'', ''wrong_batch_state'',
       ''A {current} batch cannot be {actionPast}.''),
     (''wrong_invoice_state'', ''wrong_invoice_state'',
       ''An invoice that is {current} cannot be {actionPast}. That is allowed from: {allowedFrom}.'')]"

definition VIOLATION_MESSAGES :: "(string \<times> string \<times> string) list" where
  "VIOLATION_MESSAGES =
     violation_messages_1 @ violation_messages_2 @ violation_messages_3 @ violation_messages_4"

section \<open>Rendering\<close>

text \<open>
  \<open>renderViolationMessage\<close> replaces every \<open>{name}\<close> of the text that the detail has an own property
  for, in one pass from the left, and leaves the others visible. \<open>placeholder\<close> reads the name and
  the closing brace after an opening one: the pattern \<open>\{([A-Za-z_][A-Za-z0-9_]*)\}\<close>.
\<close>

type_synonym violation_detail = "(string \<times> string) list"

definition is_name_start :: "char \<Rightarrow> bool" where
  "is_name_start c \<longleftrightarrow> (let n = (of_char c :: nat) in
     (65 \<le> n \<and> n \<le> 90) \<or> (97 \<le> n \<and> n \<le> 122) \<or> n = 95)"

definition is_name_char :: "char \<Rightarrow> bool" where
  "is_name_char c \<longleftrightarrow> is_name_start c \<or> is_digit c"

definition placeholder :: "string \<Rightarrow> string option" where
  "placeholder s =
     (let name = takeWhile is_name_char s; rest = dropWhile is_name_char s
      in if name \<noteq> [] \<and> is_name_start (hd name) \<and> rest \<noteq> [] \<and> hd rest = CHR 0x7D
         then Some name else None)"

function render_message :: "string \<Rightarrow> violation_detail \<Rightarrow> string" where
  "render_message [] d = []"
| "render_message (c # s) d =
     (case if c = CHR 0x7B then placeholder s else None of
        None \<Rightarrow> c # render_message s d
      | Some name \<Rightarrow>
          (case map_of d name of Some v \<Rightarrow> v | None \<Rightarrow> c # name @ [CHR 0x7D])
          @ render_message (drop (Suc (length name)) s) d)"
  by pat_completeness auto
termination
  by (relation "measure (\<lambda>(s, d). length s)") auto

definition renderViolationMessage :: "string \<Rightarrow> violation_detail option \<Rightarrow> string" where
  "renderViolationMessage text detail =
     (case detail of None \<Rightarrow> text | Some d \<Rightarrow> render_message text d)"

section \<open>Violations and thrown errors\<close>

record ledger_violation =
  lv_code :: string
  lv_path :: "string option"
  lv_message :: string
  lv_messageKey :: "string option"
  lv_detail :: "violation_detail option"

text \<open>
  The key of \<open>violation\<close> is a \<open>keyof typeof VIOLATION_MESSAGES\<close>, so the lookup cannot miss; the model
  answers an unknown key with an empty code and text.
\<close>

definition violation :: "string \<Rightarrow> string option \<Rightarrow> violation_detail option \<Rightarrow> ledger_violation" where
  "violation key path detail =
     (let (code, text) = (case map_of VIOLATION_MESSAGES key of Some e \<Rightarrow> e | None \<Rightarrow> ([], []))
      in \<lparr>lv_code = code, lv_path = path, lv_message = renderViolationMessage text detail,
          lv_messageKey = Some key, lv_detail = detail\<rparr>)"

definition forwarded ::
  "string \<Rightarrow> string option \<Rightarrow> string \<Rightarrow> string option \<Rightarrow> violation_detail option \<Rightarrow> ledger_violation" where
  "forwarded code path message messageKey detail =
     \<lparr>lv_code = code, lv_path = path, lv_message = message, lv_messageKey = messageKey,
      lv_detail = detail\<rparr>"

text \<open>
  What a function of the domain can throw: its own two error classes, and the \<open>SyntaxError\<close> of
  \<open>BigInt\<close> and the \<open>RangeError\<close> of the date functions. \<open>GenericError\<close> is a plain \<open>Error\<close>.
\<close>

datatype thrown =
    LedgerError "ledger_violation list"
  | MoneyFormatError string
  | SyntaxError
  | RangeError
  | GenericError string

text \<open>The getter \<open>LedgerError.code\<close>: the code of the first violation, or null.\<close>

definition ledger_error_code :: "ledger_violation list \<Rightarrow> string option" where
  "ledger_error_code vs = (case vs of [] \<Rightarrow> None | v # _ \<Rightarrow> Some (lv_code v))"

abbreviation throw :: "string \<Rightarrow> string option \<Rightarrow> violation_detail option \<Rightarrow> thrown + 'a" where
  "throw key path detail \<equiv> Inl (LedgerError [violation key path detail])"

lemma violation_key [simp]: "lv_messageKey (violation key path detail) = Some key"
  by (simp add: violation_def split: option.splits prod.splits)

lemma violation_path [simp]: "lv_path (violation key path detail) = path"
  by (simp add: violation_def split: option.splits prod.splits)

lemma violation_detail [simp]: "lv_detail (violation key path detail) = detail"
  by (simp add: violation_def split: option.splits prod.splits)

lemma violation_inject [simp]:
  "violation k p d = violation k' p' d' \<longleftrightarrow> k = k' \<and> p = p' \<and> d = d'"
  by (metis option.inject violation_detail violation_key violation_path)

end
