(* ===== verification/Money.thy ===== *)
theory Money
  imports Violations
begin

text \<open>
  \<^verbatim>\<open>packages/core/src/money.ts\<close>: amounts as integer minor units with a currency, and the one wire
  format, a decimal string. \<open>toWire\<close> places the decimal point, \<open>fromWire\<close> reads it back and refuses
  what cannot be represented exactly.
\<close>

record money =
  minorUnits :: int
  currency :: string

record money_wire =
  amount :: string
  wire_currency :: string

definition EXPONENTS :: "(string \<times> nat) list" where
  "EXPONENTS = [(''JPY'', 0), (''KRW'', 0), (''ISK'', 0), (''BHD'', 3), (''KWD'', 3), (''TND'', 3)]"

definition minorUnitExponent :: "string \<Rightarrow> nat" where
  "minorUnitExponent c =
     (case map_of EXPONENTS (toUpperCase c) of Some e \<Rightarrow> e | None \<Rightarrow> 2)"

definition toWire :: "money \<Rightarrow> money_wire" where
  "toWire value =
     (let exponent = minorUnitExponent (currency value);
          negative = minorUnits value < 0;
          digits = int_to_string (if negative then - minorUnits value else minorUnits value);
          amt = (if exponent = 0 then digits
                 else (let padded = pad_start (exponent + 1) CHR ''0'' digits;
                           cut = length padded - exponent
                       in take cut padded @ CHR ''.'' # drop cut padded))
      in \<lparr>amount = (if negative then CHR ''-'' # amt else amt), wire_currency = currency value\<rparr>)"

text \<open>The pattern \<open>^-?\d+(\.\d+)?$\<close>.\<close>

definition is_signed_decimal :: "string \<Rightarrow> bool" where
  "is_signed_decimal s \<longleftrightarrow> is_decimal (if starts_with ''-'' s then drop 1 s else s)"

definition fromWire :: "money_wire \<Rightarrow> thrown + money" where
  "fromWire wire =
     (let amt = amount wire; cur = wire_currency wire in
      if \<not> is_signed_decimal amt
      then Inl (MoneyFormatError (''Not a decimal amount: '' @ json_string amt))
      else
        let negative = starts_with ''-'' amt;
            unsigned = (if negative then drop 1 amt else amt);
            parts = split_on CHR ''.'' unsigned;
            whole = item_or parts 0 [];
            fraction = item_or parts 1 [];
            exponent = minorUnitExponent cur
        in if length fraction > exponent then Inl (MoneyFormatError (amt @ '' has more precision than '' @ cur @ '' allows (''
                  @ nat_to_string exponent @ '' minor digits).''))
           else (case BigInt (whole @ pad_end exponent CHR ''0'' fraction) of
                   None \<Rightarrow> Inl SyntaxError
                 | Some m \<Rightarrow> Inr \<lparr>minorUnits = (if negative then - m else m), currency = cur\<rparr>))"

section \<open>Reading and writing are inverse\<close>

text \<open>
  A wire amount is an optional sign, whole digits and, unless it is empty, a fraction after a point.
  Both directions are stated over that shape.
\<close>

definition decimal_string :: "string \<Rightarrow> string \<Rightarrow> string" where
  "decimal_string w f = (if f = [] then w else w @ CHR ''.'' # f)"

definition signed_string :: "bool \<Rightarrow> string \<Rightarrow> string" where
  "signed_string neg s = (if neg then CHR ''-'' # s else s)"

lemma decimal_not_minus [simp]:
  "list_all is_digit w \<Longrightarrow> w \<noteq> [] \<Longrightarrow> \<not> starts_with ''-'' (decimal_string w f)"
  by (cases w) (auto simp: decimal_string_def is_digit_def)

lemma decimal_string_parts [simp]:
  assumes "list_all is_digit w" "list_all is_digit f"
  shows "item_or (split_on CHR ''.'' (decimal_string w f)) 0 d = w"
    and "item_or (split_on CHR ''.'' (decimal_string w f)) (Suc 0) [] = f"
  using assms by (simp_all add: decimal_string_def)

lemma is_decimal_decimal_string [simp]:
  "w \<noteq> [] \<Longrightarrow> list_all is_digit w \<Longrightarrow> list_all is_digit f \<Longrightarrow> is_decimal (decimal_string w f)"
  by (simp add: decimal_string_def)

lemma fromWire_decimal:
  assumes "w \<noteq> []" "list_all is_digit w" "list_all is_digit f"
    "length f \<le> minorUnitExponent c"
  shows "fromWire \<lparr>amount = signed_string neg (decimal_string w f), wire_currency = c\<rparr> =
    Inr \<lparr>minorUnits = (if neg then - 1 else 1) *
           int (digits_value (w @ f) * 10 ^ (minorUnitExponent c - length f)), currency = c\<rparr>"
  using assms by (cases neg) (simp_all add: fromWire_def is_signed_decimal_def signed_string_def Let_def)

lemma toWire_decimal:
  assumes "e = minorUnitExponent (currency v)"
    and "p = pad_start (e + 1) CHR ''0'' (nat_to_string (nat \<bar>minorUnits v\<bar>))"
  shows "toWire v = \<lparr>amount = signed_string (minorUnits v < 0)
           (decimal_string (take (length p - e) p) (drop (length p - e) p)),
         wire_currency = currency v\<rparr>"
proof -
  have digits: "int_to_string (if minorUnits v < 0 then - minorUnits v else minorUnits v) =
      nat_to_string (nat \<bar>minorUnits v\<bar>)"
    by (simp add: int_to_string_def abs_if)
  have none: "decimal_string (take (length p - e) p) (drop (length p - e) p) =
      nat_to_string (nat \<bar>minorUnits v\<bar>)" if "e = 0"
    using nat_to_string_nonempty [of "nat \<bar>minorUnits v\<bar>"] that assms(2)
    by (cases "nat_to_string (nat \<bar>minorUnits v\<bar>)") (simp_all add: pad_start_def decimal_string_def)
  have some: "decimal_string (take (length p - e) p) (drop (length p - e) p) =
      take (length p - e) p @ CHR ''.'' # drop (length p - e) p" if "e \<noteq> 0"
  proof -
    have "length (drop (length p - e) p) = e" using assms(2) by simp
    with that show ?thesis by (auto simp: decimal_string_def)
  qed
  show ?thesis
    unfolding toWire_def Let_def digits assms(1) [symmetric] assms(2) [symmetric] signed_string_def
    using none some by simp
qed

text \<open>C26: every amount survives the wire: reading what was written gives the same money back.\<close>

theorem wire_roundtrip: "fromWire (toWire v) = Inr v"
proof -
  define e where "e = minorUnitExponent (currency v)"
  define p where "p = pad_start (e + 1) CHR ''0'' (nat_to_string (nat \<bar>minorUnits v\<bar>))"
  have digits: "list_all is_digit p"
    by (simp add: p_def)
  have len: "e < length p" by (simp add: p_def)
  then have nonempty: "take (length p - e) p \<noteq> []" by auto
  have val: "digits_value p = nat \<bar>minorUnits v\<bar>" by (simp add: p_def)
  have "fromWire (toWire v) = Inr \<lparr>minorUnits = (if minorUnits v < 0 then - 1 else 1) *
           int (digits_value p), currency = currency v\<rparr>"
    using fromWire_decimal [OF nonempty, of "drop (length p - e) p" "currency v" "minorUnits v < 0"]
      digits len by (simp add: toWire_decimal [OF e_def p_def] flip: e_def)
  then show ?thesis by (simp add: val)
qed

text \<open>
  The amounts \<open>fromWire\<close> accepts, and their value: \<open>decimal_shape\<close> says a wire amount is this sign,
  these whole digits and this fraction.
\<close>

definition decimal_shape :: "string \<Rightarrow> bool \<Rightarrow> string \<Rightarrow> string \<Rightarrow> bool" where
  "decimal_shape s neg w f \<longleftrightarrow> s = signed_string neg (decimal_string w f) \<and> w \<noteq> [] \<and>
     list_all is_digit w \<and> list_all is_digit f"

lemma is_decimal_shape: "is_decimal s \<Longrightarrow> \<exists>w f. decimal_shape s False w f"
  by (erule is_decimal_cases)
    (auto simp: decimal_shape_def signed_string_def decimal_string_def intro: exI [of _ "[]"])

lemma is_signed_decimal_shape: "is_signed_decimal s \<longleftrightarrow> (\<exists>neg w f. decimal_shape s neg w f)"
proof
  assume s: "is_signed_decimal s"
  show "\<exists>neg w f. decimal_shape s neg w f"
  proof (cases "starts_with ''-'' s")
    case True
    then obtain t where "s = CHR ''-'' # t" by (cases s) auto
    with s is_decimal_shape [of t] show ?thesis
      by (auto simp: is_signed_decimal_def decimal_shape_def signed_string_def)
  next
    case False
    with s is_decimal_shape [of s] show ?thesis by (auto simp: is_signed_decimal_def)
  qed
qed (auto simp: is_signed_decimal_def decimal_shape_def signed_string_def)

lemma fromWire_shape:
  assumes "decimal_shape (amount w) neg wh f"
  shows "fromWire w = (if length f \<le> minorUnitExponent (wire_currency w)
    then Inr \<lparr>minorUnits = (if neg then - 1 else 1) * int (digits_value (wh @ f)
           * 10 ^ (minorUnitExponent (wire_currency w) - length f)), currency = wire_currency w\<rparr>
    else Inl (MoneyFormatError (amount w @ '' has more precision than '' @ wire_currency w
           @ '' allows ('' @ nat_to_string (minorUnitExponent (wire_currency w)) @ '' minor digits).'')))"
proof (cases "length f \<le> minorUnitExponent (wire_currency w)")
  case True
  with assms fromWire_decimal [of wh f "wire_currency w" neg] show ?thesis
    by (cases w) (simp add: decimal_shape_def)
next
  case False
  with assms show ?thesis
    by (cases neg)
      (simp_all add: fromWire_def decimal_shape_def is_signed_decimal_def signed_string_def Let_def)
qed


end
