(* ===== verification/Ledger_Types.thy ===== *)
theory Ledger_Types
  imports Violations
begin

text \<open>
  \<^verbatim>\<open>packages/core/src/ledger/types.ts\<close> and the records of \<^verbatim>\<open>ledger/ports.ts\<close>: the vocabulary of the
  ledger. A \<open>| null\<close> field is an \<open>option\<close>, a string union a datatype whose spelling on the wire and in
  the hash is its \<open>_text\<close> function. Field names carry a prefix per record: \<open>li_\<close> a line of a command,
  \<open>cmd_\<close> the command, \<open>pl_\<close> a posted line, \<open>pe_\<close> a posted entry.
\<close>

datatype account_type = Asset | Liability | Equity | Revenue | Expense

datatype normal_balance = DebitNormal | CreditNormal

datatype journal_type = Memoriaal | Verkoop | Inkoop | Bank | Kas

datatype period_status = OpenPeriod | SoftClosed | HardClosed

datatype subledger_kind = Customer | Supplier | AssetLedger | Project

datatype actor_kind = Human | Script | Agent

datatype tax_role = Base | Tax

fun subledger_kind_text :: "subledger_kind \<Rightarrow> string" where
  "subledger_kind_text Customer = ''customer''"
| "subledger_kind_text Supplier = ''supplier''"
| "subledger_kind_text AssetLedger = ''asset''"
| "subledger_kind_text Project = ''project''"

fun actor_kind_text :: "actor_kind \<Rightarrow> string" where
  "actor_kind_text Human = ''human''"
| "actor_kind_text Script = ''script''"
| "actor_kind_text Agent = ''agent''"

fun tax_role_text :: "tax_role \<Rightarrow> string" where
  "tax_role_text Base = ''base''"
| "tax_role_text Tax = ''tax''"

fun account_type_text :: "account_type \<Rightarrow> string" where
  "account_type_text Asset = ''asset''"
| "account_type_text Liability = ''liability''"
| "account_type_text Equity = ''equity''"
| "account_type_text Revenue = ''revenue''"
| "account_type_text Expense = ''expense''"

record actor =
  act_kind :: actor_kind
  act_id :: string
  act_principalId :: "string option"

record dimension_assignment =
  da_typeCode :: string
  da_valueCode :: string

record journal_line_input =
  li_accountNumber :: string
  li_description :: "string option"
  li_debit :: int
  li_credit :: int
  li_currency :: "string option"
  li_exchangeRate :: "string option"
  li_exchangeRateSource :: "string option"
  li_taxCode :: "string option"
  li_taxRole :: "tax_role option"
  li_taxAmount :: "int option"
  li_dimensions :: "dimension_assignment list"
  li_subledgerKind :: "subledger_kind option"
  li_subledgerId :: "string option"

record post_command =
  cmd_entityId :: string
  cmd_journalCode :: string
  cmd_bookingDate :: string
  cmd_documentDate :: string
  cmd_description :: string
  cmd_sourceDocumentRef :: "string option"
  cmd_reversesEntryId :: "string option"
  cmd_lines :: "journal_line_input list"

record resolved_dimension =
  rd_typeId :: string
  rd_typeCode :: string
  rd_valueId :: string
  rd_valueCode :: string

record posted_line =
  pl_id :: string
  pl_lineNumber :: nat
  pl_accountId :: string
  pl_accountNumber :: string
  pl_description :: "string option"
  pl_debit :: int
  pl_credit :: int
  pl_currency :: string
  pl_functionalDebit :: int
  pl_functionalCredit :: int
  pl_exchangeRate :: "string option"
  pl_exchangeRateSource :: "string option"
  pl_taxCode :: "string option"
  pl_taxRole :: "tax_role option"
  pl_taxAmount :: "int option"
  pl_dimensions :: "resolved_dimension list"
  pl_subledgerKind :: "subledger_kind option"
  pl_subledgerId :: "string option"

record posted_entry =
  pe_id :: string
  pe_entityId :: string
  pe_journalId :: string
  pe_journalCode :: string
  pe_fiscalYearId :: string
  pe_fiscalYearCode :: string
  pe_periodId :: string
  pe_periodSequence :: nat
  pe_entryNumber :: nat
  pe_chainSequence :: int
  pe_bookingDate :: string
  pe_documentDate :: string
  pe_description :: string
  pe_sourceDocumentRef :: "string option"
  pe_reversesEntryId :: "string option"
  pe_functionalCurrency :: string
  pe_createdAt :: string
  pe_actor :: actor
  pe_previousHash :: "string option"
  pe_hash :: string
  pe_lines :: "posted_line list"

section \<open>The records of the ports\<close>

record entity_record =
  en_id :: string
  en_name :: string
  en_functionalCurrency :: string
  en_rgsVersion :: "string option"

record account_record =
  ac_id :: string
  ac_number :: string
  ac_name :: string
  ac_type :: account_type
  ac_normalBalance :: normal_balance
  ac_rgsCode :: "string option"
  ac_isBlocked :: bool
  ac_requiredDimensionTypeIds :: "string list"

record journal_record =
  jo_id :: string
  jo_code :: string
  jo_name :: string
  jo_type :: journal_type

datatype fiscal_year_status = YearOpen | YearClosed

fun fiscal_year_status_text :: "fiscal_year_status \<Rightarrow> string" where
  "fiscal_year_status_text YearOpen = ''open''"
| "fiscal_year_status_text YearClosed = ''closed''"

record period_record =
  pr_id :: string
  pr_sequence :: nat
  pr_status :: period_status
  pr_startsOn :: string
  pr_endsOn :: string
  pr_fiscalYearId :: string
  pr_fiscalYearCode :: string
  pr_fiscalYearStatus :: fiscal_year_status

record dimension_type_record =
  dt_id :: string
  dt_code :: string
  dt_name :: string

record dimension_value_record =
  dv_id :: string
  dv_typeId :: string
  dv_typeCode :: string
  dv_code :: string
  dv_isBlocked :: bool

record posting_context =
  ctx_entity :: entity_record
  ctx_journal :: "journal_record option"
  ctx_period :: "period_record option"
  ctx_accountsByNumber :: "(string \<times> account_record) list"
  ctx_dimensionTypesByCode :: "(string \<times> dimension_type_record) list"
  ctx_dimensionValuesByKey :: "(string \<times> dimension_value_record) list"

definition dimensionKey :: "string \<Rightarrow> string \<Rightarrow> string" where
  "dimensionKey typeCode valueCode = typeCode @ CHR 0x00 # valueCode"

record chain_position =
  cp_sequence :: int
  cp_previousHash :: "string option"

record idempotency_record =
  ir_key :: string
  ir_operationId :: string
  ir_requestHash :: string
  ir_resultId :: string

text \<open>
  \<open>before\<close> and \<open>after\<close> are \<open>unknown\<close> in the source; the ledger writes null and the pair of the entry's
  hash and chain position.
\<close>

record audit_event =
  au_entityId :: string
  au_actor :: actor
  au_action :: string
  au_resourceType :: string
  au_resourceId :: string
  au_before :: "(string \<times> string) list option"
  au_after :: "(string \<times> string) list option"
  au_requestId :: "string option"
  au_ip :: "string option"

record domain_event =
  ev_entityId :: string
  ev_type :: string
  ev_version :: nat
  ev_payload :: "(string \<times> string) list"

record load_posting_context_request =
  lr_entityId :: string
  lr_journalCode :: string
  lr_bookingDate :: string
  lr_accountNumbers :: "string list"
  lr_dimensionTypeCodes :: "string list"
  lr_dimensionPairs :: "dimension_assignment list"

record allocate_entry_number_request =
  ar_entityId :: string
  ar_documentType :: string
  ar_fiscalYearCode :: string

text \<open>Two values of an optional column, as the hash and the reports compare them.\<close>

lemma actor_kind_text_inject [simp]: "actor_kind_text a = actor_kind_text b \<longleftrightarrow> a = b"
  by (cases a; cases b) auto

lemma tax_role_text_inject [simp]: "tax_role_text a = tax_role_text b \<longleftrightarrow> a = b"
  by (cases a; cases b) auto

lemma subledger_kind_text_inject [simp]: "subledger_kind_text a = subledger_kind_text b \<longleftrightarrow> a = b"
  by (cases a; cases b) auto

end
