(* ===== verification/Ledger_Currency.thy ===== *)
theory Ledger_Currency
  imports Prelude Violations
begin

text \<open>
  \<^verbatim>\<open>packages/core/src/ledger/currency.ts\<close>: a foreign-currency entry into the functional currency. Lines
  of one currency at one rate are converted per side on the total and shared out by largest remainder;
  lines of one currency at several rates are converted line by line and leave a residual. A side is
  addressed by a datatype where the source indexes a line with \<open>'debit'\<close> or \<open>'credit'\<close>.
\<close>

record convertible_line =
  cv_lineNumber :: nat
  cv_currency :: string
  cv_debit :: int
  cv_credit :: int
  cv_exchangeRate :: "string option"

record converted_amounts =
  fa_debit :: int
  fa_credit :: int

datatype side = DebitSide | CreditSide

fun side_amount :: "side \<Rightarrow> convertible_line \<Rightarrow> int" where
  "side_amount DebitSide l = cv_debit l"
| "side_amount CreditSide l = cv_credit l"

fun side_value :: "side \<Rightarrow> converted_amounts \<Rightarrow> int" where
  "side_value DebitSide a = fa_debit a"
| "side_value CreditSide a = fa_credit a"

fun set_side :: "side \<Rightarrow> int \<Rightarrow> converted_amounts \<Rightarrow> converted_amounts" where
  "set_side DebitSide v a = a\<lparr>fa_debit := v\<rparr>"
| "set_side CreditSide v a = a\<lparr>fa_credit := v\<rparr>"

section \<open>Rates\<close>

text \<open>The numerator and the power of ten under it.\<close>

definition parseRate :: "string \<Rightarrow> thrown + int \<times> int" where
  "parseRate rate =
     (let parts = split_on CHR ''.'' rate;
          whole = item_or parts 0 ''0''; fraction = item_or parts 1 []
      in (case BigInt (whole @ fraction) of
            None \<Rightarrow> Inl SyntaxError
          | Some scaled \<Rightarrow> Inr (scaled, 10 ^ length fraction)))"

definition multiplyByRate :: "int \<Rightarrow> string \<Rightarrow> thrown + int" where
  "multiplyByRate amount rate =
     and_then (parseRate rate) (\<lambda>(scaled, scale).
       let product = amount * scaled;
           negative = product < 0;
           magnitude = (if negative then - product else product);
           rounded = (magnitude * 2 + scale) sdiv (scale * 2)
       in Inr (if negative then - rounded else rounded))"

section \<open>Distribution by largest remainder\<close>

definition remainder_compare :: "nat \<times> int \<Rightarrow> nat \<times> int \<Rightarrow> int" where
  "remainder_compare a b =
     (if snd a = snd b then int (fst a) - int (fst b) else if snd a > snd b then - 1 else 1)"

text \<open>The loop over the sorted remainders, which stops when nothing is left over.\<close>

fun hand_out :: "(nat \<times> int) list \<Rightarrow> int \<Rightarrow> int list \<Rightarrow> int list" where
  "hand_out [] leftover floors = floors"
| "hand_out (entry # entries) leftover floors =
     (if leftover \<le> 0 then floors
      else hand_out entries (leftover - 1) (floors[fst entry := floors ! fst entry + 1]))"

definition distribute :: "int list \<Rightarrow> int \<Rightarrow> string \<Rightarrow> thrown + int list" where
  "distribute amounts tot rate =
     and_then (parseRate rate) (\<lambda>(scaled, scale).
       let floors = map (\<lambda>amount. (amount * scaled) sdiv scale) amounts;
           remainders = map (\<lambda>(index, amount). (index, (amount * scaled) smod scale))
                          (enumerate 0 amounts);
           allocated = sum_list floors
       in Inr (hand_out (sort_by remainder_compare remainders) (tot - allocated) floors))"

section \<open>Conversion\<close>

definition initial_amounts :: "convertible_line list \<Rightarrow> converted_amounts list" where
  "initial_amounts ls =
     map (\<lambda>l. \<lparr>fa_debit = (if cv_exchangeRate l = None then cv_debit l else 0),
                fa_credit = (if cv_exchangeRate l = None then cv_credit l else 0)\<rparr>) ls"

definition foreign_groups :: "convertible_line list \<Rightarrow> (string \<times> nat list) list" where
  "foreign_groups ls =
     group_by (\<lambda>i. cv_currency (ls ! i))
       (filter (\<lambda>i. cv_exchangeRate (ls ! i) \<noteq> None) [0..<length ls])"

fun assign_side ::
  "side \<Rightarrow> nat list \<Rightarrow> int list \<Rightarrow> converted_amounts list \<Rightarrow> converted_amounts list" where
  "assign_side s (i # is) (v # vs) amounts =
     assign_side s is vs (amounts[i := set_side s v (amounts ! i)])"
| "assign_side s is vs amounts = amounts"

definition convert_side ::
  "convertible_line list \<Rightarrow> string \<Rightarrow> nat list \<Rightarrow> side \<Rightarrow> converted_amounts list
   \<Rightarrow> thrown + converted_amounts list" where
  "convert_side ls rate indices s amounts =
     (let sideIndices = filter (\<lambda>i. side_amount s (ls ! i) > 0) indices in
      if sideIndices = [] then Inr amounts
      else let sideAmounts = map (\<lambda>i. side_amount s (ls ! i)) sideIndices in
        and_then (multiplyByRate (sum_list sideAmounts) rate) (\<lambda>tot.
        and_then (distribute sideAmounts tot rate) (\<lambda>allocated.
          Inr (assign_side s sideIndices allocated amounts))))"

fun convert_each ::
  "convertible_line list \<Rightarrow> nat list \<Rightarrow> converted_amounts list \<Rightarrow> thrown + converted_amounts list" where
  "convert_each ls [] amounts = Inr amounts"
| "convert_each ls (i # is) amounts =
     (case cv_exchangeRate (ls ! i) of
        None \<Rightarrow> Inl (GenericError ''rate is null'')
      | Some rate \<Rightarrow>
          and_then (multiplyByRate (cv_debit (ls ! i)) rate) (\<lambda>d.
          and_then (multiplyByRate (cv_credit (ls ! i)) rate) (\<lambda>c.
            convert_each ls is (amounts[i := \<lparr>fa_debit = d, fa_credit = c\<rparr>]))))"

definition convert_group ::
  "convertible_line list \<Rightarrow> nat list \<Rightarrow> converted_amounts list \<Rightarrow> thrown + converted_amounts list" where
  "convert_group ls indices amounts =
     (let rates = js_set (map (\<lambda>i. cv_exchangeRate (ls ! i)) indices) in
      if length rates > 1 then convert_each ls indices amounts
      else (case rates of
          Some rate # _ \<Rightarrow>
            and_then (convert_side ls rate indices DebitSide amounts)
              (convert_side ls rate indices CreditSide)
        | _ \<Rightarrow> Inl (GenericError ''rate is null'')))"

fun convert_groups ::
  "convertible_line list \<Rightarrow> (string \<times> nat list) list \<Rightarrow> converted_amounts list
   \<Rightarrow> thrown + converted_amounts list" where
  "convert_groups ls [] amounts = Inr amounts"
| "convert_groups ls (g # gs) amounts =
     and_then (convert_group ls (snd g) amounts) (convert_groups ls gs)"

definition convertToFunctional ::
  "convertible_line list \<Rightarrow> thrown + converted_amounts list \<times> int" where
  "convertToFunctional ls =
     and_then (convert_groups ls (foreign_groups ls) (initial_amounts ls)) (\<lambda>amounts.
       Inr (amounts, sum_list (map (\<lambda>a. fa_debit a - fa_credit a) amounts)))"

section \<open>The comparison of remainders is a strict order\<close>

interpretation remainders: strict_comparator remainder_compare
  by unfold_locales (auto simp: remainder_compare_def sgn_if prod_eq_iff split: if_splits)

section \<open>Arithmetic of one rate\<close>

text \<open>A valid rate as a pair of integers: the digits and the scale.\<close>

definition rate_scaled :: "string \<Rightarrow> int" where
  "rate_scaled rate = int (digits_value (filter is_digit rate))"

definition rate_scale :: "string \<Rightarrow> int" where
  "rate_scale rate = 10 ^ length (item_or (split_on CHR ''.'' rate) 1 [])"

definition at_rate :: "string \<Rightarrow> int \<Rightarrow> int" where
  "at_rate rate x = (2 * (x * rate_scaled rate) + rate_scale rate) div (2 * rate_scale rate)"

lemma filter_digits [simp]: "list_all is_digit w \<Longrightarrow> filter is_digit w = w"
  by (simp add: filter_id_conv list_all_iff)

lemma parseRate_decimal: "is_decimal rate \<Longrightarrow> parseRate rate = Inr (rate_scaled rate, rate_scale rate)"
  by (erule is_decimal_cases)
    (simp_all add: parseRate_def rate_scaled_def rate_scale_def Let_def)

lemma rate_scale_pos [simp]: "0 < rate_scale rate"
  by (simp add: rate_scale_def)

lemma rate_scaled_nonneg [simp]: "0 \<le> rate_scaled rate"
  by (simp add: rate_scaled_def)

lemma multiplyByRate_nonneg:
  assumes "is_decimal rate" "0 \<le> x"
  shows "multiplyByRate x rate = Inr (at_rate rate x)"
proof -
  have "0 \<le> x * rate_scaled rate" "0 \<le> rate_scale rate"
    using assms(2) rate_scale_pos [of rate] by (simp_all del: rate_scale_pos)
  then show ?thesis
    by (simp add: multiplyByRate_def parseRate_decimal [OF assms(1)] Let_def at_rate_def
        sdiv_nonneg mult.commute)
qed

lemma length_hand_out [simp]: "length (hand_out es k fs) = length fs"
  by (induction es k fs rule: hand_out.induct) auto

lemma hand_out_sum:
  "distinct (map fst es) \<Longrightarrow> (\<forall>e \<in> set es. fst e < length fs) \<Longrightarrow> 0 \<le> k \<Longrightarrow> k \<le> int (length es) \<Longrightarrow>
   sum_list (hand_out es k fs) = sum_list fs + k"
proof (induction es k fs rule: hand_out.induct)
  case (2 e es k fs)
  then show ?case by (cases "k \<le> 0") (auto simp: sum_list_update_add)
qed simp

lemma hand_out_nth:
  "distinct (map fst es) \<Longrightarrow> i < length fs \<Longrightarrow> hand_out es k fs ! i \<in> {fs ! i, fs ! i + 1}"
proof (induction es k fs rule: hand_out.induct)
  case (2 e es k fs)
  have other: "hand_out es k' fs' ! i = fs' ! i" if "fst e = i" "length fs' = length fs" for k' fs'
  proof -
    have "i \<notin> set (map fst es)" using 2(2) that by auto
    then show ?thesis
      by (induction es k' fs' rule: hand_out.induct) auto
  qed
  show ?case using 2 other by (cases "fst e = i") (auto simp: nth_list_update)
qed simp


section \<open>Distribution is exact\<close>

text \<open>A share at a rate, rounded down; every allocation is it or one unit more.\<close>

definition share_floor :: "string \<Rightarrow> int \<Rightarrow> int" where
  "share_floor rate x = x * rate_scaled rate div rate_scale rate"

lemma share_floor_0 [simp]: "share_floor rate 0 = 0"
  by (simp add: share_floor_def)

lemma at_rate_0 [simp]: "at_rate rate 0 = 0"
  using rate_scale_pos [of rate] by (simp add: at_rate_def)

lemma distribute_spec:
  assumes rate: "is_decimal rate" and nonneg: "\<forall>x \<in> set xs. 0 \<le> x" and "xs \<noteq> []"
  shows "\<exists>vs. distribute xs (at_rate rate (sum_list xs)) rate = Inr vs \<and> length vs = length xs \<and>
     sum_list vs = at_rate rate (sum_list xs) \<and>
     (\<forall>i < length xs. vs ! i \<in> {share_floor rate (xs ! i), share_floor rate (xs ! i) + 1})"
proof -
  let ?f = "\<lambda>x. x * rate_scaled rate" and ?s = "rate_scale rate"
  let ?fl = "map (share_floor rate) xs"
  let ?rem = "map (\<lambda>(index, x). (index, ?f x smod ?s)) (enumerate 0 xs)"
  let ?es = "sort_by remainder_compare ?rem"
  let ?left = "at_rate rate (sum_list xs) - sum_list ?fl"
  have floors: "map (\<lambda>x. ?f x sdiv ?s) xs = ?fl"
    using nonneg rate_scale_pos [of rate]
    by (auto simp: share_floor_def sdiv_nonneg mult_nonneg_nonneg less_imp_le)
  have fsts: "map fst ?rem = [0..<length xs]"
    by (simp add: comp_def case_prod_beta)
  have mset: "mset (map fst ?es) = mset [0..<length xs]"
    by (metis fsts mset_map mset_sort_by)
  then have dist: "distinct (map fst ?es)" by (metis distinct_upt mset_eq_imp_distinct_iff)
  have "set (map fst ?es) = set [0..<length xs]" by (metis mset set_mset_mset)
  moreover have "fst e \<in> set (map fst ?es)" if "e \<in> set ?es" for e
    unfolding set_map by (rule imageI [OF that])
  ultimately have range: "\<forall>e \<in> set ?es. fst e < length ?fl" by simp
  have "(\<Sum>x\<leftarrow>xs. ?f x) = sum_list xs * rate_scaled rate" by (induction xs) (simp_all add: distrib_right)
  then have bounds: "0 \<le> ?left" "?left \<le> int (length ?es)"
    using leftover_bounds [OF rate_scale_pos [of rate], of xs ?f] \<open>xs \<noteq> []\<close>
    by (simp_all add: at_rate_def share_floor_def [abs_def])
  have "distribute xs (at_rate rate (sum_list xs)) rate = Inr (hand_out ?es ?left ?fl)"
    by (simp add: distribute_def parseRate_decimal [OF rate] Let_def floors)
  moreover have "sum_list (hand_out ?es ?left ?fl) = at_rate rate (sum_list xs)"
    using hand_out_sum [OF dist range bounds] by simp
  moreover have "\<forall>i < length xs. hand_out ?es ?left ?fl ! i
      \<in> {share_floor rate (xs ! i), share_floor rate (xs ! i) + 1}"
    using hand_out_nth [OF dist, of _ ?fl ?left] by auto
  ultimately show ?thesis by auto
qed

section \<open>Writing one side back\<close>

lemma side_value_set_side [simp]:
  "side_value s (set_side s v a) = v" "s \<noteq> t \<Longrightarrow> side_value t (set_side s v a) = side_value t a"
  by (cases s; cases t; simp)+

lemma length_assign_side [simp]: "length (assign_side s is vs as) = length as"
  by (induction s "is" vs as rule: assign_side.induct) auto

lemma assign_side_other:
  "i \<notin> set is \<Longrightarrow> assign_side s is vs as ! i = as ! i"
  by (induction s "is" vs as rule: assign_side.induct) auto

lemma side_value_update [simp]:
  "s \<noteq> t \<Longrightarrow> i < length as \<Longrightarrow> side_value t (as[j := set_side s v (as ! j)] ! i) = side_value t (as ! i)"
  by (cases "j = i") auto

lemma assign_side_other_side:
  "i < length as \<Longrightarrow> s \<noteq> t \<Longrightarrow> side_value t (assign_side s is vs as ! i) = side_value t (as ! i)"
  by (induction s "is" vs as rule: assign_side.induct) auto

lemma assign_side_values:
  "distinct is \<Longrightarrow> set is \<subseteq> {..<length as} \<Longrightarrow> length vs = length is \<Longrightarrow>
   map (\<lambda>i. side_value s (assign_side s is vs as ! i)) is = vs"
proof (induction s "is" vs as rule: assign_side.induct)
  case (1 s i "is" v vs as)
  then show ?case by (simp add: assign_side_other)
qed auto

section \<open>One group of lines\<close>

text \<open>
  What a caller hands over: sides that are not negative and rates that are decimals. What a converted
  group satisfies: each line within one unit of its exact share and, at a single rate, each side summing
  to the converted total of that side.
\<close>

definition convertible :: "convertible_line list \<Rightarrow> bool" where
  "convertible ls \<longleftrightarrow>
     (\<forall>l \<in> set ls. 0 \<le> cv_debit l \<and> 0 \<le> cv_credit l \<and>
        (case cv_exchangeRate l of None \<Rightarrow> True | Some rate \<Rightarrow> is_decimal rate))"

lemma convertible_side: "convertible ls \<Longrightarrow> i < length ls \<Longrightarrow> 0 \<le> side_amount s (ls ! i)"
  by (cases s) (auto simp: convertible_def dest: nth_mem)

lemma convertible_rate:
  "convertible ls \<Longrightarrow> i < length ls \<Longrightarrow> cv_exchangeRate (ls ! i) = Some rate \<Longrightarrow> is_decimal rate"
  by (fastforce simp: convertible_def dest: nth_mem split: option.splits)

definition line_done :: "convertible_line list \<Rightarrow> converted_amounts list \<Rightarrow> nat \<Rightarrow> side \<Rightarrow> bool" where
  "line_done ls as i s \<longleftrightarrow>
     (case cv_exchangeRate (ls ! i) of
        None \<Rightarrow> side_value s (as ! i) = side_amount s (ls ! i)
      | Some rate \<Rightarrow> side_value s (as ! i) \<in> {share_floor rate (side_amount s (ls ! i)),
          share_floor rate (side_amount s (ls ! i)) + 1})"

definition side_done ::
  "convertible_line list \<Rightarrow> string \<Rightarrow> nat list \<Rightarrow> converted_amounts list \<Rightarrow> side \<Rightarrow> bool" where
  "side_done ls rate indices as s \<longleftrightarrow>
     (\<Sum>i\<leftarrow>indices. side_value s (as ! i)) = at_rate rate (\<Sum>i\<leftarrow>indices. side_amount s (ls ! i))"

lemma sum_list_filter_zero:
  fixes f :: "'a \<Rightarrow> int"
  shows "(\<And>x. x \<in> set xs \<Longrightarrow> \<not> P x \<Longrightarrow> f x = 0) \<Longrightarrow> (\<Sum>x\<leftarrow>filter P xs. f x) = (\<Sum>x\<leftarrow>xs. f x)"
  by (induction xs) auto

lemma convert_side_spec:
  assumes ls: "convertible ls" and idx: "distinct indices" "set indices \<subseteq> {..<length as}"
    "length as = length ls"
    and rate: "\<forall>i \<in> set indices. cv_exchangeRate (ls ! i) = Some rate" "is_decimal rate"
    and zero: "\<forall>i \<in> set indices. side_value s (as ! i) = 0"
  shows "\<exists>as'. convert_side ls rate indices s as = Inr as' \<and> length as' = length as \<and>
     (\<forall>i. i \<notin> set indices \<longrightarrow> as' ! i = as ! i) \<and>
     (\<forall>i t. i < length as \<longrightarrow> t \<noteq> s \<longrightarrow> side_value t (as' ! i) = side_value t (as ! i)) \<and>
     side_done ls rate indices as' s \<and> (\<forall>i \<in> set indices. line_done ls as' i s)"
proof -
  let ?P = "\<lambda>i. side_amount s (ls ! i) > 0"
  let ?js = "filter ?P indices"
  let ?xs = "map (\<lambda>i. side_amount s (ls ! i)) ?js"
  have notP: "side_amount s (ls ! i) = 0" if "i \<in> set indices" "\<not> ?P i" for i
    using that idx(2,3) convertible_side [OF ls, of i s] by force
  have sum_xs: "sum_list ?xs = (\<Sum>i\<leftarrow>indices. side_amount s (ls ! i))"
    by (rule sum_list_filter_zero) (rule notP)
  show ?thesis
  proof (cases "?js = []")
    case True
    then have none: "side_amount s (ls ! i) = 0" if "i \<in> set indices" for i
      using notP that by (auto simp: filter_empty_conv)
    have "(\<Sum>i\<leftarrow>indices. side_value s (as ! i)) = (\<Sum>i\<leftarrow>indices. 0)"
      using zero by (intro arg_cong [where f = sum_list] map_cong) auto
    then have "side_done ls rate indices as s"
      using sum_xs True by (simp add: side_done_def)
    with True none zero rate show ?thesis
      by (auto simp: convert_side_def line_done_def)
  next
    case False
    have nonneg: "\<forall>x \<in> set ?xs. 0 \<le> x" by auto
    obtain vs where vs: "distribute ?xs (at_rate rate (sum_list ?xs)) rate = Inr vs"
      "length vs = length ?js" "sum_list vs = at_rate rate (sum_list ?xs)"
      "\<And>i. i < length ?js \<Longrightarrow> vs ! i \<in> {share_floor rate (?xs ! i), share_floor rate (?xs ! i) + 1}"
      using distribute_spec [OF rate(2) nonneg] False by auto
    define as' where "as' = assign_side s ?js vs as"
    have "0 \<le> sum_list ?xs" by (rule sum_list_nonneg) (use nonneg in blast)
    then have "convert_side ls rate indices s as = Inr as'"
      using False vs(1) by (simp add: convert_side_def Let_def multiplyByRate_nonneg rate(2) as'_def)
    moreover have vals: "map (\<lambda>i. side_value s (as' ! i)) ?js = vs"
      unfolding as'_def using idx vs(2) by (intro assign_side_values) auto
    moreover have same: "as' ! i = as ! i" if "i \<notin> set ?js" for i
      using that by (simp add: as'_def assign_side_other)
    moreover have "(\<Sum>i\<leftarrow>?js. side_value s (as' ! i)) = (\<Sum>i\<leftarrow>indices. side_value s (as' ! i))"
      using zero same by (intro sum_list_filter_zero) auto
    moreover have "line_done ls as' i s" if i: "i \<in> set indices" for i
    proof (cases "?P i")
      case True
      with i have "i \<in> set ?js" by simp
      then obtain k where k: "k < length ?js" "?js ! k = i" unfolding in_set_conv_nth by blast
      then have "side_value s (as' ! i) = vs ! k" using vals by (metis nth_map)
      then show ?thesis using vs(4) [OF k(1)] k rate(1) i by (simp add: line_done_def)
    next
      case False
      then show ?thesis using same [of i] notP [OF i] zero i rate(1) by (simp add: line_done_def)
    qed
    ultimately show ?thesis
      using vs(3) sum_xs by (auto simp: side_done_def as'_def assign_side_other_side)
  qed
qed

text \<open>
  What conversion owes one group: every line done on both sides and, where the group has one rate, both
  sides exact in total.
\<close>

definition group_done :: "convertible_line list \<Rightarrow> converted_amounts list \<Rightarrow> nat list \<Rightarrow> bool" where
  "group_done ls as indices \<longleftrightarrow>
     (\<forall>s. \<forall>i \<in> set indices. line_done ls as i s) \<and>
     (\<forall>s rate. (\<forall>i \<in> set indices. cv_exchangeRate (ls ! i) = Some rate) \<longrightarrow>
        side_done ls rate indices as s)"

lemma group_done_cong:
  "(\<And>i. i \<in> set indices \<Longrightarrow> as ! i = bs ! i) \<Longrightarrow> group_done ls as indices = group_done ls bs indices"
proof -
  assume same: "\<And>i. i \<in> set indices \<Longrightarrow> as ! i = bs ! i"
  then have "map (\<lambda>i. side_value s (as ! i)) indices = map (\<lambda>i. side_value s (bs ! i)) indices" for s
    by simp
  then have side: "side_done ls rate indices as s = side_done ls rate indices bs s" for s rate
    by (simp only: side_done_def)
  have line: "line_done ls as i s = line_done ls bs i s" if "i \<in> set indices" for i s
    unfolding line_done_def same [OF that] by (rule refl)
  show ?thesis by (simp add: group_done_def side line cong: ball_cong)
qed

lemma at_rate_share: "at_rate rate x \<in> {share_floor rate x, share_floor rate x + 1}"
proof -
  let ?s = "rate_scale rate" and ?p = "x * rate_scaled rate"
  note l = leftover_bounds [OF rate_scale_pos [of rate], of "[x]" "\<lambda>x. x * rate_scaled rate"]
  then show ?thesis by (auto simp: at_rate_def share_floor_def)
qed

lemma convert_each_spec:
  assumes "convertible ls" "length as = length ls" "set indices \<subseteq> {..<length ls}" "distinct indices"
    "\<forall>i \<in> set indices. cv_exchangeRate (ls ! i) \<noteq> None"
  shows "\<exists>as'. convert_each ls indices as = Inr as' \<and> length as' = length as \<and>
     (\<forall>i. i \<notin> set indices \<longrightarrow> as' ! i = as ! i) \<and> (\<forall>i \<in> set indices. \<forall>s. line_done ls as' i s)"
  using assms(2-)
proof (induction indices arbitrary: as)
  case Nil
  then show ?case by simp
next
  case (Cons i indices)
  then obtain rate where rate: "cv_exchangeRate (ls ! i) = Some rate" by auto
  have dec: "is_decimal rate" using convertible_rate [OF assms(1) _ rate] Cons.prems by simp
  have nonneg: "0 \<le> cv_debit (ls ! i)" "0 \<le> cv_credit (ls ! i)"
    using convertible_side [OF assms(1), of i DebitSide] convertible_side [OF assms(1), of i CreditSide]
      Cons.prems by simp_all
  let ?as = "as[i := \<lparr>fa_debit = at_rate rate (cv_debit (ls ! i)),
                     fa_credit = at_rate rate (cv_credit (ls ! i))\<rparr>]"
  obtain as' where as': "convert_each ls indices ?as = Inr as'" "length as' = length as"
    "\<forall>j. j \<notin> set indices \<longrightarrow> as' ! j = ?as ! j" "\<forall>j \<in> set indices. \<forall>s. line_done ls as' j s"
    using Cons.IH [of ?as] Cons.prems by auto
  have "convert_each ls (i # indices) as = Inr as'"
    using as'(1) by (simp add: rate multiplyByRate_nonneg dec nonneg)
  moreover have at: "as' ! i = ?as ! i" using as'(3) Cons.prems(3) by simp
  have "line_done ls as' i s" for s
    using Cons.prems(1,2) at_rate_share [of rate] by (cases s) (simp_all add: line_done_def rate at)
  ultimately show ?case using as' by auto
qed

lemma convert_group_spec:
  assumes ls: "convertible ls" and len: "length as = length ls"
    and idx: "set indices \<subseteq> {..<length ls}" "distinct indices" "indices \<noteq> []"
    and rated: "\<forall>i \<in> set indices. cv_exchangeRate (ls ! i) \<noteq> None"
    and zero: "\<forall>i \<in> set indices. \<forall>s. side_value s (as ! i) = 0"
  shows "\<exists>as'. convert_group ls indices as = Inr as' \<and> length as' = length as \<and>
     (\<forall>i. i \<notin> set indices \<longrightarrow> as' ! i = as ! i) \<and> group_done ls as' indices"
proof (cases "length (js_set (map (\<lambda>i. cv_exchangeRate (ls ! i)) indices)) > 1")
  case True
  have many: "\<not> (\<forall>i \<in> set indices. cv_exchangeRate (ls ! i) = Some rate)" for rate
  proof
    assume "\<forall>i \<in> set indices. cv_exchangeRate (ls ! i) = Some rate"
    then have "js_set (map (\<lambda>i. cv_exchangeRate (ls ! i)) indices) = [Some rate]"
      using idx(3) by (intro js_set_constant) auto
    with True show False by simp
  qed
  obtain as' where as': "convert_each ls indices as = Inr as'" "length as' = length as"
    "\<forall>i. i \<notin> set indices \<longrightarrow> as' ! i = as ! i" "\<forall>i \<in> set indices. \<forall>s. line_done ls as' i s"
    using convert_each_spec [OF ls len idx(1,2) rated] by blast
  have "group_done ls as' indices" using as'(4) many unfolding group_done_def by blast
  with True as' show ?thesis by (auto simp: convert_group_def)
next
  case False
  obtain r where rate: "\<forall>i \<in> set indices. cv_exchangeRate (ls ! i) = Some r"
  proof -
    obtain i r where "i \<in> set indices" "cv_exchangeRate (ls ! i) = Some r"
      using idx(3) rated by (cases indices) auto
    then have "\<forall>j \<in> set indices. cv_exchangeRate (ls ! j) = Some r"
      using length_js_set_1 [of "map (\<lambda>i. cv_exchangeRate (ls ! i)) indices"] False by force
    then show ?thesis by (rule that)
  qed
  have dec: "is_decimal r" using idx(1,3) rate convertible_rate [OF ls] by (cases indices) auto
  have one: "js_set (map (\<lambda>i. cv_exchangeRate (ls ! i)) indices) = [Some r]"
    using idx(3) rate by (intro js_set_constant) auto
  have range: "set indices \<subseteq> {..<length as}" using idx(1) len by simp
  obtain as1 where as1: "convert_side ls r indices DebitSide as = Inr as1" "length as1 = length as"
    "\<forall>i. i \<notin> set indices \<longrightarrow> as1 ! i = as ! i"
    "\<forall>i t. i < length as \<longrightarrow> t \<noteq> DebitSide \<longrightarrow> side_value t (as1 ! i) = side_value t (as ! i)"
    "side_done ls r indices as1 DebitSide" "\<forall>i \<in> set indices. line_done ls as1 i DebitSide"
    using convert_side_spec [OF ls idx(2) range len rate dec, of DebitSide] zero by blast
  have range1: "set indices \<subseteq> {..<length as1}" "length as1 = length ls" using range as1(2) len by simp_all
  have "side_value CreditSide (as1 ! i) = 0" if "i \<in> set indices" for i
    using zero as1(4) range that by (metis lessThan_iff side.distinct(1) subsetD)
  then have "\<forall>i \<in> set indices. side_value CreditSide (as1 ! i) = 0" by blast
  then obtain as2 where as2: "convert_side ls r indices CreditSide as1 = Inr as2"
    "length as2 = length as1" "\<forall>i. i \<notin> set indices \<longrightarrow> as2 ! i = as1 ! i"
    "\<forall>i t. i < length as1 \<longrightarrow> t \<noteq> CreditSide \<longrightarrow> side_value t (as2 ! i) = side_value t (as1 ! i)"
    "side_done ls r indices as2 CreditSide" "\<forall>i \<in> set indices. line_done ls as2 i CreditSide"
    using convert_side_spec [OF ls idx(2) range1 rate dec, of CreditSide] by blast
  have same: "side_value DebitSide (as2 ! i) = side_value DebitSide (as1 ! i)" if "i \<in> set indices" for i
    using as2(4) range1(1) that by (metis lessThan_iff side.distinct(1) subsetD)
  have debit: "map (\<lambda>i. side_value DebitSide (as2 ! i)) indices
      = map (\<lambda>i. side_value DebitSide (as1 ! i)) indices"
    by (rule map_cong [OF refl]) (rule same)
  have "side_done ls r indices as2 DebitSide" using as1(5) unfolding side_done_def debit .
  moreover have "line_done ls as2 i DebitSide" if i: "i \<in> set indices" for i
    using as1(6) i unfolding line_done_def same [OF i] by blast
  moreover have "rate = r" if "\<forall>i \<in> set indices. cv_exchangeRate (ls ! i) = Some rate" for rate
    using that rate idx(3) by (cases indices) auto
  ultimately have each: "side_done ls r indices as2 s" "i \<in> set indices \<Longrightarrow> line_done ls as2 i s"
    "\<forall>i \<in> set indices. cv_exchangeRate (ls ! i) = Some rate \<Longrightarrow> rate = r" for s i rate
    using as2(5,6) by (cases s; blast)+
  have "group_done ls as2 indices" unfolding group_done_def using each by blast
  then show ?thesis using as1 as2 by (auto simp: convert_group_def one)
qed

section \<open>The whole conversion\<close>

lemma convert_groups_spec:
  assumes ls: "convertible ls"
  shows "length as = length ls \<Longrightarrow> distinct (concat (map snd gs)) \<Longrightarrow>
     (\<forall>g \<in> set gs. snd g \<noteq> [] \<and> (\<forall>i \<in> set (snd g). i < length ls \<and>
        cv_exchangeRate (ls ! i) \<noteq> None \<and> (\<forall>s. side_value s (as ! i) = 0))) \<Longrightarrow>
     \<exists>as'. convert_groups ls gs as = Inr as' \<and> length as' = length as \<and>
       (\<forall>i. i \<notin> set (concat (map snd gs)) \<longrightarrow> as' ! i = as ! i) \<and>
       (\<forall>g \<in> set gs. group_done ls as' (snd g))"
proof (induction gs arbitrary: as)
  case Nil
  then show ?case by simp
next
  case (Cons g gs)
  obtain as1 where as1: "convert_group ls (snd g) as = Inr as1" "length as1 = length as"
    "\<forall>i. i \<notin> set (snd g) \<longrightarrow> as1 ! i = as ! i" "group_done ls as1 (snd g)"
    using convert_group_spec [OF ls Cons.prems(1), of "snd g"] Cons.prems(2,3) by force
  have apart: "i \<notin> set (snd g)" if "h \<in> set gs" "i \<in> set (snd h)" for h i
    using Cons.prems(2) that by auto
  have "\<forall>h \<in> set gs. snd h \<noteq> [] \<and> (\<forall>i \<in> set (snd h). i < length ls \<and>
      cv_exchangeRate (ls ! i) \<noteq> None \<and> (\<forall>s. side_value s (as1 ! i) = 0))"
    using Cons.prems(3) as1(3) apart by simp
  then obtain as2 where as2: "convert_groups ls gs as1 = Inr as2" "length as2 = length as1"
    "\<forall>i. i \<notin> set (concat (map snd gs)) \<longrightarrow> as2 ! i = as1 ! i"
    "\<forall>h \<in> set gs. group_done ls as2 (snd h)"
    using Cons.IH [of as1] Cons.prems(1,2) as1(2) by auto
  have "group_done ls as2 (snd g)"
  proof (subst group_done_cong [where bs = as1])
    fix i assume "i \<in> set (snd g)"
    then have "i \<notin> set (concat (map snd gs))" using apart by fastforce
    then show "as2 ! i = as1 ! i" using as2(3) by blast
  qed (rule as1(4))
  then show ?case using as1 as2 by auto
qed

abbreviation rated_lines :: "convertible_line list \<Rightarrow> nat list" where
  "rated_lines ls \<equiv> filter (\<lambda>i. cv_exchangeRate (ls ! i) \<noteq> None) [0..<length ls]"

abbreviation group_of :: "convertible_line list \<Rightarrow> string \<Rightarrow> nat list" where
  "group_of ls cur \<equiv> filter (\<lambda>i. cv_currency (ls ! i) = cur) (rated_lines ls)"

lemma foreign_groups_eq:
  "foreign_groups ls = map (\<lambda>cur. (cur, group_of ls cur))
     (js_set (map (\<lambda>i. cv_currency (ls ! i)) (rated_lines ls)))"
  by (simp add: foreign_groups_def group_by_filter)

lemma foreign_groups_wf:
  "g \<in> set (foreign_groups ls) \<Longrightarrow> snd g = group_of ls (fst g) \<and> snd g \<noteq> []"
  unfolding foreign_groups_def by (metis prod.collapse set_group_by)

lemma concat_foreign_groups:
  "distinct (concat (map snd (foreign_groups ls)))"
  "set (concat (map snd (foreign_groups ls))) = set (rated_lines ls)"
  unfolding foreign_groups_def by (rule distinct_concat_groups, simp) (rule set_concat_groups)

text \<open>The specification every call meets: it returns, line by line done and group by group exact.\<close>

lemma convertToFunctional_spec:
  assumes "convertible ls"
  shows "\<exists>as. convertToFunctional ls = Inr (as, \<Sum>a\<leftarrow>as. fa_debit a - fa_credit a) \<and>
     length as = length ls \<and> (\<forall>i < length ls. \<forall>s. line_done ls as i s) \<and>
     (\<forall>g \<in> set (foreign_groups ls). group_done ls as (snd g))"
proof -
  let ?as = "initial_amounts ls"
  have len: "length ?as = length ls" by (simp add: initial_amounts_def)
  have init: "side_value s (?as ! i) = (if cv_exchangeRate (ls ! i) = None then side_amount s (ls ! i) else 0)"
    if "i < length ls" for i s
    using that by (cases s) (simp_all add: initial_amounts_def)
  have "\<forall>g \<in> set (foreign_groups ls). snd g \<noteq> [] \<and> (\<forall>i \<in> set (snd g). i < length ls \<and>
      cv_exchangeRate (ls ! i) \<noteq> None \<and> (\<forall>s. side_value s (?as ! i) = 0))"
    using init foreign_groups_wf by fastforce
  from convert_groups_spec [OF assms len concat_foreign_groups(1) this, unfolded concat_foreign_groups(2)]
  obtain as where
    as: "convert_groups ls (foreign_groups ls) ?as = Inr as" "length as = length ls"
      "\<forall>i. i \<notin> set (rated_lines ls) \<longrightarrow> as ! i = ?as ! i"
      "\<forall>g \<in> set (foreign_groups ls). group_done ls as (snd g)"
    by (metis len)
  have "line_done ls as i s" if i: "i < length ls" for i s
  proof (cases "i \<in> set (rated_lines ls)")
    case True
    then have "i \<in> set (concat (map snd (foreign_groups ls)))"
      unfolding concat_foreign_groups(2) .
    then obtain g where "g \<in> set (foreign_groups ls)" "i \<in> set (snd g)" by auto
    with as(4) show ?thesis by (auto simp: group_done_def)
  next
    case False
    then have "cv_exchangeRate (ls ! i) = None" using i by simp
    with as(3) False init [OF i] show ?thesis by (simp add: line_done_def)
  qed
  with as show ?thesis by (auto simp: convertToFunctional_def)
qed

lemma convertToFunctional_amounts:
  assumes "convertible ls" "convertToFunctional ls = Inr (as, residual)"
  shows "length as = length ls" "residual = (\<Sum>a\<leftarrow>as. fa_debit a - fa_credit a)"
    "i < length ls \<Longrightarrow> line_done ls as i s"
    "\<forall>g \<in> set (foreign_groups ls). group_done ls as (snd g)"
  using convertToFunctional_spec [OF assms(1)] assms(2) by auto

lemma group_exact:
  assumes "convertible ls" "convertToFunctional ls = Inr (as, residual)"
    and one: "\<forall>i \<in> set (group_of ls cur). cv_exchangeRate (ls ! i) = Some rate"
  shows "side_done ls rate (group_of ls cur) as s"
proof (cases "group_of ls cur = []")
  case True
  then show ?thesis by (simp add: side_done_def)
next
  case False
  then have "hd (group_of ls cur) \<in> set (group_of ls cur)" by (rule list.set_sel(1))
  then have "hd (group_of ls cur) \<in> set (rated_lines ls)" "cv_currency (ls ! hd (group_of ls cur)) = cur"
    unfolding set_filter mem_Collect_eq by blast+
  then have "(cur, group_of ls cur) \<in> set (foreign_groups ls)"
    unfolding foreign_groups_eq by force
  with convertToFunctional_amounts(4) [OF assms(1,2)] one show ?thesis
    unfolding group_done_def by fastforce
qed

section \<open>Balance\<close>

text \<open>
  The ordinary entry: what is already in the functional currency balances, and every foreign currency
  of the entry has one rate and balances in itself.
\<close>

definition balanced_per_currency :: "convertible_line list \<Rightarrow> bool" where
  "balanced_per_currency ls \<longleftrightarrow>
     (\<Sum>l\<leftarrow>filter (\<lambda>l. cv_exchangeRate l = None) ls. cv_debit l - cv_credit l) = 0 \<and>
     (\<forall>g \<in> set (foreign_groups ls).
        (\<exists>rate. \<forall>i \<in> set (snd g). cv_exchangeRate (ls ! i) = Some rate) \<and>
        (\<Sum>i\<leftarrow>snd g. cv_debit (ls ! i)) = (\<Sum>i\<leftarrow>snd g. cv_credit (ls ! i)))"

lemma sum_map_diff: "(\<Sum>x\<leftarrow>xs. f x - g x) = (\<Sum>x\<leftarrow>xs. f x) - (\<Sum>x\<leftarrow>xs. g x :: int)"
  by (induction xs) auto

lemma sum_split_filter:
  fixes f :: "'a \<Rightarrow> int"
  shows "(\<Sum>x\<leftarrow>xs. f x) = (\<Sum>x\<leftarrow>filter P xs. f x) + (\<Sum>x\<leftarrow>filter (\<lambda>x. \<not> P x) xs. f x)"
  by (induction xs) auto

lemma sum_list_nths: "(\<Sum>x\<leftarrow>xs. f x) = (\<Sum>i\<leftarrow>[0..<length xs]. f (xs ! i))"
  by (metis (no_types, lifting) map_nth map_map comp_def map_cong)

lemma filter_nths: "filter P xs = map (\<lambda>i. xs ! i) (filter (\<lambda>i. P (xs ! i)) [0..<length xs])"
  by (metis (no_types, lifting) filter_map map_nth comp_def filter_cong)

lemma group_balance:
  assumes "group_done ls as indices" "\<forall>i \<in> set indices. cv_exchangeRate (ls ! i) = Some rate"
    "(\<Sum>i\<leftarrow>indices. cv_debit (ls ! i)) = (\<Sum>i\<leftarrow>indices. cv_credit (ls ! i))"
  shows "(\<Sum>i\<leftarrow>indices. fa_debit (as ! i) - fa_credit (as ! i)) = 0"
proof -
  have "side_done ls rate indices as s" for s using assms(1,2) by (simp add: group_done_def)
  from this [of DebitSide] this [of CreditSide] assms(3) show ?thesis
    by (simp add: side_done_def sum_map_diff)
qed

lemma home_balance:
  assumes "\<And>i s. i < length ls \<Longrightarrow> line_done ls as i s"
  shows "(\<Sum>i\<leftarrow>filter (\<lambda>i. cv_exchangeRate (ls ! i) = None) [0..<length ls]. fa_debit (as ! i) - fa_credit (as ! i))
    = (\<Sum>l\<leftarrow>filter (\<lambda>l. cv_exchangeRate l = None) ls. cv_debit l - cv_credit l)"
proof -
  have eq: "fa_debit (as ! i) - fa_credit (as ! i) = cv_debit (ls ! i) - cv_credit (ls ! i)"
    if "i \<in> set (filter (\<lambda>i. cv_exchangeRate (ls ! i) = None) [0..<length ls])" for i
    using that assms [of i DebitSide] assms [of i CreditSide] by (simp add: line_done_def)
  show ?thesis unfolding filter_nths [of _ ls] map_map comp_def
    by (rule arg_cong [where f = sum_list], rule map_cong [OF refl]) (rule eq)
qed

text \<open>
  C17: Foreign currency is converted on the total of each side. For lines with amounts that are not
  negative and decimal rates the conversion always returns; whenever the lines of a currency carry one
  rate, the functional amounts of either side sum to exactly the converted (half-up) total of that
  side, and every line is within one unit of its own exact share.
\<close>

theorem conversion_exact_per_side:
  assumes "convertible ls" "\<forall>i \<in> set (group_of ls cur). cv_exchangeRate (ls ! i) = Some rate"
  shows "\<exists>as residual. convertToFunctional ls = Inr (as, residual) \<and> length as = length ls \<and>
     (\<Sum>i\<leftarrow>group_of ls cur. fa_debit (as ! i)) = at_rate rate (\<Sum>i\<leftarrow>group_of ls cur. cv_debit (ls ! i)) \<and>
     (\<Sum>i\<leftarrow>group_of ls cur. fa_credit (as ! i)) = at_rate rate (\<Sum>i\<leftarrow>group_of ls cur. cv_credit (ls ! i)) \<and>
     (\<forall>i < length ls. line_done ls as i DebitSide \<and> line_done ls as i CreditSide)"
proof -
  obtain as where as: "convertToFunctional ls = Inr (as, \<Sum>a\<leftarrow>as. fa_debit a - fa_credit a)"
    "length as = length ls" "\<forall>i < length ls. \<forall>s. line_done ls as i s"
    using convertToFunctional_spec [OF assms(1)] by blast
  from group_exact [OF assms(1) as(1) assms(2), of DebitSide]
    group_exact [OF assms(1) as(1) assms(2), of CreditSide] as show ?thesis
    by (simp add: side_done_def)
qed

text \<open>The example of the source: three debits against one credit at 0.335.\<close>

definition doc_lines :: "convertible_line list" where
  "doc_lines = map (\<lambda>(n, d, c). \<lparr>cv_lineNumber = n, cv_currency = ''USD'', cv_debit = d, cv_credit = c,
     cv_exchangeRate = Some ''0.335''\<rparr>) [(1, 333, 0), (2, 333, 0), (3, 334, 0), (4, 0, 1000)]"

lemma doc_lines_result:
  "convertible doc_lines"
  "\<forall>i \<in> set (group_of doc_lines ''USD''). cv_exchangeRate (doc_lines ! i) = Some ''0.335''"
  "convertToFunctional doc_lines = Inr ([\<lparr>fa_debit = 112, fa_credit = 0\<rparr>, \<lparr>fa_debit = 111, fa_credit = 0\<rparr>,
     \<lparr>fa_debit = 112, fa_credit = 0\<rparr>, \<lparr>fa_debit = 0, fa_credit = 335\<rparr>], 0)"
  by code_simp+

lemma conversion_exact_per_side_witness:
  "\<exists>as residual. convertToFunctional doc_lines = Inr (as, residual) \<and>
     (\<Sum>i\<leftarrow>group_of doc_lines ''USD''. fa_debit (as ! i)) = 335"
proof -
  have "at_rate ''0.335'' (\<Sum>i\<leftarrow>group_of doc_lines ''USD''. cv_debit (doc_lines ! i)) = 335" by code_simp
  with conversion_exact_per_side [OF doc_lines_result(1,2)] show ?thesis by metis
qed

lemma balanced_no_residual:
  assumes ls: "convertible ls" and bal: "balanced_per_currency ls"
  shows "\<exists>as. convertToFunctional ls = Inr (as, 0) \<and> (\<Sum>a\<leftarrow>as. fa_debit a) = (\<Sum>a\<leftarrow>as. fa_credit a)"
proof -
  obtain as where as: "convertToFunctional ls = Inr (as, \<Sum>a\<leftarrow>as. fa_debit a - fa_credit a)"
    "length as = length ls" "\<And>i s. i < length ls \<Longrightarrow> line_done ls as i s"
    "\<forall>g \<in> set (foreign_groups ls). group_done ls as (snd g)"
    using convertToFunctional_spec [OF ls] by blast
  let ?d = "\<lambda>i. fa_debit (as ! i) - fa_credit (as ! i)"
  have each: "(\<Sum>i\<leftarrow>snd g. ?d i) = 0" if "g \<in> set (foreign_groups ls)" for g
  proof -
    from bal that obtain rate where "\<forall>i \<in> set (snd g). cv_exchangeRate (ls ! i) = Some rate"
      "(\<Sum>i\<leftarrow>snd g. cv_debit (ls ! i)) = (\<Sum>i\<leftarrow>snd g. cv_credit (ls ! i))"
      unfolding balanced_per_currency_def by blast
    with as(4) that show ?thesis by (blast intro: group_balance)
  qed
  have "(\<Sum>i\<leftarrow>rated_lines ls. ?d i) = (\<Sum>g\<leftarrow>foreign_groups ls. \<Sum>i\<leftarrow>snd g. ?d i)"
    unfolding foreign_groups_def by (rule sum_group_by [symmetric])
  also have "\<dots> = (\<Sum>g\<leftarrow>foreign_groups ls. 0)"
    by (rule arg_cong [where f = sum_list], rule map_cong [OF refl]) (rule each)
  finally have foreign: "(\<Sum>i\<leftarrow>rated_lines ls. ?d i) = 0" by simp
  have "(\<Sum>a\<leftarrow>as. fa_debit a - fa_credit a) = (\<Sum>i\<leftarrow>[0..<length ls]. ?d i)"
    by (simp add: sum_list_nths [of _ as] as(2))
  also have "\<dots> = 0"
    using foreign home_balance [OF as(3)] bal
      sum_split_filter [of ?d "[0..<length ls]" "\<lambda>i. cv_exchangeRate (ls ! i) = None"]
    by (simp add: balanced_per_currency_def)
  finally have none: "(\<Sum>a\<leftarrow>as. fa_debit a - fa_credit a) = 0" .
  with as(1) show ?thesis by (simp add: sum_map_diff)
qed

text \<open>
  An entry whose functional lines balance and whose foreign currencies each balance at one rate has
  no residual after conversion: its functional debits and credits are equal to the cent, however many
  lines share the rounding. A residual therefore means one currency at several rates.
\<close>

theorem balanced_entry_has_no_residual:
  assumes "convertible ls" "balanced_per_currency ls"
  shows "\<exists>as. convertToFunctional ls = Inr (as, 0) \<and> (\<Sum>a\<leftarrow>as. fa_debit a) = (\<Sum>a\<leftarrow>as. fa_credit a)"
  using assms by (rule balanced_no_residual)

lemma balanced_entry_has_no_residual_witness:
  "\<exists>as. convertToFunctional doc_lines = Inr (as, 0) \<and> (\<Sum>a\<leftarrow>as. fa_debit a) = (\<Sum>a\<leftarrow>as. fa_credit a)"
proof -
  have "balanced_per_currency doc_lines"
  proof -
    have "foreign_groups doc_lines = [(''USD'', [0, 1, 2, 3])]" by code_simp
    moreover have "(\<Sum>i\<leftarrow>[0, 1, 2, 3]. cv_debit (doc_lines ! i)) = (\<Sum>i\<leftarrow>[0, 1, 2, 3]. cv_credit (doc_lines ! i))"
      "(\<Sum>l\<leftarrow>filter (\<lambda>l. cv_exchangeRate l = None) doc_lines. cv_debit l - cv_credit l) = 0"
      "\<forall>i \<in> set [0, 1, 2, 3]. cv_exchangeRate (doc_lines ! i) = Some ''0.335''"
      by code_simp+
    ultimately show ?thesis unfolding balanced_per_currency_def by auto
  qed
  with doc_lines_result(1) show ?thesis by (rule balanced_entry_has_no_residual)
qed

section \<open>Swapping debit and credit\<close>

text \<open>Conversion does not care which side is which: swapped lines convert to swapped amounts.\<close>

definition swap_line :: "convertible_line \<Rightarrow> convertible_line" where
  "swap_line l = l\<lparr>cv_debit := cv_credit l, cv_credit := cv_debit l\<rparr>"

definition swap_amounts :: "converted_amounts \<Rightarrow> converted_amounts" where
  "swap_amounts a = \<lparr>fa_debit = fa_credit a, fa_credit = fa_debit a\<rparr>"

fun other :: "side \<Rightarrow> side" where
  "other DebitSide = CreditSide"
| "other CreditSide = DebitSide"

lemma swap_line_simps [simp]:
  "cv_exchangeRate (swap_line l) = cv_exchangeRate l" "cv_currency (swap_line l) = cv_currency l"
  "cv_debit (swap_line l) = cv_credit l" "cv_credit (swap_line l) = cv_debit l"
  "side_amount s (swap_line l) = side_amount (other s) l"
  by (cases s; simp add: swap_line_def)+

lemma swap_amounts_simps [simp]:
  "fa_debit (swap_amounts a) = fa_credit a" "fa_credit (swap_amounts a) = fa_debit a"
  "swap_amounts (set_side s v a) = set_side (other s) v (swap_amounts a)"
  by (cases s; simp add: swap_amounts_def)+

lemma map_swap_update:
  "map swap_amounts (as[i := set_side s v (as ! i)]) =
   (map swap_amounts as)[i := set_side (other s) v (map swap_amounts as ! i)]"
  by (cases "i < length as") (simp_all add: map_update not_less list_update_beyond)

lemma assign_side_swap:
  "map swap_amounts (assign_side s is vs as) = assign_side (other s) is vs (map swap_amounts as)"
proof (induction s "is" vs as rule: assign_side.induct)
  case (1 s i "is" v vs as)
  then show ?case unfolding assign_side.simps map_swap_update by simp
qed simp_all

lemma set_side_commute: "s \<noteq> t \<Longrightarrow> set_side s v (set_side t w a) = set_side t w (set_side s v a)"
  by (cases s; cases t) simp_all

lemma update_side_commute:
  "s \<noteq> t \<Longrightarrow>
   (as[j := set_side t w (as ! j)])[i := set_side s v (as[j := set_side t w (as ! j)] ! i)] =
   (as[i := set_side s v (as ! i)])[j := set_side t w (as[i := set_side s v (as ! i)] ! j)]"
  by (cases "i = j"; cases "i < length as") 
    (simp_all add: list_update_swap set_side_commute not_less list_update_beyond)

lemma assign_side_update:
  "s \<noteq> t \<Longrightarrow> assign_side s is vs (as[j := set_side t w (as ! j)]) =
   (assign_side s is vs as)[j := set_side t w (assign_side s is vs as ! j)]"
proof (induction s "is" vs as rule: assign_side.induct)
  case (1 s i "is" v vs as)
  show ?case
    unfolding assign_side.simps update_side_commute [OF 1(2)] using 1 by blast
qed simp_all

lemma assign_side_commute:
  "s \<noteq> t \<Longrightarrow> assign_side s is vs (assign_side t js ws as) = assign_side t js ws (assign_side s is vs as)"
  by (induction t js ws as rule: assign_side.induct) (simp_all add: assign_side_update)

abbreviation map_amounts :: "thrown + converted_amounts list \<Rightarrow> thrown + converted_amounts list" where
  "map_amounts r \<equiv> and_then r (\<lambda>as. Inr (map swap_amounts as))"

lemma convert_side_swap:
  assumes "set indices \<subseteq> {..<length ls}"
  shows "convert_side (map swap_line ls) rate indices s (map swap_amounts as) =
    map_amounts (convert_side ls rate indices (other s) as)"
proof -
  have f: "filter (\<lambda>i. 0 < side_amount s (map swap_line ls ! i)) indices
      = filter (\<lambda>i. 0 < side_amount (other s) (ls ! i)) indices"
    using assms by (intro filter_cong) auto
  have m: "map (\<lambda>i. side_amount s (map swap_line ls ! i)) (filter P indices)
      = map (\<lambda>i. side_amount (other s) (ls ! i)) (filter P indices)" for P
    using assms by (intro map_cong) auto
  show ?thesis
    unfolding convert_side_def Let_def f m
    by (auto simp: and_then_def assign_side_swap split: sum.splits) (cases s; simp add: assign_side_swap)
qed

lemma convert_side_two:
  assumes "s \<noteq> t" and that: "\<And>s as. \<exists>as'. convert_side ls rate indices s as = Inr as'"
  shows "and_then (convert_side ls rate indices s as) (convert_side ls rate indices t) =
    and_then (convert_side ls rate indices t as) (convert_side ls rate indices s)"
proof -
  have form: "\<exists>ks vs. \<forall>as. convert_side ls rate indices s as = Inr (assign_side s ks vs as)" for s
  proof -
    let ?is = "filter (\<lambda>i. side_amount s (ls ! i) > 0) indices"
    show ?thesis
    proof (cases "?is = []")
      case True
      then have "\<forall>as. convert_side ls rate indices s as = Inr (assign_side s [] [] as)"
        by (simp add: convert_side_def)
      then show ?thesis by blast
    next
      case False
      let ?xs = "map (\<lambda>i. side_amount s (ls ! i)) ?is"
      from that [of s "[]"] False obtain m where m: "multiplyByRate (sum_list ?xs) rate = Inr m"
        by (auto simp: convert_side_def Let_def and_then_Inr)
      with that [of s "[]"] False obtain vs where "distribute ?xs m rate = Inr vs"
        by (auto simp: convert_side_def Let_def and_then_Inr)
      with m False have "\<forall>as. convert_side ls rate indices s as = Inr (assign_side s ?is vs as)"
        by (simp add: convert_side_def Let_def)
      then show ?thesis by blast
    qed
  qed
  obtain ks vs js ws where "\<forall>as. convert_side ls rate indices s as = Inr (assign_side s ks vs as)"
    "\<forall>as. convert_side ls rate indices t as = Inr (assign_side t js ws as)"
    using form [of s] form [of t] by blast
  with assms(1) show ?thesis by (simp add: assign_side_commute)
qed

lemma convert_each_swap:
  assumes "set indices \<subseteq> {..<length ls}"
  shows "convert_each (map swap_line ls) indices (map swap_amounts as) =
    map_amounts (convert_each ls indices as)"
  using assms
proof (induction indices arbitrary: as)
  case (Cons i indices)
  have upd: "(map swap_amounts as)[i := \<lparr>fa_debit = c, fa_credit = d\<rparr>] =
      map swap_amounts (as[i := \<lparr>fa_debit = d, fa_credit = c\<rparr>])" for c d
    by (simp add: map_update swap_amounts_def)
  from Cons show ?case
    by (cases "cv_exchangeRate (ls ! i)"; cases "parseRate (the (cv_exchangeRate (ls ! i)))")
      (auto simp: upd multiplyByRate_def Let_def)
qed simp

lemma convertible_swap [simp]: "convertible (map swap_line ls) \<longleftrightarrow> convertible ls"
  by (auto simp: convertible_def)

lemma convert_side_returns:
  assumes "convertible ls" "set indices \<subseteq> {..<length ls}" "is_decimal rate"
  shows "\<exists>as'. convert_side ls rate indices s as = Inr as'"
proof -
  let ?is = "filter (\<lambda>i. side_amount s (ls ! i) > 0) indices"
  let ?xs = "map (\<lambda>i. side_amount s (ls ! i)) ?is"
  show ?thesis
  proof (cases "?is = []")
    case False
    have "\<forall>x \<in> set ?xs. 0 \<le> x" by auto
    moreover from this have "0 \<le> sum_list ?xs" by (intro sum_list_nonneg) blast
    ultimately show ?thesis
      using distribute_spec [OF assms(3), of ?xs] False
      by (auto simp: convert_side_def Let_def multiplyByRate_nonneg assms(3))
  qed (simp add: convert_side_def)
qed

lemma convert_group_swap:
  assumes ls: "convertible ls" and idx: "set indices \<subseteq> {..<length ls}"
    "\<forall>i \<in> set indices. cv_exchangeRate (ls ! i) \<noteq> None"
  shows "convert_group (map swap_line ls) indices (map swap_amounts as) =
    map_amounts (convert_group ls indices as)"
proof -
  have rates: "map (\<lambda>i. cv_exchangeRate (map swap_line ls ! i)) indices = map (\<lambda>i. cv_exchangeRate (ls ! i)) indices"
    using idx(1) by (intro map_cong) auto
  let ?rates = "js_set (map (\<lambda>i. cv_exchangeRate (ls ! i)) indices)"
  consider (many) "length ?rates > 1" | (none) "\<not> length ?rates > 1" "?rates = []"
    | (one) rate where "\<not> length ?rates > 1" "?rates = [rate]"
  proof -
    have "length ?rates > 1 \<or> ?rates = [] \<or> (\<exists>r. ?rates = [r])"
      by (cases ?rates; cases "tl ?rates") simp_all
    then show thesis using many none one by auto
  qed
  then show ?thesis
  proof cases
    case many
    then show ?thesis by (simp add: convert_group_def rates convert_each_swap [OF idx(1)])
  next
    case none
    then show ?thesis by (simp add: convert_group_def rates)
  next
    case (one rate)
    then have "rate \<in> set ?rates" by simp
    then obtain i where i: "i \<in> set indices" "rate = cv_exchangeRate (ls ! i)" by auto
    then obtain r where r: "rate = Some r" using idx(2) by auto
    with i idx(1) have "is_decimal r" using convertible_rate [OF ls, of i r] by auto
    then have ok: "\<exists>as'. convert_side ls r indices s as = Inr as'" for s as
      by (rule convert_side_returns [OF ls idx(1)])
    have "convert_group (map swap_line ls) indices (map swap_amounts as) =
        and_then (convert_side (map swap_line ls) r indices DebitSide (map swap_amounts as))
          (convert_side (map swap_line ls) r indices CreditSide)"
      using one r by (simp add: convert_group_def rates)
    also have "\<dots> = map_amounts (and_then (convert_side ls r indices CreditSide as)
          (convert_side ls r indices DebitSide))"
      using ok [of CreditSide as] by (auto simp: convert_side_swap [OF idx(1)])
    also have "and_then (convert_side ls r indices CreditSide as) (convert_side ls r indices DebitSide) =
        and_then (convert_side ls r indices DebitSide as) (convert_side ls r indices CreditSide)"
      by (rule convert_side_two) (simp, rule ok)
    finally show ?thesis using one r by (simp add: convert_group_def)
  qed
qed

lemma convert_groups_swap:
  assumes "convertible ls"
    "\<forall>g \<in> set gs. set (snd g) \<subseteq> {..<length ls} \<and> (\<forall>i \<in> set (snd g). cv_exchangeRate (ls ! i) \<noteq> None)"
  shows "convert_groups (map swap_line ls) gs (map swap_amounts as) = map_amounts (convert_groups ls gs as)"
  using assms(2)
proof (induction gs arbitrary: as)
  case (Cons g gs)
  then have "convert_group (map swap_line ls) (snd g) (map swap_amounts as) =
      map_amounts (convert_group ls (snd g) as)"
    by (intro convert_group_swap [OF assms(1)]) auto
  with Cons show ?case by (cases "convert_group ls (snd g) as") simp_all
qed simp

lemma foreign_groups_swap: "foreign_groups (map swap_line ls) = foreign_groups ls"
proof -
  have f: "filter (\<lambda>i. cv_exchangeRate (map swap_line ls ! i) \<noteq> None) [0..<length ls] = rated_lines ls"
    by (intro filter_cong) auto
  have g: "filter (\<lambda>i. cv_currency (map swap_line ls ! i) = k) (rated_lines ls) = group_of ls k" for k
    by (rule filter_cong) auto
  have m: "map (\<lambda>i. cv_currency (map swap_line ls ! i)) (rated_lines ls)
      = map (\<lambda>i. cv_currency (ls ! i)) (rated_lines ls)"
    by (rule map_cong) auto
  show ?thesis unfolding foreign_groups_def length_map f group_by_filter g m by (rule refl)
qed

lemma initial_amounts_swap: "initial_amounts (map swap_line ls) = map swap_amounts (initial_amounts ls)"
  by (simp add: initial_amounts_def swap_amounts_def)

lemma convertToFunctional_swap:
  assumes "convertible ls" "convertToFunctional ls = Inr (as, residual)"
  shows "convertToFunctional (map swap_line ls) = Inr (map swap_amounts as, - residual)"
proof -
  have "\<forall>g \<in> set (foreign_groups ls). set (snd g) \<subseteq> {..<length ls} \<and>
      (\<forall>i \<in> set (snd g). cv_exchangeRate (ls ! i) \<noteq> None)"
    using foreign_groups_wf by fastforce
  note swap = convert_groups_swap [OF assms(1) this, of "initial_amounts ls"]
  from assms(2) have groups: "convert_groups ls (foreign_groups ls) (initial_amounts ls) = Inr as"
    and r: "residual = (\<Sum>a\<leftarrow>as. fa_debit a - fa_credit a)"
    by (auto simp: convertToFunctional_def and_then_Inr)
  have "(\<Sum>a\<leftarrow>as. fa_credit a - fa_debit a) = - residual"
    unfolding r by (induction as) auto
  then show ?thesis
    by (simp add: convertToFunctional_def foreign_groups_swap initial_amounts_swap swap groups comp_def)
qed

end
