(* ===== verification/Calendar.thy ===== *)
theory Calendar
  imports Violations
begin

text \<open>
  The part of \<open>Date\<close> the sources use, over UTC days counted from 1970-01-01: \<open>make_day\<close> is the
  \<open>MakeDay\<close> of the language specification (months and days may overflow), \<open>civil_of_day\<close> its inverse and
  \<open>iso_date\<close> is \<open>toISOString().slice(0, 10)\<close>. On top of it the date functions that several components
  share: \<open>isValidDate\<close> of \<^verbatim>\<open>packages/core/src/ledger/validation.ts\<close>, \<open>dueDate\<close> of \<^verbatim>\<open>sales/pricing.ts\<close>
  and \<open>daysBetween\<close> of \<^verbatim>\<open>sales/dunning.ts\<close>.
\<close>

section \<open>Civil dates and day numbers\<close>

definition is_leap :: "int \<Rightarrow> bool" where
  "is_leap y \<longleftrightarrow> y mod 4 = 0 \<and> (y mod 100 \<noteq> 0 \<or> y mod 400 = 0)"

definition day_from_year :: "int \<Rightarrow> int" where
  "day_from_year y =
     365 * (y - 1970) + (y - 1969) div 4 - (y - 1901) div 100 + (y - 1601) div 400"

definition month_lengths :: "int \<Rightarrow> int list" where
  "month_lengths y = [31, if is_leap y then 29 else 28, 31, 30, 31, 30, 31, 31, 30, 31, 30, 31]"

definition days_in_month :: "int \<Rightarrow> nat \<Rightarrow> int" where
  "days_in_month y m = month_lengths y ! (m - 1)"

text \<open>Month 0 is January, as in \<open>Date.UTC\<close>; a month outside 0..11 moves the year.\<close>

definition make_day :: "int \<Rightarrow> int \<Rightarrow> int \<Rightarrow> int" where
  "make_day y m d = (let ym = y + m div 12; mn = nat (m mod 12)
     in day_from_year ym + sum_list (take mn (month_lengths ym)) + d - 1)"

lemma div_bounds_int:
  fixes x k :: int
  assumes "0 < k"
  shows "k * (x div k) \<le> x" "x < k * (x div k) + k"
proof -
  have "x = k * (x div k) + x mod k" "0 \<le> x mod k" "x mod k < k" using assms by simp_all
  then show "k * (x div k) \<le> x" "x < k * (x div k) + k" by linarith+
qed

lemma div_Suc_int:
  fixes x k :: int
  assumes "0 < k"
  shows "(x + 1) div k = x div k + (if (x + 1) mod k = 0 then 1 else 0)"
proof -
  have x: "x = k * (x div k) + x mod k" and r: "0 \<le> x mod k" "x mod k < k"
    using assms by simp_all
  show ?thesis
  proof (cases "x mod k + 1 < k")
    case True
    have "(x + 1) div k = x div k" "(x + 1) mod k = x mod k + 1"
      using x r True by (intro int_div_pos_eq [of _ k _ "x mod k + 1"] int_mod_pos_eq [of _ k "x div k"]; simp)+
    with r show ?thesis by simp
  next
    case False
    then have "x mod k = k - 1" using r by simp
    then have eq: "x + 1 = k * (x div k + 1) + 0" using x by (simp add: distrib_left)
    have "(x + 1) div k = x div k + 1" "(x + 1) mod k = 0"
      using assms eq by (intro int_div_pos_eq [of _ k _ 0] int_mod_pos_eq [of _ k "x div k + 1"]; simp)+
    then show ?thesis by simp
  qed
qed

lemma mod_nested:
  fixes y :: int
  assumes "m dvd n" "y mod n = 0"
  shows "y mod m = 0"
  using mod_mod_cancel [OF assms(1), of y] by (simp only: assms(2) mod_0)

lemma mod_shift: "x = y + n * q \<Longrightarrow> x mod n = y mod n" for x y n q :: int
  by (simp only: mod_mult_self2)

lemma leap_count:
  fixes a b c :: int
  assumes "a' = a + (if P then 1 else 0)" "b' = b + (if Q then 1 else 0)"
    "c' = c + (if R then 1 else 0)" "R \<Longrightarrow> Q" "Q \<Longrightarrow> P"
  shows "a' - b' + c' = a - b + c + (if P \<and> (\<not> Q \<or> R) then 1 else 0)"
  using assms by (cases P; cases Q; cases R; simp)

lemma day_from_year_Suc:
  "day_from_year (y + 1) = day_from_year y + 365 + (if is_leap y then 1 else 0)"
proof -
  have shift: "(y - 1968) mod 4 = y mod 4" "(y - 1900) mod 100 = y mod 100" "(y - 1600) mod 400 = y mod 400"
    by (rule mod_shift [of _ _ _ "- 492"], simp, rule mod_shift [of _ _ _ "- 19"], simp, rule mod_shift [of _ _ _ "- 4"], simp)
  have step: "y - 1969 + 1 = y - 1968" "y - 1901 + 1 = y - 1900" "y - 1601 + 1 = y - 1600" by simp_all
  have nested: "y mod 400 = 0 \<Longrightarrow> y mod 100 = 0" "y mod 100 = 0 \<Longrightarrow> y mod 4 = 0"
    by (rule mod_nested [of 100 400], simp, assumption) (rule mod_nested [of 4 100], simp, assumption)
  have leaps: "(y - 1968) div 4 - (y - 1900) div 100 + (y - 1600) div 400 =
      (y - 1969) div 4 - (y - 1901) div 100 + (y - 1601) div 400 + (if is_leap y then 1 else 0)"
    unfolding is_leap_def
    by (rule leap_count
        [OF div_Suc_int [where x = "y - 1969" and k = 4, OF zero_less_numeral, unfolded step shift]
          div_Suc_int [where x = "y - 1901" and k = 100, OF zero_less_numeral, unfolded step shift]
          div_Suc_int [where x = "y - 1601" and k = 400, OF zero_less_numeral, unfolded step shift]
          nested])
  have next_year: "y + 1 - 1969 = y - 1968" "y + 1 - 1901 = y - 1900" "y + 1 - 1601 = y - 1600"
    by simp_all
  have regroup: "q + a - b + c = q + (a - b + c)" for q a b c :: int by simp
  have "365 * (y + 1 - 1970) + (s + l) = 365 * (y - 1970) + s + 365 + l" for s l :: int by simp
  then show ?thesis unfolding day_from_year_def regroup next_year leaps by this
qed

lemma day_from_year_less: "day_from_year y < day_from_year (y + 1)"
  by (simp add: day_from_year_Suc)

lemma day_from_year_mono: "y \<le> z \<Longrightarrow> day_from_year y \<le> day_from_year z"
proof (induction "nat (z - y)" arbitrary: z)
  case 0
  then show ?case by simp
next
  case (Suc n)
  then have "day_from_year y \<le> day_from_year (z - 1)" by auto
  with day_from_year_less [of "z - 1"] show ?case by simp
qed

text \<open>The year of a day: from an estimate that is never too late, step forward.\<close>

function year_search :: "int \<Rightarrow> int \<Rightarrow> int" where
  "year_search y d = (if day_from_year (y + 1) \<le> d then year_search (y + 1) d else y)"
  by pat_completeness auto
termination
proof (relation "measure (\<lambda>(y, d). nat (d - day_from_year y))")
  fix y d
  assume "day_from_year (y + 1) \<le> d"
  with day_from_year_less [of y] show "((y + 1, d), y, d) \<in> measure (\<lambda>(y, d). nat (d - day_from_year y))"
    by simp
qed simp

declare year_search.simps [simp del]

definition year_of_day :: "int \<Rightarrow> int" where
  "year_of_day d = year_search (1970 + (if d < 0 then d div 365 else d div 366)) d"

lemma year_search_correct:
  "day_from_year y \<le> d \<Longrightarrow>
   day_from_year (year_search y d) \<le> d \<and> d < day_from_year (year_search y d + 1)"
proof (induction y d rule: year_search.induct)
  case (1 y d)
  show ?case
  proof (cases "day_from_year (y + 1) \<le> d")
    case True
    with "1.IH" show ?thesis by (simp add: year_search.simps [of y d])
  next
    case False
    with "1.prems" show ?thesis by (simp add: year_search.simps [of y d])
  qed
qed

lemma leap_days_bound:
  fixes n :: int
  shows "400 * ((n + 1) div 4 - (n + 69) div 100 + (n + 369) div 400) \<le> 97 * n + 589"
proof -
  have "400 * (a - b + c) \<le> 97 * n + 589"
    if "4 * a \<le> n + 1" "n + 69 < 100 * b + 100" "400 * c \<le> n + 369" for a b c :: int
    using that by simp
  then show ?thesis using div_bounds_int by simp
qed

lemma year_start_estimate:
  "day_from_year (1970 + (if d < 0 then d div 365 else d div 366)) \<le> d"
proof (cases "d < 0")
  case True
  have "(n + 1) div 4 - (n + 69) div 100 + (n + 369) div 400 \<le> 0" if "n < 0" for n :: int
  proof (cases "n < - 6")
    case True
    with leap_days_bound [of n] show ?thesis by linarith
  next
    case False
    with that have "n \<in> {- 6, - 5, - 4, - 3, - 2, - 1}" by auto
    then show ?thesis by auto
  qed
  from this [of "d div 365"] True have "day_from_year (1970 + d div 365) \<le> 365 * (d div 365)"
    by (simp add: day_from_year_def add.commute)
  also have "\<dots> \<le> d" by (rule div_bounds_int) simp
  finally show ?thesis using True by simp
next
  case False
  have "(n + 1) div 4 - (n + 69) div 100 + (n + 369) div 400 \<le> n" if "0 \<le> n" for n :: int
  proof (cases "n < 2")
    case True
    with that have "n \<in> {0, 1}" by auto
    then show ?thesis by auto
  next
    case False
    with leap_days_bound [of n] show ?thesis by linarith
  qed
  from this [of "d div 366"] False have "day_from_year (1970 + d div 366) \<le> 366 * (d div 366)"
    by (simp add: day_from_year_def pos_imp_zdiv_nonneg_iff add.commute)
  also have "\<dots> \<le> d" by (rule div_bounds_int) simp
  finally show ?thesis using False by simp
qed

lemma year_of_day_bounds:
  "day_from_year (year_of_day d) \<le> d" "d < day_from_year (year_of_day d + 1)"
  using year_search_correct [OF year_start_estimate] by (simp_all add: year_of_day_def)

lemma year_of_day_unique: "day_from_year y \<le> d \<Longrightarrow> d < day_from_year (y + 1) \<Longrightarrow> year_of_day d = y"
  using year_of_day_bounds [of d] day_from_year_mono [of "y + 1" "year_of_day d"]
    day_from_year_mono [of "year_of_day d + 1" y] by linarith

text \<open>The month and day within the year: walk over the month lengths.\<close>

fun month_walk :: "int list \<Rightarrow> nat \<Rightarrow> int \<Rightarrow> nat \<times> int" where
  "month_walk [] m r = (m, r)"
| "month_walk (l # ls) m r = (if r < l then (m, r) else month_walk ls (Suc m) (r - l))"

definition civil_of_day :: "int \<Rightarrow> int \<times> nat \<times> int" where
  "civil_of_day d =
     (let y = year_of_day d; (m, r) = month_walk (month_lengths y) 1 (d - day_from_year y)
      in (y, m, r + 1))"

definition valid_civil :: "int \<Rightarrow> nat \<Rightarrow> int \<Rightarrow> bool" where
  "valid_civil y m d \<longleftrightarrow> 1 \<le> m \<and> m \<le> 12 \<and> 1 \<le> d \<and> d \<le> days_in_month y m"

lemma month_walk_take:
  "i < length ls \<Longrightarrow> 0 \<le> r \<Longrightarrow> r < ls ! i \<Longrightarrow> (\<forall>l \<in> set ls. 0 < l) \<Longrightarrow>
   month_walk ls m (sum_list (take i ls) + r) = (m + i, r)"
proof (induction ls arbitrary: i m)
  case Nil
  then show ?case by simp
next
  case (Cons l ls)
  show ?case
  proof (cases i)
    case 0
    with Cons.prems show ?thesis by simp
  next
    case (Suc j)
    have "0 \<le> sum_list (take j ls)"
      using Cons.prems(4) by (intro sum_list_nonneg) (auto dest!: in_set_takeD intro: less_imp_le)
    with Cons Suc show ?thesis by (auto simp: add.assoc)
  qed
qed

lemma sum_month_lengths: "sum_list (month_lengths y) = 365 + (if is_leap y then 1 else 0)"
  by (simp add: month_lengths_def)

lemma month_lengths_pos: "\<forall>l \<in> set (month_lengths y). 0 < l"
  by (simp add: month_lengths_def)

lemma length_month_lengths [simp]: "length (month_lengths y) = 12"
  by (simp add: month_lengths_def)

lemma day_in_year:
  assumes "valid_civil y m d"
  shows "0 \<le> sum_list (take (m - 1) (month_lengths y)) + (d - 1)"
    and "sum_list (take (m - 1) (month_lengths y)) + (d - 1) < 365 + (if is_leap y then 1 else 0)"
proof -
  let ?l = "month_lengths y"
  have m: "m - 1 < length ?l" using assms by (auto simp: valid_civil_def)
  have "0 \<le> sum_list (take (m - 1) ?l)" "0 \<le> sum_list (drop (Suc (m - 1)) ?l)"
    using month_lengths_pos [of y]
    by (auto intro!: sum_list_nonneg dest!: in_set_takeD in_set_dropD intro: less_imp_le)
  moreover have "sum_list ?l = sum_list (take (m - 1) ?l) + ?l ! (m - 1) + sum_list (drop (Suc (m - 1)) ?l)"
    by (subst id_take_nth_drop [OF m]) (simp add: add.assoc)
  ultimately show "0 \<le> sum_list (take (m - 1) ?l) + (d - 1)"
    "sum_list (take (m - 1) ?l) + (d - 1) < 365 + (if is_leap y then 1 else 0)"
    using assms sum_month_lengths [of y] by (auto simp: valid_civil_def days_in_month_def)
qed

lemma make_day_civil:
  "valid_civil y m d \<Longrightarrow>
   make_day y (int m - 1) d = day_from_year y + sum_list (take (m - 1) (month_lengths y)) + d - 1"
  by (auto simp: make_day_def valid_civil_def Let_def nat_diff_distrib)

lemma civil_of_make_day: "valid_civil y m d \<Longrightarrow> civil_of_day (make_day y (int m - 1) d) = (y, m, d)"
proof -
  assume v: "valid_civil y m d"
  let ?n = "sum_list (take (m - 1) (month_lengths y)) + (d - 1)"
  have day: "make_day y (int m - 1) d = day_from_year y + ?n" using make_day_civil [OF v] by simp
  have year: "year_of_day (make_day y (int m - 1) d) = y"
    using day_in_year [OF v] by (intro year_of_day_unique) (simp_all add: day day_from_year_Suc)
  have "month_walk (month_lengths y) 1 ?n = (1 + (m - 1), d - 1)"
    using v month_lengths_pos [of y]
    by (intro month_walk_take) (auto simp: valid_civil_def days_in_month_def)
  with v have "month_walk (month_lengths y) 1 (make_day y (int m - 1) d - day_from_year y) = (m, d - 1)"
    by (simp add: day valid_civil_def)
  then show ?thesis by (simp add: civil_of_day_def year Let_def)
qed

lemma month_walk_split:
  assumes "0 \<le> r" "r < sum_list ls"
  obtains i where "i < length ls" "month_walk ls m r = (m + i, r - sum_list (take i ls))"
    "0 \<le> r - sum_list (take i ls)" "r - sum_list (take i ls) < ls ! i"
  using assms
proof (induction ls arbitrary: m r thesis)
  case Nil
  then show ?case by simp
next
  case (Cons l ls)
  show ?case
  proof (cases "r < l")
    case True
    with Cons.prems show ?thesis by (intro Cons.prems(1) [of 0]) auto
  next
    case False
    with Cons.prems have "0 \<le> r - l" "r - l < sum_list ls" by auto
    then obtain i where "i < length ls" "month_walk ls (Suc m) (r - l) = (Suc m + i, r - l - sum_list (take i ls))"
      "0 \<le> r - l - sum_list (take i ls)" "r - l - sum_list (take i ls) < ls ! i"
      using Cons.IH [where m = "Suc m" and r = "r - l"] by metis
    with False show ?thesis by (intro Cons.prems(1) [of "Suc i"]) (auto simp: algebra_simps)
  qed
qed

lemma civil_of_day_cases:
  obtains y m d where "civil_of_day n = (y, m, d)" "valid_civil y m d" "make_day y (int m - 1) d = n"
proof -
  define y where "y = year_of_day n"
  define r where "r = n - day_from_year y"
  have "0 \<le> r" "r < sum_list (month_lengths y)"
    using year_of_day_bounds [of n] by (simp_all add: r_def y_def day_from_year_Suc sum_month_lengths)
  then obtain i where i: "i < length (month_lengths y)"
      "month_walk (month_lengths y) 1 r = (1 + i, r - sum_list (take i (month_lengths y)))"
      "0 \<le> r - sum_list (take i (month_lengths y))" "r - sum_list (take i (month_lengths y)) < month_lengths y ! i"
    by (rule month_walk_split)
  let ?d = "r - sum_list (take i (month_lengths y)) + 1"
  have v: "valid_civil y (1 + i) ?d" using i by (simp add: valid_civil_def days_in_month_def)
  moreover have "civil_of_day n = (y, 1 + i, ?d)"
    using i(2) by (simp add: civil_of_day_def Let_def flip: y_def r_def)
  moreover have "make_day y (int (1 + i) - 1) ?d = n"
    using make_day_civil [OF v] by (simp add: r_def)
  ultimately show ?thesis using that by blast
qed

section \<open>Dates as strings\<close>

definition iso_year :: "int \<Rightarrow> string" where
  "iso_year y = (if 0 \<le> y \<and> y \<le> 9999 then pad_start 4 CHR ''0'' (nat_to_string (nat y))
     else (if y < 0 then CHR ''-'' else CHR ''+'') # pad_start 6 CHR ''0'' (nat_to_string (nat \<bar>y\<bar>)))"

definition pad2 :: "nat \<Rightarrow> string" where
  "pad2 n = pad_start 2 CHR ''0'' (nat_to_string n)"

definition iso_string :: "int \<Rightarrow> nat \<Rightarrow> int \<Rightarrow> string" where
  "iso_string y m d = iso_year y @ CHR ''-'' # pad2 m @ CHR ''-'' # pad2 (nat d)"

text \<open>\<open>date.toISOString().slice(0, 10)\<close>.\<close>

definition iso_date :: "int \<Rightarrow> string" where
  "iso_date n = (case civil_of_day n of (y, m, d) \<Rightarrow> take 10 (iso_string y m d))"

text \<open>The pattern \<open>^\d{4}-\d{2}-\d{2}$\<close>.\<close>

definition is_date_shaped :: "string \<Rightarrow> bool" where
  "is_date_shaped s \<longleftrightarrow> length s = 10 \<and> list_all is_digit (take 4 s) \<and> s ! 4 = CHR ''-'' \<and>
     list_all is_digit (take 2 (drop 5 s)) \<and> s ! 7 = CHR ''-'' \<and> list_all is_digit (drop 8 s)"

text \<open>
  \<open>Date.parse\<close> of \<open>s\<close> followed by \<open>T00:00:00Z\<close>, as a day number; \<open>None\<close> is the invalid date. Months
  outside 1..12 and days outside 1..31 are invalid; a day past the end of its month rolls over. A string
  of another shape is invalid in the model.
\<close>

definition date_parse :: "string \<Rightarrow> int option" where
  "date_parse s =
     (if is_date_shaped s then
        let y = digits_value (take 4 s); m = digits_value (take 2 (drop 5 s)); d = digits_value (drop 8 s)
        in if 1 \<le> m \<and> m \<le> 12 \<and> 1 \<le> d \<and> d \<le> 31 then Some (make_day (int y) (int m - 1) (int d)) else None
      else None)"

definition isValidDate :: "string \<Rightarrow> bool" where
  "isValidDate s \<longleftrightarrow> is_date_shaped s \<and>
     (case date_parse s of None \<Rightarrow> False | Some n \<Rightarrow> iso_date n = s)"

text \<open>
  \<open>dueDate\<close>: the date with a number of days added; \<open>toISOString\<close> of an invalid date is a \<open>RangeError\<close>,
  and a date is invalid more than a hundred million days from 1970.
\<close>

definition dueDate :: "string \<Rightarrow> int \<Rightarrow> thrown + string" where
  "dueDate issueDate paymentTermsDays =
     (case date_parse issueDate of
        None \<Rightarrow> Inl RangeError
      | Some n \<Rightarrow> if \<bar>n + paymentTermsDays\<bar> \<le> 100000000 then Inr (iso_date (n + paymentTermsDays))
                  else Inl RangeError)"

text \<open>\<open>daysBetween\<close>: \<open>None\<close> is \<open>NaN\<close>.\<close>

definition daysBetween :: "string \<Rightarrow> string \<Rightarrow> int option" where
  "daysBetween frm until =
     (case date_parse until of None \<Rightarrow> None
      | Some b \<Rightarrow> (case date_parse frm of None \<Rightarrow> None | Some a \<Rightarrow> Some (b - a)))"

lemma nat_to_string_length: "0 < k \<Longrightarrow> n < 10 ^ k \<Longrightarrow> length (nat_to_string n) \<le> k"
proof (induction n arbitrary: k rule: nat_to_string.induct)
  case (1 n)
  show ?case
  proof (cases "n < 10")
    case True
    with 1 show ?thesis by (simp add: nat_to_string.simps [of n])
  next
    case False
    with "1.prems" have "k \<noteq> 1" by auto
    with "1.prems" obtain j where j: "k = Suc j" "0 < j" by (cases k) auto
    then have "n div 10 < 10 ^ j" using "1.prems" by (simp add: less_mult_imp_div_less mult.commute)
    with "1.IH" [OF False, of j] j False show ?thesis by (simp add: nat_to_string.simps [of n])
  qed
qed

lemma length_pad_exact: "0 < k \<Longrightarrow> n < 10 ^ k \<Longrightarrow> length (pad_start k CHR ''0'' (nat_to_string n)) = k"
  using nat_to_string_length [of k n] by simp

lemma length_pad2 [simp]: "n < 100 \<Longrightarrow> length (pad2 n) = 2"
  using length_pad_exact [of 2 n] by (simp add: pad2_def)

lemma length_iso_year [simp]: "0 \<le> y \<Longrightarrow> y \<le> 9999 \<Longrightarrow> length (iso_year y) = 4"
  using length_pad_exact [of 4 "nat y"] by (simp add: iso_year_def)

text \<open>A padded number is the only digit string of its length with its value.\<close>

lemma pad_digits_value:
  assumes "list_all is_digit s" "length s = k" "0 < k"
  shows "pad_start k CHR ''0'' (nat_to_string (digits_value s)) = s"
proof -
  have "digits_value s < 10 ^ k" using digits_value_bound [OF assms(1)] assms(2) by simp
  then have "length (pad_start k CHR ''0'' (nat_to_string (digits_value s))) = length s"
    using length_pad_exact assms by simp
  then show ?thesis using assms(1) by (subst digits_value_eq_iff [symmetric]) simp_all
qed

lemma valid_civil_bounds: "valid_civil y m d \<Longrightarrow> 1 \<le> m \<and> m \<le> 12 \<and> 1 \<le> d \<and> d \<le> 31"
proof -
  assume v: "valid_civil y m d"
  then have "days_in_month y m \<in> set (month_lengths y)"
    unfolding days_in_month_def by (intro nth_mem) (auto simp: valid_civil_def)
  then have "days_in_month y m \<le> 31" by (auto simp: month_lengths_def split: if_splits)
  with v show ?thesis by (simp add: valid_civil_def)
qed

lemma iso_string_parts:
  assumes "0 \<le> y" "y \<le> 9999" "m < 100" "0 \<le> d" "d < 100"
  shows "is_date_shaped (iso_string y m d)"
    and "digits_value (take 4 (iso_string y m d)) = nat y"
    and "digits_value (take 2 (drop 5 (iso_string y m d))) = m"
    and "digits_value (drop 8 (iso_string y m d)) = nat d"
    and "take 10 (iso_string y m d) = iso_string y m d"
proof -
  define a where "a = iso_year y"
  define b where "b = pad2 m"
  define c where "c = pad2 (nat d)"
  have len: "length a = 4" "length b = 2" "length c = 2"
    using assms by (simp_all add: a_def b_def c_def)
  have digits: "list_all is_digit a" "list_all is_digit b" "list_all is_digit c"
    using assms by (simp_all add: a_def b_def c_def iso_year_def pad2_def)
  have vals: "digits_value a = nat y" "digits_value b = m" "digits_value c = nat d"
    using assms by (simp_all add: a_def b_def c_def iso_year_def pad2_def)
  have eq: "iso_string y m d = a @ CHR ''-'' # b @ CHR ''-'' # c"
    by (simp add: iso_string_def a_def b_def c_def)
  show "is_date_shaped (iso_string y m d)"
    unfolding is_date_shaped_def eq using len digits by (simp add: nth_append)
  show "digits_value (take 4 (iso_string y m d)) = nat y"
    "digits_value (take 2 (drop 5 (iso_string y m d))) = m"
    "digits_value (drop 8 (iso_string y m d)) = nat d"
    "take 10 (iso_string y m d) = iso_string y m d"
    unfolding eq using len by (simp_all add: vals)
qed

lemma date_shaped_iso:
  assumes "is_date_shaped s"
  shows "s = iso_string (int (digits_value (take 4 s))) (digits_value (take 2 (drop 5 s)))
           (int (digits_value (drop 8 s)))"
proof -
  have "digits_value (take 4 s) < 10 ^ 4"
    using assms digits_value_bound [of "take 4 s"] by (simp add: is_date_shaped_def)
  then have year: "iso_year (int (digits_value (take 4 s))) = take 4 s"
    using assms pad_digits_value [of "take 4 s" 4] by (simp add: iso_year_def is_date_shaped_def)
  have "s = take 4 s @ s ! 4 # take 2 (drop 5 s) @ s ! 7 # drop 8 s"
    using assms unfolding is_date_shaped_def
    by (intro nth_equalityI) (auto simp: nth_append nth_Cons' less_Suc_eq numeral_eq_Suc)
  then show ?thesis
    using assms year pad_digits_value [of "take 2 (drop 5 s)" 2] pad_digits_value [of "drop 8 s" 2]
    by (simp add: iso_string_def pad2_def is_date_shaped_def)
qed

lemma iso_date_make_day:
  "valid_civil y m d \<Longrightarrow> 0 \<le> y \<Longrightarrow> y \<le> 9999 \<Longrightarrow> iso_date (make_day y (int m - 1) d) = iso_string y m d"
  using valid_civil_bounds [of y m d] iso_string_parts(5) [of y m d]
  by (simp add: iso_date_def civil_of_make_day)

lemma date_parse_iso:
  "valid_civil y m d \<Longrightarrow> 0 \<le> y \<Longrightarrow> y \<le> 9999 \<Longrightarrow>
   date_parse (iso_string y m d) = Some (make_day y (int m - 1) d)"
  using valid_civil_bounds [of y m d] iso_string_parts(1-4) [of y m d]
  by (simp add: date_parse_def nat_le_iff le_nat_iff)

lemma iso_date_unshaped:
  assumes "civil_of_day n = (y, m, d)" "\<not> (0 \<le> y \<and> y \<le> 9999)"
  shows "\<not> is_date_shaped (iso_date n)"
proof
  assume "is_date_shaped (iso_date n)"
  then have "list_all is_digit (take 4 (iso_date n))" by (simp add: is_date_shaped_def)
  moreover have "take 4 (iso_date n) \<noteq> [] \<and> hd (take 4 (iso_date n)) \<in> {CHR ''-'', CHR ''+''}"
    using assms by (auto simp: iso_date_def iso_string_def iso_year_def)
  ultimately show False by (cases "take 4 (iso_date n)") auto
qed

lemma isValidDate_civil:
  "isValidDate s \<longleftrightarrow> (\<exists>y m d. 0 \<le> y \<and> y \<le> 9999 \<and> valid_civil y m d \<and> s = iso_string y m d)"
proof
  assume valid: "isValidDate s"
  then obtain n where n: "date_parse s = Some n" "iso_date n = s" "is_date_shaped s"
    by (auto simp: isValidDate_def split: option.splits)
  obtain y m d where civil: "civil_of_day n = (y, m, d)" "valid_civil y m d" by (rule civil_of_day_cases)
  have range: "0 \<le> y \<and> y \<le> 9999" using iso_date_unshaped [OF civil(1)] n by auto
  then have "s = iso_string y m d"
    using valid_civil_bounds [OF civil(2)] iso_string_parts(5) [of y m d] n(2) civil(1)
    by (simp add: iso_date_def)
  with range civil(2) show "\<exists>y m d. 0 \<le> y \<and> y \<le> 9999 \<and> valid_civil y m d \<and> s = iso_string y m d" by blast
next
  assume "\<exists>y m d. 0 \<le> y \<and> y \<le> 9999 \<and> valid_civil y m d \<and> s = iso_string y m d"
  then obtain y m d where ymd: "0 \<le> y" "y \<le> 9999" "valid_civil y m d" "s = iso_string y m d" by blast
  then show "isValidDate s"
    using valid_civil_bounds [of y m d] iso_string_parts(1) [of y m d]
    by (simp add: isValidDate_def date_parse_iso iso_date_make_day)
qed

text \<open>
  a booking or document date is accepted exactly when it spells, in the one canonical way, a day the
  calendar has, in a year from 0000 to 9999: leap days included, 2026-02-30 and 2026-2-3 not.
\<close>

theorem isValidDate_iff_calendar_day:
  "isValidDate s \<longleftrightarrow> (\<exists>y m d. 0 \<le> y \<and> y \<le> 9999 \<and> valid_civil y m d \<and> s = iso_string y m d)"
  by (rule isValidDate_civil)

lemma date_parse_iso_date:
  assumes "0 \<le> y" "y \<le> 9999" "civil_of_day n = (y, m, d)"
  shows "date_parse (iso_date n) = Some n" "isValidDate (iso_date n)"
proof -
  have v: "valid_civil y m d" "make_day y (int m - 1) d = n"
    using assms(3) by (rule_tac n = n in civil_of_day_cases; simp)+
  then have "iso_date n = iso_string y m d" using iso_date_make_day assms(1,2) by metis
  with v assms show "date_parse (iso_date n) = Some n" "isValidDate (iso_date n)"
    by (auto simp: date_parse_iso isValidDate_civil)
qed

text \<open>The last day the four-digit years reach, and the first.\<close>

definition in_four_digit_years :: "int \<Rightarrow> bool" where
  "in_four_digit_years n \<longleftrightarrow> day_from_year 0 \<le> n \<and> n < day_from_year 10000"

lemma four_digit_year: "in_four_digit_years n \<Longrightarrow> 0 \<le> year_of_day n \<and> year_of_day n \<le> 9999"
  using year_of_day_bounds [of n] day_from_year_mono [of 10000 "year_of_day n"]
    day_from_year_mono [of "year_of_day n + 1" 0]
  by (fastforce simp: in_four_digit_years_def)

text \<open>
  a due date is exactly as many days after the issue date as the payment terms say, across month
  ends, year ends and leap days, and is itself a valid date.
\<close>

theorem dueDate_adds_days:
  assumes "date_parse issued = Some n" "in_four_digit_years (n + terms)"
  shows "\<exists>due. dueDate issued terms = Inr due \<and> isValidDate due \<and> daysBetween issued due = Some terms"
proof -
  obtain y m d where civil: "civil_of_day (n + terms) = (y, m, d)" by (cases "civil_of_day (n + terms)")
  then have "y = year_of_day (n + terms)" by (simp add: civil_of_day_def Let_def split: prod.splits)
  then have y: "0 \<le> y" "y \<le> 9999" using four_digit_year [OF assms(2)] by simp_all
  have "\<bar>n + terms\<bar> \<le> 100000000"
    using assms(2) unfolding in_four_digit_years_def by (simp add: day_from_year_def abs_le_iff)
  with date_parse_iso_date [OF y civil] assms(1) show ?thesis
    by (simp add: dueDate_def daysBetween_def)
qed

theorem dueDate_adds_days_witness:
  "\<exists>due. dueDate ''2024-01-31'' 30 = Inr due \<and> isValidDate due \<and> daysBetween ''2024-01-31'' due = Some 30"
proof (rule dueDate_adds_days)
  show "date_parse ''2024-01-31'' = Some 19753" by code_simp
  show "in_four_digit_years (19753 + 30)" by code_simp
qed

end
