(* ===== verification/Ledger_Validation.thy ===== *)
theory Ledger_Validation
  imports Ledger_Types Ledger_Currency Calendar
begin

text \<open>
  \<^verbatim>\<open>packages/core/src/ledger/validation.ts\<close>: the posting rules that need no database. \<open>isValidDate\<close> of
  the same file is in the theory \<open>Calendar\<close>. Each check returns the violations it found, in the order
  of the source, with the path of the field at fault.
\<close>

section \<open>Exchange rates\<close>

definition isValidExchangeRate :: "string \<Rightarrow> bool" where
  "isValidExchangeRate s \<longleftrightarrow> is_decimal s \<and> (\<exists>c \<in> set s. is_digit c \<and> c \<noteq> CHR ''0'')"

definition strip_trailing_zeros :: "string \<Rightarrow> string" where
  "strip_trailing_zeros s = rev (dropWhile (\<lambda>c. c = CHR ''0'') (rev s))"

text \<open>\<open>BigInt\<close> throws a \<open>SyntaxError\<close> on what is no integer, and nothing here catches it.\<close>

definition normaliseDecimal :: "string \<Rightarrow> thrown + string" where
  "normaliseDecimal s =
     (if CHR ''.'' \<notin> set s then
        (case BigInt s of None \<Rightarrow> Inl SyntaxError | Some n \<Rightarrow> Inr (int_to_string n))
      else
        let parts = split_on CHR ''.'' s;
            whole = item_or parts 0 ''0'';
            trimmed = strip_trailing_zeros (item_or parts 1 [])
        in (case BigInt whole of
              None \<Rightarrow> Inl SyntaxError
            | Some n \<Rightarrow> Inr (if trimmed = [] then int_to_string n
                             else int_to_string n @ CHR ''.'' # trimmed)))"

section \<open>Balance\<close>

record currency_amounts =
  ca_currency :: string
  ca_debit :: int
  ca_credit :: int

text \<open>A \<open>Map\<close> from currency to total, in the order the currencies first appear.\<close>

fun balance_loop :: "(string \<times> int) list \<Rightarrow> currency_amounts list \<Rightarrow> (string \<times> int) list" where
  "balance_loop totals [] = totals"
| "balance_loop totals (l # ls) =
     balance_loop
       (AList.update (ca_currency l)
          ((case map_of totals (ca_currency l) of None \<Rightarrow> 0 | Some t \<Rightarrow> t) + ca_debit l - ca_credit l)
          totals) ls"

definition balanceByCurrency :: "currency_amounts list \<Rightarrow> (string \<times> int) list" where
  "balanceByCurrency ls = balance_loop [] ls"

definition functionalBalance :: "posted_line list \<Rightarrow> int" where
  "functionalBalance ls = sum_list (map (\<lambda>l. pl_functionalDebit l - pl_functionalCredit l) ls)"

section \<open>Lines and commands\<close>

fun validate_dimensions_loop ::
  "string \<Rightarrow> string list \<Rightarrow> dimension_assignment list \<Rightarrow> ledger_violation list" where
  "validate_dimensions_loop path seen [] = []"
| "validate_dimensions_loop path seen (d # ds) =
     (if da_typeCode d \<in> set seen
      then [violation ''duplicate_dimension_type'' (Some (path @ ''.dimensions''))
              (Some [(''dimensionType'', da_typeCode d)])]
      else [])
     @ validate_dimensions_loop path (da_typeCode d # seen) ds"

definition validateDimensions :: "dimension_assignment list \<Rightarrow> string \<Rightarrow> ledger_violation list" where
  "validateDimensions ds path = validate_dimensions_loop path [] ds"

definition line_path :: "nat \<Rightarrow> string" where
  "line_path index = ''lines.'' @ nat_to_string index"

definition effective_currency :: "string \<Rightarrow> journal_line_input \<Rightarrow> string" where
  "effective_currency functionalCurrency l =
     (case li_currency l of None \<Rightarrow> functionalCurrency | Some c \<Rightarrow> c)"

definition validate_rate :: "journal_line_input \<Rightarrow> string \<Rightarrow> string \<Rightarrow> ledger_violation list" where
  "validate_rate l path functionalCurrency =
     (let currency = effective_currency functionalCurrency l; ratePath = Some (path @ ''.exchangeRate'') in
      if currency = functionalCurrency then
        (if li_exchangeRate l \<noteq> None
         then [violation ''unexpected_exchange_rate'' ratePath
                 (Some [(''functionalCurrency'', functionalCurrency)])]
         else [])
      else (case li_exchangeRate l of
          None \<Rightarrow> [violation ''missing_exchange_rate'' ratePath
             (Some [(''currency'', currency), (''functionalCurrency'', functionalCurrency)])]
        | Some rate \<Rightarrow>
            (if \<not> isValidExchangeRate rate
             then [violation ''invalid_exchange_rate.exchange_rate_positive'' ratePath
                     (Some [(''value'', rate)])]
             else [])))"

definition validateLine :: "journal_line_input \<Rightarrow> nat \<Rightarrow> string \<Rightarrow> ledger_violation list" where
  "validateLine l index functionalCurrency =
     (let path = line_path index in
      (if li_debit l < 0 \<or> li_credit l < 0
       then [violation ''line_negative_amount.amounts_unsigned'' (Some path) None] else [])
      @ (if li_debit l > 0 \<and> li_credit l > 0
         then [violation ''line_debit_and_credit'' (Some path) None] else [])
      @ (if li_debit l = 0 \<and> li_credit l = 0
         then [violation ''line_no_amount.line_amount_posts'' (Some path) None] else [])
      @ validate_rate l path functionalCurrency
      @ validateDimensions (li_dimensions l) path)"

fun validate_lines_from :: "nat \<Rightarrow> string \<Rightarrow> journal_line_input list \<Rightarrow> ledger_violation list" where
  "validate_lines_from index functionalCurrency [] = []"
| "validate_lines_from index functionalCurrency (l # ls) =
     validateLine l index functionalCurrency
     @ validate_lines_from (Suc index) functionalCurrency ls"

definition command_amounts :: "string \<Rightarrow> journal_line_input list \<Rightarrow> currency_amounts list" where
  "command_amounts functionalCurrency ls =
     map (\<lambda>l. \<lparr>ca_currency = effective_currency functionalCurrency l,
                ca_debit = li_debit l, ca_credit = li_credit l\<rparr>) ls"

definition validateCommandShape :: "post_command \<Rightarrow> string \<Rightarrow> ledger_violation list" where
  "validateCommandShape command functionalCurrency =
     (let violations =
        (if \<not> isValidDate (cmd_bookingDate command)
         then [violation ''invalid_date.booking_date_calendar'' (Some ''bookingDate'') None] else [])
        @ (if \<not> isValidDate (cmd_documentDate command)
           then [violation ''invalid_date.document_date_calendar'' (Some ''documentDate'') None] else [])
        @ (if length (cmd_lines command) < 2
           then [violation ''entry_too_few_lines.entry_least_two'' (Some ''lines'') None] else [])
        @ validate_lines_from 0 functionalCurrency (cmd_lines command)
      in if violations \<noteq> [] then violations
         else (case balanceByCurrency (command_amounts functionalCurrency (cmd_lines command)) of
             [(currency, difference)] \<Rightarrow>
               (if difference \<noteq> 0
                then [violation ''entry_unbalanced.does_not_balance'' (Some ''lines'')
                        (Some [(''currency'', currency), (''difference'', int_to_string difference)])]
                else [])
           | _ \<Rightarrow> []))"

section \<open>Totals per currency\<close>

lemma map_of_balance_loop:
  "map_of (balance_loop totals ls) c =
     (if c \<in> dom (map_of totals) \<or> c \<in> ca_currency ` set ls
      then Some ((case map_of totals c of None \<Rightarrow> 0 | Some t \<Rightarrow> t)
        + (\<Sum>l\<leftarrow>filter (\<lambda>l. ca_currency l = c) ls. ca_debit l - ca_credit l))
      else None)"
  by (induction totals ls rule: balance_loop.induct)
    (auto simp: AList.update_conv' split: option.splits)

lemma distinct_balance_loop:
  "distinct (map fst totals) \<Longrightarrow> distinct (map fst (balance_loop totals ls))"
  by (induction totals ls rule: balance_loop.induct) (auto simp: AList.distinct_update)

lemma map_of_balanceByCurrency:
  "map_of (balanceByCurrency ls) c =
     (if c \<in> ca_currency ` set ls
      then Some (\<Sum>l\<leftarrow>filter (\<lambda>l. ca_currency l = c) ls. ca_debit l - ca_credit l) else None)"
  by (simp add: balanceByCurrency_def map_of_balance_loop)

lemma balanceByCurrency_single:
  "balanceByCurrency ls = [(c, d)] \<longleftrightarrow>
     ls \<noteq> [] \<and> (\<forall>l \<in> set ls. ca_currency l = c) \<and> d = (\<Sum>l\<leftarrow>ls. ca_debit l - ca_credit l)"
  (is "?L \<longleftrightarrow> ?R")
proof
  have keys: "fst ` set (balanceByCurrency ls) = ca_currency ` set ls"
    unfolding dom_map_of_conv_image_fst [symmetric] by (auto simp: dom_def map_of_balanceByCurrency)
  have all: "filter (\<lambda>l. ca_currency l = c) ls = ls" if "\<forall>l \<in> set ls. ca_currency l = c"
    using that by (simp add: filter_id_conv)
  {
    assume ?L
    then have img: "ca_currency ` set ls = {c}" using keys by simp
    then have "ls \<noteq> []" "\<forall>l \<in> set ls. ca_currency l = c" by auto
    moreover have "Some d = map_of (balanceByCurrency ls) c" using \<open>?L\<close> by simp
    ultimately show ?R using img all by (simp add: map_of_balanceByCurrency)
  }
  assume R: ?R
  then have "fst ` set (balanceByCurrency ls) = {c}" using keys by (cases ls) auto
  moreover have "distinct (map fst (balanceByCurrency ls))"
    by (simp add: balanceByCurrency_def distinct_balance_loop)
  ultimately have "length (map fst (balanceByCurrency ls)) = 1"
    by (metis card_1_singleton_iff distinct_card set_map One_nat_def)
  then obtain e where e: "balanceByCurrency ls = [(c, e)]"
    using \<open>fst ` _ = {c}\<close> by (cases "balanceByCurrency ls") (auto simp: length_Suc_conv)
  have "map_of (balanceByCurrency ls) c = Some (\<Sum>l\<leftarrow>ls. ca_debit l - ca_credit l)"
    using R all by (cases ls) (auto simp: map_of_balanceByCurrency)
  with e R show ?L by simp
qed

section \<open>What an accepted command is\<close>

text \<open>The rules without their messages: the contract the posting API states to its callers.\<close>

definition one_sided :: "journal_line_input \<Rightarrow> bool" where
  "one_sided l \<longleftrightarrow> (0 < li_debit l \<and> li_credit l = 0) \<or> (li_debit l = 0 \<and> 0 < li_credit l)"

definition rate_fits :: "string \<Rightarrow> journal_line_input \<Rightarrow> bool" where
  "rate_fits fc l \<longleftrightarrow>
     (if effective_currency fc l = fc then li_exchangeRate l = None
      else \<exists>r. li_exchangeRate l = Some r \<and> isValidExchangeRate r)"

definition well_formed_line :: "string \<Rightarrow> journal_line_input \<Rightarrow> bool" where
  "well_formed_line fc l \<longleftrightarrow> one_sided l \<and> rate_fits fc l \<and> distinct (map da_typeCode (li_dimensions l))"

definition balances_in_one_currency :: "string \<Rightarrow> journal_line_input list \<Rightarrow> bool" where
  "balances_in_one_currency fc ls \<longleftrightarrow>
     (\<forall>c. (\<forall>l \<in> set ls. effective_currency fc l = c) \<longrightarrow>
        (\<Sum>l\<leftarrow>ls. li_debit l) = (\<Sum>l\<leftarrow>ls. li_credit l))"

definition well_formed_command :: "post_command \<Rightarrow> string \<Rightarrow> bool" where
  "well_formed_command command fc \<longleftrightarrow>
     isValidDate (cmd_bookingDate command) \<and> isValidDate (cmd_documentDate command) \<and>
     2 \<le> length (cmd_lines command) \<and> (\<forall>l \<in> set (cmd_lines command). well_formed_line fc l) \<and>
     balances_in_one_currency fc (cmd_lines command)"

lemma validate_dimensions_loop_Nil:
  "validate_dimensions_loop path seen ds = [] \<longleftrightarrow>
     distinct (map da_typeCode ds) \<and> set (map da_typeCode ds) \<inter> set seen = {}"
  by (induction path seen ds rule: validate_dimensions_loop.induct) auto

lemma validate_rate_Nil: "validate_rate l path fc = [] \<longleftrightarrow> rate_fits fc l"
  by (auto simp: validate_rate_def rate_fits_def Let_def split: option.splits)

lemma validateLine_Nil: "validateLine l index fc = [] \<longleftrightarrow> well_formed_line fc l"
  by (auto simp: validateLine_def Let_def well_formed_line_def one_sided_def validate_rate_Nil
      validateDimensions_def validate_dimensions_loop_Nil)

lemma validate_lines_from_Nil:
  "validate_lines_from index fc ls = [] \<longleftrightarrow> (\<forall>l \<in> set ls. well_formed_line fc l)"
  by (induction index fc ls rule: validate_lines_from.induct) (auto simp: validateLine_Nil)

lemma sum_command_amounts:
  "(\<Sum>l\<leftarrow>command_amounts fc ls. ca_debit l - ca_credit l) = (\<Sum>l\<leftarrow>ls. li_debit l) - (\<Sum>l\<leftarrow>ls. li_credit l)"
  by (induction ls) (simp_all add: command_amounts_def)

lemma balance_check_Nil:
  "ls \<noteq> [] \<Longrightarrow>
   (case balanceByCurrency (command_amounts fc ls) of
       [(currency, difference)] \<Rightarrow> (if difference \<noteq> 0 then [v currency difference] else [])
     | _ \<Rightarrow> []) = [] \<longleftrightarrow> balances_in_one_currency fc ls"
proof -
  assume ne: "ls \<noteq> []"
  have single: "balanceByCurrency (command_amounts fc ls) = [(c, d)] \<longleftrightarrow>
      (\<forall>l \<in> set ls. effective_currency fc l = c) \<and> d = (\<Sum>l\<leftarrow>ls. li_debit l) - (\<Sum>l\<leftarrow>ls. li_credit l)" for c d
    using ne unfolding balanceByCurrency_single sum_command_amounts
    by (auto simp: command_amounts_def)
  show ?thesis
  proof (cases "\<exists>c. \<forall>l \<in> set ls. effective_currency fc l = c")
    case True
    then obtain c where "\<forall>l \<in> set ls. effective_currency fc l = c" by blast
    moreover from this have "balanceByCurrency (command_amounts fc ls)
        = [(c, (\<Sum>l\<leftarrow>ls. li_debit l) - (\<Sum>l\<leftarrow>ls. li_credit l))]"
      using single by simp
    ultimately show ?thesis by (auto simp: balances_in_one_currency_def)
  next
    case False
    then have "balanceByCurrency (command_amounts fc ls) \<noteq> [(c, d)]" for c d using single by blast
    then show ?thesis using False
      by (auto simp: balances_in_one_currency_def split: list.splits)
  qed
qed

lemma validateCommandShape_Nil:
  "validateCommandShape command fc = [] \<longleftrightarrow> well_formed_command command fc"
proof -
  let ?ls = "cmd_lines command"
  let ?v = "\<lambda>currency difference. violation ''entry_unbalanced.does_not_balance'' (Some ''lines'')
    (Some [(''currency'', currency), (''difference'', int_to_string difference)])"
  have first: "(if vs \<noteq> [] then vs else ws) = [] \<longleftrightarrow> vs = [] \<and> ws = []" for vs ws :: "'x list" by simp
  have cond: "(if b then [v] else []) = [] \<longleftrightarrow> \<not> b" for b and v :: 'x by simp
  have "2 \<le> length ?ls \<Longrightarrow> ?ls \<noteq> []" by auto
  note bal = balance_check_Nil [OF this, where v = ?v and fc = fc]
  have "validateCommandShape command fc = [] \<longleftrightarrow>
      (if \<not> isValidDate (cmd_bookingDate command)
       then [violation ''invalid_date.booking_date_calendar'' (Some ''bookingDate'') None] else [])
      @ (if \<not> isValidDate (cmd_documentDate command)
         then [violation ''invalid_date.document_date_calendar'' (Some ''documentDate'') None] else [])
      @ (if length ?ls < 2
         then [violation ''entry_too_few_lines.entry_least_two'' (Some ''lines'') None] else [])
      @ validate_lines_from 0 fc ?ls = [] \<and>
      (case balanceByCurrency (command_amounts fc ?ls) of
         [(currency, difference)] \<Rightarrow> (if difference \<noteq> 0 then [?v currency difference] else [])
       | _ \<Rightarrow> []) = []"
    unfolding validateCommandShape_def Let_def by (rule first)
  then show ?thesis
    unfolding well_formed_command_def append_is_Nil_conv cond validate_lines_from_Nil not_less not_not
    using bal by blast
qed

text \<open>
  C20: The shape check accepts exactly the well-formed commands: real calendar dates, at least two lines,
  each line a positive amount on exactly one side, an exchange rate exactly on the lines in a foreign
  currency and then a positive decimal, no dimension type twice on a line and, where all lines share one
  currency, debits equal to credits.
\<close>

theorem validateCommandShape_iff:
  "validateCommandShape command fc = [] \<longleftrightarrow> well_formed_command command fc"
  by (rule validateCommandShape_Nil)

section \<open>One spelling per rate\<close>

lemma strip_trailing_zeros_append [simp]:
  "strip_trailing_zeros (s @ replicate n CHR ''0'') = strip_trailing_zeros s"
proof -
  have "dropWhile (\<lambda>c. c = CHR ''0'') (replicate n CHR ''0'' @ t) = dropWhile (\<lambda>c. c = CHR ''0'') t" for t
    by (induction n) auto
  then show ?thesis by (simp add: strip_trailing_zeros_def)
qed

lemma strip_trailing_zeros_decomp:
  "\<exists>n. s = strip_trailing_zeros s @ replicate n CHR ''0''"
proof (induction s rule: rev_induct)
  case Nil
  then show ?case by (simp add: strip_trailing_zeros_def)
next
  case (snoc c s)
  show ?case
  proof (cases "c = CHR ''0''")
    case True
    from snoc obtain n where "s = strip_trailing_zeros s @ replicate n CHR ''0''" by blast
    then have "s @ [c] = strip_trailing_zeros (s @ [c]) @ replicate (Suc n) CHR ''0''"
      using True by (metis append_assoc replicate_append_same replicate_0 replicate_Suc
          strip_trailing_zeros_append)
    then show ?thesis by blast
  next
    case False
    then show ?thesis by (simp add: strip_trailing_zeros_def)
  qed
qed

text \<open>Equal fractions, as numbers, are equal after trimming and only then.\<close>

lemma strip_trailing_zeros_eq_iff:
  assumes "list_all is_digit f" "list_all is_digit g"
  shows "strip_trailing_zeros f = strip_trailing_zeros g \<longleftrightarrow>
    digits_value f * 10 ^ length g = digits_value g * 10 ^ length f"
proof
  assume eq: "strip_trailing_zeros f = strip_trailing_zeros g"
  obtain m n t where "f = t @ replicate m CHR ''0''" "g = t @ replicate n CHR ''0''"
    using strip_trailing_zeros_decomp eq by metis
  then show "digits_value f * 10 ^ length g = digits_value g * 10 ^ length f"
    by (simp add: power_add)
next
  assume eq: "digits_value f * 10 ^ length g = digits_value g * 10 ^ length f"
  have "digits_value (f @ replicate (length g) CHR ''0'') = digits_value (g @ replicate (length f) CHR ''0'')"
    using eq by simp
  then have "f @ replicate (length g) CHR ''0'' = g @ replicate (length f) CHR ''0''"
    by (subst (asm) digits_value_eq_iff) (use assms in simp_all)
  then show "strip_trailing_zeros f = strip_trailing_zeros g" by (metis strip_trailing_zeros_append)
qed

lemma digits_strip [simp]: "list_all is_digit f \<Longrightarrow> list_all is_digit (strip_trailing_zeros f)"
  by (metis list_all_append strip_trailing_zeros_decomp)

definition normal_decimal :: "string \<Rightarrow> string \<Rightarrow> string" where
  "normal_decimal w f = nat_to_string (digits_value w) @
     (if strip_trailing_zeros f = [] then [] else CHR ''.'' # strip_trailing_zeros f)"

lemma normal_decimal_eq_iff:
  assumes "list_all is_digit f" "list_all is_digit g"
  shows "normal_decimal w f = normal_decimal v g \<longleftrightarrow>
    digits_value w = digits_value v \<and> strip_trailing_zeros f = strip_trailing_zeros g" (is "?L \<longleftrightarrow> ?R")
proof
  have sp: "split_on CHR ''.'' (normal_decimal w f) = nat_to_string (digits_value w) #
      (if strip_trailing_zeros f = [] then [] else [strip_trailing_zeros f])"
    if "list_all is_digit f" for w f
    using that by (simp add: normal_decimal_def)
  assume ?L
  then have "split_on CHR ''.'' (normal_decimal w f) = split_on CHR ''.'' (normal_decimal v g)" by simp
  then show ?R using sp assms by (auto split: if_splits)
qed (simp add: normal_decimal_def)

text \<open>A decimal as its whole and fractional digits, and the two values it has been read as so far.\<close>

lemma decimal_parts:
  assumes "is_decimal s"
  obtains w f where "list_all is_digit w" "list_all is_digit f"
    "normaliseDecimal s = Inr (normal_decimal w f)"
    "rate_scale s = 10 ^ length f" "rate_scaled s = int (digits_value w * 10 ^ length f + digits_value f)"
  using assms
proof (cases rule: is_decimal_cases)
  case whole
  then show ?thesis
    by (intro that [of s "[]"]) (simp_all add: normaliseDecimal_def normal_decimal_def rate_scale_def
        rate_scaled_def int_to_string_def strip_trailing_zeros_def)
next
  case (fraction w f)
  then show ?thesis
    by (intro that [of w f]) (simp_all add: normaliseDecimal_def normal_decimal_def rate_scale_def
        rate_scaled_def int_to_string_def digits_value_append Let_def)
qed

text \<open>\<open>a/10^m + w = b/10^n + v\<close> with both fractions below one.\<close>

lemma mixed_number_eq:
  fixes w v a b m n :: nat
  assumes "a < m" "b < n"
  shows "(w * m + a) * n = (v * n + b) * m \<longleftrightarrow> w = v \<and> a * n = b * m"
proof
  assume eq: "(w * m + a) * n = (v * n + b) * m"
  have "(w * m + a) * n div (m * n) = w"
    using assms by (simp add: div_mult2_eq mult.commute [of m n])
  moreover have "(v * n + b) * m div (m * n) = v"
    using assms by (simp add: div_mult2_eq)
  ultimately have "w = v" using eq by simp
  with eq show "w = v \<and> a * n = b * m" by (simp add: algebra_simps)
qed (simp add: algebra_simps)

definition same_decimal :: "string \<Rightarrow> string \<Rightarrow> bool" where
  "same_decimal s t \<longleftrightarrow> rate_scaled s * rate_scale t = rate_scaled t * rate_scale s"

lemma normaliseDecimal_eq_iff:
  assumes "is_decimal s" "is_decimal t"
  shows "normaliseDecimal s = normaliseDecimal t \<longleftrightarrow> same_decimal s t"
proof -
  obtain w f where s: "list_all is_digit w" "list_all is_digit f" "normaliseDecimal s = Inr (normal_decimal w f)"
    "rate_scale s = 10 ^ length f" "rate_scaled s = int (digits_value w * 10 ^ length f + digits_value f)"
    using assms(1) by (rule decimal_parts)
  obtain v g where t: "list_all is_digit v" "list_all is_digit g" "normaliseDecimal t = Inr (normal_decimal v g)"
    "rate_scale t = 10 ^ length g" "rate_scaled t = int (digits_value v * 10 ^ length g + digits_value g)"
    using assms(2) by (rule decimal_parts)
  have "same_decimal s t \<longleftrightarrow>
      int ((digits_value w * 10 ^ length f + digits_value f) * 10 ^ length g)
      = int ((digits_value v * 10 ^ length g + digits_value g) * 10 ^ length f)"
    unfolding same_decimal_def s(4,5) t(4,5) by simp
  also have "\<dots> \<longleftrightarrow> (digits_value w * 10 ^ length f + digits_value f) * 10 ^ length g
      = (digits_value v * 10 ^ length g + digits_value g) * 10 ^ length f"
    by (rule of_nat_eq_iff)
  also have "\<dots> \<longleftrightarrow> digits_value w = digits_value v \<and> strip_trailing_zeros f = strip_trailing_zeros g"
    unfolding strip_trailing_zeros_eq_iff [OF s(2) t(2)]
    by (rule mixed_number_eq) (rule digits_value_bound [OF s(2)], rule digits_value_bound [OF t(2)])
  finally show ?thesis using normal_decimal_eq_iff [OF s(2) t(2)] s(3) t(3) by simp
qed

lemma normaliseDecimal_decimal:
  assumes "is_decimal s"
  obtains s' where "normaliseDecimal s = Inr s'" "is_decimal s'" "same_decimal s' s"
proof -
  obtain w f where s: "list_all is_digit w" "list_all is_digit f" "normaliseDecimal s = Inr (normal_decimal w f)"
    "rate_scale s = 10 ^ length f" "rate_scaled s = int (digits_value w * 10 ^ length f + digits_value f)"
    using assms by (rule decimal_parts)
  have dec: "is_decimal (normal_decimal w f)" using s(2) by (simp add: normal_decimal_def)
  have strip: "strip_trailing_zeros (strip_trailing_zeros f) = strip_trailing_zeros f"
    by (metis strip_trailing_zeros_append strip_trailing_zeros_decomp)
  have "normaliseDecimal (normal_decimal w f) = Inr (normal_decimal w f)"
  proof (cases "strip_trailing_zeros f = []")
    case True
    then show ?thesis by (simp add: normaliseDecimal_def normal_decimal_def int_to_string_def)
  next
    case False
    then show ?thesis using s(2) strip
      by (simp add: normaliseDecimal_def normal_decimal_def int_to_string_def Let_def)
  qed
  then have "same_decimal (normal_decimal w f) s"
    using normaliseDecimal_eq_iff [OF dec assms] s(3) by simp
  with s(3) dec show ?thesis by (rule that)
qed

text \<open>
  \<open>normaliseDecimal\<close> is one canonical spelling per number: every decimal has a normal form of the
  same value, the form is stable, and two decimals have the same form exactly when they are the same
  number. So a rate read back padded to the scale of its column hashes as it was hashed when written.
\<close>

theorem normaliseDecimal_canonical:
  assumes "is_decimal s" "is_decimal t"
  shows "(\<exists>s'. normaliseDecimal s = Inr s' \<and> is_decimal s' \<and> same_decimal s' s \<and> normaliseDecimal s' = Inr s') \<and>
    (normaliseDecimal s = normaliseDecimal t \<longleftrightarrow> same_decimal s t)"
proof -
  obtain s' where s': "normaliseDecimal s = Inr s'" "is_decimal s'" "same_decimal s' s"
    using assms(1) by (rule normaliseDecimal_decimal)
  then have "normaliseDecimal s' = Inr s'" using normaliseDecimal_eq_iff [OF s'(2) assms(1)] by simp
  with s' normaliseDecimal_eq_iff [OF assms] show ?thesis by blast
qed

lemma normaliseDecimal_canonical_witness:
  "normaliseDecimal ''01.500'' = Inr ''1.5'' \<and> normaliseDecimal ''01.500'' = normaliseDecimal ''1.50''"
proof -
  have "is_decimal ''01.500''" "is_decimal ''1.50''" "same_decimal ''01.500'' ''1.50''"
    "normaliseDecimal ''01.500'' = Inr ''1.5''" by code_simp+
  with normaliseDecimal_canonical [of "''01.500''" "''1.50''"] show ?thesis by blast
qed

end
