(* ===== verification/Ledger_Hash.thy ===== *)
theory Ledger_Hash
  imports Ledger_Types
begin

text \<open>
  \<^verbatim>\<open>packages/core/src/ledger/hash.ts\<close>: the canonical text of an entry, its hash and the verification of
  a chain of entries. SHA-256 (\<open>node:crypto\<close>) and the collation behind \<open>localeCompare\<close> are not code of
  the repository: they are the two fields of a \<open>platform\<close> argument, and nothing is assumed of either
  where a statement can say "or the hash function collides" instead.
\<close>

record platform =
  sha256 :: "string \<Rightarrow> string"
  localeCompare :: "string \<Rightarrow> string \<Rightarrow> int"

section \<open>The canonical form\<close>

definition CANONICAL_FORMAT_VERSION :: string where
  "CANONICAL_FORMAT_VERSION = ''klopt.journal-entry.v2''"

definition text_of :: "string option \<Rightarrow> string" where
  "text_of v = (case v of None \<Rightarrow> ''null'' | Some s \<Rightarrow> json_string s)"

definition amount_of :: "int option \<Rightarrow> string" where
  "amount_of v = (case v of None \<Rightarrow> ''null'' | Some n \<Rightarrow> int_to_string n)"

definition line_prefix :: "nat \<Rightarrow> string" where
  "line_prefix index = ''line.'' @ nat_to_string index"

definition dimension_compare :: "platform \<Rightarrow> resolved_dimension \<Rightarrow> resolved_dimension \<Rightarrow> int" where
  "dimension_compare env a b = localeCompare env (rd_typeCode a) (rd_typeCode b)"

definition dimension_line :: "string \<Rightarrow> resolved_dimension \<Rightarrow> string" where
  "dimension_line prefix d =
     prefix @ ''.dimension.'' @ rd_typeCode d @ ''='' @ text_of (Some (rd_valueCode d))"

definition canonicalLine :: "platform \<Rightarrow> posted_line \<Rightarrow> nat \<Rightarrow> string list" where
  "canonicalLine env l index =
     (let prefix = line_prefix index;
          dimensions = map (dimension_line prefix) (sort_by (dimension_compare env) (pl_dimensions l))
      in [prefix @ ''.number='' @ nat_to_string (pl_lineNumber l),
          prefix @ ''.account='' @ text_of (Some (pl_accountNumber l)),
          prefix @ ''.description='' @ text_of (pl_description l),
          prefix @ ''.debit='' @ amount_of (Some (pl_debit l)),
          prefix @ ''.credit='' @ amount_of (Some (pl_credit l)),
          prefix @ ''.currency='' @ text_of (Some (pl_currency l)),
          prefix @ ''.functionalDebit='' @ amount_of (Some (pl_functionalDebit l)),
          prefix @ ''.functionalCredit='' @ amount_of (Some (pl_functionalCredit l)),
          prefix @ ''.exchangeRate='' @ text_of (pl_exchangeRate l),
          prefix @ ''.exchangeRateSource='' @ text_of (pl_exchangeRateSource l),
          prefix @ ''.taxCode='' @ text_of (pl_taxCode l),
          prefix @ ''.taxRole='' @ text_of (map_option tax_role_text (pl_taxRole l)),
          prefix @ ''.taxAmount='' @ amount_of (pl_taxAmount l),
          prefix @ ''.subledgerKind='' @ text_of (map_option subledger_kind_text (pl_subledgerKind l)),
          prefix @ ''.subledgerId='' @ text_of (pl_subledgerId l),
          prefix @ ''.dimensions='' @ nat_to_string (length dimensions)] @ dimensions)"

definition line_compare :: "posted_line \<Rightarrow> posted_line \<Rightarrow> int" where
  "line_compare a b = int_compare (int (pl_lineNumber a)) (int (pl_lineNumber b))"

fun canonical_lines_from :: "platform \<Rightarrow> nat \<Rightarrow> posted_line list \<Rightarrow> string list" where
  "canonical_lines_from env index [] = []"
| "canonical_lines_from env index (l # ls) =
     canonicalLine env l (index + 1) @ canonical_lines_from env (Suc index) ls"

definition canonical_header :: "posted_entry \<Rightarrow> string list" where
  "canonical_header entry =
     [CANONICAL_FORMAT_VERSION,
      ''previousHash='' @ text_of (pe_previousHash entry),
      ''entity='' @ text_of (Some (pe_entityId entry)),
      ''chainSequence='' @ int_to_string (pe_chainSequence entry),
      ''journal='' @ text_of (Some (pe_journalCode entry)),
      ''entryNumber='' @ nat_to_string (pe_entryNumber entry),
      ''fiscalYear='' @ text_of (Some (pe_fiscalYearCode entry)),
      ''period='' @ nat_to_string (pe_periodSequence entry),
      ''bookingDate='' @ text_of (Some (pe_bookingDate entry)),
      ''documentDate='' @ text_of (Some (pe_documentDate entry)),
      ''description='' @ text_of (Some (pe_description entry)),
      ''sourceDocumentRef='' @ text_of (pe_sourceDocumentRef entry),
      ''reversesEntryId='' @ text_of (pe_reversesEntryId entry),
      ''functionalCurrency='' @ text_of (Some (pe_functionalCurrency entry)),
      ''createdAt='' @ text_of (Some (pe_createdAt entry)),
      ''actorKind='' @ text_of (Some (actor_kind_text (act_kind (pe_actor entry)))),
      ''actorId='' @ text_of (Some (act_id (pe_actor entry))),
      ''actorPrincipalId='' @ text_of (act_principalId (pe_actor entry))]"

definition canonicalEntryContent :: "platform \<Rightarrow> posted_entry \<Rightarrow> string" where
  "canonicalEntryContent env entry =
     (let ls = sort_by line_compare (pe_lines entry)
      in join_with [CHR 0x0A]
           (canonical_header entry @ [''lines='' @ nat_to_string (length ls)]
            @ canonical_lines_from env 0 ls @ [[]]))"

definition hashEntry :: "platform \<Rightarrow> posted_entry \<Rightarrow> string" where
  "hashEntry env entry = sha256 env (canonicalEntryContent env entry)"

section \<open>Verification\<close>

datatype failure_reason = ContentHashMismatch | PreviousHashMismatch | SequenceGap

record chain_failure =
  cf_entryId :: string
  cf_chainSequence :: int
  cf_reason :: failure_reason
  cf_expected :: string
  cf_actual :: string

record chain_result =
  cr_verified :: bool
  cr_entryCount :: nat
  cr_headHash :: "string option"
  cr_failures :: "chain_failure list"

text \<open>The failures one entry adds, given what the entry before it leads to expect.\<close>

definition entry_failures ::
  "platform \<Rightarrow> string option \<Rightarrow> int option \<Rightarrow> posted_entry \<Rightarrow> chain_failure list" where
  "entry_failures env expectedPrevious expectedSequence entry =
     (case expectedSequence of
        None \<Rightarrow> []
      | Some expected \<Rightarrow>
          (if pe_chainSequence entry \<noteq> expected
           then [\<lparr>cf_entryId = pe_id entry, cf_chainSequence = pe_chainSequence entry, cf_reason = SequenceGap,
                   cf_expected = int_to_string expected, cf_actual = int_to_string (pe_chainSequence entry)\<rparr>]
           else []))
     @ (if pe_previousHash entry \<noteq> expectedPrevious
        then [\<lparr>cf_entryId = pe_id entry, cf_chainSequence = pe_chainSequence entry,
                cf_reason = PreviousHashMismatch,
                cf_expected = (case expectedPrevious of None \<Rightarrow> ''null'' | Some h \<Rightarrow> h),
                cf_actual = (case pe_previousHash entry of None \<Rightarrow> ''null'' | Some h \<Rightarrow> h)\<rparr>]
        else [])
     @ (let recomputed = hashEntry env entry in
        if recomputed \<noteq> pe_hash entry
        then [\<lparr>cf_entryId = pe_id entry, cf_chainSequence = pe_chainSequence entry,
                cf_reason = ContentHashMismatch, cf_expected = recomputed, cf_actual = pe_hash entry\<rparr>]
        else [])"

fun verify_loop ::
  "platform \<Rightarrow> string option \<Rightarrow> int option \<Rightarrow> posted_entry list \<Rightarrow> chain_failure list" where
  "verify_loop env expectedPrevious expectedSequence [] = []"
| "verify_loop env expectedPrevious expectedSequence (entry # entries) =
     entry_failures env expectedPrevious expectedSequence entry
     @ verify_loop env (Some (pe_hash entry)) (Some (pe_chainSequence entry + 1)) entries"

definition verifyHashChain :: "platform \<Rightarrow> posted_entry list \<Rightarrow> chain_result" where
  "verifyHashChain env entries =
     (let failures = verify_loop env None None entries
      in \<lparr>cr_verified = (failures = []), cr_entryCount = length entries,
          cr_headHash = (if entries = [] then None else Some (pe_hash (last entries))),
          cr_failures = failures\<rparr>)"

section \<open>A sample chain\<close>

text \<open>
  Two entries on a platform whose digest is the text itself, compared by code unit:
  the concrete input of the witnesses.
\<close>

definition code_unit_compare :: "string \<Rightarrow> string \<Rightarrow> int" where
  "code_unit_compare a b = (if a = b then 0 else if a < b then - 1 else 1)"

definition sample_platform :: platform where
  "sample_platform = \<lparr>sha256 = (\<lambda>s. s), localeCompare = code_unit_compare\<rparr>"

definition sample_line :: "nat \<Rightarrow> int \<Rightarrow> int \<Rightarrow> posted_line" where
  "sample_line n d c = \<lparr>pl_id = ''l'', pl_lineNumber = n, pl_accountId = ''a'', pl_accountNumber = ''1000'',
     pl_description = None, pl_debit = d, pl_credit = c, pl_currency = ''EUR'', pl_functionalDebit = d,
     pl_functionalCredit = c, pl_exchangeRate = None, pl_exchangeRateSource = None, pl_taxCode = None,
     pl_taxRole = None, pl_taxAmount = None, pl_dimensions = [], pl_subledgerKind = None, pl_subledgerId = None\<rparr>"

definition sample_draft :: "int \<Rightarrow> string option \<Rightarrow> string \<Rightarrow> posted_entry" where
  "sample_draft seqn prev desc =
     \<lparr>pe_id = ''e'', pe_entityId = ''x'', pe_journalId = ''j'', pe_journalCode = ''MEM'',
        pe_fiscalYearId = ''y'', pe_fiscalYearCode = ''2026'', pe_periodId = ''p'', pe_periodSequence = 1,
        pe_entryNumber = nat seqn, pe_chainSequence = seqn, pe_bookingDate = ''2026-01-02'',
        pe_documentDate = ''2026-01-02'', pe_description = desc, pe_sourceDocumentRef = None,
        pe_reversesEntryId = None, pe_functionalCurrency = ''EUR'', pe_createdAt = ''2026-01-02T00:00:00.000Z'',
        pe_actor = \<lparr>act_kind = Human, act_id = ''u'', act_principalId = None\<rparr>, pe_previousHash = prev,
        pe_hash = [], pe_lines = [sample_line 1 100 0, sample_line 2 0 100]\<rparr>"

definition sample_entry :: "int \<Rightarrow> string option \<Rightarrow> string \<Rightarrow> posted_entry" where
  "sample_entry seqn prev desc =
     (sample_draft seqn prev desc)\<lparr>pe_hash := hashEntry sample_platform (sample_draft seqn prev desc)\<rparr>"

definition sample_chain :: "posted_entry list" where
  "sample_chain =
     (let e = sample_entry 1 None ''first'' in [e, sample_entry 2 (Some (pe_hash e)) ''second''])"

section \<open>What verification means\<close>

text \<open>A chain: every hash is right, every entry names the hash before it, positions are consecutive.\<close>

definition link_ok :: "posted_entry \<Rightarrow> posted_entry \<Rightarrow> bool" where
  "link_ok e f \<longleftrightarrow> pe_previousHash f = Some (pe_hash e) \<and> pe_chainSequence f = pe_chainSequence e + 1"

definition chain_ok :: "platform \<Rightarrow> posted_entry list \<Rightarrow> bool" where
  "chain_ok env es \<longleftrightarrow>
     (\<forall>e \<in> set es. hashEntry env e = pe_hash e) \<and>
     (es \<noteq> [] \<longrightarrow> pe_previousHash (hd es) = None) \<and>
     (\<forall>i. Suc i < length es \<longrightarrow> link_ok (es ! i) (es ! Suc i))"

lemma entry_failures_Nil:
  "entry_failures env p q e = [] \<longleftrightarrow>
     hashEntry env e = pe_hash e \<and> pe_previousHash e = p \<and> q \<in> {None, Some (pe_chainSequence e)}"
  by (auto simp: entry_failures_def Let_def split: option.splits)

lemma verify_loop_Nil:
  "verify_loop env p q es = [] \<longleftrightarrow>
     (\<forall>e \<in> set es. hashEntry env e = pe_hash e) \<and>
     (es \<noteq> [] \<longrightarrow> pe_previousHash (hd es) = p \<and> q \<in> {None, Some (pe_chainSequence (hd es))}) \<and>
     (\<forall>i. Suc i < length es \<longrightarrow> link_ok (es ! i) (es ! Suc i))"
proof (induction env p q es rule: verify_loop.induct)
  case (2 env p q e es)
  have step: "(\<forall>i. Suc i < length (e # es) \<longrightarrow> link_ok ((e # es) ! i) ((e # es) ! Suc i)) \<longleftrightarrow>
      (es \<noteq> [] \<longrightarrow> link_ok e (hd es)) \<and> (\<forall>i. Suc i < length es \<longrightarrow> link_ok (es ! i) (es ! Suc i))"
    by (cases es) (auto simp: nth_Cons split: nat.splits)
  show ?case
    unfolding step using 2 by (auto simp: entry_failures_Nil link_ok_def)
qed simp

lemma chain_ok_verified: "chain_ok env es \<longleftrightarrow> verify_loop env None None es = []"
  by (auto simp: verify_loop_Nil chain_ok_def)

text \<open>
  C21: Verification accepts exactly the intact chains: it reports no failure if and only if every entry
  hashes to its stored hash, the first has no predecessor, and each following entry names the hash of the
  entry before it and the next position.
\<close>

theorem verifyHashChain_iff: "cr_verified (verifyHashChain env es) \<longleftrightarrow> chain_ok env es"
  by (simp add: verifyHashChain_def Let_def chain_ok_verified)

lemma verify_loop_append:
  "verify_loop env p q (xs @ e # ys) =
     verify_loop env p q xs
     @ entry_failures env (if xs = [] then p else Some (pe_hash (last xs)))
         (if xs = [] then q else Some (pe_chainSequence (last xs) + 1)) e
     @ verify_loop env (Some (pe_hash e)) (Some (pe_chainSequence e + 1)) ys"
  by (induction env p q xs rule: verify_loop.induct) auto

definition content_failure :: "platform \<Rightarrow> posted_entry \<Rightarrow> chain_failure" where
  "content_failure env e = \<lparr>cf_entryId = pe_id e, cf_chainSequence = pe_chainSequence e,
     cf_reason = ContentHashMismatch, cf_expected = hashEntry env e, cf_actual = pe_hash e\<rparr>"

lemma entry_failures_content:
  "p = pe_previousHash e \<Longrightarrow> q \<in> {None, Some (pe_chainSequence e)} \<Longrightarrow>
   entry_failures env p q e = (if hashEntry env e = pe_hash e then [] else [content_failure env e])"
  by (auto simp: entry_failures_def Let_def content_failure_def)

text \<open>
  C22: Damage stays where it is. Changing what an entry of an intact chain says, without touching its
  stored hash, position or predecessor, is reported as one failure, the content mismatch of that entry,
  and no other, unless the new content has the hash of the old one.
\<close>

theorem tampering_is_located:
  assumes "chain_ok env (xs @ e # ys)"
    "pe_hash e' = pe_hash e" "pe_previousHash e' = pe_previousHash e" "pe_chainSequence e' = pe_chainSequence e"
  shows "cr_failures (verifyHashChain env (xs @ e' # ys)) =
    (if sha256 env (canonicalEntryContent env e') = sha256 env (canonicalEntryContent env e) then []
     else [\<lparr>cf_entryId = pe_id e', cf_chainSequence = pe_chainSequence e, cf_reason = ContentHashMismatch,
            cf_expected = hashEntry env e', cf_actual = pe_hash e\<rparr>])"
proof -
  have "verify_loop env None None (xs @ e # ys) = []"
    using assms(1) by (simp add: chain_ok_verified)
  then have parts: "verify_loop env None None xs = []"
    "entry_failures env (if xs = [] then None else Some (pe_hash (last xs)))
       (if xs = [] then None else Some (pe_chainSequence (last xs) + 1)) e = []"
    "verify_loop env (Some (pe_hash e)) (Some (pe_chainSequence e + 1)) ys = []"
    by (simp_all add: verify_loop_append)
  from parts(2) have "hashEntry env e = pe_hash e" by (simp add: entry_failures_Nil)
  with parts(2) have same: "entry_failures env (if xs = [] then None else Some (pe_hash (last xs)))
       (if xs = [] then None else Some (pe_chainSequence (last xs) + 1)) e' =
     (if hashEntry env e' = pe_hash e' then [] else [content_failure env e'])"
    by (intro entry_failures_content) (simp_all add: entry_failures_Nil assms(2-4))
  show ?thesis
    unfolding verifyHashChain_def Let_def chain_result.simps verify_loop_append parts(1) same
    using parts(3) \<open>hashEntry env e = pe_hash e\<close> assms(2-4)
    by (simp add: content_failure_def hashEntry_def eq_commute)
qed

section \<open>The canonical form is unambiguous\<close>

text \<open>A JSON string can be read back one character at a time, and holds no line break.\<close>

definition hex_value :: "char \<Rightarrow> nat" where
  "hex_value c = (let n = of_char c in if n < 58 then n - 48 else n - 87)"

definition take_json :: "string \<Rightarrow> char \<times> string" where
  "take_json s =
     (if hd s \<noteq> CHR 0x5C then (hd s, drop 1 s)
      else if s ! 1 = CHR ''u'' then (char_of (16 * hex_value (s ! 4) + hex_value (s ! 5)), drop 6 s)
      else (if s ! 1 = CHR ''b'' then char_of (8 :: nat) else if s ! 1 = CHR ''t'' then char_of (9 :: nat)
            else if s ! 1 = CHR ''n'' then char_of (10 :: nat) else if s ! 1 = CHR ''f'' then char_of (12 :: nat)
            else if s ! 1 = CHR ''r'' then char_of (13 :: nat) else s ! 1, drop 2 s))"

lemma hex_value_hex_char: "d < 16 \<Longrightarrow> hex_value (hex_char d) = d"
  by (auto simp: hex_value_def hex_char_def Let_def)

lemma take_json_char: "take_json (json_char c @ r) = (c, r)"
proof -
  define n where "n = (of_char c :: nat)"
  have c: "c = char_of n" by (simp add: n_def)
  have lt: "n < 256" by (simp add: n_def)
  have codes: "char_of (34 :: nat) = CHR 0x22" "char_of (92 :: nat) = CHR 0x5C" by code_simp+
  consider "n = 34" | "n = 92" | "n < 32" | "n \<noteq> 34" "n \<noteq> 92" "32 \<le> n" by linarith
  then show ?thesis
  proof cases
    case 3
    consider "n = 8" | "n = 9" | "n = 10" | "n = 12" | "n = 13"
      | "n \<noteq> 8" "n \<noteq> 9" "n \<noteq> 10" "n \<noteq> 12" "n \<noteq> 13" by blast
    then show ?thesis
    proof cases
      case 6
      have "n div 16 < 16" "n mod 16 < 16" using lt by simp_all
      with 3 6 show ?thesis
        by (simp add: json_char_def take_json_def n_def [symmetric] Let_def hex_value_hex_char)
          (simp add: c)
    qed (simp_all add: json_char_def take_json_def c)
  next
    case 4
    then have "c \<noteq> CHR 0x5C" by (auto simp: n_def)
    with 4 show ?thesis by (simp add: json_char_def take_json_def n_def [symmetric] Let_def)
  qed (simp_all add: json_char_def take_json_def c codes)
qed

lemma json_chars_inject: "concat (map json_char s) = concat (map json_char t) \<longleftrightarrow> s = t"
proof
  have ne: "json_char c \<noteq> []" for c by (auto simp: json_char_def Let_def)
  show "concat (map json_char s) = concat (map json_char t) \<Longrightarrow> s = t"
  proof (induction s arbitrary: t)
    case Nil
    then show ?case using ne by (cases t) auto
  next
    case (Cons c s)
    then obtain d t' where t: "t = d # t'" using ne by (cases t) auto
    with Cons.prems have "take_json (json_char c @ concat (map json_char s))
        = take_json (json_char d @ concat (map json_char t'))" by simp
    with Cons.IH t show ?case by (simp add: take_json_char)
  qed
qed simp

lemma json_string_inject [simp]: "json_string s = json_string t \<longleftrightarrow> s = t"
  by (simp add: json_string_def json_chars_inject)

lemma text_of_inject [simp]: "text_of a = text_of b \<longleftrightarrow> a = b"
proof -
  have "json_string s \<noteq> ''null''" for s by (simp add: json_string_def)
  then show ?thesis by (cases a; cases b) (auto simp: text_of_def dest: sym)
qed

lemma nat_to_string_no_minus [simp]: "CHR ''-'' \<notin> set (nat_to_string n)"
  by (rule digits_free) simp

lemma int_to_string_inject [simp]: "int_to_string i = int_to_string j \<longleftrightarrow> i = j"
proof
  assume eq: "int_to_string i = int_to_string j"
  have "CHR ''-'' \<in> set (int_to_string i) \<longleftrightarrow> i < 0" for i by (simp add: int_to_string_def)
  with eq have "i < 0 \<longleftrightarrow> j < 0" by metis
  with eq show "i = j" by (auto simp: int_to_string_def split: if_splits)
qed simp

lemma int_to_string_not_null: "int_to_string i \<noteq> ''null''"
proof -
  have "hd (nat_to_string n) \<noteq> CHR ''n''" for n
    using nat_to_string_digits [of n] nat_to_string_nonempty [of n]
    by (cases "nat_to_string n") (auto simp: is_digit_def)
  then show ?thesis by (auto simp: int_to_string_def split: if_splits) (metis list.sel(1))
qed

lemma amount_of_inject [simp]: "amount_of a = amount_of b \<longleftrightarrow> a = b"
  using int_to_string_not_null by (cases a; cases b) (auto simp: amount_of_def dest: sym)

text \<open>Joining lines that hold no line break loses nothing.\<close>

lemma split_on_join:
  "xs \<noteq> [] \<Longrightarrow> \<forall>x \<in> set xs. c \<notin> set x \<Longrightarrow> split_on c (join_with [c] xs) = xs"
  by (induction "[c]" xs rule: join_with.induct) simp_all

lemma join_with_inject:
  "xs \<noteq> [] \<Longrightarrow> ys \<noteq> [] \<Longrightarrow> \<forall>x \<in> set xs \<union> set ys. c \<notin> set x \<Longrightarrow>
   join_with [c] xs = join_with [c] ys \<longleftrightarrow> xs = ys"
  by (metis UnCI split_on_join)

lemma no_break_json_char: "CHR 0x0A \<notin> set (json_char c)"
proof -
  have hex: "hex_char d \<noteq> CHR 0x0A" if "d < 16" for d
  proof
    assume "hex_char d = CHR 0x0A"
    then have "(of_char (hex_char d) :: nat) = 10" by simp
    with that show False by (auto simp: hex_char_def split: if_splits)
  qed
  have "char_of (10 :: nat) = CHR 0x0A" by code_simp
  then have "c = CHR 0x0A" if "of_char c = (10 :: nat)" using that by (metis char_of_char)
  then have "of_char c = (10 :: nat) \<longleftrightarrow> c = CHR 0x0A" by auto
  moreover have "hex_char (of_char c div 16) \<noteq> CHR 0x0A" "hex_char (of_char c mod 16) \<noteq> CHR 0x0A"
    by (rule hex, simp add: less_mult_imp_div_less)+
  ultimately show ?thesis by (auto simp: json_char_def Let_def)
qed

lemma no_break_text [simp]: "CHR 0x0A \<notin> set (text_of v)"
  using no_break_json_char by (auto simp: text_of_def json_string_def split: option.splits)

lemma no_break_nat [simp]: "CHR 0x0A \<notin> set (nat_to_string n)"
  using nat_to_string_digits [of n] by (auto simp: list_all_iff is_digit_def)

lemma no_break_int [simp]: "CHR 0x0A \<notin> set (int_to_string n)"
  by (simp add: int_to_string_def)

lemma no_break_amount [simp]: "CHR 0x0A \<notin> set (amount_of v)"
  by (simp add: amount_of_def split: option.splits)

text \<open>
  What the hash covers of a dimension, a line and an entry: everything but the internal ids, with lines and
  dimensions in the order the canonical form puts them.
\<close>

definition hashed_dimension :: "resolved_dimension \<Rightarrow> string \<times> string" where
  "hashed_dimension d = (rd_typeCode d, rd_valueCode d)"

definition hashed_line :: "platform \<Rightarrow> posted_line \<Rightarrow> posted_line \<times> (string \<times> string) list" where
  "hashed_line env l =
     (l\<lparr>pl_id := [], pl_accountId := [], pl_dimensions := []\<rparr>,
      map hashed_dimension (sort_by (dimension_compare env) (pl_dimensions l)))"

definition hashed_entry :: "platform \<Rightarrow> posted_entry \<Rightarrow> posted_entry \<times> (posted_line \<times> (string \<times> string) list) list" where
  "hashed_entry env e =
     (e\<lparr>pe_id := [], pe_journalId := [], pe_fiscalYearId := [], pe_periodId := [], pe_hash := [], pe_lines := []\<rparr>,
      map (hashed_line env) (sort_by line_compare (pe_lines e)))"

text \<open>Dimension type codes are written as they are: they must hold no line break and no equals sign.\<close>

definition plain_code :: "string \<Rightarrow> bool" where
  "plain_code c \<longleftrightarrow> CHR 0x0A \<notin> set c \<and> CHR ''='' \<notin> set c"

definition plain_codes :: "posted_entry \<Rightarrow> bool" where
  "plain_codes e \<longleftrightarrow> (\<forall>l \<in> set (pe_lines e). \<forall>d \<in> set (pl_dimensions l). plain_code (rd_typeCode d))"

lemma before_equals: "CHR ''='' \<notin> set a \<Longrightarrow> CHR ''='' \<notin> set b \<Longrightarrow> a @ ''='' @ x = b @ ''='' @ y \<longleftrightarrow> a = b \<and> x = y"
  by (auto simp: append_eq_append_conv2 append_eq_Cons_conv Cons_eq_append_conv)

lemma dimension_line_inject:
  "plain_code (rd_typeCode d) \<Longrightarrow> plain_code (rd_typeCode d') \<Longrightarrow>
   dimension_line p d = dimension_line p d' \<longleftrightarrow> hashed_dimension d = hashed_dimension d'"
  using before_equals [of "rd_typeCode d" "rd_typeCode d'"]
  by (simp add: dimension_line_def hashed_dimension_def plain_code_def)

lemma dimension_lines_inject:
  "\<forall>d \<in> set ds \<union> set ds'. plain_code (rd_typeCode d) \<Longrightarrow>
   map (dimension_line p) ds = map (dimension_line p) ds' \<longleftrightarrow> map hashed_dimension ds = map hashed_dimension ds'"
proof (induction ds arbitrary: ds')
  case (Cons d ds)
  then show ?case by (cases ds') (auto simp: dimension_line_inject)
qed auto

lemma role_inject [simp]: "map_option tax_role_text a = map_option tax_role_text b \<longleftrightarrow> a = b"
  by (cases a; cases b) auto

lemma kind_inject [simp]: "map_option subledger_kind_text a = map_option subledger_kind_text b \<longleftrightarrow> a = b"
  by (cases a; cases b) auto

lemma canonicalLine_inject:
  assumes plain: "\<forall>d \<in> set (pl_dimensions l) \<union> set (pl_dimensions l'). plain_code (rd_typeCode d)"
    and eq: "canonicalLine env l i @ r = canonicalLine env l' i @ r'"
  shows "hashed_line env l = hashed_line env l' \<and> r = r'"
proof -
  let ?ds = "map (dimension_line (line_prefix i)) (sort_by (dimension_compare env) (pl_dimensions l))"
  let ?ds' = "map (dimension_line (line_prefix i)) (sort_by (dimension_compare env) (pl_dimensions l'))"
  note eqs = eq [unfolded canonicalLine_def Let_def append.simps list.inject same_append_eq
      append_assoc text_of_inject amount_of_inject nat_to_string_inject option.inject
      role_inject kind_inject length_map length_sort_by simp_thms]
  then have n: "length (pl_dimensions l) = length (pl_dimensions l')" and rest: "?ds @ r = ?ds' @ r'"
    by blast+
  from eqs have fixed: "l\<lparr>pl_id := [], pl_accountId := [], pl_dimensions := []\<rparr>
      = l'\<lparr>pl_id := [], pl_accountId := [], pl_dimensions := []\<rparr>"
    by (elim conjE, intro posted_line.equality) simp_all
  from rest n have "?ds = ?ds'" "r = r'" by simp_all
  with fixed plain show ?thesis by (simp add: hashed_line_def dimension_lines_inject)
qed

definition plain_line :: "posted_line \<Rightarrow> bool" where
  "plain_line l \<longleftrightarrow> (\<forall>d \<in> set (pl_dimensions l). plain_code (rd_typeCode d))"

lemma canonical_lines_inject:
  "length ls = length ls' \<Longrightarrow> \<forall>l \<in> set ls \<union> set ls'. plain_line l \<Longrightarrow>
   canonical_lines_from env i ls @ r = canonical_lines_from env i ls' @ r' \<Longrightarrow>
   map (hashed_line env) ls = map (hashed_line env) ls'"
proof (induction ls ls' arbitrary: i rule: list_induct2)
  case (Cons l ls l' ls')
  have plain: "\<forall>d \<in> set (pl_dimensions l) \<union> set (pl_dimensions l'). plain_code (rd_typeCode d)"
    using Cons.prems(1) by (auto simp: plain_line_def)
  have "hashed_line env l = hashed_line env l' \<and>
      canonical_lines_from env (Suc i) ls @ r = canonical_lines_from env (Suc i) ls' @ r'"
    using Cons.prems(2) by (intro canonicalLine_inject [OF plain, where i = "i + 1"]) simp
  with Cons.IH [of "Suc i"] Cons.prems(1) show ?case by simp
qed simp

lemma no_break_canonicalLine:
  "plain_line l \<Longrightarrow> x \<in> set (canonicalLine env l i) \<Longrightarrow> CHR 0x0A \<notin> set x"
  by (auto simp: canonicalLine_def Let_def line_prefix_def dimension_line_def plain_line_def plain_code_def)

lemma no_break_canonical_lines:
  "\<forall>l \<in> set ls. plain_line l \<Longrightarrow> x \<in> set (canonical_lines_from env i ls) \<Longrightarrow> CHR 0x0A \<notin> set x"
  by (induction env i ls rule: canonical_lines_from.induct) (auto dest: no_break_canonicalLine)

lemma no_break_header: "x \<in> set (canonical_header e) \<Longrightarrow> CHR 0x0A \<notin> set x"
  by (auto simp: canonical_header_def CANONICAL_FORMAT_VERSION_def)

lemma canonical_header_inject:
  assumes "canonical_header e = canonical_header e'"
  shows "fst (hashed_entry env e) = fst (hashed_entry env e')"
proof -
  note eqs = assms [unfolded canonical_header_def append.simps list.inject text_of_inject
      int_to_string_inject nat_to_string_inject option.inject actor_kind_text_inject simp_thms]
  from eqs have "pe_actor e = pe_actor e'" by (elim conjE, intro actor.equality) simp_all
  with eqs show ?thesis
    unfolding hashed_entry_def fst_conv by (elim conjE, intro posted_entry.equality) simp_all
qed

lemma canonicalEntryContent_inject:
  assumes plain: "plain_codes e" "plain_codes e'"
    and eq: "canonicalEntryContent env e = canonicalEntryContent env e'"
  shows "hashed_entry env e = hashed_entry env e'"
proof -
  define all where "all e = canonical_header e
      @ [''lines='' @ nat_to_string (length (sort_by line_compare (pe_lines e)))]
      @ canonical_lines_from env 0 (sort_by line_compare (pe_lines e)) @ [[]]" for e
  have lines: "\<forall>l \<in> set (sort_by line_compare (pe_lines e)). plain_line l" if "plain_codes e" for e
    using that by (simp add: plain_codes_def plain_line_def)
  have nobreak: "CHR 0x0A \<notin> set x" if "plain_codes e" "x \<in> set (all e)" for x e
    using that(2) no_break_header no_break_canonical_lines [OF lines [OF that(1)]] by (auto simp: all_def)
  have "join_with [CHR 0x0A] (all e) = join_with [CHR 0x0A] (all e')"
    using eq by (simp add: canonicalEntryContent_def all_def Let_def)
  then have "all e = all e'"
  proof (subst (asm) join_with_inject)
    show "\<forall>x \<in> set (all e) \<union> set (all e'). CHR 0x0A \<notin> set x"
      using nobreak [OF plain(1)] nobreak [OF plain(2)] by blast
  qed (simp_all add: all_def)
  moreover have "length (canonical_header e) = length (canonical_header e')" by (simp add: canonical_header_def)
  ultimately have header: "canonical_header e = canonical_header e'"
    and n: "length (sort_by line_compare (pe_lines e)) = length (sort_by line_compare (pe_lines e'))"
    and body: "canonical_lines_from env 0 (sort_by line_compare (pe_lines e)) @ [[]]
      = canonical_lines_from env 0 (sort_by line_compare (pe_lines e')) @ [[]]"
    by (auto simp: all_def)
  have "snd (hashed_entry env e) = snd (hashed_entry env e')"
    unfolding hashed_entry_def snd_conv
    by (rule canonical_lines_inject [OF n _ body]) (use lines plain in blast)
  with canonical_header_inject [OF header] show ?thesis by (rule prod_eqI)
qed

lemma chain_ok_butlast: "chain_ok env (es @ [e]) \<Longrightarrow> chain_ok env es"
proof -
  assume ok: "chain_ok env (es @ [e])"
  have "link_ok (es ! i) (es ! Suc i)" if "Suc i < length es" for i
  proof -
    from ok that have "link_ok ((es @ [e]) ! i) ((es @ [e]) ! Suc i)" by (simp add: chain_ok_def)
    with that show ?thesis by (simp add: nth_append)
  qed
  with ok show "chain_ok env es" by (cases es) (simp_all add: chain_ok_def)
qed

lemma chain_ok_last: "chain_ok env (es @ [e]) \<Longrightarrow> es \<noteq> [] \<Longrightarrow> pe_previousHash e = Some (pe_hash (last es))"
proof -
  assume ok: "chain_ok env (es @ [e])" and ne: "es \<noteq> []"
  then obtain ys y where es: "es = ys @ [y]" by (metis rev_exhaust)
  have "Suc (length ys) < length (es @ [e])" using es by simp
  with ok have "link_ok ((es @ [e]) ! length ys) ((es @ [e]) ! Suc (length ys))"
    unfolding chain_ok_def by blast
  moreover have "(es @ [e]) ! length ys = y" "(es @ [e]) ! Suc (length ys) = e"
    using es by (simp_all add: nth_append)
  ultimately show ?thesis using es by (simp add: link_ok_def)
qed

lemma hashed_entry_previous: "hashed_entry env e = hashed_entry env f \<Longrightarrow> pe_previousHash e = pe_previousHash f"
proof -
  assume "hashed_entry env e = hashed_entry env f"
  then have "pe_previousHash (fst (hashed_entry env e)) = pe_previousHash (fst (hashed_entry env f))" by simp
  then show ?thesis by (simp add: hashed_entry_def)
qed

text \<open>
  C23: The canonical text is unambiguous. If no dimension type code holds a line break or an equals sign,
  two entries with the same canonical text agree on everything the hash is meant to cover: every field of
  the header, every field of every line and every dimension; only internal ids may differ.
\<close>

theorem canonical_content_unambiguous:
  assumes "plain_codes e" "plain_codes e'"
    "canonicalEntryContent env e = canonicalEntryContent env e'"
  shows "hashed_entry env e = hashed_entry env e'"
  using assms by (rule canonicalEntryContent_inject)

lemma hashEntry_unsealed [simp]: "hashEntry env (e\<lparr>pe_hash := h\<rparr>) = hashEntry env e"
  by (simp add: hashEntry_def canonicalEntryContent_def canonical_header_def)

lemma content_journalId [simp]:
  "canonicalEntryContent env (e\<lparr>pe_journalId := j\<rparr>) = canonicalEntryContent env e"
  by (simp add: canonicalEntryContent_def canonical_header_def)

lemma sample_entry_simps [simp]:
  "pe_chainSequence (sample_entry n p d) = n" "pe_previousHash (sample_entry n p d) = p"
  "pe_description (sample_entry n p d) = d" "pe_lines (sample_entry n p d) = [sample_line 1 100 0, sample_line 2 0 100]"
  by (simp_all add: sample_entry_def sample_draft_def)

lemma hashEntry_sample [simp]: "hashEntry sample_platform (sample_entry n p d) = pe_hash (sample_entry n p d)"
  unfolding sample_entry_def hashEntry_unsealed by simp

lemma sample_chain_ok: "verify_loop sample_platform None None sample_chain = []"
  by (simp add: sample_chain_def Let_def entry_failures_def)

lemma sample_plain [simp]: "plain_codes (sample_entry n p d)"
  by (simp add: plain_codes_def sample_line_def)

lemma canonical_content_unambiguous_witness:
  "fst (hashed_entry sample_platform (sample_entry 1 None ''first'')) =
   fst (hashed_entry sample_platform ((sample_entry 1 None ''first'')\<lparr>pe_journalId := ''other''\<rparr>))"
proof -
  have "plain_codes ((sample_entry 1 None ''first'')\<lparr>pe_journalId := ''other''\<rparr>)"
    using sample_plain [of 1 None "''first''"] by (simp add: plain_codes_def)
  moreover have "canonicalEntryContent sample_platform (sample_entry 1 None ''first'') =
     canonicalEntryContent sample_platform ((sample_entry 1 None ''first'')\<lparr>pe_journalId := ''other''\<rparr>)"
    by simp
  ultimately show ?thesis by (intro arg_cong [where f = fst] canonical_content_unambiguous sample_plain)
qed

text \<open>The first entry of the sample chain with another description is one located failure.\<close>

lemma tampering_is_located_witness:
  "length (cr_failures (verifyHashChain sample_platform
     ([] @ (hd sample_chain)\<lparr>pe_description := ''altered''\<rparr> # tl sample_chain))) = 1"
proof -
  let ?e = "hd sample_chain" and ?e' = "(hd sample_chain)\<lparr>pe_description := ''altered''\<rparr>"
  have "chain_ok sample_platform ([] @ ?e # tl sample_chain)"
    using sample_chain_ok by (simp add: chain_ok_verified sample_chain_def Let_def)
  moreover have "canonicalEntryContent sample_platform ?e' \<noteq> canonicalEntryContent sample_platform ?e"
  proof
    assume "canonicalEntryContent sample_platform ?e' = canonicalEntryContent sample_platform ?e"
    moreover have "plain_codes ?e" by (simp add: sample_chain_def Let_def)
    moreover from this have "plain_codes ?e'" by (simp add: plain_codes_def)
    ultimately have "hashed_entry sample_platform ?e' = hashed_entry sample_platform ?e"
      using canonicalEntryContent_inject by blast
    then have "pe_description (fst (hashed_entry sample_platform ?e'))
        = pe_description (fst (hashed_entry sample_platform ?e))" by simp
    then show False by (simp add: hashed_entry_def sample_chain_def Let_def)
  qed
  ultimately show ?thesis
    by (subst tampering_is_located [where e = "?e"]) (simp_all add: sample_platform_def)
qed



end
