(* ===== verification/Events.thy ===== *)
theory Events
  imports Prelude
begin

text \<open>
  \<^verbatim>\<open>packages/core/src/events/catalogue.ts\<close>: the published events with their version and the kind of
  resource they point at. The summaries are documentation and are left out.
\<close>

definition EVENT_TYPES :: "(string \<times> nat \<times> string) list" where
  "EVENT_TYPES =
     [(''ledger.entry.posted'', 1, ''journal_entry''),
      (''sales.invoice.issued'', 1, ''sales_invoice''),
      (''sales.invoice.sent'', 1, ''sales_invoice''),
      (''purchase.invoice.booked'', 1, ''purchase_invoice''),
      (''purchase.invoice.approved'', 1, ''purchase_invoice''),
      (''vat.return.filed'', 1, ''vat_filing''),
      (''sales.invoice.paid'', 1, ''sales_invoice''),
      (''payments.batch.exported'', 1, ''payment_batch''),
      (''ledger.year.closed'', 1, ''fiscal_year''),
      (''compliance.snapshot.sealed'', 1, ''snapshot''),
      (''retention.document.deleted'', 1, ''document'')]"

text \<open>The argument is a key of the catalogue, so neither lookup can miss.\<close>

definition versionOf :: "string \<Rightarrow> nat" where
  "versionOf type = (case map_of EVENT_TYPES type of Some (v, _) \<Rightarrow> v | None \<Rightarrow> 0)"

definition resourceOf :: "string \<Rightarrow> string" where
  "resourceOf type = (case map_of EVENT_TYPES type of Some (_, r) \<Rightarrow> r | None \<Rightarrow> [])"

end
