(* ===== verification/Ledger_Posting.thy ===== *)
theory Ledger_Posting
  imports Ledger_Validation Ledger_Hash Events
begin

text \<open>
  \<^verbatim>\<open>packages/core/src/ledger/posting.ts\<close>: the one posting API. The repository it is given is a record of
  operations over a state type \<open>'s\<close>, one field per method of the port; a write returns the new state, and
  an error (\<open>Inl\<close>) leaves none, which is the rollback of the transaction the caller opened. Fresh ids
  are a function from how many were taken before; the clock is the time stamp it answers with.
\<close>

section \<open>The port\<close>

record 's ledger_repository =
  loadPostingContext :: "load_posting_context_request \<Rightarrow> 's \<Rightarrow> thrown + posting_context option"
  allocateEntryNumber :: "allocate_entry_number_request \<Rightarrow> 's \<Rightarrow> thrown + nat \<times> 's"
  allocateChainPosition :: "string \<Rightarrow> 's \<Rightarrow> thrown + chain_position \<times> 's"
  findEntryById :: "string \<Rightarrow> string \<Rightarrow> 's \<Rightarrow> thrown + posted_entry option"
  findReversalOf :: "string \<Rightarrow> string \<Rightarrow> 's \<Rightarrow> thrown + string option"
  insertEntry :: "posted_entry \<Rightarrow> 's \<Rightarrow> thrown + 's"
  applyPeriodBalances :: "posted_entry \<Rightarrow> 's \<Rightarrow> thrown + 's"
  findIdempotencyRecord :: "string \<Rightarrow> string \<Rightarrow> 's \<Rightarrow> thrown + idempotency_record option"
  recordIdempotency :: "string \<Rightarrow> idempotency_record \<Rightarrow> 's \<Rightarrow> thrown + 's"
  appendAudit :: "audit_event \<Rightarrow> 's \<Rightarrow> thrown + 's"
  enqueueEvent :: "domain_event \<Rightarrow> 's \<Rightarrow> thrown + 's"

record posting_options =
  op_dryRun :: bool
  op_idempotencyKey :: string
  op_requestId :: "string option"
  op_ip :: "string option"
  op_mayPostToSoftClosedPeriod :: bool

record posting_result =
  res_entry :: posted_entry
  res_replayed :: bool
  res_dryRun :: bool

record 's posting_dependencies =
  dep_repository :: "'s ledger_repository"
  dep_now :: string
  dep_newId :: "nat \<Rightarrow> string"

definition OPERATION_ID :: string where
  "OPERATION_ID = ''ledger.postJournalEntry''"

section \<open>The digest of a command\<close>

text \<open>
  \<open>JSON.stringify\<close> of the command, a \<open>bigint\<close> as the string of its digits. The keys are those of the
  interfaces in their order: an object literal is written out in the order it was built.
\<close>

definition json_member :: "string \<times> string \<Rightarrow> string" where
  "json_member m = json_string (fst m) @ '':'' @ snd m"

definition json_object :: "(string \<times> string) list \<Rightarrow> string" where
  "json_object ms = CHR 0x7B # join_with '','' (map json_member ms) @ [CHR 0x7D]"

definition json_array :: "string list \<Rightarrow> string" where
  "json_array xs = ''['' @ join_with '','' xs @ '']''"

definition json_bigint :: "int \<Rightarrow> string" where
  "json_bigint n = json_string (int_to_string n)"

definition json_line :: "journal_line_input \<Rightarrow> string" where
  "json_line l = json_object
     [(''accountNumber'', json_string (li_accountNumber l)),
      (''description'', text_of (li_description l)),
      (''debit'', json_bigint (li_debit l)),
      (''credit'', json_bigint (li_credit l)),
      (''currency'', text_of (li_currency l)),
      (''exchangeRate'', text_of (li_exchangeRate l)),
      (''exchangeRateSource'', text_of (li_exchangeRateSource l)),
      (''taxCode'', text_of (li_taxCode l)),
      (''taxRole'', text_of (map_option tax_role_text (li_taxRole l))),
      (''taxAmount'', (case li_taxAmount l of None \<Rightarrow> ''null'' | Some n \<Rightarrow> json_bigint n)),
      (''dimensions'', json_array (map (\<lambda>d. json_object
         [(''typeCode'', json_string (da_typeCode d)), (''valueCode'', json_string (da_valueCode d))])
         (li_dimensions l))),
      (''subledgerKind'', text_of (map_option subledger_kind_text (li_subledgerKind l))),
      (''subledgerId'', text_of (li_subledgerId l))]"

definition json_command :: "post_command \<Rightarrow> string" where
  "json_command c = json_object
     [(''entityId'', json_string (cmd_entityId c)),
      (''journalCode'', json_string (cmd_journalCode c)),
      (''bookingDate'', json_string (cmd_bookingDate c)),
      (''documentDate'', json_string (cmd_documentDate c)),
      (''description'', json_string (cmd_description c)),
      (''sourceDocumentRef'', text_of (cmd_sourceDocumentRef c)),
      (''reversesEntryId'', text_of (cmd_reversesEntryId c)),
      (''lines'', json_array (map json_line (cmd_lines c)))]"

definition hashCommand :: "platform \<Rightarrow> post_command \<Rightarrow> string" where
  "hashCommand env command = sha256 env (json_command command)"

section \<open>Resolving lines\<close>

fun resolve_dimensions ::
  "posting_context \<Rightarrow> string \<Rightarrow> dimension_assignment list \<Rightarrow> ledger_violation list \<times> resolved_dimension list" where
  "resolve_dimensions context path [] = ([], [])"
| "resolve_dimensions context path (a # as) =
     (let (vs, ds) = resolve_dimensions context path as;
          type_detail = [(''dimensionType'', da_typeCode a)];
          value_detail = [(''dimensionType'', da_typeCode a), (''dimensionValue'', da_valueCode a)];
          at = Some (path @ ''.dimensions'')
      in (case map_of (ctx_dimensionTypesByCode context) (da_typeCode a) of
            None \<Rightarrow> (violation ''unknown_dimension_type'' at (Some type_detail) # vs, ds)
          | Some type \<Rightarrow>
              (case map_of (ctx_dimensionValuesByKey context) (dimensionKey (da_typeCode a) (da_valueCode a)) of
                 None \<Rightarrow> (violation ''unknown_dimension_value'' at (Some value_detail) # vs, ds)
               | Some v \<Rightarrow>
                   ((if dv_isBlocked v
                     then [violation ''dimension_value_blocked'' at (Some value_detail)] else []) @ vs,
                    \<lparr>rd_typeId = dt_id type, rd_typeCode = dt_code type, rd_valueId = dv_id v,
                     rd_valueCode = dv_code v\<rparr> # ds))))"

definition missing_required ::
  "posting_context \<Rightarrow> string \<Rightarrow> account_record \<Rightarrow> resolved_dimension list \<Rightarrow> ledger_violation list" where
  "missing_required context path account dimensions =
     (let present = set (map rd_typeId dimensions) in
      map (\<lambda>requiredId.
          violation ''missing_required_dimension'' (Some (path @ ''.dimensions''))
            (Some [(''accountNumber'', ac_number account),
              (''dimensionType'',
               (case find (\<lambda>t. dt_id t = requiredId) (map snd (ctx_dimensionTypesByCode context)) of
                  Some t \<Rightarrow> dt_code t | None \<Rightarrow> requiredId))]))
        (filter (\<lambda>requiredId. requiredId \<notin> present) (ac_requiredDimensionTypeIds account)))"

definition posted_line_of ::
  "journal_line_input \<Rightarrow> nat \<Rightarrow> account_record \<Rightarrow> string \<Rightarrow> string option \<Rightarrow> resolved_dimension list
   \<Rightarrow> string \<Rightarrow> posted_line" where
  "posted_line_of l index account currency rate dimensions newId =
     \<lparr>pl_id = newId, pl_lineNumber = index + 1, pl_accountId = ac_id account,
      pl_accountNumber = ac_number account, pl_description = li_description l,
      pl_debit = li_debit l, pl_credit = li_credit l, pl_currency = currency,
      pl_functionalDebit = 0, pl_functionalCredit = 0, pl_exchangeRate = rate,
      pl_exchangeRateSource = (if rate = None then None else li_exchangeRateSource l),
      pl_taxCode = li_taxCode l, pl_taxRole = li_taxRole l, pl_taxAmount = li_taxAmount l,
      pl_dimensions = dimensions, pl_subledgerKind = li_subledgerKind l,
      pl_subledgerId = li_subledgerId l\<rparr>"

definition resolveLine ::
  "journal_line_input \<Rightarrow> nat \<Rightarrow> posting_context \<Rightarrow> string \<Rightarrow> string
   \<Rightarrow> thrown + ledger_violation list \<times> posted_line option" where
  "resolveLine l index context functionalCurrency newId =
     (let path = line_path index in
      case map_of (ctx_accountsByNumber context) (li_accountNumber l) of
        None \<Rightarrow> Inr ([violation ''unknown_account.account'' (Some (path @ ''.accountNumber''))
                  (Some [(''accountNumber'', li_accountNumber l)])], None)
      | Some account \<Rightarrow>
          (let blocked = (if ac_isBlocked account
                 then [violation ''account_blocked'' (Some (path @ ''.accountNumber''))
                         (Some [(''name'', ac_name account), (''accountNumber'', ac_number account)])]
                 else []);
               (vs, dimensions) = resolve_dimensions context path (li_dimensions l);
               missing = missing_required context path account dimensions;
               currency = effective_currency functionalCurrency l
           in and_then (if currency = functionalCurrency \<or> li_exchangeRate l = None then Inr None
                        else and_then (normaliseDecimal (the (li_exchangeRate l))) (\<lambda>r. Inr (Some r)))
               (\<lambda>rate. Inr (blocked @ vs @ missing,
                 Some (posted_line_of l index account currency rate dimensions newId)))))"

text \<open>The loop over the lines; an id is taken for every line that resolves.\<close>

fun resolve_lines ::
  "posting_context \<Rightarrow> string \<Rightarrow> (nat \<Rightarrow> string) \<Rightarrow> nat \<Rightarrow> nat \<Rightarrow> journal_line_input list
   \<Rightarrow> thrown + ledger_violation list \<times> posted_line list" where
  "resolve_lines context functionalCurrency newId index taken [] = Inr ([], [])"
| "resolve_lines context functionalCurrency newId index taken (l # ls) =
     and_then (resolveLine l index context functionalCurrency (newId taken)) (\<lambda>(vs, item).
     and_then (resolve_lines context functionalCurrency newId (Suc index)
                (if item = None then taken else Suc taken) ls) (\<lambda>(ws, items).
       Inr (vs @ ws, (case item of None \<Rightarrow> items | Some i \<Rightarrow> i # items))))"

section \<open>Posting\<close>

definition replay_of ::
  "platform \<Rightarrow> post_command \<Rightarrow> posting_options \<Rightarrow> 's ledger_repository \<Rightarrow> 's \<Rightarrow> thrown + posting_result option" where
  "replay_of env command options repository s =
     (if op_dryRun options then Inr None
      else and_then (findIdempotencyRecord repository (cmd_entityId command) (op_idempotencyKey options) s)
        (\<lambda>existing. case existing of
           None \<Rightarrow> Inr None
         | Some r \<Rightarrow>
             if ir_requestHash r \<noteq> hashCommand env command \<or> ir_operationId r \<noteq> OPERATION_ID
             then throw ''idempotency_key_reused'' (Some ''idempotencyKey'')
                    (Some [(''key'', op_idempotencyKey options)])
             else and_then (findEntryById repository (cmd_entityId command) (ir_resultId r) s) (\<lambda>entry.
               case entry of
                 None \<Rightarrow> throw ''unknown_entry'' (Some ''idempotencyKey'')
                           (Some [(''key'', op_idempotencyKey options)])
               | Some e \<Rightarrow> Inr (Some \<lparr>res_entry = e, res_replayed = True, res_dryRun = False\<rparr>))))"

definition context_request :: "post_command \<Rightarrow> load_posting_context_request" where
  "context_request command =
     \<lparr>lr_entityId = cmd_entityId command, lr_journalCode = cmd_journalCode command,
      lr_bookingDate = cmd_bookingDate command,
      lr_accountNumbers = map li_accountNumber (cmd_lines command),
      lr_dimensionTypeCodes = concat (map (\<lambda>l. map da_typeCode (li_dimensions l)) (cmd_lines command)),
      lr_dimensionPairs = concat (map li_dimensions (cmd_lines command))\<rparr>"

definition period_detail :: "period_record \<Rightarrow> violation_detail" where
  "period_detail p =
     [(''period'', nat_to_string (pr_sequence p)), (''fiscalYear'', pr_fiscalYearCode p),
      (''startsOn'', pr_startsOn p), (''endsOn'', pr_endsOn p),
      (''yearStatus'', fiscal_year_status_text (pr_fiscalYearStatus p))]"

definition context_violations ::
  "post_command \<Rightarrow> posting_options \<Rightarrow> posting_context \<Rightarrow> ledger_violation list" where
  "context_violations command options context =
     (if ctx_journal context = None
      then [violation ''unknown_journal'' (Some ''journalCode'')
              (Some [(''journalCode'', cmd_journalCode command)])] else [])
     @ (case ctx_period context of
          None \<Rightarrow> [violation ''no_period_for_date'' (Some ''bookingDate'')
                    (Some [(''bookingDate'', cmd_bookingDate command)])]
        | Some p \<Rightarrow>
            if pr_status p = HardClosed
            then [violation ''period_hard_closed'' (Some ''bookingDate'') (Some (period_detail p))]
            else if pr_status p = SoftClosed \<and> \<not> op_mayPostToSoftClosedPeriod options
            then [violation ''period_soft_closed'' (Some ''bookingDate'') (Some (period_detail p))]
            else [])"

definition reversal_violations ::
  "post_command \<Rightarrow> 's ledger_repository \<Rightarrow> 's \<Rightarrow> thrown + ledger_violation list" where
  "reversal_violations command repository s =
     (case cmd_reversesEntryId command of
        None \<Rightarrow> Inr []
      | Some target \<Rightarrow>
          and_then (findEntryById repository (cmd_entityId command) target s) (\<lambda>found.
          if found = None
          then Inr [violation ''reversal_target_not_found'' (Some ''reversesEntryId'')
                      (Some [(''reversesEntryId'', target)])]
          else and_then (findReversalOf repository (cmd_entityId command) target s) (\<lambda>reversed.
            case reversed of
              None \<Rightarrow> Inr []
            | Some by_entry \<Rightarrow> Inr [violation ''reversal_target_already_reversed'' (Some ''reversesEntryId'')
                (Some [(''reversesEntryId'', target), (''reversedBy'', by_entry)])])))"

definition convertible_of :: "posted_line \<Rightarrow> convertible_line" where
  "convertible_of l = \<lparr>cv_lineNumber = pl_lineNumber l, cv_currency = pl_currency l, cv_debit = pl_debit l,
     cv_credit = pl_credit l, cv_exchangeRate = pl_exchangeRate l\<rparr>"

definition with_functional :: "posted_line list \<Rightarrow> converted_amounts list \<Rightarrow> posted_line list" where
  "with_functional resolved amounts =
     map2 (\<lambda>l a. l\<lparr>pl_functionalDebit := fa_debit a, pl_functionalCredit := fa_credit a\<rparr>) resolved amounts"

text \<open>
  Everything up to the first write: the context, and the lines with their functional amounts. All
  violations are collected before any is thrown.
\<close>

definition checked_lines ::
  "post_command \<Rightarrow> posting_options \<Rightarrow> 's posting_dependencies \<Rightarrow> 's
   \<Rightarrow> thrown + posting_context \<times> posted_line list" where
  "checked_lines command options deps s =
     and_then (loadPostingContext (dep_repository deps) (context_request command) s) (\<lambda>loaded.
     case loaded of
       None \<Rightarrow> throw ''unknown_entity'' (Some ''entityId'') (Some [(''entityId'', cmd_entityId command)])
     | Some context \<Rightarrow>
         let functionalCurrency = en_functionalCurrency (ctx_entity context) in
         and_then (reversal_violations command (dep_repository deps) s) (\<lambda>reversal.
         and_then (resolve_lines context functionalCurrency (dep_newId deps) 0 0 (cmd_lines command))
           (\<lambda>(line_violations, resolved).
             let violations = validateCommandShape command functionalCurrency
                   @ context_violations command options context @ reversal @ line_violations
             in if violations \<noteq> [] then Inl (LedgerError violations)
                else and_then (convertToFunctional (map convertible_of resolved)) (\<lambda>(amounts, residual).
                  if residual \<noteq> 0
                  then throw ''entry_unbalanced_functional'' (Some ''lines'')
                         (Some [(''difference'', int_to_string residual),
                                (''functionalCurrency'', functionalCurrency)])
                  else Inr (context, with_functional resolved amounts)))))"

text \<open>The entry without its hash, then sealed; \<open>journal\<close> and \<open>period\<close> are there once no check failed.\<close>

definition draft_entry ::
  "post_command \<Rightarrow> actor \<Rightarrow> 's posting_dependencies \<Rightarrow> posting_context \<Rightarrow> posted_line list
   \<Rightarrow> chain_position \<Rightarrow> nat \<Rightarrow> posted_entry" where
  "draft_entry command who deps context ls chain entryNumber =
     (let journal = the (ctx_journal context); period = the (ctx_period context)
      in \<lparr>pe_id = dep_newId deps (length ls), pe_entityId = cmd_entityId command,
          pe_journalId = jo_id journal, pe_journalCode = jo_code journal,
          pe_fiscalYearId = pr_fiscalYearId period, pe_fiscalYearCode = pr_fiscalYearCode period,
          pe_periodId = pr_id period, pe_periodSequence = pr_sequence period,
          pe_entryNumber = entryNumber, pe_chainSequence = cp_sequence chain,
          pe_bookingDate = cmd_bookingDate command, pe_documentDate = cmd_documentDate command,
          pe_description = cmd_description command, pe_sourceDocumentRef = cmd_sourceDocumentRef command,
          pe_reversesEntryId = cmd_reversesEntryId command,
          pe_functionalCurrency = en_functionalCurrency (ctx_entity context), pe_createdAt = dep_now deps,
          pe_actor = who, pe_previousHash = cp_previousHash chain, pe_hash = [], pe_lines = ls\<rparr>)"

definition sealed_entry ::
  "platform \<Rightarrow> post_command \<Rightarrow> actor \<Rightarrow> 's posting_dependencies \<Rightarrow> posting_context \<Rightarrow> posted_line list
   \<Rightarrow> chain_position \<Rightarrow> nat \<Rightarrow> posted_entry" where
  "sealed_entry env command who deps context ls chain entryNumber =
     (let draft = draft_entry command who deps context ls chain entryNumber
      in draft\<lparr>pe_hash := hashEntry env draft\<rparr>)"

definition posted_audit :: "post_command \<Rightarrow> actor \<Rightarrow> posting_options \<Rightarrow> posted_entry \<Rightarrow> audit_event" where
  "posted_audit command who options entry =
     \<lparr>au_entityId = cmd_entityId command, au_actor = who, au_action = OPERATION_ID,
      au_resourceType = ''journal_entry'', au_resourceId = pe_id entry, au_before = None,
      au_after = Some [(''hash'', pe_hash entry), (''chainSequence'', int_to_string (pe_chainSequence entry))],
      au_requestId = op_requestId options, au_ip = op_ip options\<rparr>"

definition posted_event :: "post_command \<Rightarrow> posted_entry \<Rightarrow> domain_event" where
  "posted_event command entry =
     \<lparr>ev_entityId = cmd_entityId command, ev_type = ''ledger.entry.posted'',
      ev_version = versionOf ''ledger.entry.posted'',
      ev_payload = [(''resourceType'', resourceOf ''ledger.entry.posted''), (''resourceId'', pe_id entry)]\<rparr>"

definition write_entry ::
  "platform \<Rightarrow> post_command \<Rightarrow> actor \<Rightarrow> posting_options \<Rightarrow> 's ledger_repository \<Rightarrow> posted_entry \<Rightarrow> 's
   \<Rightarrow> thrown + 's" where
  "write_entry env command who options repository entry s =
     and_then (insertEntry repository entry s) (\<lambda>s1.
     and_then (applyPeriodBalances repository entry s1) (\<lambda>s2.
     and_then (recordIdempotency repository (cmd_entityId command)
        \<lparr>ir_key = op_idempotencyKey options, ir_operationId = OPERATION_ID,
         ir_requestHash = hashCommand env command, ir_resultId = pe_id entry\<rparr> s2) (\<lambda>s3.
     and_then (appendAudit repository (posted_audit command who options entry) s3) (\<lambda>s4.
       enqueueEvent repository (posted_event command entry) s4))))"

definition post_fresh ::
  "platform \<Rightarrow> post_command \<Rightarrow> actor \<Rightarrow> posting_options \<Rightarrow> 's posting_dependencies \<Rightarrow> 's
   \<Rightarrow> thrown + posting_result \<times> 's" where
  "post_fresh env command who options deps s =
     (let repository = dep_repository deps in
      and_then (checked_lines command options deps s) (\<lambda>(context, ls).
        if op_dryRun options
        then Inr (\<lparr>res_entry = sealed_entry env command who deps context ls
                     \<lparr>cp_sequence = 0, cp_previousHash = None\<rparr> 0,
                   res_replayed = False, res_dryRun = True\<rparr>, s)
        else
          and_then (allocateChainPosition repository (cmd_entityId command) s) (\<lambda>(chain, s1).
          and_then (allocateEntryNumber repository
             \<lparr>ar_entityId = cmd_entityId command,
              ar_documentType = ''journal:'' @ jo_code (the (ctx_journal context)),
              ar_fiscalYearCode = pr_fiscalYearCode (the (ctx_period context))\<rparr> s1) (\<lambda>(entryNumber, s2).
            let entry = sealed_entry env command who deps context ls chain entryNumber in
            and_then (write_entry env command who options repository entry s2) (\<lambda>s3.
              Inr (\<lparr>res_entry = entry, res_replayed = False, res_dryRun = False\<rparr>, s3))))))"

definition postJournalEntry ::
  "platform \<Rightarrow> post_command \<Rightarrow> actor \<Rightarrow> posting_options \<Rightarrow> 's posting_dependencies \<Rightarrow> 's
   \<Rightarrow> thrown + posting_result \<times> 's" where
  "postJournalEntry env command who options deps s =
     and_then (replay_of env command options (dep_repository deps) s) (\<lambda>replay.
     case replay of
       Some result \<Rightarrow> Inr (result, s)
     | None \<Rightarrow> post_fresh env command who options deps s)"

section \<open>Reversal\<close>

definition reverse_line :: "posted_line \<Rightarrow> journal_line_input" where
  "reverse_line l =
     \<lparr>li_accountNumber = pl_accountNumber l, li_description = pl_description l, li_debit = pl_credit l,
      li_credit = pl_debit l, li_currency = Some (pl_currency l), li_exchangeRate = pl_exchangeRate l,
      li_exchangeRateSource = pl_exchangeRateSource l, li_taxCode = pl_taxCode l, li_taxRole = pl_taxRole l,
      li_taxAmount = map_option uminus (pl_taxAmount l),
      li_dimensions = map (\<lambda>d. \<lparr>da_typeCode = rd_typeCode d, da_valueCode = rd_valueCode d\<rparr>) (pl_dimensions l),
      li_subledgerKind = pl_subledgerKind l, li_subledgerId = pl_subledgerId l\<rparr>"

definition buildReversal :: "posted_entry \<Rightarrow> string \<Rightarrow> string option \<Rightarrow> post_command" where
  "buildReversal entry bookingDate description =
     \<lparr>cmd_entityId = pe_entityId entry, cmd_journalCode = pe_journalCode entry,
      cmd_bookingDate = bookingDate, cmd_documentDate = pe_documentDate entry,
      cmd_description = (case description of Some d \<Rightarrow> d
        | None \<Rightarrow> ''Reversal of '' @ pe_journalCode entry @ '' '' @ nat_to_string (pe_entryNumber entry)
            @ '': '' @ pe_description entry),
      cmd_sourceDocumentRef = pe_sourceDocumentRef entry, cmd_reversesEntryId = Some (pe_id entry),
      cmd_lines = map reverse_line (pe_lines entry)\<rparr>"

section \<open>What a resolved line is\<close>

definition dimension_resolves :: "posting_context \<Rightarrow> dimension_assignment \<Rightarrow> resolved_dimension \<Rightarrow> bool" where
  "dimension_resolves context a d \<longleftrightarrow>
     (\<exists>type v. map_of (ctx_dimensionTypesByCode context) (da_typeCode a) = Some type \<and>
        map_of (ctx_dimensionValuesByKey context) (dimensionKey (da_typeCode a) (da_valueCode a)) = Some v \<and>
        \<not> dv_isBlocked v \<and>
        d = \<lparr>rd_typeId = dt_id type, rd_typeCode = dt_code type, rd_valueId = dv_id v, rd_valueCode = dv_code v\<rparr>)"

text \<open>
  A line resolves against an open account, with its dimensions known, unblocked and complete; everything
  the caller wrote is carried over, the rate in its canonical spelling.
\<close>

definition line_resolves ::
  "posting_context \<Rightarrow> string \<Rightarrow> journal_line_input \<Rightarrow> posted_line \<Rightarrow> bool" where
  "line_resolves context fc l item \<longleftrightarrow>
     (\<exists>account. map_of (ctx_accountsByNumber context) (li_accountNumber l) = Some account \<and>
        \<not> ac_isBlocked account \<and> pl_accountId item = ac_id account \<and> pl_accountNumber item = ac_number account \<and>
        set (ac_requiredDimensionTypeIds account) \<subseteq> set (map rd_typeId (pl_dimensions item))) \<and>
     list_all2 (dimension_resolves context) (li_dimensions l) (pl_dimensions item) \<and>
     pl_debit item = li_debit l \<and> pl_credit item = li_credit l \<and>
     pl_currency item = effective_currency fc l \<and> pl_description item = li_description l \<and>
     (if pl_currency item = fc \<or> li_exchangeRate l = None then pl_exchangeRate item = None
      else \<exists>r. normaliseDecimal (the (li_exchangeRate l)) = Inr r \<and> pl_exchangeRate item = Some r) \<and>
     pl_taxCode item = li_taxCode l \<and> pl_taxRole item = li_taxRole l \<and> pl_taxAmount item = li_taxAmount l \<and>
     pl_subledgerKind item = li_subledgerKind l \<and> pl_subledgerId item = li_subledgerId l"

lemma resolve_dimensions_ok:
  "resolve_dimensions context path as = ([], ds) \<Longrightarrow> list_all2 (dimension_resolves context) as ds"
proof (induction as arbitrary: ds)
  case (Cons a as)
  then show ?case
    by (auto simp: Let_def dimension_resolves_def split: option.splits prod.splits if_splits)
qed simp

lemma missing_required_Nil:
  "missing_required context path account ds = [] \<longleftrightarrow>
     set (ac_requiredDimensionTypeIds account) \<subseteq> set (map rd_typeId ds)"
  by (auto simp: missing_required_def filter_empty_conv Let_def)

lemma resolveLine_ok:
  assumes "resolveLine l index context fc newId = Inr ([], r)"
  shows "\<exists>item. r = Some item \<and> line_resolves context fc l item \<and> pl_lineNumber item = index + 1 \<and>
    pl_id item = newId"
proof -
  obtain account where account: "map_of (ctx_accountsByNumber context) (li_accountNumber l) = Some account"
    using assms by (cases "map_of (ctx_accountsByNumber context) (li_accountNumber l)")
      (auto simp: resolveLine_def Let_def)
  obtain vs ds where ds: "resolve_dimensions context (line_path index) (li_dimensions l) = (vs, ds)"
    by (cases "resolve_dimensions context (line_path index) (li_dimensions l)")
  note step = assms [unfolded resolveLine_def Let_def account option.case ds prod.case]
  then have ok: "\<not> ac_isBlocked account" "vs = []" "missing_required context (line_path index) account ds = []"
    by (auto simp: and_then_Inr split: if_splits)
  with ds have "list_all2 (dimension_resolves context) (li_dimensions l) ds"
    by (simp add: resolve_dimensions_ok)
  moreover from step obtain rate where
    rate: "(if effective_currency fc l = fc \<or> li_exchangeRate l = None then Inr None
        else and_then (normaliseDecimal (the (li_exchangeRate l))) (\<lambda>r. Inr (Some r))) = Inr rate"
    and r: "r = Some (posted_line_of l index account (effective_currency fc l) rate ds newId)"
    by (auto simp: and_then_Inr)
  moreover from rate have "if effective_currency fc l = fc \<or> li_exchangeRate l = None then rate = None
      else \<exists>r. normaliseDecimal (the (li_exchangeRate l)) = Inr r \<and> rate = Some r"
    by (auto simp: and_then_Inr split: if_splits)
  ultimately show ?thesis
    using account ok unfolding r line_resolves_def missing_required_Nil
    by (intro exI [of _ "posted_line_of l index account (effective_currency fc l) rate ds newId"])
      (simp add: posted_line_of_def)
qed

lemma resolve_lines_ok:
  "resolve_lines context fc newId index taken ls = Inr ([], items) \<Longrightarrow>
   list_all2 (line_resolves context fc) ls items \<and>
   (\<forall>k < length ls. pl_lineNumber (items ! k) = index + 1 + k \<and> pl_id (items ! k) = newId (taken + k))"
proof (induction ls arbitrary: index taken items)
  case (Cons l ls)
  then obtain r ws rest where l: "resolveLine l index context fc (newId taken) = Inr ([], r)"
    and ls: "resolve_lines context fc newId (Suc index) (if r = None then taken else Suc taken) ls = Inr ([], rest)"
    and items: "items = (case r of None \<Rightarrow> rest | Some i \<Rightarrow> i # rest)"
    by (auto simp: and_then_Inr)
  from resolveLine_ok [OF l] obtain item where item: "r = Some item" "line_resolves context fc l item"
    "pl_lineNumber item = index + 1" "pl_id item = newId taken" by blast
  with Cons.IH [of "Suc index" "Suc taken" rest] ls items show ?case
    by (auto simp: nth_Cons split: nat.splits)
qed simp

lemma context_violations_Nil:
  "context_violations command options context = [] \<longleftrightarrow>
     ctx_journal context \<noteq> None \<and>
     (\<exists>p. ctx_period context = Some p \<and> pr_status p \<noteq> HardClosed \<and>
        (pr_status p = SoftClosed \<longrightarrow> op_mayPostToSoftClosedPeriod options))"
  by (auto simp: context_violations_def split: option.splits)

definition may_post :: "posting_options \<Rightarrow> posting_context \<Rightarrow> bool" where
  "may_post options context \<longleftrightarrow>
     ctx_journal context \<noteq> None \<and>
     (\<exists>p. ctx_period context = Some p \<and> pr_status p \<noteq> HardClosed \<and>
        (pr_status p = SoftClosed \<longrightarrow> op_mayPostToSoftClosedPeriod options))"

lemma with_functional_nth:
  "length amounts = length resolved \<Longrightarrow> k < length resolved \<Longrightarrow>
   with_functional resolved amounts ! k = (resolved ! k)
     \<lparr>pl_functionalDebit := fa_debit (amounts ! k), pl_functionalCredit := fa_credit (amounts ! k)\<rparr>"
  by (simp add: with_functional_def)

definition functional_amounts :: "posted_line \<Rightarrow> converted_amounts" where
  "functional_amounts l = \<lparr>fa_debit = pl_functionalDebit l, fa_credit = pl_functionalCredit l\<rparr>"

lemma with_functional_maps:
  assumes "length amounts = length resolved"
  shows "map convertible_of (with_functional resolved amounts) = map convertible_of resolved"
    "map functional_amounts (with_functional resolved amounts) = amounts"
  using assms by (auto intro!: nth_equalityI
      simp: with_functional_def convertible_of_def functional_amounts_def)

lemma length_with_functional [simp]:
  "length (with_functional resolved amounts) = min (length resolved) (length amounts)"
  by (simp add: with_functional_def)

lemma with_functional_resolves:
  "list_all2 (line_resolves context fc) ls resolved \<Longrightarrow> length amounts = length resolved \<Longrightarrow>
   list_all2 (line_resolves context fc) ls (with_functional resolved amounts)"
  by (auto simp: list_all2_conv_all_nth with_functional_nth line_resolves_def)

lemma functionalBalance_with_functional:
  "length amounts = length resolved \<Longrightarrow>
   functionalBalance (with_functional resolved amounts) = (\<Sum>a\<leftarrow>amounts. fa_debit a - fa_credit a)"
proof (induction amounts resolved rule: list_induct2)
  case Nil
  then show ?case by (simp add: functionalBalance_def with_functional_def)
next
  case (Cons a as l ls)
  then show ?case by (simp add: functionalBalance_def with_functional_def)
qed

lemma resolved_convertible:
  assumes "list_all2 (line_resolves context fc) ls resolved" "\<forall>l \<in> set ls. well_formed_line fc l"
  shows "convertible (map convertible_of resolved)"
  unfolding convertible_def
proof
  fix c assume "c \<in> set (map convertible_of resolved)"
  then obtain k where k: "k < length resolved" "c = convertible_of (resolved ! k)"
    by (auto simp: in_set_conv_nth)
  let ?l = "ls ! k" and ?r = "resolved ! k"
  have r: "line_resolves context fc ?l ?r" and l: "well_formed_line fc ?l"
    using assms k(1) by (auto simp: list_all2_conv_all_nth)
  then have "0 \<le> pl_debit ?r" "0 \<le> pl_credit ?r"
    by (auto simp: line_resolves_def well_formed_line_def one_sided_def)
  moreover have "is_decimal rate" if "pl_exchangeRate ?r = Some rate" for rate
  proof -
    from r that obtain x where x: "li_exchangeRate ?l = Some x" "effective_currency fc ?l \<noteq> fc"
      "normaliseDecimal x = Inr rate"
      by (auto simp: line_resolves_def split: if_splits)
    with l have "is_decimal x"
      by (auto simp: well_formed_line_def rate_fits_def isValidExchangeRate_def)
    then show ?thesis using x(3) by (metis normaliseDecimal_decimal sum.inject(2))
  qed
  ultimately show "0 \<le> cv_debit c \<and> 0 \<le> cv_credit c \<and>
      (case cv_exchangeRate c of None \<Rightarrow> True | Some rate \<Rightarrow> is_decimal rate)"
    by (simp add: k(2) convertible_of_def split: option.splits)
qed

text \<open>What the checks establish before the first write.\<close>

lemma checked_lines_ok:
  assumes "checked_lines command options deps s = Inr (context, ls)"
  shows "loadPostingContext (dep_repository deps) (context_request command) s = Inr (Some context)"
    "well_formed_command command (en_functionalCurrency (ctx_entity context))"
    "may_post options context"
    "reversal_violations command (dep_repository deps) s = Inr []"
    "list_all2 (line_resolves context (en_functionalCurrency (ctx_entity context))) (cmd_lines command) ls"
    "functionalBalance ls = 0"
    "\<forall>k < length (cmd_lines command). pl_lineNumber (ls ! k) = 1 + k \<and> pl_id (ls ! k) = dep_newId deps k"
    "convertible (map convertible_of ls)"
    "convertToFunctional (map convertible_of ls) = Inr (map functional_amounts ls, 0)"
proof -
  from assms obtain loaded where loaded:
    "loadPostingContext (dep_repository deps) (context_request command) s = Inr loaded"
    by (auto simp: checked_lines_def and_then_Inr)
  then obtain c where c: "loaded = Some c"
    using assms by (cases loaded) (auto simp: checked_lines_def)
  let ?fc = "en_functionalCurrency (ctx_entity c)"
  note step = assms [unfolded checked_lines_def loaded c and_then_simps option.case Let_def]
  then obtain reversal where rev: "reversal_violations command (dep_repository deps) s = Inr reversal"
    by (cases "reversal_violations command (dep_repository deps) s") simp_all
  note step = step [unfolded rev and_then_simps]
  then obtain line_violations resolved where
    lines: "resolve_lines c ?fc (dep_newId deps) 0 0 (cmd_lines command) = Inr (line_violations, resolved)"
    by (cases "resolve_lines c ?fc (dep_newId deps) 0 0 (cmd_lines command)") auto
  note step = step [unfolded lines and_then_simps prod.case]
  from step have none: "validateCommandShape command ?fc = []" "context_violations command options c = []"
    "reversal = []" "line_violations = []"
    by (auto split: if_splits)
  with step obtain amounts where conv: "convertToFunctional (map convertible_of resolved) = Inr (amounts, 0)"
    and ctx: "context = c" and ls: "ls = with_functional resolved amounts"
    by (auto simp: and_then_Inr split: if_splits)
  have resolved: "list_all2 (line_resolves c ?fc) (cmd_lines command) resolved"
    "\<forall>k < length (cmd_lines command). pl_lineNumber (resolved ! k) = 1 + k \<and> pl_id (resolved ! k) = dep_newId deps k"
    using resolve_lines_ok [OF lines [unfolded none]] by simp_all
  show "well_formed_command command (en_functionalCurrency (ctx_entity context))"
    using none ctx validateCommandShape_Nil by simp
  show "may_post options context" using none ctx by (simp add: context_violations_Nil may_post_def)
  show "loadPostingContext (dep_repository deps) (context_request command) s = Inr (Some context)"
    "reversal_violations command (dep_repository deps) s = Inr []"
    using loaded c rev none ctx by simp_all
  have wf: "well_formed_command command ?fc" using none validateCommandShape_Nil by simp
  have able: "convertible (map convertible_of resolved)"
    by (rule resolved_convertible [OF resolved(1)]) (use wf in \<open>simp add: well_formed_command_def\<close>)
  note amounts = convertToFunctional_amounts(1,2) [OF able conv]
  then have same: "length amounts = length resolved" by simp
  show "list_all2 (line_resolves context (en_functionalCurrency (ctx_entity context))) (cmd_lines command) ls"
    unfolding ls ctx using resolved(1) same by (rule with_functional_resolves)
  show "functionalBalance ls = 0"
    using amounts(2) unfolding ls by (simp add: functionalBalance_with_functional same)
  show "\<forall>k < length (cmd_lines command). pl_lineNumber (ls ! k) = 1 + k \<and> pl_id (ls ! k) = dep_newId deps k"
    using resolved(2) list_all2_lengthD [OF resolved(1)] same by (simp add: ls with_functional_nth)
  show "convertible (map convertible_of ls)"
    "convertToFunctional (map convertible_of ls) = Inr (map functional_amounts ls, 0)"
    unfolding ls with_functional_maps [OF same] using able conv by simp_all
qed

section \<open>Properties of posting\<close>

text \<open>A result that was not replayed came out of the checks, with the fields the command asked for.\<close>

lemma post_fresh_result:
  assumes "postJournalEntry env command who options deps s = Inr (r, s')" "\<not> res_replayed r"
  obtains ctx ls chain n where "checked_lines command options deps s = Inr (ctx, ls)"
    "res_entry r = sealed_entry env command who deps ctx ls chain n" "res_dryRun r = op_dryRun options"
proof -
  have "\<not> (\<exists>result. replay_of env command options (dep_repository deps) s = Inr (Some result) \<and> \<not> res_replayed result)"
    by (auto simp: replay_of_def and_then_Inr split: if_splits option.splits)
  with assms have "post_fresh env command who options deps s = Inr (r, s')"
    by (auto simp: postJournalEntry_def and_then_Inr split: option.splits)
  then show thesis
    by (auto simp: post_fresh_def and_then_Inr Let_def split: if_splits intro: that)
qed

lemma sealed_entry_simps [simp]:
  "pe_lines (sealed_entry env command who deps ctx ls chain n) = ls"
  "pe_entityId (sealed_entry env command who deps ctx ls chain n) = cmd_entityId command"
  "pe_bookingDate (sealed_entry env command who deps ctx ls chain n) = cmd_bookingDate command"
  "pe_reversesEntryId (sealed_entry env command who deps ctx ls chain n) = cmd_reversesEntryId command"
  "pe_functionalCurrency (sealed_entry env command who deps ctx ls chain n) = en_functionalCurrency (ctx_entity ctx)"
  "pe_chainSequence (sealed_entry env command who deps ctx ls chain n) = cp_sequence chain"
  "pe_previousHash (sealed_entry env command who deps ctx ls chain n) = cp_previousHash chain"
  "pe_entryNumber (sealed_entry env command who deps ctx ls chain n) = n"
  "pe_id (sealed_entry env command who deps ctx ls chain n) = dep_newId deps (length ls)"
  by (simp_all add: sealed_entry_def draft_entry_def Let_def)

lemma sealed_entry_hash [simp]:
  "hashEntry env (sealed_entry env command who deps ctx ls chain n) =
   pe_hash (sealed_entry env command who deps ctx ls chain n)"
  unfolding sealed_entry_def Let_def hashEntry_unsealed by simp

text \<open>
  C5: Nothing unsound is ever posted, whatever the repository does. An entry that was not a replay comes
  from a well-formed command, in a known journal and a period that is not hard closed (nor soft closed
  without permission), on known open accounts with every required dimension; it balances exactly in the
  functional currency, carries the caller's amounts unchanged, and its hash is the hash of its content.
\<close>

theorem posted_entries_are_sound:
  assumes "postJournalEntry env command who options deps s = Inr (r, s')" "\<not> res_replayed r"
  shows "\<exists>context. loadPostingContext (dep_repository deps) (context_request command) s = Inr (Some context) \<and>
    well_formed_command command (pe_functionalCurrency (res_entry r)) \<and> may_post options context \<and>
    list_all2 (line_resolves context (pe_functionalCurrency (res_entry r))) (cmd_lines command) (pe_lines (res_entry r)) \<and>
    functionalBalance (pe_lines (res_entry r)) = 0 \<and>
    pe_hash (res_entry r) = hashEntry env (res_entry r)"
proof -
  obtain ctx ls chain n where checked: "checked_lines command options deps s = Inr (ctx, ls)"
    and e: "res_entry r = sealed_entry env command who deps ctx ls chain n"
    using assms by (rule post_fresh_result)
  from checked_lines_ok [OF checked] show ?thesis by (auto simp: e)
qed

text \<open>
  C18: A dry run writes nothing and predicts the real run. It never changes the state; when it refuses, a
  real run that does not replay refuses for the same reason; when it returns an entry, a real run that
  gets through its writes posts that entry, with only number, chain position and hash filled in.
\<close>

theorem dry_run_predicts:
  assumes "op_dryRun dry" "real = dry\<lparr>op_dryRun := False\<rparr>"
    "replay_of env command real (dep_repository deps) s = Inr None"
  shows "case postJournalEntry env command who dry deps s of
      Inl e \<Rightarrow> postJournalEntry env command who real deps s = Inl e
    | Inr (d, s') \<Rightarrow> s' = s \<and> res_dryRun d \<and> \<not> res_replayed d \<and>
        (\<forall>r t. postJournalEntry env command who real deps s = Inr (r, t) \<longrightarrow>
           (\<exists>n k p h. res_entry r = (res_entry d)\<lparr>pe_entryNumber := n, pe_chainSequence := k,
              pe_previousHash := p, pe_hash := h\<rparr>))"
proof -
  have checks: "checked_lines command real deps s = checked_lines command dry deps s"
  proof -
    have "context_violations command (dry\<lparr>op_dryRun := False\<rparr>) c = context_violations command dry c" for c
      by (simp add: context_violations_def split: option.split)
    then show ?thesis unfolding checked_lines_def assms(2) by simp
  qed
  have dry: "postJournalEntry env command who dry deps s = post_fresh env command who dry deps s"
    using assms(1) by (simp add: postJournalEntry_def replay_of_def)
  have real: "postJournalEntry env command who real deps s = post_fresh env command who real deps s"
    using assms(3) by (simp add: postJournalEntry_def)
  have refill: "\<exists>n' k p h. sealed_entry env command who deps ctx ls chain n =
      (sealed_entry env command who deps ctx ls chain' m)\<lparr>pe_entryNumber := n', pe_chainSequence := k,
         pe_previousHash := p, pe_hash := h\<rparr>" for ctx ls chain n chain' m
  proof -
    have "\<exists>h'. sealed_entry env command who deps ctx ls chain n = (draft_entry command who deps ctx ls chain n)\<lparr>pe_hash := h'\<rparr>"
      for chain n by (auto simp: sealed_entry_def Let_def)
    from this [of chain n] this [of chain' m] show ?thesis
      by (auto simp: draft_entry_def Let_def)
  qed
  show ?thesis
  proof (cases "checked_lines command dry deps s")
    case (Inl e)
    then show ?thesis by (simp add: dry real post_fresh_def checks)
  next
    case (Inr cl)
    obtain ctx ls where cl: "cl = (ctx, ls)" by (cases cl)
    have d: "postJournalEntry env command who dry deps s =
        Inr (\<lparr>res_entry = sealed_entry env command who deps ctx ls \<lparr>cp_sequence = 0, cp_previousHash = None\<rparr> 0,
          res_replayed = False, res_dryRun = True\<rparr>, s)"
      using assms(1) by (simp add: dry post_fresh_def Inr cl)
    have "\<exists>chain n. res_entry r = sealed_entry env command who deps ctx ls chain n"
      if "postJournalEntry env command who real deps s = Inr (r, t)" for r t
    proof -
      have "\<not> op_dryRun real" "post_fresh env command who real deps s = Inr (r, t)"
        using that assms(2) real by simp_all
      then obtain chain n where "res_entry r = sealed_entry env command who deps ctx ls chain n"
        by (auto simp: post_fresh_def checks Inr cl and_then_Inr Let_def)
      then show ?thesis by blast
    qed
    with refill show ?thesis unfolding d by auto
  qed
qed


text \<open>Two lines cancel: sides exchanged in both currencies, on one account, in one currency and rate.\<close>

definition keyed_by_number :: "posting_context \<Rightarrow> bool" where
  "keyed_by_number context \<longleftrightarrow> (\<forall>(n, account) \<in> set (ctx_accountsByNumber context). ac_number account = n)"

definition cancels :: "posted_line \<Rightarrow> posted_line \<Rightarrow> bool" where
  "cancels l m \<longleftrightarrow> pl_accountNumber m = pl_accountNumber l \<and> pl_currency m = pl_currency l \<and>
     pl_exchangeRate m = pl_exchangeRate l \<and> pl_debit m = pl_credit l \<and> pl_credit m = pl_debit l \<and>
     pl_functionalDebit m = pl_functionalCredit l \<and> pl_functionalCredit m = pl_functionalDebit l \<and>
     pl_taxCode m = pl_taxCode l \<and> pl_taxAmount m = map_option uminus (pl_taxAmount l)"

lemma line_rate_normal:
  assumes "line_resolves ctx fc l item" "well_formed_line fc l" "pl_exchangeRate item = Some r"
  shows "pl_currency item \<noteq> fc" "normaliseDecimal r = Inr r"
proof -
  from assms obtain x where x: "li_exchangeRate l = Some x" "effective_currency fc l \<noteq> fc"
    "normaliseDecimal x = Inr r" "pl_currency item = effective_currency fc l"
    by (auto simp: line_resolves_def split: if_splits)
  with assms(2) have "is_decimal x" by (auto simp: well_formed_line_def rate_fits_def isValidExchangeRate_def)
  with x(3) show "normaliseDecimal r = Inr r"
    by (metis normaliseDecimal_decimal normaliseDecimal_eq_iff sum.inject(2))
  from x show "pl_currency item \<noteq> fc" by simp
qed

lemma resolved_number: "line_resolves ctx fc l item \<Longrightarrow> keyed_by_number ctx \<Longrightarrow> pl_accountNumber item = li_accountNumber l"
  by (fastforce simp: line_resolves_def keyed_by_number_def dest: map_of_SomeD)

lemma reversed_convertible:
  assumes l: "line_resolves ctx fc l item" "well_formed_line fc l"
    and m: "line_resolves ctx' fc (reverse_line item) m" and n: "pl_lineNumber m = pl_lineNumber item"
  shows "convertible_of m = swap_line (convertible_of item)"
proof -
  have "pl_exchangeRate m = pl_exchangeRate item"
  proof (cases "pl_exchangeRate item")
    case None
    with m show ?thesis by (auto simp: line_resolves_def reverse_line_def)
  next
    case (Some r)
    from line_rate_normal [OF l Some] m Some show ?thesis
      by (auto simp: line_resolves_def reverse_line_def effective_currency_def)
  qed
  with m n show ?thesis
    by (simp add: convertible_of_def swap_line_def line_resolves_def reverse_line_def effective_currency_def)
qed

text \<open>
  C8: A reversal cancels exactly. If an entry is posted and later the command \<open>buildReversal\<close> makes from
  it is posted, in an administration with the same functional currency whose accounts are looked up by
  number, then line for line the second
  entry exchanges debit and credit on the same account, in the original and in the functional currency,
  to the cent: the rounding of the conversion falls the same way twice.
\<close>

theorem reversal_cancels:
  assumes "postJournalEntry env command who options deps s = Inr (r, s')" "\<not> res_replayed r"
    and "postJournalEntry env (buildReversal (res_entry r) date desc) who' options' deps' t = Inr (r', t')"
      "\<not> res_replayed r'"
    and "pe_functionalCurrency (res_entry r') = pe_functionalCurrency (res_entry r)"
    and keyed: "\<And>context. loadPostingContext (dep_repository deps') (context_request (buildReversal (res_entry r) date desc)) t
      = Inr (Some context) \<Longrightarrow> keyed_by_number context"
  shows "list_all2 cancels (pe_lines (res_entry r)) (pe_lines (res_entry r')) \<and>
    pe_reversesEntryId (res_entry r') = Some (pe_id (res_entry r))"
proof -
  let ?e = "res_entry r" and ?e' = "res_entry r'" and ?fc = "pe_functionalCurrency (res_entry r)"
  let ?reversal = "buildReversal ?e date desc"
  obtain ctx ls chain n where 1: "checked_lines command options deps s = Inr (ctx, ls)"
    and e: "?e = sealed_entry env command who deps ctx ls chain n"
    using assms(1,2) by (rule post_fresh_result)
  obtain ctx' ls' chain' n' where 2: "checked_lines ?reversal options' deps' t = Inr (ctx', ls')"
    and e': "?e' = sealed_entry env ?reversal who' deps' ctx' ls' chain' n'"
    using assms(3,4) by (rule post_fresh_result)
  have fc: "en_functionalCurrency (ctx_entity ctx) = ?fc" "en_functionalCurrency (ctx_entity ctx') = ?fc"
    using assms(5) by (simp_all add: e e')
  note first = checked_lines_ok [OF 1, unfolded fc]
  note second = checked_lines_ok [OF 2, unfolded fc]
  have lines: "cmd_lines ?reversal = map reverse_line ls" by (simp add: buildReversal_def e)
  have len: "length ls = length (cmd_lines command)" "length ls' = length ls"
    using list_all2_lengthD [OF first(5)] list_all2_lengthD [OF second(5)] by (simp_all add: lines)
  have swap: "convertible_of (ls' ! k) = swap_line (convertible_of (ls ! k))"
    and res: "line_resolves ctx' ?fc (reverse_line (ls ! k)) (ls' ! k)" if k: "k < length ls" for k
  proof -
    show res: "line_resolves ctx' ?fc (reverse_line (ls ! k)) (ls' ! k)"
      using second(5) k by (simp add: lines list_all2_conv_all_nth)
    have "line_resolves ctx ?fc (cmd_lines command ! k) (ls ! k)"
      using first(5) k by (simp add: list_all2_conv_all_nth)
    moreover have "well_formed_line ?fc (cmd_lines command ! k)"
      using first(2) k len by (simp add: well_formed_command_def)
    moreover have "pl_lineNumber (ls' ! k) = pl_lineNumber (ls ! k)"
      using first(7) second(7) k len by (simp add: lines)
    ultimately show "convertible_of (ls' ! k) = swap_line (convertible_of (ls ! k))"
      using res by (intro reversed_convertible)
  qed
  have "map convertible_of ls' = map swap_line (map convertible_of ls)"
    using swap len(2) by (intro nth_equalityI) simp_all
  then have "map functional_amounts ls' = map swap_amounts (map functional_amounts ls)"
    using convertToFunctional_swap [OF first(8,9)] second(9) by simp
  then have "functional_amounts (ls' ! k) = swap_amounts (functional_amounts (ls ! k))" if "k < length ls" for k
    using that len(2) by (metis length_map nth_map)
  then have fun_amounts: "pl_functionalDebit (ls' ! k) = pl_functionalCredit (ls ! k)"
    "pl_functionalCredit (ls' ! k) = pl_functionalDebit (ls ! k)" if "k < length ls" for k
    using that by (simp_all add: functional_amounts_def swap_amounts_def)
  have "cancels (ls ! k) (ls' ! k)" if k: "k < length ls" for k
    using res [OF k] swap [OF k] fun_amounts [OF k] resolved_number [OF res [OF k] keyed [OF second(1)]]
    by (simp add: cancels_def line_resolves_def reverse_line_def convertible_of_def swap_line_def)
  then show ?thesis using len by (simp add: e e' list_all2_conv_all_nth buildReversal_def)
qed

section \<open>The contract of the port\<close>

definition idempotency_of :: "platform \<Rightarrow> post_command \<Rightarrow> posting_options \<Rightarrow> posted_entry \<Rightarrow> idempotency_record" where
  "idempotency_of env command options e =
     \<lparr>ir_key = op_idempotencyKey options, ir_operationId = OPERATION_ID,
      ir_requestHash = hashCommand env command, ir_resultId = pe_id e\<rparr>"

text \<open>
  What posting needs of a repository to be safe to retry: the read-your-writes laws of the journal and of
  the idempotency keys, and that the other operations touch neither. \<open>stored\<close> is the set of entries of an
  administration, \<open>keys\<close> the records under its keys, \<open>storable\<close> that an entry refers to what exists.
\<close>

locale ledger_port =
  fixes repo :: "'s ledger_repository"
    and good :: "'s \<Rightarrow> bool"
    and stored :: "'s \<Rightarrow> string \<Rightarrow> posted_entry set"
    and keys :: "'s \<Rightarrow> string \<Rightarrow> string \<Rightarrow> idempotency_record option"
    and storable :: "'s \<Rightarrow> posted_entry \<Rightarrow> bool"
  assumes find_key: "findIdempotencyRecord repo entityId k s = Inr (keys s entityId k)"
    and find_entry: "good s \<Longrightarrow> e \<in> stored s entityId \<Longrightarrow> findEntryById repo entityId (pe_id e) s = Inr (Some e)"
    and insert_entry: "good s \<Longrightarrow> storable s e \<Longrightarrow> insertEntry repo e s = Inr s' \<Longrightarrow>
      good s' \<and> keys s' = keys s \<and> stored s' (pe_entityId e) = insert e (stored s (pe_entityId e))"
    and chain_position: "good s \<Longrightarrow> allocateChainPosition repo entityId s = Inr (c, s') \<Longrightarrow>
      good s' \<and> stored s' = stored s \<and> keys s' = keys s \<and> storable s' = storable s"
    and entry_number: "good s \<Longrightarrow> allocateEntryNumber repo request s = Inr (n, s') \<Longrightarrow>
      good s' \<and> stored s' = stored s \<and> keys s' = keys s \<and> storable s' = storable s"
    and balances: "good s \<Longrightarrow> applyPeriodBalances repo e s = Inr s' \<Longrightarrow>
      good s' \<and> stored s' = stored s \<and> keys s' = keys s"
    and record_key: "good s \<Longrightarrow> recordIdempotency repo entityId rec s = Inr s' \<Longrightarrow>
      good s' \<and> stored s' = stored s \<and> keys s' entityId (ir_key rec) = Some rec"
    and audit: "good s \<Longrightarrow> appendAudit repo a s = Inr s' \<Longrightarrow> good s' \<and> stored s' = stored s \<and> keys s' = keys s"
    and event: "good s \<Longrightarrow> enqueueEvent repo v s = Inr s' \<Longrightarrow> good s' \<and> stored s' = stored s \<and> keys s' = keys s"
begin

lemma write_entry_stores:
  assumes "good s" "storable s e" "pe_entityId e = cmd_entityId command"
    "write_entry env command who options repo e s = Inr s'"
  shows "good s'" "stored s' (cmd_entityId command) = insert e (stored s (cmd_entityId command))"
    "keys s' (cmd_entityId command) (op_idempotencyKey options) = Some (idempotency_of env command options e)"
proof -
  from assms(4) obtain s1 s2 s3 s4 where
    1: "insertEntry repo e s = Inr s1" and 2: "applyPeriodBalances repo e s1 = Inr s2"
    and 3: "recordIdempotency repo (cmd_entityId command) (idempotency_of env command options e) s2 = Inr s3"
    and 4: "appendAudit repo (posted_audit command who options e) s3 = Inr s4"
    and 5: "enqueueEvent repo (posted_event command e) s4 = Inr s'"
    by (auto simp: write_entry_def and_then_Inr idempotency_of_def)
  note i1 = insert_entry [OF assms(1,2) 1]
  note i2 = balances [OF conjunct1 [OF i1] 2]
  note i3 = record_key [OF conjunct1 [OF i2] 3]
  note i4 = audit [OF conjunct1 [OF i3] 4]
  note i5 = event [OF conjunct1 [OF i4] 5]
  from i1 i2 i3 i4 i5 assms(3) show "good s'"
    "stored s' (cmd_entityId command) = insert e (stored s (cmd_entityId command))"
    "keys s' (cmd_entityId command) (op_idempotencyKey options) = Some (idempotency_of env command options e)"
    by (simp_all add: idempotency_of_def)
qed

lemma post_stores:
  assumes "good s" "dep_repository deps = repo" "\<not> op_dryRun options"
    and "postJournalEntry env command who options deps s = Inr (r, s')" "\<not> res_replayed r" "storable s (res_entry r)"
  shows "good s'" "stored s' (cmd_entityId command) = insert (res_entry r) (stored s (cmd_entityId command))"
    "keys s' (cmd_entityId command) (op_idempotencyKey options) = Some (idempotency_of env command options (res_entry r))"
proof -
  have "\<not> (\<exists>result. replay_of env command options (dep_repository deps) s = Inr (Some result) \<and> \<not> res_replayed result)"
    by (auto simp: replay_of_def and_then_Inr split: if_splits option.splits)
  with assms(4,5) have "post_fresh env command who options deps s = Inr (r, s')"
    by (auto simp: postJournalEntry_def and_then_Inr split: option.splits)
  then obtain ctx ls chain s1 n s2 where
    1: "allocateChainPosition repo (cmd_entityId command) s = Inr (chain, s1)"
    and 2: "allocateEntryNumber repo \<lparr>ar_entityId = cmd_entityId command,
        ar_documentType = ''journal:'' @ jo_code (the (ctx_journal ctx)),
        ar_fiscalYearCode = pr_fiscalYearCode (the (ctx_period ctx))\<rparr> s1 = Inr (n, s2)"
    and 3: "write_entry env command who options repo (sealed_entry env command who deps ctx ls chain n) s2 = Inr s'"
    and e: "res_entry r = sealed_entry env command who deps ctx ls chain n"
    using assms(2,3) by (auto simp: post_fresh_def and_then_Inr Let_def)
  note i1 = chain_position [OF assms(1) 1]
  note i2 = entry_number [OF conjunct1 [OF i1] 2]
  have "storable s2 (res_entry r)" using assms(6) i1 i2 by simp
  from write_entry_stores [OF conjunct1 [OF i2] this _ 3 [folded e]] i1 i2 e
  show "good s'" "stored s' (cmd_entityId command) = insert (res_entry r) (stored s (cmd_entityId command))"
    "keys s' (cmd_entityId command) (op_idempotencyKey options) = Some (idempotency_of env command options (res_entry r))"
    by simp_all
qed

text \<open>Posting the same command again under the same key answers with the entry and changes nothing.\<close>

lemma retry_answers:
  assumes "good s" "dep_repository deps = repo" "\<not> op_dryRun options"
    and "postJournalEntry env command who options deps s = Inr (r, s')" "\<not> res_replayed r" "storable s (res_entry r)"
    and "dep_repository deps' = repo" "\<not> op_dryRun options'" "op_idempotencyKey options' = op_idempotencyKey options"
  shows "postJournalEntry env command who' options' deps' s' =
    Inr (\<lparr>res_entry = res_entry r, res_replayed = True, res_dryRun = False\<rparr>, s')"
proof -
  note stored = post_stores [OF assms(1-6)]
  then have "findEntryById repo (cmd_entityId command) (pe_id (res_entry r)) s' = Inr (Some (res_entry r))"
    by (intro find_entry) simp_all
  with stored(3) assms(7-9) show ?thesis
    by (simp add: postJournalEntry_def replay_of_def find_key idempotency_of_def)
qed

end

end
