(* ===== verification/Ledger_Repository.thy ===== *)
theory Ledger_Repository
  imports Ledger_Posting
begin

text \<open>
  \<^verbatim>\<open>packages/db/src/repositories/ledger.ts\<close>: the ledger port against the database. A table is the list of
  its rows in insertion order, a query filters and joins them, and a query that orders nothing answers
  in that order. The SQL the methods rely on, \<open>klopt.allocate_number\<close> and the guards of
  \<^verbatim>\<open>packages/db/migrations/0001_ledger_guards.sql\<close>, is modelled with them; what the \<open>numeric(24,12)\<close>
  column makes of a rate is Postgres, and a parameter.
\<close>

section \<open>Tables\<close>

record fiscal_year_row =
  fy_entityId :: string
  fy_id :: string
  fy_code :: string
  fy_status :: fiscal_year_status

record period_row =
  pw_entityId :: string
  pw_id :: string
  pw_fiscalYearId :: string
  pw_sequence :: nat
  pw_status :: period_status
  pw_startsOn :: string
  pw_endsOn :: string

record account_row =
  aw_entityId :: string
  aw_id :: string
  aw_number :: string
  aw_name :: string
  aw_type :: account_type
  aw_normalBalance :: normal_balance
  aw_rgsCode :: "string option"
  aw_isBlocked :: bool

record dimension_value_row =
  vw_entityId :: string
  vw_id :: string
  vw_typeId :: string
  vw_code :: string
  vw_isBlocked :: bool

record entry_row =
  er_id :: string
  er_entityId :: string
  er_journalId :: string
  er_fiscalYearId :: string
  er_periodId :: string
  er_entryNumber :: nat
  er_chainSequence :: int
  er_bookingDate :: string
  er_documentDate :: string
  er_description :: string
  er_sourceDocumentRef :: "string option"
  er_reversesEntryId :: "string option"
  er_functionalCurrency :: string
  er_actor :: actor
  er_previousHash :: "string option"
  er_hash :: string
  er_createdAt :: string

record line_row =
  lw_id :: string
  lw_entityId :: string
  lw_entryId :: string
  lw_lineNumber :: nat
  lw_accountId :: string
  lw_description :: "string option"
  lw_debit :: int
  lw_credit :: int
  lw_currency :: string
  lw_functionalDebit :: int
  lw_functionalCredit :: int
  lw_exchangeRate :: "string option"
  lw_exchangeRateSource :: "string option"
  lw_taxCode :: "string option"
  lw_taxRole :: "tax_role option"
  lw_taxMinorUnits :: "int option"
  lw_subledgerKind :: "subledger_kind option"
  lw_subledgerId :: "string option"
  lw_periodId :: string

record line_dimension_row =
  ld_lineId :: string
  ld_typeId :: string
  ld_valueId :: string
  ld_entityId :: string
  ld_entryId :: string

type_synonym sequence_key = "string \<times> string \<times> string"
type_synonym balance_key = "string \<times> string \<times> string \<times> string"

text \<open>
  The tables a posting reads and the tables it writes. Rows of a per-entity table that keep no entity in
  their record are paired with it.
\<close>

record ledger_db =
  t_entities :: "entity_record list"
  t_journals :: "(string \<times> journal_record) list"
  t_fiscalYears :: "fiscal_year_row list"
  t_periods :: "period_row list"
  t_accounts :: "account_row list"
  t_requirements :: "(string \<times> string) list"
  t_dimensionTypes :: "(string \<times> dimension_type_record) list"
  t_dimensionValues :: "dimension_value_row list"
  t_sequences :: "(sequence_key \<times> nat) list"
  t_entries :: "entry_row list"
  t_lines :: "line_row list"
  t_lineDimensions :: "line_dimension_row list"
  t_balances :: "(balance_key \<times> int \<times> int) list"
  t_idempotency :: "(string \<times> idempotency_record) list"
  t_audit :: "audit_event list"
  t_outbox :: "domain_event list"

section \<open>The posting context\<close>

definition period_of_row :: "ledger_db \<Rightarrow> period_row \<Rightarrow> period_record option" where
  "period_of_row db p =
     map_option (\<lambda>y. \<lparr>pr_id = pw_id p, pr_sequence = pw_sequence p, pr_status = pw_status p,
        pr_startsOn = pw_startsOn p, pr_endsOn = pw_endsOn p, pr_fiscalYearId = pw_fiscalYearId p,
        pr_fiscalYearCode = fy_code y, pr_fiscalYearStatus = fy_status y\<rparr>)
       (find (\<lambda>y. fy_id y = pw_fiscalYearId p) (t_fiscalYears db))"

definition account_of_row :: "(string \<times> string) list \<Rightarrow> account_row \<Rightarrow> account_record" where
  "account_of_row requirements a =
     \<lparr>ac_id = aw_id a, ac_number = aw_number a, ac_name = aw_name a, ac_type = aw_type a,
      ac_normalBalance = aw_normalBalance a, ac_rgsCode = aw_rgsCode a, ac_isBlocked = aw_isBlocked a,
      ac_requiredDimensionTypeIds = map snd (filter (\<lambda>r. fst r = aw_id a) requirements)\<rparr>"

definition value_of_row :: "ledger_db \<Rightarrow> dimension_value_row \<Rightarrow> dimension_value_record option" where
  "value_of_row db v =
     map_option (\<lambda>(_, t). \<lparr>dv_id = vw_id v, dv_typeId = vw_typeId v, dv_typeCode = dt_code t,
        dv_code = vw_code v, dv_isBlocked = vw_isBlocked v\<rparr>)
       (find (\<lambda>(_, t). dt_id t = vw_typeId v) (t_dimensionTypes db))"

text \<open>
  The booking date is compared in SQL, so a string that is no date is an error of the database; the
  comparison of ISO dates is that of their text.
\<close>

definition db_loadPostingContext ::
  "load_posting_context_request \<Rightarrow> ledger_db \<Rightarrow> thrown + posting_context option" where
  "db_loadPostingContext request db =
     (let entityId = lr_entityId request in
      case find (\<lambda>e. en_id e = entityId) (t_entities db) of
        None \<Rightarrow> Inr None
      | Some entity \<Rightarrow>
          if \<not> isValidDate (lr_bookingDate request)
          then Inl (GenericError ''invalid input syntax for type date'')
          else
            let journal = map_option snd
                  (find (\<lambda>(e, j). e = entityId \<and> jo_code j = lr_journalCode request) (t_journals db));
                periods = List.map_filter (period_of_row db)
                  (filter (\<lambda>p. pw_entityId p = entityId \<and> pw_startsOn p \<le> lr_bookingDate request
                     \<and> lr_bookingDate request \<le> pw_endsOn p) (t_periods db));
                accountRows = filter (\<lambda>a. aw_entityId a = entityId \<and> aw_number a \<in> set (lr_accountNumbers request))
                  (t_accounts db);
                requirementRows = filter (\<lambda>(a, _). a \<in> set (map aw_id accountRows)) (t_requirements db);
                typeRows = filter (\<lambda>(e, t). e = entityId \<and>
                    (dt_code t \<in> set (lr_dimensionTypeCodes request) \<or> dt_id t \<in> set (map snd requirementRows)))
                  (t_dimensionTypes db);
                valueRows = List.map_filter (value_of_row db)
                  (filter (\<lambda>v. vw_entityId v = entityId \<and>
                     vw_code v \<in> set (map da_valueCode (lr_dimensionPairs request))) (t_dimensionValues db))
            in Inr (Some \<lparr>ctx_entity = entity, ctx_journal = journal,
                 ctx_period = (case periods of [] \<Rightarrow> None | p # _ \<Rightarrow> Some p),
                 ctx_accountsByNumber = js_map (map (\<lambda>a. (aw_number a, account_of_row requirementRows a)) accountRows),
                 ctx_dimensionTypesByCode = js_map (map (\<lambda>(_, t). (dt_code t, t)) typeRows),
                 ctx_dimensionValuesByKey = js_map (map (\<lambda>v. (dimensionKey (dv_typeCode v) (dv_code v), v)) valueRows)\<rparr>))"

section \<open>Numbers and chain positions\<close>

text \<open>\<open>klopt.allocate_number\<close>: insert the counter at one if it is missing, then take and advance it.\<close>

definition allocate_number :: "sequence_key \<Rightarrow> ledger_db \<Rightarrow> nat \<times> ledger_db" where
  "allocate_number key db =
     (let next_value = (case map_of (t_sequences db) key of None \<Rightarrow> 1 | Some n \<Rightarrow> n)
      in (next_value, db\<lparr>t_sequences := AList.update key (next_value + 1) (t_sequences db)\<rparr>))"

definition db_allocateEntryNumber ::
  "allocate_entry_number_request \<Rightarrow> ledger_db \<Rightarrow> thrown + nat \<times> ledger_db" where
  "db_allocateEntryNumber request db =
     Inr (allocate_number (ar_entityId request, ar_documentType request, ar_fiscalYearCode request) db)"

definition db_allocateChainPosition :: "string \<Rightarrow> ledger_db \<Rightarrow> thrown + chain_position \<times> ledger_db" where
  "db_allocateChainPosition entityId db =
     (let (sqn, db1) = allocate_number (entityId, ''__chain'', []) db in
      if sqn = 1 then Inr (\<lparr>cp_sequence = 1, cp_previousHash = None\<rparr>, db1)
      else (case find (\<lambda>r. er_entityId r = entityId \<and> er_chainSequence r = int sqn - 1) (t_entries db1) of
          None \<Rightarrow> Inl (GenericError (''Chain gap: entity '' @ entityId @ '' has no entry at sequence ''
                    @ int_to_string (int sqn - 1) @ ''.''))
        | Some previous \<Rightarrow>
            Inr (\<lparr>cp_sequence = int sqn, cp_previousHash = Some (er_hash previous)\<rparr>, db1)))"

section \<open>Inserting an entry\<close>

text \<open>
  The guards of the tables as the message that refuses a row, or \<open>None\<close>: the triggers
  \<open>check_period_open\<close> and \<open>check_chain_link\<close> before an entry is inserted, then the unique indexes.
\<close>

definition period_guard :: "ledger_db \<Rightarrow> entry_row \<Rightarrow> string option" where
  "period_guard db r =
     (case find (\<lambda>p. pw_id p = er_periodId r) (t_periods db) of
        None \<Rightarrow> Some ''foreign key: period''
      | Some p \<Rightarrow>
          if pw_entityId p \<noteq> er_entityId r then Some ''klopt: period belongs to another entity''
          else if pw_status p = HardClosed then Some ''klopt: period is hard-closed''
          else if er_bookingDate r < pw_startsOn p \<or> er_bookingDate r > pw_endsOn p
          then Some ''klopt: booking date is outside period''
          else None)"

definition chain_guard :: "ledger_db \<Rightarrow> entry_row \<Rightarrow> string option" where
  "chain_guard db r =
     (if er_chainSequence r < 1 then Some ''klopt: chain sequence starts at 1''
      else if er_chainSequence r = 1
      then (if er_previousHash r \<noteq> None
            then Some ''klopt: the first entry of an entity has no previous hash'' else None)
      else (case find (\<lambda>p. er_entityId p = er_entityId r \<and> er_chainSequence p = er_chainSequence r - 1)
                   (t_entries db) of
          None \<Rightarrow> Some ''klopt: chain gap''
        | Some p \<Rightarrow> if er_previousHash r \<noteq> Some (er_hash p) then Some ''klopt: chain break'' else None))"

definition entry_unique :: "ledger_db \<Rightarrow> entry_row \<Rightarrow> string option" where
  "entry_unique db r =
     (if \<exists>x \<in> set (t_entries db). er_id x = er_id r then Some ''journal_entries_pkey''
      else if \<exists>x \<in> set (t_entries db). er_entityId x = er_entityId r \<and> er_chainSequence x = er_chainSequence r
      then Some ''journal_entries_entity_chain''
      else if \<exists>x \<in> set (t_entries db). er_entityId x = er_entityId r \<and> er_journalId x = er_journalId r \<and>
          er_fiscalYearId x = er_fiscalYearId r \<and> er_entryNumber x = er_entryNumber r
      then Some ''journal_entries_number''
      else if er_reversesEntryId r \<noteq> None \<and> (\<exists>x \<in> set (t_entries db). er_entityId x = er_entityId r \<and>
          er_reversesEntryId x = er_reversesEntryId r)
      then Some ''journal_entries_one_reversal''
      else None)"

definition first_some :: "'a option \<Rightarrow> 'a option \<Rightarrow> 'a option" where
  "first_some a b = (case a of None \<Rightarrow> b | Some x \<Rightarrow> Some x)"

definition entry_guard :: "ledger_db \<Rightarrow> entry_row \<Rightarrow> string option" where
  "entry_guard db r = first_some (period_guard db r) (first_some (chain_guard db r) (entry_unique db r))"

definition line_guard :: "ledger_db \<Rightarrow> line_row \<Rightarrow> string option" where
  "line_guard db l =
     (if (lw_taxCode l = None) \<noteq> (lw_taxRole l = None) then Some ''journal_lines_tax_role_needs_code''
      else if (lw_debit l = 0) = (lw_credit l = 0) then Some ''journal_lines_single_side''
      else if lw_debit l < 0 \<or> lw_credit l < 0 then Some ''journal_lines_unsigned''
      else if (lw_exchangeRate l = None) \<noteq> (lw_exchangeRateSource l = None) then Some ''journal_lines_rate_pairing''
      else if (lw_subledgerKind l = None) \<noteq> (lw_subledgerId l = None) then Some ''journal_lines_subledger_pairing''
      else if \<exists>x \<in> set (t_lines db). lw_id x = lw_id l then Some ''journal_lines_pkey''
      else if \<exists>x \<in> set (t_lines db). lw_entryId x = lw_entryId l \<and> lw_lineNumber x = lw_lineNumber l
      then Some ''journal_lines_entry_line''
      else None)"

definition dimension_guard :: "ledger_db \<Rightarrow> line_dimension_row \<Rightarrow> string option" where
  "dimension_guard db d =
     (if \<exists>x \<in> set (t_lineDimensions db). ld_lineId x = ld_lineId d \<and> ld_typeId x = ld_typeId d
      then Some ''journal_line_dimensions_pkey'' else None)"

definition row_of_entry :: "posted_entry \<Rightarrow> entry_row" where
  "row_of_entry e =
     \<lparr>er_id = pe_id e, er_entityId = pe_entityId e, er_journalId = pe_journalId e,
      er_fiscalYearId = pe_fiscalYearId e, er_periodId = pe_periodId e, er_entryNumber = pe_entryNumber e,
      er_chainSequence = pe_chainSequence e, er_bookingDate = pe_bookingDate e,
      er_documentDate = pe_documentDate e, er_description = pe_description e,
      er_sourceDocumentRef = pe_sourceDocumentRef e, er_reversesEntryId = pe_reversesEntryId e,
      er_functionalCurrency = pe_functionalCurrency e, er_actor = pe_actor e,
      er_previousHash = pe_previousHash e, er_hash = pe_hash e, er_createdAt = pe_createdAt e\<rparr>"

text \<open>\<open>num\<close> is what the \<open>numeric(24,12)\<close> column makes of a rate.\<close>

definition row_of_line :: "(string \<Rightarrow> string) \<Rightarrow> posted_entry \<Rightarrow> posted_line \<Rightarrow> line_row" where
  "row_of_line num e l =
     \<lparr>lw_id = pl_id l, lw_entityId = pe_entityId e, lw_entryId = pe_id e, lw_lineNumber = pl_lineNumber l,
      lw_accountId = pl_accountId l, lw_description = pl_description l, lw_debit = pl_debit l,
      lw_credit = pl_credit l, lw_currency = pl_currency l, lw_functionalDebit = pl_functionalDebit l,
      lw_functionalCredit = pl_functionalCredit l, lw_exchangeRate = map_option num (pl_exchangeRate l),
      lw_exchangeRateSource = pl_exchangeRateSource l, lw_taxCode = pl_taxCode l, lw_taxRole = pl_taxRole l,
      lw_taxMinorUnits = pl_taxAmount l, lw_subledgerKind = pl_subledgerKind l,
      lw_subledgerId = pl_subledgerId l, lw_periodId = pe_periodId e\<rparr>"

definition rows_of_dimensions :: "posted_entry \<Rightarrow> line_dimension_row list" where
  "rows_of_dimensions e = concat (map (\<lambda>l. map (\<lambda>d.
     \<lparr>ld_lineId = pl_id l, ld_typeId = rd_typeId d, ld_valueId = rd_valueId d,
      ld_entityId = pe_entityId e, ld_entryId = pe_id e\<rparr>) (pl_dimensions l)) (pe_lines e))"

fun insert_lines :: "line_row list \<Rightarrow> ledger_db \<Rightarrow> thrown + ledger_db" where
  "insert_lines [] db = Inr db"
| "insert_lines (l # ls) db =
     (case line_guard db l of
        Some refusal \<Rightarrow> Inl (GenericError refusal)
      | None \<Rightarrow> insert_lines ls (db\<lparr>t_lines := t_lines db @ [l]\<rparr>))"

fun insert_dimensions :: "line_dimension_row list \<Rightarrow> ledger_db \<Rightarrow> thrown + ledger_db" where
  "insert_dimensions [] db = Inr db"
| "insert_dimensions (d # ds) db =
     (case dimension_guard db d of
        Some refusal \<Rightarrow> Inl (GenericError refusal)
      | None \<Rightarrow> insert_dimensions ds (db\<lparr>t_lineDimensions := t_lineDimensions db @ [d]\<rparr>))"

definition db_insertEntry :: "(string \<Rightarrow> string) \<Rightarrow> posted_entry \<Rightarrow> ledger_db \<Rightarrow> thrown + ledger_db" where
  "db_insertEntry num e db =
     (case entry_guard db (row_of_entry e) of
        Some refusal \<Rightarrow> Inl (GenericError refusal)
      | None \<Rightarrow>
          and_then (insert_lines (map (row_of_line num e) (pe_lines e))
                      (db\<lparr>t_entries := t_entries db @ [row_of_entry e]\<rparr>))
            (insert_dimensions (rows_of_dimensions e)))"

text \<open>The deferred trigger \<open>check_entry_balanced\<close>, run at commit.\<close>

definition check_entry_balanced :: "ledger_db \<Rightarrow> string \<Rightarrow> string option" where
  "check_entry_balanced db target =
     (let ls = filter (\<lambda>l. lw_entryId l = target) (t_lines db) in
      if length ls < 2 then Some ''klopt: an entry needs at least two lines''
      else if length (js_set (map lw_currency ls)) = 1 \<and> sum_list (map (\<lambda>l. lw_debit l - lw_credit l) ls) \<noteq> 0
      then Some ''klopt: entry does not balance''
      else if sum_list (map (\<lambda>l. lw_functionalDebit l - lw_functionalCredit l) ls) \<noteq> 0
      then Some ''klopt: entry does not balance in the functional currency''
      else None)"

section \<open>Balances, idempotency, audit and outbox\<close>

record balance_total =
  bt_accountId :: string
  bt_currency :: string
  bt_debit :: int
  bt_credit :: int

fun collapse_lines :: "(string \<times> balance_total) list \<Rightarrow> posted_line list \<Rightarrow> (string \<times> balance_total) list" where
  "collapse_lines totals [] = totals"
| "collapse_lines totals (l # ls) =
     (let key = pl_accountId l @ '':'' @ pl_currency l;
          current = (case map_of totals key of
              Some t \<Rightarrow> t
            | None \<Rightarrow> \<lparr>bt_accountId = pl_accountId l, bt_currency = pl_currency l, bt_debit = 0, bt_credit = 0\<rparr>)
      in collapse_lines (AList.update key
           (current\<lparr>bt_debit := bt_debit current + pl_debit l, bt_credit := bt_credit current + pl_credit l\<rparr>)
           totals) ls)"

definition upsert_balance ::
  "string \<Rightarrow> string \<Rightarrow> balance_total \<Rightarrow> (balance_key \<times> int \<times> int) list \<Rightarrow> (balance_key \<times> int \<times> int) list" where
  "upsert_balance entityId periodId t balances =
     (let key = (entityId, bt_accountId t, periodId, bt_currency t) in
      AList.update key
        (case map_of balances key of
           None \<Rightarrow> (bt_debit t, bt_credit t)
         | Some (d, c) \<Rightarrow> (d + bt_debit t, c + bt_credit t)) balances)"

definition db_applyPeriodBalances :: "posted_entry \<Rightarrow> ledger_db \<Rightarrow> thrown + ledger_db" where
  "db_applyPeriodBalances e db =
     Inr (db\<lparr>t_balances := foldl (\<lambda>b t. upsert_balance (pe_entityId e) (pe_periodId e) t b) (t_balances db)
        (map snd (collapse_lines [] (pe_lines e)))\<rparr>)"

definition db_findIdempotencyRecord :: "string \<Rightarrow> string \<Rightarrow> ledger_db \<Rightarrow> thrown + idempotency_record option" where
  "db_findIdempotencyRecord entityId key db =
     Inr (map_option snd (find (\<lambda>(e, r). e = entityId \<and> ir_key r = key) (t_idempotency db)))"

definition db_recordIdempotency :: "string \<Rightarrow> idempotency_record \<Rightarrow> ledger_db \<Rightarrow> thrown + ledger_db" where
  "db_recordIdempotency entityId r db =
     (if \<exists>x \<in> set (t_idempotency db). fst x = entityId \<and> ir_key (snd x) = ir_key r
      then Inl (GenericError ''idempotency_keys_pkey'')
      else Inr (db\<lparr>t_idempotency := t_idempotency db @ [(entityId, r)]\<rparr>))"

definition db_appendAudit :: "audit_event \<Rightarrow> ledger_db \<Rightarrow> thrown + ledger_db" where
  "db_appendAudit event db = Inr (db\<lparr>t_audit := t_audit db @ [event]\<rparr>)"

definition db_enqueueEvent :: "domain_event \<Rightarrow> ledger_db \<Rightarrow> thrown + ledger_db" where
  "db_enqueueEvent event db = Inr (db\<lparr>t_outbox := t_outbox db @ [event]\<rparr>)"

section \<open>Reading entries back\<close>

definition normaliseRate :: "string option \<Rightarrow> string option" where
  "normaliseRate v = map_option (\<lambda>value.
     if CHR ''.'' \<notin> set value then value
     else (let stripped = strip_trailing_zeros value;
               trimmed = (if stripped \<noteq> [] \<and> last stripped = CHR ''.'' then butlast stripped else stripped)
           in if trimmed = [] then ''0'' else trimmed)) v"

definition line_dimensions :: "ledger_db \<Rightarrow> string \<Rightarrow> string \<Rightarrow> resolved_dimension list" where
  "line_dimensions db entryId lineId =
     List.map_filter (\<lambda>d.
         case (find (\<lambda>(_, t). dt_id t = ld_typeId d) (t_dimensionTypes db),
               find (\<lambda>v. vw_id v = ld_valueId d) (t_dimensionValues db)) of
           (Some (_, t), Some v) \<Rightarrow> Some \<lparr>rd_typeId = ld_typeId d, rd_typeCode = dt_code t,
              rd_valueId = ld_valueId d, rd_valueCode = vw_code v\<rparr>
         | _ \<Rightarrow> None)
       (filter (\<lambda>d. ld_entryId d = entryId \<and> ld_lineId d = lineId) (t_lineDimensions db))"

definition line_of_row :: "ledger_db \<Rightarrow> line_row \<Rightarrow> posted_line option" where
  "line_of_row db l =
     map_option (\<lambda>a. \<lparr>pl_id = lw_id l, pl_lineNumber = lw_lineNumber l, pl_accountId = lw_accountId l,
        pl_accountNumber = aw_number a, pl_description = lw_description l, pl_debit = lw_debit l,
        pl_credit = lw_credit l, pl_currency = lw_currency l, pl_functionalDebit = lw_functionalDebit l,
        pl_functionalCredit = lw_functionalCredit l, pl_exchangeRate = normaliseRate (lw_exchangeRate l),
        pl_exchangeRateSource = lw_exchangeRateSource l, pl_taxCode = lw_taxCode l, pl_taxRole = lw_taxRole l,
        pl_taxAmount = lw_taxMinorUnits l, pl_dimensions = line_dimensions db (lw_entryId l) (lw_id l),
        pl_subledgerKind = lw_subledgerKind l, pl_subledgerId = lw_subledgerId l\<rparr>)
       (find (\<lambda>a. aw_id a = lw_accountId l) (t_accounts db))"

definition loadLines :: "ledger_db \<Rightarrow> string \<Rightarrow> posted_line list" where
  "loadLines db entryId =
     List.map_filter (line_of_row db)
       (sort_by (\<lambda>a b. int_compare (int (lw_lineNumber a)) (int (lw_lineNumber b)))
          (filter (\<lambda>l. lw_entryId l = entryId) (t_lines db)))"

definition hydrateEntry :: "ledger_db \<Rightarrow> entry_row \<Rightarrow> posted_entry option" where
  "hydrateEntry db r =
     (case (find (\<lambda>(_, j). jo_id j = er_journalId r) (t_journals db),
            find (\<lambda>y. fy_id y = er_fiscalYearId r) (t_fiscalYears db),
            find (\<lambda>p. pw_id p = er_periodId r) (t_periods db)) of
        (Some (_, j), Some y, Some p) \<Rightarrow>
          Some \<lparr>pe_id = er_id r, pe_entityId = er_entityId r, pe_journalId = er_journalId r,
            pe_journalCode = jo_code j, pe_fiscalYearId = er_fiscalYearId r, pe_fiscalYearCode = fy_code y,
            pe_periodId = er_periodId r, pe_periodSequence = pw_sequence p,
            pe_entryNumber = er_entryNumber r, pe_chainSequence = er_chainSequence r,
            pe_bookingDate = er_bookingDate r, pe_documentDate = er_documentDate r,
            pe_description = er_description r, pe_sourceDocumentRef = er_sourceDocumentRef r,
            pe_reversesEntryId = er_reversesEntryId r, pe_functionalCurrency = er_functionalCurrency r,
            pe_createdAt = er_createdAt r, pe_actor = er_actor r, pe_previousHash = er_previousHash r,
            pe_hash = er_hash r, pe_lines = loadLines db (er_id r)\<rparr>
      | _ \<Rightarrow> None)"

definition db_findEntryById :: "string \<Rightarrow> string \<Rightarrow> ledger_db \<Rightarrow> thrown + posted_entry option" where
  "db_findEntryById entityId entryId db =
     Inr (case List.map_filter (hydrateEntry db)
              (filter (\<lambda>r. er_entityId r = entityId \<and> er_id r = entryId) (t_entries db)) of
            [] \<Rightarrow> None | e # _ \<Rightarrow> Some e)"

definition db_findReversalOf :: "string \<Rightarrow> string \<Rightarrow> ledger_db \<Rightarrow> thrown + string option" where
  "db_findReversalOf entityId entryId db =
     Inr (map_option er_id
       (find (\<lambda>r. er_entityId r = entityId \<and> er_reversesEntryId r = Some entryId) (t_entries db)))"

definition loadChain :: "string \<Rightarrow> ledger_db \<Rightarrow> posted_entry list" where
  "loadChain entityId db =
     List.map_filter (hydrateEntry db)
       (sort_by (\<lambda>a b. int_compare (er_chainSequence a) (er_chainSequence b))
          (filter (\<lambda>r. er_entityId r = entityId) (t_entries db)))"

text \<open>The class, as the record of its methods.\<close>

definition DrizzleLedgerRepository :: "(string \<Rightarrow> string) \<Rightarrow> ledger_db ledger_repository" where
  "DrizzleLedgerRepository num =
     \<lparr>loadPostingContext = db_loadPostingContext, allocateEntryNumber = db_allocateEntryNumber,
      allocateChainPosition = db_allocateChainPosition, findEntryById = db_findEntryById,
      findReversalOf = db_findReversalOf, insertEntry = db_insertEntry num,
      applyPeriodBalances = db_applyPeriodBalances, findIdempotencyRecord = db_findIdempotencyRecord,
      recordIdempotency = db_recordIdempotency, appendAudit = db_appendAudit, enqueueEvent = db_enqueueEvent\<rparr>"

section \<open>Keys and references\<close>

text \<open>What the schema guarantees of a stored database: primary keys and foreign keys.\<close>

definition db_wf :: "ledger_db \<Rightarrow> bool" where
  "db_wf db \<longleftrightarrow>
     distinct (map (jo_id \<circ> snd) (t_journals db)) \<and> distinct (map fy_id (t_fiscalYears db)) \<and>
     distinct (map pw_id (t_periods db)) \<and> distinct (map aw_id (t_accounts db)) \<and>
     distinct (map (dt_id \<circ> snd) (t_dimensionTypes db)) \<and> distinct (map vw_id (t_dimensionValues db)) \<and>
     distinct (map er_id (t_entries db)) \<and>
     (\<forall>l \<in> set (t_lines db). lw_entryId l \<in> er_id ` set (t_entries db)) \<and>
     (\<forall>d \<in> set (t_lineDimensions db). ld_entryId d \<in> er_id ` set (t_entries db))"

lemma find_by_key: "distinct (map f xs) \<Longrightarrow> x \<in> set xs \<Longrightarrow> find (\<lambda>y. f y = f x) xs = Some x"
  by (induction xs) auto

lemma find_journal: "db_wf db \<Longrightarrow> (e, j) \<in> set (t_journals db) \<Longrightarrow>
   find (\<lambda>(_, x). jo_id x = jo_id j) (t_journals db) = Some (e, j)"
  using find_by_key [of "jo_id \<circ> snd" "t_journals db" "(e, j)"]
  by (simp add: db_wf_def case_prod_beta')

lemma find_type: "db_wf db \<Longrightarrow> (e, t) \<in> set (t_dimensionTypes db) \<Longrightarrow>
   find (\<lambda>(_, x). dt_id x = dt_id t) (t_dimensionTypes db) = Some (e, t)"
  using find_by_key [of "dt_id \<circ> snd" "t_dimensionTypes db" "(e, t)"]
  by (simp add: db_wf_def case_prod_beta')

lemma find_period: "db_wf db \<Longrightarrow> p \<in> set (t_periods db) \<Longrightarrow> find (\<lambda>x. pw_id x = pw_id p) (t_periods db) = Some p"
  and find_account: "db_wf db \<Longrightarrow> a \<in> set (t_accounts db) \<Longrightarrow> find (\<lambda>x. aw_id x = aw_id a) (t_accounts db) = Some a"
  and find_value: "db_wf db \<Longrightarrow> v \<in> set (t_dimensionValues db) \<Longrightarrow>
     find (\<lambda>x. vw_id x = vw_id v) (t_dimensionValues db) = Some v"
  by (simp_all add: db_wf_def find_by_key)

text \<open>A resolved dimension, line or entry names rows that are there, by id and by code.\<close>

definition dimension_refs :: "ledger_db \<Rightarrow> resolved_dimension \<Rightarrow> bool" where
  "dimension_refs db d \<longleftrightarrow>
     (\<exists>e t. (e, t) \<in> set (t_dimensionTypes db) \<and> dt_id t = rd_typeId d \<and> dt_code t = rd_typeCode d) \<and>
     (\<exists>v \<in> set (t_dimensionValues db). vw_id v = rd_valueId d \<and> vw_code v = rd_valueCode d)"

definition line_refs :: "(string \<Rightarrow> string) \<Rightarrow> ledger_db \<Rightarrow> posted_line \<Rightarrow> bool" where
  "line_refs num db l \<longleftrightarrow>
     (\<exists>a \<in> set (t_accounts db). aw_id a = pl_accountId l \<and> aw_number a = pl_accountNumber l) \<and>
     (\<forall>d \<in> set (pl_dimensions l). dimension_refs db d) \<and>
     normaliseRate (map_option num (pl_exchangeRate l)) = pl_exchangeRate l"

definition entry_refs :: "(string \<Rightarrow> string) \<Rightarrow> ledger_db \<Rightarrow> posted_entry \<Rightarrow> bool" where
  "entry_refs num db e \<longleftrightarrow>
     (\<exists>x j. (x, j) \<in> set (t_journals db) \<and> jo_id j = pe_journalId e \<and> jo_code j = pe_journalCode e) \<and>
     (\<exists>p y. p \<in> set (t_periods db) \<and> pw_id p = pe_periodId e \<and> pw_sequence p = pe_periodSequence e \<and>
        find (\<lambda>y. fy_id y = pe_fiscalYearId e) (t_fiscalYears db) = Some y \<and> fy_code y = pe_fiscalYearCode e) \<and>
     (\<forall>l \<in> set (pe_lines e). line_refs num db l) \<and>
     map pl_lineNumber (pe_lines e) = [1..<1 + length (pe_lines e)]"

text \<open>The tables of reference data, which a posting only reads.\<close>

definition same_master :: "ledger_db \<Rightarrow> ledger_db \<Rightarrow> bool" where
  "same_master db db' \<longleftrightarrow>
     t_entities db' = t_entities db \<and> t_journals db' = t_journals db \<and> t_fiscalYears db' = t_fiscalYears db \<and>
     t_periods db' = t_periods db \<and> t_accounts db' = t_accounts db \<and> t_requirements db' = t_requirements db \<and>
     t_dimensionTypes db' = t_dimensionTypes db \<and> t_dimensionValues db' = t_dimensionValues db"

lemma same_master_trans: "same_master a b \<Longrightarrow> same_master b c \<Longrightarrow> same_master a c"
  by (simp add: same_master_def)

lemma refs_cong:
  "same_master db db' \<Longrightarrow> entry_refs num db' e = entry_refs num db e"
  by (simp add: same_master_def entry_refs_def line_refs_def dimension_refs_def)

section \<open>What a write changes\<close>

lemma insert_lines_spec:
  "insert_lines ls db = Inr db' \<Longrightarrow> db' = db\<lparr>t_lines := t_lines db @ ls\<rparr> \<and>
   distinct (map lw_id ls) \<and> lw_id ` set ls \<inter> lw_id ` set (t_lines db) = {}"
proof (induction ls arbitrary: db)
  case (Cons l ls)
  then have guard: "line_guard db l = None"
    and rest: "insert_lines ls (db\<lparr>t_lines := t_lines db @ [l]\<rparr>) = Inr db'"
    by (auto split: option.splits)
  from guard have fresh: "lw_id l \<notin> lw_id ` set (t_lines db)"
    by (auto simp: line_guard_def split: if_splits)
  from Cons.IH [OF rest] fresh show ?case by auto
qed simp

lemma insert_dimensions_spec:
  "insert_dimensions ds db = Inr db' \<Longrightarrow> db' = db\<lparr>t_lineDimensions := t_lineDimensions db @ ds\<rparr>"
proof (induction ds arbitrary: db)
  case (Cons d ds)
  then have "insert_dimensions ds (db\<lparr>t_lineDimensions := t_lineDimensions db @ [d]\<rparr>) = Inr db'"
    by (auto split: option.splits)
  from Cons.IH [OF this] show ?case by simp
qed simp

definition inserted :: "(string \<Rightarrow> string) \<Rightarrow> posted_entry \<Rightarrow> ledger_db \<Rightarrow> ledger_db" where
  "inserted num e db = db\<lparr>t_entries := t_entries db @ [row_of_entry e],
     t_lines := t_lines db @ map (row_of_line num e) (pe_lines e),
     t_lineDimensions := t_lineDimensions db @ rows_of_dimensions e\<rparr>"

lemma inserted_simps [simp]:
  "t_journals (inserted num e db) = t_journals db" "t_fiscalYears (inserted num e db) = t_fiscalYears db"
  "t_periods (inserted num e db) = t_periods db" "t_accounts (inserted num e db) = t_accounts db"
  "t_dimensionTypes (inserted num e db) = t_dimensionTypes db"
  "t_dimensionValues (inserted num e db) = t_dimensionValues db"
  "t_sequences (inserted num e db) = t_sequences db" "t_balances (inserted num e db) = t_balances db"
  "t_idempotency (inserted num e db) = t_idempotency db" "same_master db (inserted num e db)"
  by (simp_all add: inserted_def same_master_def)

lemma db_insertEntry_spec:
  assumes "db_insertEntry num e db = Inr db'"
  shows "db' = inserted num e db" "entry_guard db (row_of_entry e) = None" "distinct (map pl_id (pe_lines e))"
proof -
  from assms show guard: "entry_guard db (row_of_entry e) = None"
    by (auto simp: db_insertEntry_def split: option.splits)
  with assms obtain db1 where 1: "insert_lines (map (row_of_line num e) (pe_lines e))
      (db\<lparr>t_entries := t_entries db @ [row_of_entry e]\<rparr>) = Inr db1"
    and 2: "insert_dimensions (rows_of_dimensions e) db1 = Inr db'"
    by (auto simp: db_insertEntry_def and_then_Inr)
  note lines = insert_lines_spec [OF 1]
  from lines insert_dimensions_spec [OF 2] show "db' = inserted num e db" by (simp add: inserted_def)
  have "lw_id \<circ> row_of_line num e = pl_id" by (rule ext) (simp add: row_of_line_def)
  with lines show "distinct (map pl_id (pe_lines e))" by simp
qed

lemma entry_guard_None:
  assumes "entry_guard db r = None"
  shows "er_id r \<notin> er_id ` set (t_entries db)"
    "\<forall>x \<in> set (t_entries db). er_entityId x = er_entityId r \<longrightarrow> er_chainSequence x \<noteq> er_chainSequence r"
    "chain_guard db r = None" "period_guard db r = None"
  using assms by (auto simp: entry_guard_def first_some_def entry_unique_def split: option.splits if_splits)

section \<open>What is written is read back\<close>

lemma dims_of_line:
  assumes e: "db_wf db" "pe_id e \<notin> er_id ` set (t_entries db)"
    and l: "distinct (map pl_id (pe_lines e))" "l \<in> set (pe_lines e)"
  shows "filter (\<lambda>d. ld_entryId d = pe_id e \<and> ld_lineId d = pl_id l) (t_lineDimensions (inserted num e db)) =
    map (\<lambda>d. \<lparr>ld_lineId = pl_id l, ld_typeId = rd_typeId d, ld_valueId = rd_valueId d,
      ld_entityId = pe_entityId e, ld_entryId = pe_id e\<rparr>) (pl_dimensions l)"
proof -
  let ?row = "\<lambda>l d. \<lparr>ld_lineId = pl_id l, ld_typeId = rd_typeId d, ld_valueId = rd_valueId d,
      ld_entityId = pe_entityId e, ld_entryId = pe_id e\<rparr>"
  let ?P = "\<lambda>d. ld_entryId d = pe_id e \<and> ld_lineId d = pl_id l"
  have old: "filter ?P (t_lineDimensions db) = []"
    using e unfolding db_wf_def filter_empty_conv by metis
  have "filter ?P (concat (map (\<lambda>l. map (?row l) (pl_dimensions l)) ls)) =
      (if l \<in> set ls then map (?row l) (pl_dimensions l) else [])"
    if "distinct (map pl_id ls)" "l \<in> set ls \<or> pl_id l \<notin> pl_id ` set ls" for ls
    using that
  proof (induction ls)
    case (Cons k ls)
    show ?case
    proof (cases "pl_id k = pl_id l")
      case True
      with Cons.prems have "k = l" "pl_id l \<notin> pl_id ` set ls" by auto
      moreover from this have "filter ?P (concat (map (\<lambda>l. map (?row l) (pl_dimensions l)) ls)) = []"
        using Cons by auto
      ultimately show ?thesis by (simp add: comp_def)
    next
      case False
      with Cons show ?thesis by (auto simp: filter_empty_conv) (metis imageI)
    qed
  qed simp
  from this [OF l(1)] l(2) old show ?thesis by (simp add: inserted_def rows_of_dimensions_def)
qed

lemma map_filter_map_id: "(\<And>x. x \<in> set xs \<Longrightarrow> f (g x) = Some x) \<Longrightarrow> List.map_filter f (map g xs) = xs"
  by (induction xs) (auto simp: List.map_filter_simps)

lemma line_dimensions_back:
  assumes wf: "db_wf db" "pe_id e \<notin> er_id ` set (t_entries db)"
    and l: "distinct (map pl_id (pe_lines e))" "l \<in> set (pe_lines e)" "\<forall>d \<in> set (pl_dimensions l). dimension_refs db d"
  shows "line_dimensions (inserted num e db) (pe_id e) (pl_id l) = pl_dimensions l"
proof -
  let ?db = "inserted num e db"
  have join: "(case (find (\<lambda>(_, t). dt_id t = rd_typeId d) (t_dimensionTypes ?db),
                find (\<lambda>v. vw_id v = rd_valueId d) (t_dimensionValues ?db)) of
        (Some (_, t), Some v) \<Rightarrow> Some \<lparr>rd_typeId = rd_typeId d, rd_typeCode = dt_code t,
            rd_valueId = rd_valueId d, rd_valueCode = vw_code v\<rparr>
      | _ \<Rightarrow> None) = Some d" if "d \<in> set (pl_dimensions l)" for d
  proof -
    from l(3) that obtain x t v where t: "(x, t) \<in> set (t_dimensionTypes db)" "dt_id t = rd_typeId d" "dt_code t = rd_typeCode d"
      and v: "v \<in> set (t_dimensionValues db)" "vw_id v = rd_valueId d" "vw_code v = rd_valueCode d"
      unfolding dimension_refs_def by blast
    from find_type [OF wf(1) t(1)] find_value [OF wf(1) v(1)] t v show ?thesis
      by (simp add: inserted_def)
  qed
  show ?thesis
    unfolding line_dimensions_def dims_of_line [OF wf l(1,2)]
    by (rule map_filter_map_id) (simp only: line_dimension_row.simps join)
qed

lemma line_back:
  assumes wf: "db_wf db" "pe_id e \<notin> er_id ` set (t_entries db)"
    and l: "distinct (map pl_id (pe_lines e))" "l \<in> set (pe_lines e)" "line_refs num db l"
  shows "line_of_row (inserted num e db) (row_of_line num e l) = Some l"
proof -
  from l(3) obtain a where a: "a \<in> set (t_accounts db)" "aw_id a = pl_accountId l" "aw_number a = pl_accountNumber l"
    by (auto simp: line_refs_def)
  have "find (\<lambda>x. aw_id x = pl_accountId l) (t_accounts (inserted num e db)) = Some a"
    using find_account [OF wf(1) a(1)] a(2) by (simp add: inserted_def)
  moreover have "line_dimensions (inserted num e db) (pe_id e) (pl_id l) = pl_dimensions l"
    using l by (intro line_dimensions_back [OF wf]) (simp_all add: line_refs_def)
  ultimately show ?thesis
    using l(3) a(3) by (simp add: line_of_row_def row_of_line_def line_refs_def)
qed

lemma sort_by_ascending:
  "sorted_wrt (\<lambda>a b. cmp a b \<le> 0) xs \<Longrightarrow> sort_by cmp xs = xs"
proof (induction xs)
  case (Cons x xs)
  then show ?case by (cases xs) auto
qed simp

lemma loadLines_new:
  assumes wf: "db_wf db" "pe_id e \<notin> er_id ` set (t_entries db)"
    and l: "distinct (map pl_id (pe_lines e))" "\<forall>l \<in> set (pe_lines e). line_refs num db l"
      "map pl_lineNumber (pe_lines e) = [1..<1 + length (pe_lines e)]"
  shows "loadLines (inserted num e db) (pe_id e) = pe_lines e"
proof -
  let ?cmp = "\<lambda>a b. int_compare (int (lw_lineNumber a)) (int (lw_lineNumber b))"
  let ?rows = "map (row_of_line num e) (pe_lines e)"
  have old: "filter (\<lambda>l. lw_entryId l = pe_id e) (t_lines db) = []"
    using wf unfolding db_wf_def filter_empty_conv by metis
  have new: "filter (\<lambda>l. lw_entryId l = pe_id e) ?rows = ?rows"
    by (simp add: row_of_line_def filter_id_conv)
  have numbers: "map lw_lineNumber ?rows = [1..<1 + length (pe_lines e)]"
    using l(3) by (simp add: comp_def row_of_line_def)
  have "sorted_wrt (\<lambda>a b. ?cmp a b \<le> 0) ?rows"
    unfolding sorted_wrt_iff_nth_less
  proof (intro allI impI)
    fix i j assume "i < j" "j < length ?rows"
    then have "map lw_lineNumber ?rows ! i \<le> map lw_lineNumber ?rows ! j"
      unfolding numbers by (simp del: upt_Suc)
    with \<open>i < j\<close> \<open>j < length ?rows\<close> show "?cmp (?rows ! i) (?rows ! j) \<le> 0"
      by (simp add: int_compare_def)
  qed
  then have "sort_by ?cmp ?rows = ?rows" by (rule sort_by_ascending)
  moreover have "t_lines (inserted num e db) = t_lines db @ ?rows" by (simp add: inserted_def)
  ultimately have "loadLines (inserted num e db) (pe_id e) = List.map_filter (line_of_row (inserted num e db)) ?rows"
    by (simp only: loadLines_def filter_append old new append_Nil)
  also have "\<dots> = pe_lines e"
    by (rule map_filter_map_id) (use l(2) in \<open>simp add: line_back [OF wf l(1)]\<close>)
  finally show ?thesis .
qed

lemma hydrate_new:
  assumes wf: "db_wf db" "pe_id e \<notin> er_id ` set (t_entries db)"
    and e: "distinct (map pl_id (pe_lines e))" "entry_refs num db e"
  shows "hydrateEntry (inserted num e db) (row_of_entry e) = Some e"
proof -
  from e(2) obtain x j p y where j: "(x, j) \<in> set (t_journals db)" "jo_id j = pe_journalId e" "jo_code j = pe_journalCode e"
    and p: "p \<in> set (t_periods db)" "pw_id p = pe_periodId e" "pw_sequence p = pe_periodSequence e"
    and y: "find (\<lambda>y. fy_id y = pe_fiscalYearId e) (t_fiscalYears db) = Some y" "fy_code y = pe_fiscalYearCode e"
    and l: "\<forall>l \<in> set (pe_lines e). line_refs num db l"
      "map pl_lineNumber (pe_lines e) = [1..<1 + length (pe_lines e)]"
    unfolding entry_refs_def by blast
  have "find (\<lambda>(_, j). jo_id j = pe_journalId e) (t_journals (inserted num e db)) = Some (x, j)"
    using find_journal [OF wf(1) j(1)] j(2) by (simp add: inserted_def)
  moreover have "find (\<lambda>y. fy_id y = pe_fiscalYearId e) (t_fiscalYears (inserted num e db)) = Some y"
    using y(1) by (simp add: inserted_def)
  moreover have "find (\<lambda>p. pw_id p = pe_periodId e) (t_periods (inserted num e db)) = Some p"
    using find_period [OF wf(1) p(1)] p(2) by (simp add: inserted_def)
  ultimately show ?thesis
    using j p y loadLines_new [OF wf e(1) l]
    by (simp add: hydrateEntry_def row_of_entry_def)
qed

text \<open>Rows of other entries are untouched.\<close>

lemma loadLines_old:
  assumes "i \<noteq> pe_id e"
  shows "loadLines (inserted num e db) i = loadLines db i"
proof -
  have rows: "filter (\<lambda>l. lw_entryId l = i) (map (row_of_line num e) (pe_lines e)) = []"
    using assms by (auto simp: filter_empty_conv row_of_line_def)
  have dims: "line_dimensions (inserted num e db) i k = line_dimensions db i k" for k
  proof -
    have "filter (\<lambda>d. ld_entryId d = i \<and> ld_lineId d = k) (rows_of_dimensions e) = []"
      using assms by (auto simp: filter_empty_conv rows_of_dimensions_def)
    then show ?thesis by (simp add: line_dimensions_def inserted_def)
  qed
  have "line_of_row (inserted num e db) l = line_of_row db l" if "lw_entryId l = i" for l
    using dims that by (simp add: line_of_row_def inserted_def)
  then have "List.map_filter (line_of_row (inserted num e db)) ls = List.map_filter (line_of_row db) ls"
    if "\<forall>l \<in> set ls. lw_entryId l = i" for ls
    using that by (induction ls) (auto simp: List.map_filter_simps split: option.splits)
  then show ?thesis by (simp add: loadLines_def inserted_def rows)
qed

lemma hydrate_old: "er_id r \<noteq> pe_id e \<Longrightarrow> hydrateEntry (inserted num e db) r = hydrateEntry db r"
proof -
  assume other: "er_id r \<noteq> pe_id e"
  show ?thesis unfolding hydrateEntry_def inserted_simps loadLines_old [OF other] by (rule refl)
qed

lemma map_filter_cong: "(\<And>x. x \<in> set xs \<Longrightarrow> f x = g x) \<Longrightarrow> List.map_filter f xs = List.map_filter g xs"
  by (induction xs) (auto simp: List.map_filter_simps split: option.splits)

lemma map_filter_append: "List.map_filter f (xs @ ys) = List.map_filter f xs @ List.map_filter f ys"
  by (induction xs) (auto simp: List.map_filter_simps split: option.splits)

text \<open>The chain of an entity grows by exactly the entry; the other chains stay as they are.\<close>

definition dense_chain :: "ledger_db \<Rightarrow> string \<Rightarrow> bool" where
  "dense_chain db entityId \<longleftrightarrow>
     map er_chainSequence (filter (\<lambda>r. er_entityId r = entityId) (t_entries db)) =
     map int [1..<1 + length (filter (\<lambda>r. er_entityId r = entityId) (t_entries db))]"

lemma dense_sorted:
  assumes "map er_chainSequence rs = map int [1..<1 + length rs]"
  shows "sort_by (\<lambda>a b. int_compare (er_chainSequence a) (er_chainSequence b)) rs = rs"
proof (rule sort_by_ascending, unfold sorted_wrt_iff_nth_less, intro allI impI)
  fix i j assume ij: "i < j" "j < length rs"
  then have "map er_chainSequence rs ! i \<le> map er_chainSequence rs ! j"
    unfolding assms by (simp del: upt_Suc)
  with ij show "int_compare (er_chainSequence (rs ! i)) (er_chainSequence (rs ! j)) \<le> 0"
    by (simp add: int_compare_def)
qed

lemma loadChain_dense:
  "dense_chain db entityId \<Longrightarrow>
   loadChain entityId db = List.map_filter (hydrateEntry db) (filter (\<lambda>r. er_entityId r = entityId) (t_entries db))"
  unfolding loadChain_def dense_chain_def by (simp only: dense_sorted)

lemma loadChain_inserted:
  assumes wf: "db_wf db" and ins: "db_insertEntry num e db = Inr db'" and e: "entry_refs num db e"
    and dense: "dense_chain db (pe_entityId e)" "dense_chain db' (pe_entityId e)"
  shows "loadChain (pe_entityId e) db' = loadChain (pe_entityId e) db @ [e]"
proof -
  note spec = db_insertEntry_spec [OF ins]
  have fresh: "pe_id e \<notin> er_id ` set (t_entries db)"
    using entry_guard_None(1) [OF spec(2)] by (simp add: row_of_entry_def)
  have rows: "filter (\<lambda>r. er_entityId r = pe_entityId e) (t_entries db') =
      filter (\<lambda>r. er_entityId r = pe_entityId e) (t_entries db) @ [row_of_entry e]"
    by (simp add: spec(1) inserted_def row_of_entry_def)
  have "List.map_filter (hydrateEntry db') (filter (\<lambda>r. er_entityId r = pe_entityId e) (t_entries db)) =
      List.map_filter (hydrateEntry db) (filter (\<lambda>r. er_entityId r = pe_entityId e) (t_entries db))"
  proof (rule map_filter_cong)
    fix r assume "r \<in> set (filter (\<lambda>r. er_entityId r = pe_entityId e) (t_entries db))"
    then have "er_id r \<in> er_id ` set (t_entries db)" by simp
    with fresh have "er_id r \<noteq> pe_id e" by metis
    then show "hydrateEntry db' r = hydrateEntry db r" unfolding spec(1) by (rule hydrate_old)
  qed
  moreover have "hydrateEntry db' (row_of_entry e) = Some e"
    unfolding spec(1) by (rule hydrate_new [OF wf fresh spec(3) e])
  ultimately show ?thesis
    unfolding loadChain_dense [OF dense(1)] loadChain_dense [OF dense(2)] rows
    by (simp add: map_filter_append List.map_filter_simps)
qed

section \<open>The context refers to what is there\<close>

lemma find_SomeD: "find P xs = Some x \<Longrightarrow> x \<in> set xs \<and> P x"
  by (auto simp: find_Some_iff)

lemma map_of_js_map_SomeD: "map_of (js_map xs) k = Some v \<Longrightarrow> (k, v) \<in> set xs"
  using map_of_SomeD [of "js_map xs" k v] set_js_map [of xs] by blast

lemma map_filter_member: "y \<in> set (List.map_filter f xs) \<Longrightarrow> \<exists>x \<in> set xs. f x = Some y"
  by (induction xs) (auto simp: List.map_filter_simps split: option.splits)

lemma db_context:
  assumes "db_loadPostingContext request db = Inr (Some ctx)"
  shows "ctx_entity ctx \<in> set (t_entities db)" "en_id (ctx_entity ctx) = lr_entityId request"
    "isValidDate (lr_bookingDate request)"
    "ctx_journal ctx = Some j \<Longrightarrow> (lr_entityId request, j) \<in> set (t_journals db) \<and> jo_code j = lr_journalCode request"
    "ctx_period ctx = Some p \<Longrightarrow> \<exists>w \<in> set (t_periods db). period_of_row db w = Some p \<and>
       pw_entityId w = lr_entityId request \<and> pw_startsOn w \<le> lr_bookingDate request \<and> lr_bookingDate request \<le> pw_endsOn w"
    "map_of (ctx_accountsByNumber ctx) number = Some account \<Longrightarrow>
       \<exists>a \<in> set (t_accounts db). aw_id a = ac_id account \<and> aw_number a = ac_number account \<and> number = aw_number a"
    "map_of (ctx_dimensionTypesByCode ctx) code = Some t \<Longrightarrow> (lr_entityId request, t) \<in> set (t_dimensionTypes db) \<and> dt_code t = code"
    "map_of (ctx_dimensionValuesByKey ctx) key = Some v \<Longrightarrow>
       \<exists>w \<in> set (t_dimensionValues db). vw_id w = dv_id v \<and> vw_code w = dv_code v"
    "keyed_by_number ctx"
proof -
  obtain entity where entity: "find (\<lambda>e. en_id e = lr_entityId request) (t_entities db) = Some entity"
    using assms by (cases "find (\<lambda>e. en_id e = lr_entityId request) (t_entities db)")
      (auto simp: db_loadPostingContext_def Let_def)
  note ctx = assms [unfolded db_loadPostingContext_def Let_def entity option.case]
  then show valid: "isValidDate (lr_bookingDate request)"
    by (cases "isValidDate (lr_bookingDate request)") simp_all
  note ctx = ctx [simplified valid not_True_eq_False if_False sum.inject option.inject]
  have c: "ctx_entity ctx = entity"
    "ctx_journal ctx = map_option snd (find (\<lambda>(e, j). e = lr_entityId request \<and> jo_code j = lr_journalCode request) (t_journals db))"
    "ctx_period ctx = (case List.map_filter (period_of_row db) (filter (\<lambda>p. pw_entityId p = lr_entityId request \<and>
        pw_startsOn p \<le> lr_bookingDate request \<and> lr_bookingDate request \<le> pw_endsOn p) (t_periods db)) of
        [] \<Rightarrow> None | p # _ \<Rightarrow> Some p)"
    unfolding ctx [symmetric] posting_context.simps by (rule refl)+
  have maps:
    "\<exists>reqs rows. set rows \<subseteq> set (t_accounts db) \<and>
       ctx_accountsByNumber ctx = js_map (map (\<lambda>a. (aw_number a, account_of_row reqs a)) rows)"
    "\<exists>rows. set rows \<subseteq> {(e, t). (e, t) \<in> set (t_dimensionTypes db) \<and> e = lr_entityId request} \<and>
       ctx_dimensionTypesByCode ctx = js_map (map (\<lambda>(_, t). (dt_code t, t)) rows)"
    "\<exists>rows. set rows \<subseteq> set (t_dimensionValues db) \<and> ctx_dimensionValuesByKey ctx =
       js_map (map (\<lambda>v. (dimensionKey (dv_typeCode v) (dv_code v), v)) (List.map_filter (value_of_row db) rows))"
    unfolding ctx [symmetric] posting_context.simps
    by (rule exI, rule exI, rule conjI [OF _ refl], auto) (rule exI, rule conjI [OF _ refl], auto)+
  show "ctx_entity ctx \<in> set (t_entities db)" "en_id (ctx_entity ctx) = lr_entityId request"
    using entity c(1) by (auto dest: find_SomeD)
  show "ctx_journal ctx = Some j \<Longrightarrow> (lr_entityId request, j) \<in> set (t_journals db) \<and> jo_code j = lr_journalCode request"
    unfolding c(2) by (auto dest: find_SomeD)
  show "ctx_period ctx = Some p \<Longrightarrow> \<exists>w \<in> set (t_periods db). period_of_row db w = Some p \<and>
      pw_entityId w = lr_entityId request \<and> pw_startsOn w \<le> lr_bookingDate request \<and> lr_bookingDate request \<le> pw_endsOn w"
  proof -
    assume "ctx_period ctx = Some p"
    then have "p \<in> set (List.map_filter (period_of_row db) (filter (\<lambda>p. pw_entityId p = lr_entityId request \<and>
        pw_startsOn p \<le> lr_bookingDate request \<and> lr_bookingDate request \<le> pw_endsOn p) (t_periods db)))"
      unfolding c(3) by (auto split: list.splits)
    from map_filter_member [OF this] show ?thesis by auto
  qed
  show "map_of (ctx_accountsByNumber ctx) number = Some account \<Longrightarrow>
      \<exists>a \<in> set (t_accounts db). aw_id a = ac_id account \<and> aw_number a = ac_number account \<and> number = aw_number a"
    using maps(1) by (fastforce dest: map_of_js_map_SomeD simp: account_of_row_def)
  show "map_of (ctx_dimensionTypesByCode ctx) code = Some t \<Longrightarrow> (lr_entityId request, t) \<in> set (t_dimensionTypes db) \<and> dt_code t = code"
    using maps(2) by (fastforce dest: map_of_js_map_SomeD)
  show "map_of (ctx_dimensionValuesByKey ctx) key = Some v \<Longrightarrow>
      \<exists>w \<in> set (t_dimensionValues db). vw_id w = dv_id v \<and> vw_code w = dv_code v"
    using maps(3) by (fastforce dest!: map_of_js_map_SomeD map_filter_member simp: value_of_row_def)
  show "keyed_by_number ctx"
    using maps(1) set_js_map by (fastforce simp: keyed_by_number_def account_of_row_def)
qed

text \<open>So a checked entry refers to what is there.\<close>

lemma line_refs_resolved:
  assumes ctx: "db_loadPostingContext request db = Inr (Some ctx)"
    and l: "line_resolves ctx fc l item" "normaliseRate (map_option num (pl_exchangeRate item)) = pl_exchangeRate item"
  shows "line_refs num db item"
proof -
  from l(1) obtain account where "map_of (ctx_accountsByNumber ctx) (li_accountNumber l) = Some account"
    "pl_accountId item = ac_id account" "pl_accountNumber item = ac_number account"
    unfolding line_resolves_def by blast
  moreover from db_context(6) [OF ctx this(1)]
  have "\<exists>a \<in> set (t_accounts db). aw_id a = pl_accountId item \<and> aw_number a = pl_accountNumber item"
    using calculation by auto
  moreover have "dimension_refs db d" if d: "d \<in> set (pl_dimensions item)" for d
  proof -
    from l(1) d obtain a where "dimension_resolves ctx a d"
      unfolding line_resolves_def by (auto simp: list_all2_conv_all_nth in_set_conv_nth)
    then obtain t v where t: "map_of (ctx_dimensionTypesByCode ctx) (da_typeCode a) = Some t"
      and v: "map_of (ctx_dimensionValuesByKey ctx) (dimensionKey (da_typeCode a) (da_valueCode a)) = Some v"
      and eq: "d = \<lparr>rd_typeId = dt_id t, rd_typeCode = dt_code t, rd_valueId = dv_id v, rd_valueCode = dv_code v\<rparr>"
      by (auto simp: dimension_resolves_def)
    from db_context(7) [OF ctx t] db_context(8) [OF ctx v] show ?thesis
      unfolding dimension_refs_def eq by auto
  qed
  ultimately show ?thesis using l(2) by (auto simp: line_refs_def)
qed

definition rates_fit :: "(string \<Rightarrow> string) \<Rightarrow> posted_line list \<Rightarrow> bool" where
  "rates_fit num ls \<longleftrightarrow> (\<forall>l \<in> set ls. normaliseRate (map_option num (pl_exchangeRate l)) = pl_exchangeRate l)"

lemma sealed_refs:
  assumes checked: "checked_lines command options deps db = Inr (ctx, ls)"
    and repo: "dep_repository deps = DrizzleLedgerRepository num" and rates: "rates_fit num ls" and wf: "db_wf db"
  shows "entry_refs num db (sealed_entry env command who deps ctx ls chain n)"
proof -
  let ?e = "sealed_entry env command who deps ctx ls chain n"
  note ok = checked_lines_ok [OF checked]
  have load: "db_loadPostingContext (context_request command) db = Inr (Some ctx)"
    using ok(1) by (simp add: repo DrizzleLedgerRepository_def)
  from ok(3) obtain j p where j: "ctx_journal ctx = Some j" and p: "ctx_period ctx = Some p"
    by (auto simp: may_post_def)
  from db_context(5) [OF load p] obtain w where w: "w \<in> set (t_periods db)" "period_of_row db w = Some p" by blast
  then obtain y where y: "find (\<lambda>y. fy_id y = pw_fiscalYearId w) (t_fiscalYears db) = Some y" "fy_code y = pr_fiscalYearCode p"
    "pr_id p = pw_id w" "pr_sequence p = pw_sequence w" "pr_fiscalYearId p = pw_fiscalYearId w"
    by (auto simp: period_of_row_def)
  have e: "pe_journalId ?e = jo_id j" "pe_journalCode ?e = jo_code j" "pe_periodId ?e = pr_id p"
    "pe_periodSequence ?e = pr_sequence p" "pe_fiscalYearId ?e = pr_fiscalYearId p" "pe_fiscalYearCode ?e = pr_fiscalYearCode p"
    by (simp_all add: sealed_entry_def draft_entry_def Let_def j p)
  have lines: "line_refs num db l" if "l \<in> set ls" for l
  proof -
    from that obtain k where k: "k < length ls" "l = ls ! k" by (auto simp: in_set_conv_nth)
    with ok(5) have "line_resolves ctx (en_functionalCurrency (ctx_entity ctx)) (cmd_lines command ! k) l"
      by (simp add: list_all2_conv_all_nth)
    moreover have "normaliseRate (map_option num (pl_exchangeRate l)) = pl_exchangeRate l"
      using rates that by (simp add: rates_fit_def)
    ultimately show ?thesis by (rule line_refs_resolved [OF load])
  qed
  have "map pl_lineNumber ls = [1..<1 + length ls]"
    using ok(7) list_all2_lengthD [OF ok(5)] by (intro nth_equalityI) (simp_all del: upt_Suc)
  moreover have "\<exists>x j'. (x, j') \<in> set (t_journals db) \<and> jo_id j' = jo_id j \<and> jo_code j' = jo_code j"
    using db_context(4) [OF load j] by blast
  moreover have "\<exists>w y'. w \<in> set (t_periods db) \<and> pw_id w = pr_id p \<and> pw_sequence w = pr_sequence p \<and>
      find (\<lambda>y. fy_id y = pr_fiscalYearId p) (t_fiscalYears db) = Some y' \<and> fy_code y' = pr_fiscalYearCode p"
    using w y by force
  ultimately show ?thesis unfolding entry_refs_def e sealed_entry_simps using lines by blast
qed

section \<open>One posting, as a change of the database\<close>

definition balanced_after :: "posted_entry \<Rightarrow> (balance_key \<times> int \<times> int) list \<Rightarrow> (balance_key \<times> int \<times> int) list" where
  "balanced_after e b = foldl (\<lambda>b t. upsert_balance (pe_entityId e) (pe_periodId e) t b) b
     (map snd (collapse_lines [] (pe_lines e)))"

lemma post_db_result:
  assumes "postJournalEntry env command who options deps db = Inr (r, db')" "\<not> res_replayed r" "\<not> op_dryRun options"
    "dep_repository deps = DrizzleLedgerRepository num"
  obtains ctx ls chain n db1 where
    "checked_lines command options deps db = Inr (ctx, ls)"
    "res_entry r = sealed_entry env command who deps ctx ls chain n"
    "db_allocateChainPosition (cmd_entityId command) db = Inr (chain, db1)"
    "n = fst (allocate_number (cmd_entityId command, ''journal:'' @ pe_journalCode (res_entry r), pe_fiscalYearCode (res_entry r)) db1)"
    "db_insertEntry num (res_entry r) (snd (allocate_number (cmd_entityId command,
        ''journal:'' @ pe_journalCode (res_entry r), pe_fiscalYearCode (res_entry r)) db1))
      = Inr (inserted num (res_entry r) (snd (allocate_number (cmd_entityId command,
        ''journal:'' @ pe_journalCode (res_entry r), pe_fiscalYearCode (res_entry r)) db1)))"
    "db' = (inserted num (res_entry r) (snd (allocate_number (cmd_entityId command,
        ''journal:'' @ pe_journalCode (res_entry r), pe_fiscalYearCode (res_entry r)) db1)))
      \<lparr>t_balances := balanced_after (res_entry r) (t_balances db1),
       t_idempotency := t_idempotency db1 @ [(cmd_entityId command, idempotency_of env command options (res_entry r))],
       t_audit := t_audit db1 @ [posted_audit command who options (res_entry r)],
       t_outbox := t_outbox db1 @ [posted_event command (res_entry r)]\<rparr>"
proof -
  have "\<not> (\<exists>result. replay_of env command options (dep_repository deps) db = Inr (Some result) \<and> \<not> res_replayed result)"
    by (auto simp: replay_of_def and_then_Inr split: if_splits option.splits)
  with assms(1,2) have "post_fresh env command who options deps db = Inr (r, db')"
    by (auto simp: postJournalEntry_def and_then_Inr split: option.splits)
  then obtain ctx ls chain db1 where 1: "checked_lines command options deps db = Inr (ctx, ls)"
    and 2: "db_allocateChainPosition (cmd_entityId command) db = Inr (chain, db1)"
    and rest: "and_then (db_allocateEntryNumber
         \<lparr>ar_entityId = cmd_entityId command, ar_documentType = ''journal:'' @ jo_code (the (ctx_journal ctx)),
          ar_fiscalYearCode = pr_fiscalYearCode (the (ctx_period ctx))\<rparr> db1) (\<lambda>(entryNumber, s2).
        let entry = sealed_entry env command who deps ctx ls chain entryNumber in
        and_then (write_entry env command who options (DrizzleLedgerRepository num) entry s2) (\<lambda>s3.
          Inr (\<lparr>res_entry = entry, res_replayed = False, res_dryRun = False\<rparr>, s3))) = Inr (r, db')"
    using assms(3,4)
    by (auto simp: post_fresh_def and_then_Inr Let_def DrizzleLedgerRepository_def)
  obtain n db2 where n: "allocate_number (cmd_entityId command, ''journal:'' @ jo_code (the (ctx_journal ctx)),
      pr_fiscalYearCode (the (ctx_period ctx))) db1 = (n, db2)"
    by (cases "allocate_number (cmd_entityId command, ''journal:'' @ jo_code (the (ctx_journal ctx)),
      pr_fiscalYearCode (the (ctx_period ctx))) db1")
  let ?e = "sealed_entry env command who deps ctx ls chain n"
  have codes: "pe_journalCode ?e = jo_code (the (ctx_journal ctx))"
    "pe_fiscalYearCode ?e = pr_fiscalYearCode (the (ctx_period ctx))"
    by (simp_all add: sealed_entry_def draft_entry_def Let_def)
  from rest n have e: "res_entry r = ?e"
    and wr: "write_entry env command who options (DrizzleLedgerRepository num) ?e db2 = Inr db'"
    by (auto simp: db_allocateEntryNumber_def and_then_Inr Let_def)
  from wr obtain db3 where ins: "db_insertEntry num ?e db2 = Inr db3"
    by (auto simp: write_entry_def DrizzleLedgerRepository_def and_then_Inr)
  have db2: "t_balances db2 = t_balances db1" "t_idempotency db2 = t_idempotency db1" "t_audit db2 = t_audit db1"
    "t_outbox db2 = t_outbox db1"
    using n by (auto simp: allocate_number_def Let_def)
  note db3 = db_insertEntry_spec(1) [OF ins]
  show thesis
  proof (rule that [OF 1 e 2])
    show "n = fst (allocate_number (cmd_entityId command, ''journal:'' @ pe_journalCode (res_entry r), pe_fiscalYearCode (res_entry r)) db1)"
      by (simp only: e codes n fst_conv)
    show "db_insertEntry num (res_entry r) (snd (allocate_number (cmd_entityId command,
        ''journal:'' @ pe_journalCode (res_entry r), pe_fiscalYearCode (res_entry r)) db1))
      = Inr (inserted num (res_entry r) (snd (allocate_number (cmd_entityId command,
        ''journal:'' @ pe_journalCode (res_entry r), pe_fiscalYearCode (res_entry r)) db1)))"
      using ins db3 by (simp only: e codes n snd_conv)
    show "db' = (inserted num (res_entry r) (snd (allocate_number (cmd_entityId command,
        ''journal:'' @ pe_journalCode (res_entry r), pe_fiscalYearCode (res_entry r)) db1)))
      \<lparr>t_balances := balanced_after (res_entry r) (t_balances db1),
       t_idempotency := t_idempotency db1 @ [(cmd_entityId command, idempotency_of env command options (res_entry r))],
       t_audit := t_audit db1 @ [posted_audit command who options (res_entry r)],
       t_outbox := t_outbox db1 @ [posted_event command (res_entry r)]\<rparr>"
      using wr ins unfolding e codes n snd_conv db3 db2 [symmetric]
      by (auto simp: write_entry_def DrizzleLedgerRepository_def and_then_Inr db_applyPeriodBalances_def
          db_recordIdempotency_def db_appendAudit_def db_enqueueEvent_def idempotency_of_def balanced_after_def
          inserted_def split: if_splits)
  qed
qed

section \<open>The invariant of the journal\<close>

definition entity_rows :: "ledger_db \<Rightarrow> string \<Rightarrow> entry_row list" where
  "entity_rows db entityId = filter (\<lambda>r. er_entityId r = entityId) (t_entries db)"

definition next_number :: "ledger_db \<Rightarrow> sequence_key \<Rightarrow> nat" where
  "next_number db key = (case map_of (t_sequences db) key of None \<Rightarrow> 1 | Some n \<Rightarrow> n)"

text \<open>
  Positions are dense from one, the counter is one past the last, every row joins, and what is read back
  is an intact chain.
\<close>

definition chain_inv :: "platform \<Rightarrow> ledger_db \<Rightarrow> bool" where
  "chain_inv env db \<longleftrightarrow>
     (\<forall>r \<in> set (t_entries db). hydrateEntry db r \<noteq> None) \<and>
     (\<forall>entityId. map er_chainSequence (entity_rows db entityId) = map int [1..<1 + length (entity_rows db entityId)] \<and>
        next_number db (entityId, ''__chain'', []) = 1 + length (entity_rows db entityId) \<and>
        chain_ok env (loadChain entityId db))"

lemma loadChain_rows:
  assumes "chain_inv env db"
  shows "loadChain entityId db = map (\<lambda>r. the (hydrateEntry db r)) (entity_rows db entityId)"
proof -
  have "dense_chain db entityId" using assms by (simp add: chain_inv_def dense_chain_def entity_rows_def)
  moreover have "List.map_filter (hydrateEntry db) rs = map (\<lambda>r. the (hydrateEntry db r)) rs"
    if "set rs \<subseteq> set (t_entries db)" for rs
    using that assms by (induction rs) (auto simp: List.map_filter_simps chain_inv_def)
  ultimately show ?thesis by (simp add: loadChain_dense entity_rows_def)
qed

lemma hydrate_hash: "hydrateEntry db r = Some e \<Longrightarrow> pe_hash e = er_hash r \<and> pe_chainSequence e = er_chainSequence r"
  by (auto simp: hydrateEntry_def split: option.splits prod.splits)

lemma chain_ok_snoc:
  assumes "chain_ok env es" "hashEntry env e = pe_hash e"
    "pe_previousHash e = (if es = [] then None else Some (pe_hash (last es)))"
    "es \<noteq> [] \<longrightarrow> pe_chainSequence e = pe_chainSequence (last es) + 1"
  shows "chain_ok env (es @ [e])"
  using assms unfolding chain_ok_verified verify_loop_append by (simp add: entry_failures_Nil)

lemma dense_nth: "map er_chainSequence rs = map int [1..<1 + length rs] \<Longrightarrow> i < length rs \<Longrightarrow> er_chainSequence (rs ! i) = int i + 1"
proof -
  assume dense: "map er_chainSequence rs = map int [1..<1 + length rs]" and i: "i < length rs"
  have "er_chainSequence (rs ! i) = map er_chainSequence rs ! i" using i by simp
  also have "\<dots> = int i + 1" unfolding dense using i by (simp del: upt_Suc)
  finally show ?thesis .
qed

text \<open>The position handed out is the next one, and the hash is that of the last entry.\<close>

lemma allocate_position:
  assumes inv: "chain_inv env db" and pos: "db_allocateChainPosition entityId db = Inr (chain, db1)"
  shows "cp_sequence chain = int (length (entity_rows db entityId)) + 1"
    "cp_previousHash chain = (if loadChain entityId db = [] then None else Some (pe_hash (last (loadChain entityId db))))"
    "db1 = db\<lparr>t_sequences := AList.update (entityId, ''__chain'', []) (length (entity_rows db entityId) + 2) (t_sequences db)\<rparr>"
proof -
  let ?rows = "entity_rows db entityId"
  have dense: "map er_chainSequence ?rows = map int [1..<1 + length ?rows]"
    and cnt: "next_number db (entityId, ''__chain'', []) = 1 + length ?rows"
    using inv by (simp_all add: chain_inv_def)
  let ?db1 = "db\<lparr>t_sequences := AList.update (entityId, ''__chain'', []) (length ?rows + 2) (t_sequences db)\<rparr>"
  have alloc: "allocate_number (entityId, ''__chain'', []) db = (1 + length ?rows, ?db1)"
    using cnt by (simp add: allocate_number_def next_number_def Let_def)
  note rows = loadChain_rows [OF inv, of entityId]
  have "cp_sequence chain = int (length ?rows) + 1 \<and> db1 = ?db1 \<and>
      cp_previousHash chain = (if loadChain entityId db = [] then None else Some (pe_hash (last (loadChain entityId db))))"
  proof (cases "?rows = []")
    case True
    then show ?thesis using pos rows by (auto simp: db_allocateChainPosition_def alloc)
  next
    case False
    let ?k = "length ?rows - 1"
    have k: "?k < length ?rows" "int (1 + length ?rows) - 1 = int ?k + 1"
      using False by (cases ?rows; simp)+
    obtain p where p: "find (\<lambda>r. er_entityId r = entityId \<and> er_chainSequence r = int (1 + length ?rows) - 1) (t_entries db) = Some p"
      "er_hash p = er_hash (?rows ! ?k)"
    proof -
      have last: "?rows ! ?k \<in> set ?rows" using k(1) by (rule nth_mem)
      have seq: "er_chainSequence (?rows ! ?k) = int (1 + length ?rows) - 1"
        by (simp only: dense_nth [OF dense k(1)] k(2))
      have uniq: "r = ?rows ! ?k" if "r \<in> set ?rows" "er_chainSequence r = int (1 + length ?rows) - 1" for r
      proof -
        from that(1) obtain i where i: "i < length ?rows" "?rows ! i = r" by (auto simp: in_set_conv_nth)
        from dense_nth [OF dense i(1)] have "int i + 1 = int ?k + 1"
          by (simp only: i(2) that(2) k(2))
        then have "i = ?k" by simp
        with i show ?thesis by simp
      qed
      show thesis
      proof (cases "find (\<lambda>r. er_entityId r = entityId \<and> er_chainSequence r = int (1 + length ?rows) - 1) (t_entries db)")
        case None
        then show thesis using last seq by (auto simp: find_None_iff entity_rows_def)
      next
        case (Some p)
        with find_SomeD [OF Some] uniq [of p] show thesis by (intro that) (simp_all add: entity_rows_def)
      qed
    qed
    have "last (loadChain entityId db) = the (hydrateEntry db (?rows ! ?k))"
      using False by (simp add: rows last_map last_conv_nth)
    moreover have "hydrateEntry db (?rows ! ?k) \<noteq> None"
      using inv nth_mem [OF k(1)] by (auto simp: chain_inv_def entity_rows_def)
    ultimately have "pe_hash (last (loadChain entityId db)) = er_hash (?rows ! ?k)"
      using hydrate_hash by fastforce
    then show ?thesis using pos p False rows
      by (auto simp: db_allocateChainPosition_def alloc)
  qed
  then show "cp_sequence chain = int (length ?rows) + 1" "db1 = ?db1"
    "cp_previousHash chain = (if loadChain entityId db = [] then None else Some (pe_hash (last (loadChain entityId db))))"
    by blast+
qed

definition db_inv :: "platform \<Rightarrow> ledger_db \<Rightarrow> bool" where
  "db_inv env db \<longleftrightarrow> db_wf db \<and> chain_inv env db"

lemma hydrate_cong:
  "same_master db db' \<Longrightarrow> t_lines db' = t_lines db \<Longrightarrow> t_lineDimensions db' = t_lineDimensions db \<Longrightarrow>
   hydrateEntry db' = hydrateEntry db"
proof -
  assume m: "same_master db db'" "t_lines db' = t_lines db" "t_lineDimensions db' = t_lineDimensions db"
  then have "line_dimensions db' = line_dimensions db"
    by (simp add: fun_eq_iff line_dimensions_def same_master_def)
  then have "line_of_row db' = line_of_row db" using m by (simp add: fun_eq_iff line_of_row_def same_master_def)
  then have lines: "loadLines db' i = loadLines db i" for i unfolding loadLines_def m(2) by simp
  from m(1) have tables: "t_journals db' = t_journals db" "t_fiscalYears db' = t_fiscalYears db"
    "t_periods db' = t_periods db" by (simp_all add: same_master_def)
  show ?thesis by (rule ext) (unfold hydrateEntry_def lines tables, rule refl)
qed

lemma next_number_update:
  "next_number (db\<lparr>t_sequences := AList.update k v (t_sequences db)\<rparr>) k' = (if k' = k then v else next_number db k')"
  by (simp add: next_number_def AList.update_conv')

text \<open>
  One posting extends the chain of its entity by its entry, leaves every other chain as it is and keeps
  the invariant.
\<close>

lemma post_keeps_inv:
  assumes inv: "db_inv env db"
    and post: "postJournalEntry env command who options deps db = Inr (r, db')" "\<not> res_replayed r" "\<not> op_dryRun options"
    and repo: "dep_repository deps = DrizzleLedgerRepository num" and rates: "rates_fit num (pe_lines (res_entry r))"
  shows "db_inv env db'"
    "loadChain entityId db' = loadChain entityId db @ (if entityId = cmd_entityId command then [res_entry r] else [])"
proof -
  let ?e = "res_entry r" and ?ent = "cmd_entityId command"
  obtain ctx ls chain n db1 where p:
    "checked_lines command options deps db = Inr (ctx, ls)"
    "?e = sealed_entry env command who deps ctx ls chain n"
    "db_allocateChainPosition ?ent db = Inr (chain, db1)"
    "n = fst (allocate_number (?ent, ''journal:'' @ pe_journalCode ?e, pe_fiscalYearCode ?e) db1)"
    "db_insertEntry num ?e (snd (allocate_number (?ent, ''journal:'' @ pe_journalCode ?e, pe_fiscalYearCode ?e) db1))
      = Inr (inserted num ?e (snd (allocate_number (?ent, ''journal:'' @ pe_journalCode ?e, pe_fiscalYearCode ?e) db1)))"
    "db' = (inserted num ?e (snd (allocate_number (?ent, ''journal:'' @ pe_journalCode ?e, pe_fiscalYearCode ?e) db1)))
      \<lparr>t_balances := balanced_after ?e (t_balances db1),
       t_idempotency := t_idempotency db1 @ [(?ent, idempotency_of env command options ?e)],
       t_audit := t_audit db1 @ [posted_audit command who options ?e],
       t_outbox := t_outbox db1 @ [posted_event command ?e]\<rparr>"
    using post_db_result [OF post repo] by blast
  define db2 where "db2 = snd (allocate_number (?ent, ''journal:'' @ pe_journalCode ?e, pe_fiscalYearCode ?e) db1)"
  have wf: "db_wf db" and ci: "chain_inv env db" using inv by (simp_all add: db_inv_def)
  note pos = allocate_position [OF ci p(3)]
  have db2: "same_master db db2" "t_entries db2 = t_entries db" "t_lines db2 = t_lines db"
    "t_lineDimensions db2 = t_lineDimensions db"
    by (simp_all add: db2_def pos(3) allocate_number_def Let_def same_master_def)
  have counters: "next_number db2 (x, ''__chain'', []) =
      (if x = ?ent then length (entity_rows db ?ent) + 2 else next_number db (x, ''__chain'', []))" for x
    by (simp add: db2_def pos(3) allocate_number_def Let_def next_number_def AList.update_conv')
  have wf2: "db_wf db2" using wf db2 by (simp add: db_wf_def same_master_def)
  have ins: "db_insertEntry num ?e db2 = Inr (inserted num ?e db2)" using p(5) by (simp add: db2_def)
  note spec = db_insertEntry_spec [OF ins]
  have fresh: "pe_id ?e \<notin> er_id ` set (t_entries db)"
    using entry_guard_None(1) [OF spec(2)] by (simp add: row_of_entry_def db2)
  have refs: "entry_refs num db2 ?e"
    using sealed_refs [OF p(1) repo _ wf] rates refs_cong [OF db2(1)] by (simp add: p(2))
  let ?db3 = "inserted num ?e db2"
  have db': "same_master ?db3 db'" "t_entries db' = t_entries db @ [row_of_entry ?e]" "t_lines db' = t_lines ?db3"
    "t_lineDimensions db' = t_lineDimensions ?db3" "t_sequences db' = t_sequences db2"
    unfolding p(6) db2_def [symmetric] by (simp_all add: same_master_def inserted_def db2)
  have ent: "pe_entityId ?e = ?ent" by (simp add: p(2))
  have rows: "entity_rows db' x = entity_rows db x @ (if x = ?ent then [row_of_entry ?e] else [])" for x
    by (simp add: entity_rows_def db'(2) row_of_entry_def ent)
  have hydrate3: "hydrateEntry db' = hydrateEntry ?db3" using db' by (intro hydrate_cong)
  have hydrate2: "hydrateEntry db2 = hydrateEntry db" using db2 by (intro hydrate_cong)
  have new: "hydrateEntry db' (row_of_entry ?e) = Some ?e"
    unfolding hydrate3 using fresh db2(2) by (intro hydrate_new [OF wf2 _ spec(3) refs]) simp
  have old: "hydrateEntry db' x = hydrateEntry db x" if "x \<in> set (t_entries db)" for x
  proof -
    from that have "er_id x \<in> er_id ` set (t_entries db)" by (rule imageI)
    with fresh have other: "er_id x \<noteq> pe_id ?e" by metis
    show ?thesis unfolding hydrate3 hydrate_old [OF other] hydrate2 by (rule refl)
  qed
  have dense: "map er_chainSequence (entity_rows db' x) = map int [1..<1 + length (entity_rows db' x)]" for x
  proof -
    have "map er_chainSequence (entity_rows db x) = map int [1..<1 + length (entity_rows db x)]"
      using ci by (simp add: chain_inv_def)
    moreover have "er_chainSequence (row_of_entry ?e) = int (length (entity_rows db ?ent)) + 1"
      by (simp add: row_of_entry_def p(2) pos(1))
    ultimately show ?thesis by (simp add: rows)
  qed
  have load: "loadChain x db' = loadChain x db @ (if x = ?ent then [?e] else [])" for x
  proof -
    have "dense_chain db' x" using dense by (simp add: dense_chain_def entity_rows_def)
    then have "loadChain x db' = List.map_filter (hydrateEntry db') (entity_rows db' x)"
      by (simp add: loadChain_dense entity_rows_def)
    also have "\<dots> = List.map_filter (hydrateEntry db) (entity_rows db x) @ (if x = ?ent then [?e] else [])"
    proof -
      have "List.map_filter (hydrateEntry db') (entity_rows db x) = List.map_filter (hydrateEntry db) (entity_rows db x)"
        by (rule map_filter_cong) (use old in \<open>simp add: entity_rows_def\<close>)
      then show ?thesis using new by (simp add: rows map_filter_append List.map_filter_simps)
    qed
    also have "List.map_filter (hydrateEntry db) (entity_rows db x) = loadChain x db"
      using ci by (simp add: loadChain_dense entity_rows_def dense_chain_def chain_inv_def)
    finally show ?thesis .
  qed
  then show "loadChain entityId db' = loadChain entityId db @ (if entityId = ?ent then [?e] else [])" .
  have chain: "chain_ok env (loadChain x db')" for x
  proof (cases "x = ?ent")
    case True
    have okx: "chain_ok env (loadChain ?ent db)" using ci by (simp add: chain_inv_def)
    have seq: "pe_chainSequence ?e = pe_chainSequence (last (loadChain ?ent db)) + 1" if ne: "loadChain ?ent db \<noteq> []"
    proof -
      let ?rows = "entity_rows db ?ent"
      have rne: "?rows \<noteq> []" using ne by (auto simp: loadChain_rows [OF ci])
      have "last (loadChain ?ent db) = the (hydrateEntry db (last ?rows))"
        using rne by (simp add: loadChain_rows [OF ci] last_map)
      moreover have "last ?rows \<in> set (t_entries db)" using last_in_set [OF rne] by (simp add: entity_rows_def)
      ultimately have "pe_chainSequence (last (loadChain ?ent db)) = er_chainSequence (last ?rows)"
        using ci hydrate_hash unfolding chain_inv_def by fastforce
      also have "\<dots> = int (length ?rows)"
      proof -
        obtain k where k: "length ?rows = Suc k" using rne by (cases ?rows) auto
        have "map er_chainSequence ?rows = map int [1..<1 + length ?rows]" using ci unfolding chain_inv_def by blast
        from dense_nth [OF this, of k] k show ?thesis by (simp add: last_conv_nth [OF rne] del: upt_Suc)
      qed
      finally show ?thesis by (simp add: p(2) pos(1))
    qed
    have "chain_ok env (loadChain ?ent db @ [?e])"
      using seq pos(2) by (intro chain_ok_snoc [OF okx]) (simp_all add: p(2))
    then show ?thesis using True load by simp
  next
    case False
    with ci load show ?thesis by (simp add: chain_inv_def)
  qed
  have count: "next_number db' (x, ''__chain'', []) = 1 + length (entity_rows db' x)" for x
  proof -
    have "next_number db' (x, ''__chain'', []) = next_number db2 (x, ''__chain'', [])"
      by (simp add: next_number_def db'(5))
    then show ?thesis using ci by (simp add: counters rows chain_inv_def)
  qed
  have "\<forall>r \<in> set (t_entries db'). hydrateEntry db' r \<noteq> None"
    using old new ci by (auto simp: db'(2) chain_inv_def)
  with dense chain count have "chain_inv env db'" by (simp add: chain_inv_def)
  moreover have "db_wf db'"
  proof -
    have "distinct (map er_id (t_entries db'))" using wf fresh by (simp add: db'(2) db_wf_def row_of_entry_def)
    moreover have "\<forall>l \<in> set (t_lines db'). lw_entryId l \<in> er_id ` set (t_entries db')"
      using wf by (auto simp: db'(2,3) inserted_def db2 db_wf_def row_of_line_def row_of_entry_def)
    moreover have "\<forall>d \<in> set (t_lineDimensions db'). ld_entryId d \<in> er_id ` set (t_entries db')"
      using wf by (auto simp: db'(2,4) inserted_def db2 db_wf_def rows_of_dimensions_def row_of_entry_def)
    ultimately show ?thesis
      using wf db'(1) db2(1) by (simp add: db_wf_def same_master_def)
  qed
  ultimately show "db_inv env db'" by (simp add: db_inv_def)
qed

end
