(* ===== verification/Ledger_Journal.thy ===== *)
theory Ledger_Journal
  imports Ledger_Repository
begin

text \<open>
  The journal over time: the port interpreted on the database, the steps an administration takes (a
  posting, a period locked by a filed return, a year marked closed) and what holds of every database
  those steps can reach.
\<close>

section \<open>The database keeps the contract of the port\<close>

definition db_good :: "ledger_db \<Rightarrow> bool" where
  "db_good db \<longleftrightarrow> db_wf db \<and> (\<forall>r \<in> set (t_entries db). hydrateEntry db r \<noteq> None)"

definition db_stored :: "ledger_db \<Rightarrow> string \<Rightarrow> posted_entry set" where
  "db_stored db entityId = {e. \<exists>r \<in> set (t_entries db). er_entityId r = entityId \<and> hydrateEntry db r = Some e}"

definition db_keys :: "ledger_db \<Rightarrow> string \<Rightarrow> string \<Rightarrow> idempotency_record option" where
  "db_keys db entityId key = map_option snd (find (\<lambda>(e, r). e = entityId \<and> ir_key r = key) (t_idempotency db))"

text \<open>An update outside the tables an entry is read from changes none of them.\<close>

definition same_journal :: "ledger_db \<Rightarrow> ledger_db \<Rightarrow> bool" where
  "same_journal db db' \<longleftrightarrow> same_master db db' \<and> t_entries db' = t_entries db \<and> t_lines db' = t_lines db \<and>
     t_lineDimensions db' = t_lineDimensions db"

lemma same_journal_updates [simp]:
  "same_journal db (db\<lparr>t_sequences := a\<rparr>)" "same_journal db (db\<lparr>t_balances := b\<rparr>)"
  "same_journal db (db\<lparr>t_idempotency := c\<rparr>)" "same_journal db (db\<lparr>t_audit := d\<rparr>)"
  "same_journal db (db\<lparr>t_outbox := f\<rparr>)"
  by (simp_all add: same_journal_def same_master_def)

lemma same_journal_hydrate: "same_journal db db' \<Longrightarrow> hydrateEntry db' = hydrateEntry db"
  by (intro hydrate_cong) (simp_all add: same_journal_def)

lemma same_journal_good: "same_journal db db' \<Longrightarrow> db_good db' \<longleftrightarrow> db_good db"
  using same_journal_hydrate [of db db'] by (simp add: db_good_def db_wf_def same_journal_def same_master_def)

lemma same_journal_stored: "same_journal db db' \<Longrightarrow> db_stored db' = db_stored db"
  using same_journal_hydrate [of db db'] by (simp add: db_stored_def fun_eq_iff same_journal_def)

lemma same_journal_refs: "same_journal db db' \<Longrightarrow> entry_refs num db' = entry_refs num db"
  using refs_cong by (simp add: fun_eq_iff same_journal_def)

lemma keys_frame: "t_idempotency db' = t_idempotency db \<Longrightarrow> db_keys db' = db_keys db"
  by (simp add: fun_eq_iff db_keys_def)

lemma keys_updates [simp]:
  "db_keys (db\<lparr>t_sequences := a\<rparr>) = db_keys db" "db_keys (db\<lparr>t_balances := b\<rparr>) = db_keys db"
  "db_keys (db\<lparr>t_audit := d\<rparr>) = db_keys db" "db_keys (db\<lparr>t_outbox := f\<rparr>) = db_keys db"
  by (rule keys_frame, simp)+

lemma hydrate_id: "hydrateEntry db r = Some e \<Longrightarrow> pe_id e = er_id r \<and> pe_entityId e = er_entityId r"
  by (auto simp: hydrateEntry_def split: option.splits prod.splits)

lemma distinct_filter_one:
  "distinct (map f xs) \<Longrightarrow> x \<in> set xs \<Longrightarrow> P x \<Longrightarrow> filter (\<lambda>y. P y \<and> f y = f x) xs = [x]"
proof (induction xs)
  case (Cons y ys)
  show ?case
  proof (cases "y = x")
    case True
    with Cons.prems have "filter (\<lambda>y. P y \<and> f y = f x) ys = []"
      unfolding filter_empty_conv by (metis distinct.simps(2) image_eqI list.simps(9) set_map)
    with True Cons.prems show ?thesis by simp
  next
    case False
    with Cons.prems have "x \<in> set ys" "f y \<noteq> f x" by auto
    with Cons show ?thesis by simp
  qed
qed simp

lemma stored_found:
  assumes "db_good db" "e \<in> db_stored db entityId"
  shows "db_findEntryById entityId (pe_id e) db = Inr (Some e)"
proof -
  from assms(2) obtain r where r: "r \<in> set (t_entries db)" "er_entityId r = entityId" "hydrateEntry db r = Some e"
    by (auto simp: db_stored_def)
  have "distinct (map er_id (t_entries db))" using assms(1) by (simp add: db_good_def db_wf_def)
  from distinct_filter_one [OF this r(1), of "\<lambda>x. er_entityId x = entityId"] r(2)
  have "filter (\<lambda>x. er_entityId x = entityId \<and> er_id x = pe_id e) (t_entries db) = [r]"
    using hydrate_id [OF r(3)] by simp
  with r(3) show ?thesis by (simp add: db_findEntryById_def List.map_filter_simps)
qed

lemma inserted_stored:
  assumes good: "db_good db" and refs: "entry_refs num db e" and ins: "db_insertEntry num e db = Inr db'"
  shows "db_good db'" "db_keys db' = db_keys db"
    "db_stored db' (pe_entityId e) = insert e (db_stored db (pe_entityId e))"
proof -
  note spec = db_insertEntry_spec [OF ins]
  have wf: "db_wf db" using good by (simp add: db_good_def)
  have fresh: "pe_id e \<notin> er_id ` set (t_entries db)"
    using entry_guard_None(1) [OF spec(2)] by (simp add: row_of_entry_def)
  have new: "hydrateEntry db' (row_of_entry e) = Some e"
    unfolding spec(1) by (rule hydrate_new [OF wf fresh spec(3) refs])
  have old: "hydrateEntry db' r = hydrateEntry db r" if "r \<in> set (t_entries db)" for r
  proof -
    from that have "er_id r \<in> er_id ` set (t_entries db)" by (rule imageI)
    with fresh have "er_id r \<noteq> pe_id e" by metis
    then show ?thesis unfolding spec(1) by (rule hydrate_old)
  qed
  have entries: "t_entries db' = t_entries db @ [row_of_entry e]" by (simp add: spec(1) inserted_def)
  have ent: "er_entityId (row_of_entry e) = pe_entityId e" by (simp add: row_of_entry_def)
  show "db_keys db' = db_keys db" by (rule keys_frame) (simp add: spec(1))
  show "db_stored db' (pe_entityId e) = insert e (db_stored db (pe_entityId e))"
    using new old ent by (auto simp: db_stored_def entries)
  have "db_wf db'"
  proof -
    have "distinct (map er_id (t_entries db'))" using wf fresh by (simp add: entries db_wf_def row_of_entry_def)
    moreover have "\<forall>l \<in> set (t_lines db'). lw_entryId l \<in> er_id ` set (t_entries db')"
      using wf by (auto simp: entries spec(1) inserted_def db_wf_def row_of_line_def row_of_entry_def)
    moreover have "\<forall>d \<in> set (t_lineDimensions db'). ld_entryId d \<in> er_id ` set (t_entries db')"
      using wf by (auto simp: entries spec(1) inserted_def db_wf_def rows_of_dimensions_def row_of_entry_def)
    ultimately show ?thesis using wf by (simp add: db_wf_def spec(1))
  qed
  moreover have "hydrateEntry db' r \<noteq> None" if "r \<in> set (t_entries db')" for r
  proof (cases "r = row_of_entry e")
    case False
    with that have r: "r \<in> set (t_entries db)" by (simp add: entries)
    with good show ?thesis unfolding old [OF r] by (simp add: db_good_def)
  qed (simp only: new option.simps, simp)
  ultimately show "db_good db'" unfolding db_good_def by blast
qed

lemma chain_position_frame:
  assumes "db_allocateChainPosition entityId db = Inr (c, db')"
  shows "\<exists>s. db' = db\<lparr>t_sequences := s\<rparr>"
proof -
  obtain n db1 where n: "allocate_number (entityId, ''__chain'', []) db = (n, db1)"
    by (cases "allocate_number (entityId, ''__chain'', []) db")
  then have "db1 = db\<lparr>t_sequences := AList.update (entityId, ''__chain'', []) (n + 1) (t_sequences db)\<rparr>"
    unfolding allocate_number_def Let_def by blast
  moreover have "db' = db1"
    using assms unfolding db_allocateChainPosition_def n by (auto split: if_splits option.splits)
  ultimately show ?thesis by blast
qed

lemma entry_number_frame: "db_allocateEntryNumber request db = Inr (n, db') \<Longrightarrow> \<exists>s. db' = db\<lparr>t_sequences := s\<rparr>"
  unfolding db_allocateEntryNumber_def allocate_number_def Let_def by blast

lemmas frame_of = same_journal_good same_journal_stored same_journal_refs

lemma find_snoc: "\<forall>y \<in> set xs. \<not> P y \<Longrightarrow> P x \<Longrightarrow> find P (xs @ [x]) = Some x"
  by (induction xs) auto

text \<open>The interpretation: every law of the contract, for the tables and the queries of the repository.\<close>

interpretation drizzle: ledger_port "DrizzleLedgerRepository num" db_good db_stored db_keys "\<lambda>db. entry_refs num db" for num
proof unfold_locales
  note port = DrizzleLedgerRepository_def ledger_repository.simps
  fix db db' :: ledger_db and entityId k :: string and e :: posted_entry
  show "findIdempotencyRecord (DrizzleLedgerRepository num) entityId k db = Inr (db_keys db entityId k)"
    by (simp add: port db_findIdempotencyRecord_def db_keys_def)
  show "db_good db \<Longrightarrow> e \<in> db_stored db entityId \<Longrightarrow>
      findEntryById (DrizzleLedgerRepository num) entityId (pe_id e) db = Inr (Some e)"
    by (simp add: port stored_found)
  show "db_good db' \<and> db_keys db' = db_keys db \<and> db_stored db' (pe_entityId e) = insert e (db_stored db (pe_entityId e))"
    if "db_good db" "entry_refs num db e" "insertEntry (DrizzleLedgerRepository num) e db = Inr db'"
    using inserted_stored [OF that(1,2)] that(3) by (simp add: port)
  show "db_good db' \<and> db_stored db' = db_stored db \<and> db_keys db' = db_keys db \<and> entry_refs num db' = entry_refs num db"
    if "db_good db" "allocateChainPosition (DrizzleLedgerRepository num) entityId db = Inr (c, db')" for c
  proof -
    from that(2) have "db_allocateChainPosition entityId db = Inr (c, db')" by (simp add: port)
    then obtain s where s: "db' = db\<lparr>t_sequences := s\<rparr>" using chain_position_frame by blast
    show ?thesis unfolding s
      using that(1) by (simp add: frame_of(1,2,3) [OF same_journal_updates(1)])
  qed
  show "db_good db' \<and> db_stored db' = db_stored db \<and> db_keys db' = db_keys db \<and> entry_refs num db' = entry_refs num db"
    if "db_good db" "allocateEntryNumber (DrizzleLedgerRepository num) request db = Inr (n, db')" for request n
  proof -
    from that(2) have "db_allocateEntryNumber request db = Inr (n, db')" by (simp add: port)
    then obtain s where s: "db' = db\<lparr>t_sequences := s\<rparr>" using entry_number_frame by blast
    show ?thesis unfolding s
      using that(1) by (simp add: frame_of(1,2,3) [OF same_journal_updates(1)])
  qed
  show "db_good db' \<and> db_stored db' = db_stored db \<and> db_keys db' = db_keys db"
    if "db_good db" "applyPeriodBalances (DrizzleLedgerRepository num) e db = Inr db'"
  proof -
    from that(2) obtain b where s: "db' = db\<lparr>t_balances := b\<rparr>" by (auto simp: port db_applyPeriodBalances_def)
    show ?thesis unfolding s using that(1) by (simp add: frame_of(1,2) [OF same_journal_updates(2)])
  qed
  show "db_good db' \<and> db_stored db' = db_stored db \<and> db_keys db' entityId (ir_key rec) = Some rec"
    if "db_good db" "recordIdempotency (DrizzleLedgerRepository num) entityId rec db = Inr db'" for rec
  proof -
    from that(2) have s: "db' = db\<lparr>t_idempotency := t_idempotency db @ [(entityId, rec)]\<rparr>"
      and none: "\<not> (\<exists>x \<in> set (t_idempotency db). fst x = entityId \<and> ir_key (snd x) = ir_key rec)"
      by (auto simp: port db_recordIdempotency_def split: if_splits)
    have "find (\<lambda>(x, r). x = entityId \<and> ir_key r = ir_key rec) (t_idempotency db @ [(entityId, rec)]) = Some (entityId, rec)"
      using none by (intro find_snoc) auto
    then show ?thesis unfolding s using that(1) by (simp add: frame_of(1,2) [OF same_journal_updates(3)] db_keys_def)
  qed
  show "db_good db' \<and> db_stored db' = db_stored db \<and> db_keys db' = db_keys db"
    if "db_good db" "appendAudit (DrizzleLedgerRepository num) a db = Inr db'" for a
  proof -
    from that(2) have s: "db' = db\<lparr>t_audit := t_audit db @ [a]\<rparr>" by (auto simp: port db_appendAudit_def)
    show ?thesis unfolding s using that(1) by (simp add: frame_of(1,2) [OF same_journal_updates(4)])
  qed
  show "db_good db' \<and> db_stored db' = db_stored db \<and> db_keys db' = db_keys db"
    if "db_good db" "enqueueEvent (DrizzleLedgerRepository num) v db = Inr db'" for v
  proof -
    from that(2) have s: "db' = db\<lparr>t_outbox := t_outbox db @ [v]\<rparr>" by (auto simp: port db_enqueueEvent_def)
    show ?thesis unfolding s using that(1) by (simp add: frame_of(1,2) [OF same_journal_updates(5)])
  qed
qed

section \<open>The other writes to the tables a posting reads\<close>

text \<open>
  \<open>VatRepository.lockPeriods\<close> soft-closes the open periods a filed return overlaps;
  \<open>RgsRepository.recordYearClose\<close> marks a fiscal year closed.
\<close>

definition to_lock :: "string \<Rightarrow> string \<Rightarrow> string \<Rightarrow> period_row \<Rightarrow> bool" where
  "to_lock entityId begins ends p \<longleftrightarrow> pw_entityId p = entityId \<and> pw_status p = OpenPeriod \<and>
     pw_startsOn p \<le> ends \<and> begins \<le> pw_endsOn p"

definition lockPeriods :: "string \<Rightarrow> string \<Rightarrow> string \<Rightarrow> ledger_db \<Rightarrow> string list \<times> ledger_db" where
  "lockPeriods entityId begins ends db =
     (map (\<lambda>p. pw_startsOn p @ ''..'' @ pw_endsOn p) (filter (to_lock entityId begins ends) (t_periods db)),
      db\<lparr>t_periods := map (\<lambda>p. if to_lock entityId begins ends p then p\<lparr>pw_status := SoftClosed\<rparr> else p)
            (t_periods db)\<rparr>)"

definition close_fiscal_year :: "string \<Rightarrow> ledger_db \<Rightarrow> ledger_db" where
  "close_fiscal_year fiscalYearId db =
     db\<lparr>t_fiscalYears := map (\<lambda>y. if fy_id y = fiscalYearId then y\<lparr>fy_status := YearClosed\<rparr> else y)
          (t_fiscalYears db)\<rparr>"

lemma find_map: "find P (map f xs) = map_option f (find (\<lambda>x. P (f x)) xs)"
  by (induction xs) auto

text \<open>A status is not part of what an entry is read back with, nor of any key.\<close>

definition status_change :: "ledger_db \<Rightarrow> ledger_db \<Rightarrow> bool" where
  "status_change db db' \<longleftrightarrow> (\<exists>f g. db' = db\<lparr>t_periods := map f (t_periods db), t_fiscalYears := map g (t_fiscalYears db)\<rparr> \<and>
     (\<forall>p. pw_id (f p) = pw_id p \<and> pw_sequence (f p) = pw_sequence p) \<and>
     (\<forall>y. fy_id (g y) = fy_id y \<and> fy_code (g y) = fy_code y))"

lemma lock_status_change: "status_change db (snd (lockPeriods entityId begins ends db))"
  unfolding status_change_def lockPeriods_def
  by (rule exI [of _ "\<lambda>p. if to_lock entityId begins ends p then p\<lparr>pw_status := SoftClosed\<rparr> else p"],
      rule exI [of _ id]) simp

lemma close_status_change: "status_change db (close_fiscal_year fiscalYearId db)"
  unfolding status_change_def close_fiscal_year_def
  by (rule exI [of _ id], rule exI [of _ "\<lambda>y. if fy_id y = fiscalYearId then y\<lparr>fy_status := YearClosed\<rparr> else y"]) simp

lemma status_change_frame:
  assumes "status_change db db'"
  shows "hydrateEntry db' = hydrateEntry db" "db_wf db' = db_wf db" "t_entries db' = t_entries db"
    "t_sequences db' = t_sequences db" "t_balances db' = t_balances db" "t_accounts db' = t_accounts db"
    "t_idempotency db' = t_idempotency db"
proof -
  from assms obtain f g where db': "db' = db\<lparr>t_periods := map f (t_periods db), t_fiscalYears := map g (t_fiscalYears db)\<rparr>"
    and fg: "\<And>p. pw_id (f p) = pw_id p \<and> pw_sequence (f p) = pw_sequence p" "\<And>y. fy_id (g y) = fy_id y \<and> fy_code (g y) = fy_code y"
    unfolding status_change_def by blast
  show "t_entries db' = t_entries db" "t_sequences db' = t_sequences db" "t_balances db' = t_balances db"
    "t_accounts db' = t_accounts db" "t_idempotency db' = t_idempotency db" by (simp_all add: db')
  have "map pw_id (map f (t_periods db)) = map pw_id (t_periods db)"
    "map fy_id (map g (t_fiscalYears db)) = map fy_id (t_fiscalYears db)" by (simp_all add: fg)
  then show "db_wf db' = db_wf db" unfolding db_wf_def by (simp add: db' del: map_map)
  have lines: "loadLines db' = loadLines db"
  proof -
    have "line_dimensions db' = line_dimensions db" by (simp add: fun_eq_iff line_dimensions_def db')
    then have rows: "line_of_row db' = line_of_row db" by (simp add: fun_eq_iff line_of_row_def db')
    have "t_lines db' = t_lines db" by (simp add: db')
    then show ?thesis by (intro ext) (simp only: loadLines_def rows)
  qed
  have "hydrateEntry db' r = hydrateEntry db r" for r
  proof -
    have tables: "t_journals db' = t_journals db"
      "find (\<lambda>y. fy_id y = er_fiscalYearId r) (t_fiscalYears db') = map_option g (find (\<lambda>y. fy_id y = er_fiscalYearId r) (t_fiscalYears db))"
      "find (\<lambda>p. pw_id p = er_periodId r) (t_periods db') = map_option f (find (\<lambda>p. pw_id p = er_periodId r) (t_periods db))"
      by (simp_all add: db' find_map fg)
    show ?thesis
      unfolding hydrateEntry_def tables lines
      by (cases "find (\<lambda>(_, j). jo_id j = er_journalId r) (t_journals db)";
          cases "find (\<lambda>y. fy_id y = er_fiscalYearId r) (t_fiscalYears db)";
          cases "find (\<lambda>p. pw_id p = er_periodId r) (t_periods db)") (simp_all add: fg split: prod.split)
  qed
  then show "hydrateEntry db' = hydrateEntry db" by (rule ext)
qed

lemma status_change_chain: "status_change db db' \<Longrightarrow> loadChain entityId db' = loadChain entityId db"
  by (simp add: loadChain_def status_change_frame(1,3))

lemma status_change_inv:
  assumes "status_change db db'"
  shows "db_inv env db' = db_inv env db"
proof -
  note frame = status_change_frame [OF assms] status_change_chain [OF assms]
  have "entity_rows db' = entity_rows db" "next_number db' = next_number db"
    by (simp_all add: fun_eq_iff entity_rows_def next_number_def frame)
  then show ?thesis by (simp add: db_inv_def chain_inv_def frame)
qed

section \<open>Steps and reachable databases\<close>

text \<open>
  One transaction: a posting through the repository (a dry run and a replay are postings too), a lock or
  a year close. A posting is taken under the proviso that its rates fit the column they are stored in; a
  refused one leaves the database as it was and is no step.
\<close>

inductive ledger_step :: "platform \<Rightarrow> (string \<Rightarrow> string) \<Rightarrow> ledger_db \<Rightarrow> ledger_db \<Rightarrow> bool"
  for env num where
  posting: "postJournalEntry env command who options deps db = Inr (r, db') \<Longrightarrow>
     dep_repository deps = DrizzleLedgerRepository num \<Longrightarrow> rates_fit num (pe_lines (res_entry r)) \<Longrightarrow>
     ledger_step env num db db'"
| locking: "ledger_step env num db (snd (lockPeriods entityId begins ends db))"
| closing: "ledger_step env num db (close_fiscal_year fiscalYearId db)"

inductive_cases ledger_stepE: "ledger_step env num db db'"

text \<open>An administration before its first entry; account ids are uuids, so they hold no colon.\<close>

definition fresh_db :: "ledger_db \<Rightarrow> bool" where
  "fresh_db db \<longleftrightarrow> db_wf db \<and> t_entries db = [] \<and> t_lines db = [] \<and> t_lineDimensions db = [] \<and>
     t_sequences db = [] \<and> t_balances db = [] \<and> t_idempotency db = [] \<and>
     (\<forall>a \<in> set (t_accounts db). CHR '':'' \<notin> set (aw_id a))"

inductive ledger_reachable :: "platform \<Rightarrow> (string \<Rightarrow> string) \<Rightarrow> ledger_db \<Rightarrow> bool"
  for env num where
  fresh: "fresh_db db \<Longrightarrow> ledger_reachable env num db"
| step: "ledger_reachable env num db \<Longrightarrow> ledger_step env num db db' \<Longrightarrow> ledger_reachable env num db'"

lemma fresh_inv: "fresh_db db \<Longrightarrow> db_inv env db"
  by (simp add: fresh_db_def db_inv_def chain_inv_def entity_rows_def next_number_def loadChain_def chain_ok_def)

text \<open>A posting that wrote nothing, and one that did.\<close>

lemma post_no_write:
  assumes "postJournalEntry env command who options deps db = Inr (r, db')" "res_replayed r \<or> op_dryRun options"
  shows "db' = db"
proof (cases "replay_of env command options (dep_repository deps) db")
  case (Inr x)
  show ?thesis
  proof (cases x)
    case None
    with assms(1) Inr have "post_fresh env command who options deps db = Inr (r, db')"
      by (simp add: postJournalEntry_def)
    moreover from this have "\<not> res_replayed r"
      by (auto simp: post_fresh_def and_then_Inr Let_def split: if_splits)
    ultimately show ?thesis using assms(2) by (auto simp: post_fresh_def and_then_Inr Let_def)
  qed (use assms(1) Inr in \<open>simp add: postJournalEntry_def\<close>)
qed (use assms(1) in \<open>simp add: postJournalEntry_def\<close>)

lemma step_keeps_inv:
  assumes "ledger_step env num db db'" "db_inv env db"
  shows "db_inv env db'"
  using assms
proof (cases rule: ledger_step.cases)
  case (posting command who options deps r)
  show ?thesis
  proof (cases "res_replayed r \<or> op_dryRun options")
    case True
    with post_no_write [OF posting(1)] assms(2) show ?thesis by simp
  next
    case False
    with post_keeps_inv(1) [OF assms(2) posting(1) _ _ posting(2,3)] show ?thesis by simp
  qed
qed (simp_all add: status_change_inv [OF lock_status_change] status_change_inv [OF close_status_change])

lemma reachable_inv: "ledger_reachable env num db \<Longrightarrow> db_inv env db"
  by (induction rule: ledger_reachable.induct) (auto intro: fresh_inv step_keeps_inv)


section \<open>The journal as an append-only list\<close>

text \<open>
  The specification the tables implement: per administration a list of entries that only grows at its
  end, by entries that balance, seal their content and name the entry before them.
\<close>

type_synonym journal = "string \<Rightarrow> posted_entry list"

definition journal_of :: "ledger_db \<Rightarrow> journal" where
  "journal_of db entityId = loadChain entityId db"

definition head_hash :: "posted_entry list \<Rightarrow> string option" where
  "head_hash es = (if es = [] then None else Some (pe_hash (last es)))"

definition next_in_line :: "platform \<Rightarrow> posted_entry list \<Rightarrow> posted_entry \<Rightarrow> bool" where
  "next_in_line env es e \<longleftrightarrow> hashEntry env e = pe_hash e \<and> functionalBalance (pe_lines e) = 0 \<and>
     2 \<le> length (pe_lines e) \<and> pe_previousHash e = head_hash es \<and> pe_chainSequence e = int (length es) + 1"

inductive append_step :: "platform \<Rightarrow> journal \<Rightarrow> journal \<Rightarrow> bool" for env where
  unchanged: "append_step env j j"
| appended: "next_in_line env (j (pe_entityId e)) e \<Longrightarrow>
     append_step env j (j(pe_entityId e := j (pe_entityId e) @ [e]))"

inductive_simps append_step_iff: "append_step env j j'"

lemma posted_next_in_line:
  assumes inv: "db_inv env db"
    and post: "postJournalEntry env command who options deps db = Inr (r, db')" "\<not> res_replayed r" "\<not> op_dryRun options"
      "dep_repository deps = DrizzleLedgerRepository num"
  shows "next_in_line env (loadChain (cmd_entityId command) db) (res_entry r)"
    "pe_entityId (res_entry r) = cmd_entityId command"
proof -
  obtain ctx ls chain n db1 where checked: "checked_lines command options deps db = Inr (ctx, ls)"
    and e: "res_entry r = sealed_entry env command who deps ctx ls chain n"
    and pos: "db_allocateChainPosition (cmd_entityId command) db = Inr (chain, db1)"
    by (rule post_db_result [OF post], rule that)
  have ci: "chain_inv env db" using inv by (simp add: db_inv_def)
  note pos = allocate_position(1,2) [OF ci pos]
  note ok = checked_lines_ok [OF checked]
  have "length (entity_rows db (cmd_entityId command)) = length (loadChain (cmd_entityId command) db)"
    by (simp add: loadChain_rows [OF ci])
  moreover have "2 \<le> length ls"
    using ok(2) list_all2_lengthD [OF ok(5)] by (simp add: well_formed_command_def)
  ultimately show "next_in_line env (loadChain (cmd_entityId command) db) (res_entry r)"
    using pos ok(6) by (simp add: next_in_line_def head_hash_def e)
  show "pe_entityId (res_entry r) = cmd_entityId command" by (simp add: e)
qed

lemma step_appends:
  assumes inv: "db_inv env db" and step: "ledger_step env num db db'"
  shows "append_step env (journal_of db) (journal_of db')"
  using step
proof (cases rule: ledger_step.cases)
  case (posting command who options deps r)
  show ?thesis
  proof (cases "res_replayed r \<or> op_dryRun options")
    case True
    with post_no_write [OF posting(1)] show ?thesis by (simp add: append_step.unchanged)
  next
    case False
    then have written: "\<not> res_replayed r" "\<not> op_dryRun options" by simp_all
    note next_entry = posted_next_in_line [OF inv posting(1) written posting(2)]
    have "journal_of db' = (journal_of db)(pe_entityId (res_entry r) :=
        journal_of db (pe_entityId (res_entry r)) @ [res_entry r])"
      using post_keeps_inv(2) [OF inv posting(1) written posting(2,3)] next_entry(2)
      by (simp add: fun_eq_iff journal_of_def)
    moreover have "next_in_line env (journal_of db (pe_entityId (res_entry r))) (res_entry r)"
      using next_entry by (simp add: journal_of_def)
    ultimately show ?thesis by (simp only: append_step.appended)
  qed
qed (simp_all add: append_step_iff fun_eq_iff journal_of_def status_change_chain [OF lock_status_change]
    status_change_chain [OF close_status_change])


section \<open>What holds along every run\<close>

text \<open>
  A property of the database that fresh administrations have, that a written posting keeps and that a
  change of a status does not touch holds of every reachable database. The contract of the two
  invariants below.
\<close>

locale run_invariant =
  fixes env :: platform and num :: "string \<Rightarrow> string" and I :: "ledger_db \<Rightarrow> bool"
  assumes fresh: "fresh_db db \<Longrightarrow> I db"
    and posted: "db_inv env db \<Longrightarrow> I db \<Longrightarrow> postJournalEntry env command who options deps db = Inr (r, db') \<Longrightarrow>
      \<not> res_replayed r \<Longrightarrow> \<not> op_dryRun options \<Longrightarrow> dep_repository deps = DrizzleLedgerRepository num \<Longrightarrow>
      rates_fit num (pe_lines (res_entry r)) \<Longrightarrow> I db'"
    and status: "I db \<Longrightarrow> status_change db db' \<Longrightarrow> I db'"
begin

lemma kept: "ledger_step env num db db' \<Longrightarrow> db_inv env db \<Longrightarrow> I db \<Longrightarrow> I db'"
proof (erule ledger_step.cases)
  fix d d' command who options deps r
  assume inv: "db_inv env db" "I db" and eq: "db = d" "db' = d'"
    and post: "postJournalEntry env command who options deps d = Inr (r, d')"
      "dep_repository deps = DrizzleLedgerRepository num" "rates_fit num (pe_lines (res_entry r))"
  show "I db'"
  proof (cases "res_replayed r \<or> op_dryRun options")
    case True
    with post_no_write [OF post(1)] inv show ?thesis unfolding eq by simp
  next
    case False
    with inv post show ?thesis unfolding eq by (intro posted [of d command who options deps r d']) simp_all
  qed
qed (use status lock_status_change close_status_change in blast)+

lemma holds: "ledger_reachable env num db \<Longrightarrow> I db"
  by (induction rule: ledger_reachable.induct) (auto intro: fresh kept reachable_inv)

end

section \<open>Entry numbers\<close>

text \<open>The entries of one journal in one fiscal year, in the order they were posted.\<close>

definition series :: "ledger_db \<Rightarrow> string \<Rightarrow> string \<Rightarrow> string \<Rightarrow> posted_entry list" where
  "series db entityId journalCode yearCode =
     filter (\<lambda>e. pe_journalCode e = journalCode \<and> pe_fiscalYearCode e = yearCode) (loadChain entityId db)"

definition numbers_inv :: "ledger_db \<Rightarrow> bool" where
  "numbers_inv db \<longleftrightarrow> (\<forall>entityId journalCode yearCode.
     map pe_entryNumber (series db entityId journalCode yearCode) = [1..<1 + length (series db entityId journalCode yearCode)] \<and>
     next_number db (entityId, ''journal:'' @ journalCode, yearCode) = 1 + length (series db entityId journalCode yearCode))"

lemma allocate_number_next:
  "allocate_number key db = (next_number db key,
     db\<lparr>t_sequences := AList.update key (next_number db key + 1) (t_sequences db)\<rparr>)"
  by (simp add: allocate_number_def next_number_def Let_def)

text \<open>The number a posting takes, and the counters it leaves.\<close>

lemma posted_number:
  assumes inv: "db_inv env db"
    and post: "postJournalEntry env command who options deps db = Inr (r, db')" "\<not> res_replayed r" "\<not> op_dryRun options"
      "dep_repository deps = DrizzleLedgerRepository num"
  defines "key \<equiv> (cmd_entityId command, ''journal:'' @ pe_journalCode (res_entry r), pe_fiscalYearCode (res_entry r))"
  shows "pe_entryNumber (res_entry r) = next_number db key"
    "x \<noteq> ''__chain'' \<Longrightarrow> next_number db' (z, x, y) = (if (z, x, y) = key then next_number db key + 1 else next_number db (z, x, y))"
proof -
  obtain ctx ls chain n db1 where e: "res_entry r = sealed_entry env command who deps ctx ls chain n"
    and pos: "db_allocateChainPosition (cmd_entityId command) db = Inr (chain, db1)"
    and n: "n = fst (allocate_number key db1)"
    and db': "t_sequences db' = t_sequences (snd (allocate_number key db1))"
  proof (rule post_db_result [OF post], goal_cases)
    case (1 ctx ls chain n db1)
    show ?case by (rule that [OF 1(3) 1(4)], unfold key_def, rule 1(5), subst 1(7), simp)
  qed
  have "chain_inv env db" using inv by (simp add: db_inv_def)
  note db1 = allocate_position(3) [OF this pos]
  have other: "next_number db1 (z, x, y) = next_number db (z, x, y)" if "x \<noteq> ''__chain''" for z x y
    unfolding db1 next_number_update using that by simp
  have key: "next_number db1 key = next_number db key"
    unfolding key_def by (rule other) simp
  show "pe_entryNumber (res_entry r) = next_number db key"
    by (simp add: e n allocate_number_next key)
  have "next_number db' k = next_number (snd (allocate_number key db1)) k" for k
    by (simp add: next_number_def db')
  then show "next_number db' (z, x, y) = (if (z, x, y) = key then next_number db key + 1 else next_number db (z, x, y))"
    if "x \<noteq> ''__chain''"
    using other [OF that] by (simp add: allocate_number_next next_number_update key)
qed

lemma numbers_posted:
  assumes inv: "db_inv env db" and numbers: "numbers_inv db"
    and post: "postJournalEntry env command who options deps db = Inr (r, db')" "\<not> res_replayed r" "\<not> op_dryRun options"
      "dep_repository deps = DrizzleLedgerRepository num" "rates_fit num (pe_lines (res_entry r))"
  shows "numbers_inv db'"
  unfolding numbers_inv_def
proof (intro allI)
  fix entityId journalCode yearCode
  let ?e = "res_entry r"
  let ?mine = "entityId = cmd_entityId command \<and> journalCode = pe_journalCode ?e \<and> yearCode = pe_fiscalYearCode ?e"
  let ?s = "series db entityId journalCode yearCode"
  have new: "series db' entityId journalCode yearCode = ?s @ (if ?mine then [?e] else [])"
    using post_keeps_inv(2) [OF inv post, of entityId] by (auto simp: series_def)
  have old: "map pe_entryNumber ?s = [1..<1 + length ?s]"
    "next_number db (entityId, ''journal:'' @ journalCode, yearCode) = 1 + length ?s"
    using numbers by (simp_all add: numbers_inv_def)
  note number = posted_number [OF inv post(1-4)]
  show "map pe_entryNumber (series db' entityId journalCode yearCode) = [1..<1 + length (series db' entityId journalCode yearCode)] \<and>
      next_number db' (entityId, ''journal:'' @ journalCode, yearCode) = 1 + length (series db' entityId journalCode yearCode)"
  proof (cases ?mine)
    case True
    then have "series db' entityId journalCode yearCode = ?s @ [?e]" using new by simp
    with old number(1) number(2) [of "''journal:'' @ journalCode" entityId yearCode] True show ?thesis by simp
  next
    case False
    then have "series db' entityId journalCode yearCode = ?s" using new by auto
    with old number(2) [of "''journal:'' @ journalCode" entityId yearCode] False show ?thesis by auto
  qed
qed

interpretation numbering: run_invariant env num numbers_inv for env num
proof unfold_locales
  show "fresh_db db \<Longrightarrow> numbers_inv db" for db
    by (simp add: fresh_db_def numbers_inv_def series_def loadChain_def next_number_def)
  show "numbers_inv db'" if "numbers_inv db" "status_change db db'" for db db'
  proof -
    have "series db' = series db" "next_number db' = next_number db"
      by (simp_all add: fun_eq_iff series_def next_number_def status_change_chain [OF that(2)]
          status_change_frame(4) [OF that(2)])
    with that(1) show ?thesis by (simp add: numbers_inv_def)
  qed
qed (rule numbers_posted)

text \<open>
  C3: Numbering has no gaps. In every reachable database the entries of one journal in one fiscal year
  carry the numbers one, two, three and so on, in the order they were posted.
\<close>

theorem entry_numbers_gapless:
  assumes "ledger_reachable env num db"
  shows "map pe_entryNumber (series db entityId journalCode yearCode) =
    [1..<1 + length (series db entityId journalCode yearCode)]"
  using numbering.holds [OF assms] by (simp add: numbers_inv_def)

section \<open>Period balances\<close>

text \<open>The debit and the credit turnover of an account in a period and a currency, from the journal itself.\<close>

definition add2 :: "int \<times> int \<Rightarrow> int \<times> int \<Rightarrow> int \<times> int" where
  "add2 x y = (fst x + fst y, snd x + snd y)"

lemma add2_simps [simp]: "add2 (a, b) (c, d) = (a + c, b + d)" "add2 x (0, 0) = x" "add2 (0, 0) x = x"
  "add2 (add2 x y) z = add2 x (add2 y z)"
  by (simp_all add: add2_def)

fun lines_turnover :: "string \<Rightarrow> string \<Rightarrow> posted_line list \<Rightarrow> int \<times> int" where
  "lines_turnover a c [] = (0, 0)"
| "lines_turnover a c (l # ls) =
     add2 (if pl_accountId l = a \<and> pl_currency l = c then (pl_debit l, pl_credit l) else (0, 0)) (lines_turnover a c ls)"

fun turnover :: "string \<Rightarrow> string \<Rightarrow> string \<Rightarrow> posted_entry list \<Rightarrow> int \<times> int" where
  "turnover a p c [] = (0, 0)"
| "turnover a p c (e # es) =
     add2 (if pe_periodId e = p then lines_turnover a c (pe_lines e) else (0, 0)) (turnover a p c es)"

lemma turnover_snoc [simp]: "turnover a p c (es @ [e]) =
   add2 (turnover a p c es) (if pe_periodId e = p then lines_turnover a c (pe_lines e) else (0, 0))"
  by (induction es) auto

definition balance_at :: "(balance_key \<times> int \<times> int) list \<Rightarrow> balance_key \<Rightarrow> int \<times> int" where
  "balance_at b key = (case map_of b key of None \<Rightarrow> (0, 0) | Some v \<Rightarrow> v)"

definition collapsed_at :: "(string \<times> balance_total) list \<Rightarrow> string \<Rightarrow> string \<Rightarrow> int \<times> int" where
  "collapsed_at ts a c = (case map_of ts (a @ '':'' @ c) of None \<Rightarrow> (0, 0) | Some t \<Rightarrow> (bt_debit t, bt_credit t))"

abbreviation colon_free :: "string \<Rightarrow> bool" where
  "colon_free s \<equiv> CHR '':'' \<notin> set s"

lemma colon_key_inject: "colon_free a \<Longrightarrow> colon_free b \<Longrightarrow> a @ '':'' @ c = b @ '':'' @ d \<longleftrightarrow> a = b \<and> c = d"
proof (induction a arbitrary: b)
  case Nil
  then show ?case by (cases b) auto
next
  case (Cons x a)
  then show ?case by (cases b) auto
qed

lemma collapse_lines_at:
  "\<forall>l \<in> set ls. colon_free (pl_accountId l) \<Longrightarrow> colon_free a \<Longrightarrow>
   collapsed_at (collapse_lines ts ls) a c = add2 (collapsed_at ts a c) (lines_turnover a c ls)"
proof (induction ts ls rule: collapse_lines.induct)
  case (2 ts l ls)
  define key where "key = pl_accountId l @ '':'' @ pl_currency l"
  define cur where "cur = (case map_of ts key of Some t \<Rightarrow> t
    | None \<Rightarrow> \<lparr>bt_accountId = pl_accountId l, bt_currency = pl_currency l, bt_debit = 0, bt_credit = 0\<rparr>)"
  define ts' where "ts' = AList.update key
    (cur\<lparr>bt_debit := bt_debit cur + pl_debit l, bt_credit := bt_credit cur + pl_credit l\<rparr>) ts"
  have step: "collapse_lines ts (l # ls) = collapse_lines ts' ls"
    by (simp add: ts'_def cur_def key_def Let_def)
  have same: "a @ '':'' @ c = key \<longleftrightarrow> pl_accountId l = a \<and> pl_currency l = c"
    using colon_key_inject [of a "pl_accountId l" c "pl_currency l"] 2(2,3) by (auto simp: key_def)
  have at: "collapsed_at ts' a c = add2 (collapsed_at ts a c)
      (if pl_accountId l = a \<and> pl_currency l = c then (pl_debit l, pl_credit l) else (0, 0))"
  proof (cases "a @ '':'' @ c = key")
    case True
    then show ?thesis using same
      by (simp add: collapsed_at_def ts'_def AList.update_conv' cur_def split: option.split)
  next
    case False
    then show ?thesis using same by (auto simp: collapsed_at_def ts'_def AList.update_conv')
  qed
  have "collapsed_at (collapse_lines ts' ls) a c = add2 (collapsed_at ts' a c) (lines_turnover a c ls)"
    using 2(2,3) by (intro 2(1) [OF key_def cur_def, folded ts'_def]) simp_all
  then show ?case unfolding step at by simp
qed simp

text \<open>What \<open>collapse_lines\<close> builds: one total per account and currency, under its own key.\<close>

definition keyed_totals :: "(string \<times> balance_total) list \<Rightarrow> bool" where
  "keyed_totals ts \<longleftrightarrow> distinct (map fst ts) \<and>
     (\<forall>(k, t) \<in> set ts. k = bt_accountId t @ '':'' @ bt_currency t \<and> colon_free (bt_accountId t))"

lemma keyed_update:
  "keyed_totals ts \<Longrightarrow> colon_free (bt_accountId t) \<Longrightarrow>
   keyed_totals (AList.update (bt_accountId t @ '':'' @ bt_currency t) t ts)"
proof -
  assume ts: "keyed_totals ts" "colon_free (bt_accountId t)"
  have "set (AList.update k v m) \<subseteq> insert (k, v) (set m)" for k :: string and v :: balance_total and m
    by (induction m) auto
  then show ?thesis using ts unfolding keyed_totals_def by (fastforce simp: AList.distinct_update)
qed

lemma collapse_keyed:
  "\<forall>l \<in> set ls. colon_free (pl_accountId l) \<Longrightarrow> keyed_totals ts \<Longrightarrow> keyed_totals (collapse_lines ts ls)"
proof (induction ts ls rule: collapse_lines.induct)
  case (2 ts l ls)
  define key where "key = pl_accountId l @ '':'' @ pl_currency l"
  define cur where "cur = (case map_of ts key of Some t \<Rightarrow> t
    | None \<Rightarrow> \<lparr>bt_accountId = pl_accountId l, bt_currency = pl_currency l, bt_debit = 0, bt_credit = 0\<rparr>)"
  let ?new = "cur\<lparr>bt_debit := bt_debit cur + pl_debit l, bt_credit := bt_credit cur + pl_credit l\<rparr>"
  have cur: "bt_accountId cur = pl_accountId l \<and> bt_currency cur = pl_currency l"
  proof (cases "map_of ts key")
    case (Some t)
    then have "key = bt_accountId t @ '':'' @ bt_currency t" "colon_free (bt_accountId t)"
      using 2(3) by (auto simp: keyed_totals_def dest: map_of_SomeD)
    then show ?thesis
      using Some colon_key_inject [of "pl_accountId l" "bt_accountId t"] 2(2) by (auto simp: cur_def key_def)
  qed (simp add: cur_def)
  have "keyed_totals (AList.update key ?new ts)"
    using keyed_update [OF 2(3), of ?new] 2(2) cur by (simp add: key_def)
  with 2(1) [OF key_def cur_def] 2(2) have "keyed_totals (collapse_lines (AList.update key ?new ts) ls)" by simp
  then show ?case by (simp add: cur_def key_def Let_def)
qed simp

fun totals_turnover :: "string \<Rightarrow> string \<Rightarrow> balance_total list \<Rightarrow> int \<times> int" where
  "totals_turnover a c [] = (0, 0)"
| "totals_turnover a c (t # ts) =
     add2 (if bt_accountId t = a \<and> bt_currency t = c then (bt_debit t, bt_credit t) else (0, 0)) (totals_turnover a c ts)"

lemma keyed_turnover:
  "keyed_totals ts \<Longrightarrow> colon_free a \<Longrightarrow> totals_turnover a c (map snd ts) = collapsed_at ts a c"
proof (induction ts)
  case (Cons kt ts)
  obtain k t where kt: "kt = (k, t)" by (cases kt)
  from Cons.prems have k: "k = bt_accountId t @ '':'' @ bt_currency t" "colon_free (bt_accountId t)" "k \<notin> fst ` set ts"
    and ts: "keyed_totals ts" by (auto simp: keyed_totals_def kt)
  note IH = Cons.IH [OF ts Cons.prems(2)]
  show ?case
  proof (cases "k = a @ '':'' @ c")
    case True
    moreover from this have "bt_accountId t = a \<and> bt_currency t = c"
      using k Cons.prems(2) colon_key_inject [of "bt_accountId t" a] by auto
    moreover have "map_of ts (a @ '':'' @ c) = None" using k(3) True by (metis map_of_eq_None_iff)
    ultimately show ?thesis using IH by (simp add: kt collapsed_at_def)
  next
    case False
    then have "\<not> (bt_accountId t = a \<and> bt_currency t = c)" using k(1) by auto
    with False IH show ?thesis by (auto simp: kt collapsed_at_def)
  qed
qed (simp add: collapsed_at_def)

lemma upserts_at:
  "balance_at (foldl (\<lambda>b t. upsert_balance ent p t b) b ts) (z, a, q, c) =
   add2 (balance_at b (z, a, q, c)) (if z = ent \<and> q = p then totals_turnover a c ts else (0, 0))"
proof (induction ts arbitrary: b)
  case (Cons t ts)
  have "balance_at (upsert_balance ent p t b) (z, a, q, c) = add2 (balance_at b (z, a, q, c))
      (if z = ent \<and> q = p \<and> bt_accountId t = a \<and> bt_currency t = c then (bt_debit t, bt_credit t) else (0, 0))"
    by (auto simp: balance_at_def upsert_balance_def Let_def AList.update_conv' split: option.splits)
  with Cons show ?case by auto
qed simp

lemma balanced_after_at:
  assumes "\<forall>l \<in> set (pe_lines e). colon_free (pl_accountId l)" "colon_free a"
  shows "balance_at (balanced_after e b) (z, a, q, c) = add2 (balance_at b (z, a, q, c))
    (if z = pe_entityId e \<and> q = pe_periodId e then lines_turnover a c (pe_lines e) else (0, 0))"
proof -
  have "totals_turnover a c (map snd (collapse_lines [] (pe_lines e))) = lines_turnover a c (pe_lines e)"
    using collapse_lines_at [OF assms, of "[]" c] keyed_turnover [OF collapse_keyed [OF assms(1), of "[]"] assms(2), of c]
    by (simp add: collapsed_at_def keyed_totals_def)
  then show ?thesis by (simp add: balanced_after_def upserts_at)
qed

text \<open>The lines of a posted entry are on accounts of the database, whose ids hold no colon.\<close>

definition balances_inv :: "ledger_db \<Rightarrow> bool" where
  "balances_inv db \<longleftrightarrow> (\<forall>a \<in> set (t_accounts db). colon_free (aw_id a)) \<and>
     (\<forall>z a p c. colon_free a \<longrightarrow> balance_at (t_balances db) (z, a, p, c) = turnover a p c (loadChain z db))"

lemma posted_balances:
  assumes inv: "db_inv env db"
    and post: "postJournalEntry env command who options deps db = Inr (r, db')" "\<not> res_replayed r" "\<not> op_dryRun options"
      "dep_repository deps = DrizzleLedgerRepository num" and rates: "rates_fit num (pe_lines (res_entry r))"
  shows "t_balances db' = balanced_after (res_entry r) (t_balances db)" "t_accounts db' = t_accounts db"
    "\<forall>l \<in> set (pe_lines (res_entry r)). \<exists>a \<in> set (t_accounts db). aw_id a = pl_accountId l"
    "pe_entityId (res_entry r) = cmd_entityId command"
proof -
  obtain ctx ls chain n db1 where checked: "checked_lines command options deps db = Inr (ctx, ls)"
    and e: "res_entry r = sealed_entry env command who deps ctx ls chain n"
    and pos: "db_allocateChainPosition (cmd_entityId command) db = Inr (chain, db1)"
    and db': "t_balances db' = balanced_after (res_entry r) (t_balances db1)" "t_accounts db' = t_accounts db1"
  proof (rule post_db_result [OF post], goal_cases)
    case (1 ctx ls chain n db1)
    have "t_accounts db' = t_accounts db1" by (subst 1(7)) (simp add: allocate_number_def Let_def)
    moreover have "t_balances db' = balanced_after (res_entry r) (t_balances db1)" by (subst 1(7)) simp
    ultimately show ?case using that [OF 1(2) 1(3) 1(4)] by blast
  qed
  obtain s where "db1 = db\<lparr>t_sequences := s\<rparr>" using chain_position_frame [OF pos] by blast
  with db' show "t_balances db' = balanced_after (res_entry r) (t_balances db)" "t_accounts db' = t_accounts db"
    by simp_all
  have "entry_refs num db (res_entry r)"
    using sealed_refs [OF checked post(4) _, of env who chain n] rates inv by (simp add: e db_inv_def)
  then show "\<forall>l \<in> set (pe_lines (res_entry r)). \<exists>a \<in> set (t_accounts db). aw_id a = pl_accountId l"
    by (auto simp: entry_refs_def line_refs_def)
  show "pe_entityId (res_entry r) = cmd_entityId command" by (simp add: e)
qed

lemma balances_posted:
  assumes inv: "db_inv env db" and bal: "balances_inv db"
    and post: "postJournalEntry env command who options deps db = Inr (r, db')" "\<not> res_replayed r" "\<not> op_dryRun options"
      "dep_repository deps = DrizzleLedgerRepository num" "rates_fit num (pe_lines (res_entry r))"
  shows "balances_inv db'"
proof -
  note p = posted_balances [OF inv post]
  have accounts: "\<forall>a \<in> set (t_accounts db). colon_free (aw_id a)" using bal by (simp add: balances_inv_def)
  then have free: "\<forall>l \<in> set (pe_lines (res_entry r)). colon_free (pl_accountId l)" using p(3) by metis
  have "balance_at (t_balances db') (z, a, q, c) = turnover a q c (loadChain z db')" if "colon_free a" for z a q c
  proof -
    have "balance_at (t_balances db) (z, a, q, c) = turnover a q c (loadChain z db)"
      using bal that by (simp add: balances_inv_def)
    then show ?thesis
      unfolding p(1) balanced_after_at [OF free that] post_keeps_inv(2) [OF inv post] by (simp add: p(4))
  qed
  with accounts p(2) show ?thesis by (simp add: balances_inv_def)
qed

interpretation balances: run_invariant env num balances_inv for env num
proof unfold_locales
  show "fresh_db db \<Longrightarrow> balances_inv db" for db
    by (simp add: fresh_db_def balances_inv_def balance_at_def loadChain_def)
  show "balances_inv db'" if "balances_inv db" "status_change db db'" for db db'
    using that by (simp add: balances_inv_def status_change_frame(5,6) [OF that(2)] status_change_chain [OF that(2)])
qed (rule balances_posted)

text \<open>
  C4: The balances the reports read agree with the journal. In every reachable database the balance kept
  for an account, period and currency is the debit and the credit turnover of the journal lines posted
  there, so no rebuild is ever needed.
\<close>

theorem balances_agree_with_journal:
  assumes "ledger_reachable env num db" "a \<in> set (t_accounts db)"
  shows "balance_at (t_balances db) (entityId, aw_id a, periodId, currency) =
    turnover (aw_id a) periodId currency (loadChain entityId db)"
  using balances.holds [OF assms(1)] assms(2) by (simp add: balances_inv_def)

section \<open>The deferred trigger and the retry\<close>

lemma sum_lines_resolved:
  "list_all2 (line_resolves ctx fc) ls items \<Longrightarrow>
   (\<Sum>l\<leftarrow>items. pl_debit l - pl_credit l) = (\<Sum>l\<leftarrow>ls. li_debit l) - (\<Sum>l\<leftarrow>ls. li_credit l)"
  by (induction rule: list_all2_induct) (auto simp: line_resolves_def)

lemma resolved_currencies:
  "list_all2 (line_resolves ctx fc) ls items \<Longrightarrow> \<forall>l \<in> set items. pl_currency l = c \<Longrightarrow>
   \<forall>l \<in> set ls. effective_currency fc l = c"
proof (induction rule: list_all2_induct)
  case (Cons l ls item items)
  have "pl_currency item = effective_currency fc l" using Cons(1) unfolding line_resolves_def by blast
  with Cons show ?case by simp
qed simp

lemma js_set_one: "length (js_set xs) = 1 \<Longrightarrow> \<exists>c. \<forall>x \<in> set xs. x = c"
proof -
  assume "length (js_set xs) = 1"
  then obtain c where c: "js_set xs = [c]" by (auto simp: length_Suc_conv)
  have "set xs = set (js_set xs)" by (simp only: set_js_set)
  then show ?thesis unfolding c by auto
qed

text \<open>
  C7: What the posting function accepts, the database accepts: at commit, the trigger that re-checks a
  new entry's line count and balance never refuses an entry posted into a reachable database. The two
  implementations of the balance rule agree.
\<close>

theorem commit_check_never_refuses:
  assumes "ledger_reachable env num db"
    "postJournalEntry env command who options deps db = Inr (r, db')" "\<not> res_replayed r" "\<not> op_dryRun options"
    "dep_repository deps = DrizzleLedgerRepository num"
  shows "check_entry_balanced db' (pe_id (res_entry r)) = None"
proof -
  let ?e = "res_entry r"
  have inv: "db_inv env db" by (rule reachable_inv [OF assms(1)])
  obtain ctx ls chain n db2 where checked: "checked_lines command options deps db = Inr (ctx, ls)"
    and e: "?e = sealed_entry env command who deps ctx ls chain n"
    and lines: "t_lines db' = t_lines db @ map (row_of_line num ?e) (pe_lines ?e)"
    and ins: "db_insertEntry num ?e db2 = Inr (inserted num ?e db2)" and same: "same_journal db db2"
  proof (rule post_db_result [OF assms(2-5)], goal_cases)
    case (1 ctx ls chain n db1)
    obtain s where s: "db1 = db\<lparr>t_sequences := s\<rparr>" using chain_position_frame [OF 1(4)] by blast
    have same: "same_journal db (snd (allocate_number key db1))" for key
      by (simp add: s allocate_number_def Let_def same_journal_def same_master_def)
    have "t_lines db' = t_lines db @ map (row_of_line num ?e) (pe_lines ?e)"
      by (subst 1(7)) (simp add: inserted_def s allocate_number_def Let_def)
    then show ?case using that [OF 1(2) 1(3) _ 1(6) same] by blast
  qed
  note ok = checked_lines_ok [OF checked]
  have fresh: "pe_id ?e \<notin> er_id ` set (t_entries db)"
    using entry_guard_None(1) [OF db_insertEntry_spec(2) [OF ins]] same
    by (simp add: row_of_entry_def same_journal_def)
  have wf: "\<forall>l \<in> set (t_lines db). lw_entryId l \<in> er_id ` set (t_entries db)"
    using inv unfolding db_inv_def db_wf_def by blast
  have "filter (\<lambda>l. lw_entryId l = pe_id ?e) (t_lines db) = []"
    unfolding filter_empty_conv using fresh wf by metis
  then have rows: "filter (\<lambda>l. lw_entryId l = pe_id ?e) (t_lines db') = map (row_of_line num ?e) ls"
    by (simp add: lines e row_of_line_def filter_id_conv)
  have sums: "(\<Sum>l\<leftarrow>map (row_of_line num ?e) ls. lw_debit l - lw_credit l) = (\<Sum>l\<leftarrow>ls. pl_debit l - pl_credit l)"
    "(\<Sum>l\<leftarrow>map (row_of_line num ?e) ls. lw_functionalDebit l - lw_functionalCredit l) = functionalBalance ls"
    by (simp_all add: row_of_line_def functionalBalance_def comp_def)
  have two: "2 \<le> length ls" using ok(2) list_all2_lengthD [OF ok(5)] by (simp add: well_formed_command_def)
  have one: "(\<Sum>l\<leftarrow>ls. pl_debit l - pl_credit l) = 0" if currencies: "length (js_set (map pl_currency ls)) = 1"
  proof -
    let ?fc = "en_functionalCurrency (ctx_entity ctx)"
    from js_set_one [OF currencies] obtain c where "\<forall>l \<in> set ls. pl_currency l = c" by auto
    then have "\<forall>l \<in> set (cmd_lines command). effective_currency ?fc l = c"
      using resolved_currencies [OF ok(5)] by blast
    then have "(\<Sum>l\<leftarrow>cmd_lines command. li_debit l) = (\<Sum>l\<leftarrow>cmd_lines command. li_credit l)"
      using ok(2) unfolding well_formed_command_def balances_in_one_currency_def by blast
    then show ?thesis using sum_lines_resolved [OF ok(5)] by simp
  qed
  have currencies: "map lw_currency (map (row_of_line num ?e) ls) = map pl_currency ls"
    by (simp add: row_of_line_def)
  show ?thesis
    unfolding check_entry_balanced_def Let_def rows sums currencies length_map using two one ok(6) by auto
qed


end
