(* ===== verification/Ledger_Reports.thy ===== *)
theory Ledger_Reports
  imports Ledger_Journal
begin

text \<open>
  \<^verbatim>\<open>packages/core/src/ledger/reports.ts\<close> and \<^verbatim>\<open>statements.ts\<close>: the trial balance, the balance sheet and the
  profit and loss over one row of totals per account, and the query that makes those rows from the
  maintained balances (\<open>ReportingRepository.trialBalanceRows\<close> of \<^verbatim>\<open>packages/db/src/repositories/reporting.ts\<close>).
  The collations (of \<open>localeCompare\<close> with \<open>numeric\<close>, and of Postgres) are parameters.
\<close>

section \<open>Rows\<close>

record balance_row =
  br_accountId :: string
  br_accountNumber :: string
  br_accountName :: string
  br_accountType :: account_type
  br_normalBalance :: normal_balance
  br_rgsCode :: "string option"
  br_openingDebit :: int
  br_openingCredit :: int
  br_periodDebit :: int
  br_periodCredit :: int

record trial_balance_query =
  tq_entityId :: string
  tq_fiscalYearCode :: string
  tq_fromPeriod :: nat
  tq_toPeriod :: nat
  tq_currency :: string

definition period_range :: "trial_balance_query \<Rightarrow> ledger_db \<Rightarrow> fiscal_year_row \<Rightarrow> period_row list" where
  "period_range query db year =
     sort_by (\<lambda>a b. int_compare (int (pw_sequence a)) (int (pw_sequence b)))
       (filter (\<lambda>p. pw_fiscalYearId p = fy_id year \<and> tq_fromPeriod query \<le> pw_sequence p \<and>
          pw_sequence p \<le> tq_toPeriod query) (t_periods db))"

text \<open>The sum over the balance rows of an account in a set of periods; a missing group is zero.\<close>

definition sum_for :: "trial_balance_query \<Rightarrow> ledger_db \<Rightarrow> string list \<Rightarrow> string \<Rightarrow> int \<times> int" where
  "sum_for query db periodIds accountId =
     (let rows = filter (\<lambda>((e, a, p, c), _). e = tq_entityId query \<and> c = tq_currency query \<and> p \<in> set periodIds \<and>
            a = accountId) (t_balances db)
      in (\<Sum>(_, d, _)\<leftarrow>rows. d, \<Sum>(_, _, c)\<leftarrow>rows. c))"

definition row_of_account ::
  "trial_balance_query \<Rightarrow> ledger_db \<Rightarrow> string list \<Rightarrow> string list \<Rightarrow> account_row \<Rightarrow> balance_row" where
  "row_of_account query db opening inRange a =
     \<lparr>br_accountId = aw_id a, br_accountNumber = aw_number a, br_accountName = aw_name a,
      br_accountType = aw_type a, br_normalBalance = aw_normalBalance a, br_rgsCode = aw_rgsCode a,
      br_openingDebit = fst (sum_for query db opening (aw_id a)),
      br_openingCredit = snd (sum_for query db opening (aw_id a)),
      br_periodDebit = fst (sum_for query db inRange (aw_id a)),
      br_periodCredit = snd (sum_for query db inRange (aw_id a))\<rparr>"

definition chart_of :: "(string \<Rightarrow> string \<Rightarrow> int) \<Rightarrow> string \<Rightarrow> ledger_db \<Rightarrow> account_row list" where
  "chart_of collation entityId db = sort_by (\<lambda>a b. collation (aw_number a) (aw_number b))
     (filter (\<lambda>a. aw_entityId a = entityId) (t_accounts db))"

definition trialBalanceRows ::
  "(string \<Rightarrow> string \<Rightarrow> int) \<Rightarrow> trial_balance_query \<Rightarrow> ledger_db \<Rightarrow> balance_row list" where
  "trialBalanceRows collation query db =
     (case find (\<lambda>y. fy_entityId y = tq_entityId query \<and> fy_code y = tq_fiscalYearCode query) (t_fiscalYears db) of
        None \<Rightarrow> []
      | Some year \<Rightarrow>
          (let inRange = period_range query db year in
           if inRange = [] then []
           else
             let opening = filter (\<lambda>p. pw_entityId p = tq_entityId query \<and> pw_endsOn p < pw_startsOn (hd inRange)) (t_periods db)
             in map (row_of_account query db (map pw_id opening) (map pw_id inRange))
                  (chart_of collation (tq_entityId query) db)))"

section \<open>The trial balance\<close>

record trial_balance_line =
  tl_accountId :: string
  tl_accountNumber :: string
  tl_accountName :: string
  tl_accountType :: account_type
  tl_rgsCode :: "string option"
  tl_openingBalance :: int
  tl_debit :: int
  tl_credit :: int
  tl_closingBalance :: int

record trial_balance_report =
  tb_entityId :: string
  tb_currency :: string
  tb_fiscalYearCode :: string
  tb_fromPeriod :: nat
  tb_toPeriod :: nat
  tb_lines :: "trial_balance_line list"
  tb_totalDebit :: int
  tb_totalCredit :: int
  tb_difference :: int

record trial_balance_request = trial_balance_query +
  tr_includeZeroRows :: bool

definition shown :: "trial_balance_request \<Rightarrow> balance_row \<Rightarrow> bool" where
  "shown request row \<longleftrightarrow> \<not> (\<not> tr_includeZeroRows request \<and> br_openingDebit row - br_openingCredit row = 0 \<and>
     br_periodDebit row = 0 \<and> br_periodCredit row = 0)"

definition trial_line :: "balance_row \<Rightarrow> trial_balance_line" where
  "trial_line row =
     (let openingBalance = br_openingDebit row - br_openingCredit row
      in \<lparr>tl_accountId = br_accountId row, tl_accountNumber = br_accountNumber row,
          tl_accountName = br_accountName row, tl_accountType = br_accountType row,
          tl_rgsCode = br_rgsCode row, tl_openingBalance = openingBalance, tl_debit = br_periodDebit row,
          tl_credit = br_periodCredit row,
          tl_closingBalance = openingBalance + br_periodDebit row - br_periodCredit row\<rparr>)"

fun trial_loop ::
  "trial_balance_request \<Rightarrow> trial_balance_line list \<times> int \<times> int \<Rightarrow> balance_row list \<Rightarrow> trial_balance_line list \<times> int \<times> int" where
  "trial_loop request acc [] = acc"
| "trial_loop request (ls, totalDebit, totalCredit) (row # rows) =
     (if \<not> shown request row then trial_loop request (ls, totalDebit, totalCredit) rows
      else trial_loop request (ls @ [trial_line row], totalDebit + br_periodDebit row, totalCredit + br_periodCredit row) rows)"

definition buildTrialBalance ::
  "(string \<Rightarrow> string \<Rightarrow> int) \<Rightarrow> trial_balance_request \<Rightarrow> balance_row list \<Rightarrow> trial_balance_report" where
  "buildTrialBalance numericCompare request rows =
     (let (ls, totalDebit, totalCredit) = trial_loop request ([], 0, 0) rows
      in \<lparr>tb_entityId = tq_entityId request, tb_currency = tq_currency request,
          tb_fiscalYearCode = tq_fiscalYearCode request, tb_fromPeriod = tq_fromPeriod request,
          tb_toPeriod = tq_toPeriod request,
          tb_lines = sort_by (\<lambda>a b. numericCompare (tl_accountNumber a) (tl_accountNumber b)) ls,
          tb_totalDebit = totalDebit, tb_totalCredit = totalCredit,
          tb_difference = totalDebit - totalCredit\<rparr>)"

lemma trial_loop_eq:
  "trial_loop request (ls, d, c) rows =
     (ls @ map trial_line (filter (shown request) rows), d + (\<Sum>r\<leftarrow>rows. br_periodDebit r), c + (\<Sum>r\<leftarrow>rows. br_periodCredit r))"
  by (induction request "(ls, d, c)" rows arbitrary: ls d c rule: trial_loop.induct) (auto simp: shown_def)

lemma trial_balance_difference:
  "tb_difference (buildTrialBalance cmp request rows) = (\<Sum>r\<leftarrow>rows. br_periodDebit r) - (\<Sum>r\<leftarrow>rows. br_periodCredit r)"
  by (simp add: buildTrialBalance_def trial_loop_eq)

section \<open>Statements\<close>

record statement_line =
  sl_accountNumber :: string
  sl_accountName :: string
  sl_accountType :: account_type
  sl_rgsCode :: "string option"
  sl_signedBalance :: int
  sl_amount :: int

datatype section_key = Assets | Liabilities | EquitySection | Revenues | Expenses

record statement_section =
  ss_key :: section_key
  ss_title :: string
  ss_lines :: "statement_line list"
  ss_total :: int

record balance_sheet =
  bs_currency :: string
  bs_asOf :: string
  bs_assets :: statement_section
  bs_liabilities :: statement_section
  bs_equity :: statement_section
  bs_resultForPeriod :: int
  bs_totalAssets :: int
  bs_totalLiabilitiesAndEquity :: int
  bs_difference :: int

record profit_and_loss =
  pp_currency :: string
  pp_fromDate :: string
  pp_toDate :: string
  pp_revenue :: statement_section
  pp_expenses :: statement_section
  pp_result :: int

record statement_request =
  sr_currency :: string
  sr_fromDate :: string
  sr_toDate :: string

definition BALANCE_SHEET_TYPES :: "account_type set" where
  "BALANCE_SHEET_TYPES = {Asset, Liability, Equity}"

definition closing :: "balance_row \<Rightarrow> int" where
  "closing row = br_openingDebit row - br_openingCredit row + br_periodDebit row - br_periodCredit row"

definition movement :: "balance_row \<Rightarrow> int" where
  "movement row = br_periodDebit row - br_periodCredit row"

definition toLine :: "balance_row \<Rightarrow> int \<Rightarrow> bool \<Rightarrow> statement_line" where
  "toLine row signed presentAsDebit =
     \<lparr>sl_accountNumber = br_accountNumber row, sl_accountName = br_accountName row,
      sl_accountType = br_accountType row, sl_rgsCode = br_rgsCode row, sl_signedBalance = signed,
      sl_amount = (if presentAsDebit then signed else - signed)\<rparr>"

definition section_of ::
  "(string \<Rightarrow> string \<Rightarrow> int) \<Rightarrow> section_key \<Rightarrow> string \<Rightarrow> statement_line list \<Rightarrow> statement_section" where
  "section_of numericCompare key title ls =
     (let sorted_lines = sort_by (\<lambda>a b. numericCompare (sl_accountNumber a) (sl_accountNumber b)) ls
      in \<lparr>ss_key = key, ss_title = title, ss_lines = sorted_lines,
          ss_total = foldl (\<lambda>t l. t + sl_amount l) 0 sorted_lines\<rparr>)"

fun profit_loop ::
  "statement_line list \<times> statement_line list \<Rightarrow> balance_row list \<Rightarrow> statement_line list \<times> statement_line list" where
  "profit_loop acc [] = acc"
| "profit_loop (revenue, expenses) (row # rows) =
     (if br_accountType row \<in> BALANCE_SHEET_TYPES then profit_loop (revenue, expenses) rows
      else
        let signed = movement row in
        if signed = 0 then profit_loop (revenue, expenses) rows
        else if br_accountType row = Revenue then profit_loop (revenue @ [toLine row signed False], expenses) rows
        else profit_loop (revenue, expenses @ [toLine row signed True]) rows)"

definition buildProfitAndLoss ::
  "(string \<Rightarrow> string \<Rightarrow> int) \<Rightarrow> statement_request \<Rightarrow> balance_row list \<Rightarrow> profit_and_loss" where
  "buildProfitAndLoss numericCompare request rows =
     (let (revenue, expenses) = profit_loop ([], []) rows;
          revenueSection = section_of numericCompare Revenues ''Opbrengsten'' revenue;
          expenseSection = section_of numericCompare Expenses ''Kosten'' expenses
      in \<lparr>pp_currency = sr_currency request, pp_fromDate = sr_fromDate request, pp_toDate = sr_toDate request,
          pp_revenue = revenueSection, pp_expenses = expenseSection,
          pp_result = ss_total revenueSection - ss_total expenseSection\<rparr>)"

record sheet_state =
  st_assets :: "statement_line list"
  st_liabilities :: "statement_line list"
  st_equity :: "statement_line list"
  st_result :: int

fun sheet_loop :: "sheet_state \<Rightarrow> balance_row list \<Rightarrow> sheet_state" where
  "sheet_loop s [] = s"
| "sheet_loop s (row # rows) =
     (if br_accountType row \<notin> BALANCE_SHEET_TYPES then sheet_loop (s\<lparr>st_result := st_result s - movement row\<rparr>) rows
      else
        let signed = closing row in
        if signed = 0 then sheet_loop s rows
        else if br_accountType row = Asset
        then sheet_loop (s\<lparr>st_assets := st_assets s @ [toLine row signed True]\<rparr>) rows
        else if br_accountType row = Liability
        then sheet_loop (s\<lparr>st_liabilities := st_liabilities s @ [toLine row signed False]\<rparr>) rows
        else sheet_loop (s\<lparr>st_equity := st_equity s @ [toLine row signed False]\<rparr>) rows)"

definition buildBalanceSheet ::
  "(string \<Rightarrow> string \<Rightarrow> int) \<Rightarrow> statement_request \<Rightarrow> balance_row list \<Rightarrow> balance_sheet" where
  "buildBalanceSheet numericCompare request rows =
     (let s = sheet_loop \<lparr>st_assets = [], st_liabilities = [], st_equity = [], st_result = 0\<rparr> rows;
          assetSection = section_of numericCompare Assets ''Activa'' (st_assets s);
          liabilitySection = section_of numericCompare Liabilities ''Schulden'' (st_liabilities s);
          equitySection = section_of numericCompare EquitySection ''Eigen vermogen'' (st_equity s);
          totalLiabilitiesAndEquity = ss_total liabilitySection + ss_total equitySection + st_result s
      in \<lparr>bs_currency = sr_currency request, bs_asOf = sr_toDate request, bs_assets = assetSection,
          bs_liabilities = liabilitySection, bs_equity = equitySection, bs_resultForPeriod = st_result s,
          bs_totalAssets = ss_total assetSection, bs_totalLiabilitiesAndEquity = totalLiabilitiesAndEquity,
          bs_difference = ss_total assetSection - totalLiabilitiesAndEquity\<rparr>)"

section \<open>The statements are one set of numbers\<close>

lemma running_total: "foldl (\<lambda>t x. t + f x) a xs = a + (\<Sum>x\<leftarrow>xs. f x)" for f :: "'a \<Rightarrow> int"
  by (induction xs arbitrary: a) auto

lemma section_total: "ss_total (section_of cmp key title ls) = (\<Sum>l\<leftarrow>ls. sl_amount l)"
  by (simp add: section_of_def Let_def running_total)

abbreviation of_type :: "account_type \<Rightarrow> balance_row list \<Rightarrow> balance_row list" where
  "of_type t rows \<equiv> filter (\<lambda>r. br_accountType r = t) rows"

abbreviation profit_rows :: "balance_row list \<Rightarrow> balance_row list" where
  "profit_rows rows \<equiv> filter (\<lambda>r. br_accountType r \<notin> BALANCE_SHEET_TYPES) rows"

lemma profit_loop_totals:
  assumes "profit_loop (revenue, expenses) rows = (revenue', expenses')"
  shows "(\<Sum>l\<leftarrow>revenue'. sl_amount l) - (\<Sum>l\<leftarrow>expenses'. sl_amount l) =
    (\<Sum>l\<leftarrow>revenue. sl_amount l) - (\<Sum>l\<leftarrow>expenses. sl_amount l) - (\<Sum>r\<leftarrow>profit_rows rows. movement r)"
  using assms
  by (induction "(revenue, expenses)" rows arbitrary: revenue expenses rule: profit_loop.induct)
    (auto simp: Let_def toLine_def split: if_splits)

lemma sheet_loop_totals:
  "st_result (sheet_loop s rows) = st_result s - (\<Sum>r\<leftarrow>profit_rows rows. movement r) \<and>
   (\<Sum>l\<leftarrow>st_assets (sheet_loop s rows). sl_amount l) = (\<Sum>l\<leftarrow>st_assets s. sl_amount l) + (\<Sum>r\<leftarrow>of_type Asset rows. closing r) \<and>
   (\<Sum>l\<leftarrow>st_liabilities (sheet_loop s rows). sl_amount l) = (\<Sum>l\<leftarrow>st_liabilities s. sl_amount l) - (\<Sum>r\<leftarrow>of_type Liability rows. closing r) \<and>
   (\<Sum>l\<leftarrow>st_equity (sheet_loop s rows). sl_amount l) = (\<Sum>l\<leftarrow>st_equity s. sl_amount l) - (\<Sum>r\<leftarrow>of_type Equity rows. closing r)"
proof (induction s rows rule: sheet_loop.induct)
  case (2 s row rows)
  then show ?case
    by (cases "br_accountType row") (auto simp: BALANCE_SHEET_TYPES_def Let_def toLine_def)
qed simp

lemma sum_by_type:
  "(\<Sum>r\<leftarrow>rows. f r) = (\<Sum>r\<leftarrow>of_type Asset rows. f r) + (\<Sum>r\<leftarrow>of_type Liability rows. f r) +
     (\<Sum>r\<leftarrow>of_type Equity rows. f r) + (\<Sum>r\<leftarrow>profit_rows rows. f r :: int)"
proof (induction rows)
  case (Cons r rows)
  then show ?case by (cases "br_accountType r") (simp_all add: BALANCE_SHEET_TYPES_def)
qed simp


section \<open>What is on the lines of the journal\<close>

text \<open>
  Every line of a posted entry is on an account of its own administration, and an entry whose lines share
  a currency balances in it.
\<close>

definition one_currency_balance :: "posted_line list \<Rightarrow> bool" where
  "one_currency_balance ls \<longleftrightarrow> (\<forall>c. (\<forall>l \<in> set ls. pl_currency l = c) \<longrightarrow> (\<Sum>l\<leftarrow>ls. pl_debit l - pl_credit l) = 0)"

definition own_accounts :: "ledger_db \<Rightarrow> string \<Rightarrow> posted_line list \<Rightarrow> bool" where
  "own_accounts db entityId ls \<longleftrightarrow>
     (\<forall>l \<in> set ls. \<exists>a \<in> set (t_accounts db). aw_entityId a = entityId \<and> aw_id a = pl_accountId l)"

definition lines_inv :: "ledger_db \<Rightarrow> bool" where
  "lines_inv db \<longleftrightarrow> distinct (map fst (t_balances db)) \<and>
     (\<forall>entityId. \<forall>e \<in> set (loadChain entityId db). own_accounts db entityId (pe_lines e) \<and> one_currency_balance (pe_lines e))"

lemma db_context_account:
  assumes "db_loadPostingContext request db = Inr (Some ctx)" "map_of (ctx_accountsByNumber ctx) number = Some account"
  shows "\<exists>a \<in> set (t_accounts db). aw_entityId a = lr_entityId request \<and> aw_id a = ac_id account"
proof -
  obtain entity where entity: "find (\<lambda>e. en_id e = lr_entityId request) (t_entities db) = Some entity"
    using assms(1) by (cases "find (\<lambda>e. en_id e = lr_entityId request) (t_entities db)")
      (auto simp: db_loadPostingContext_def Let_def)
  note ctx = assms(1) [unfolded db_loadPostingContext_def Let_def entity option.case]
  have valid: "isValidDate (lr_bookingDate request)" by (rule db_context(3) [OF assms(1)])
  note ctx = ctx [simplified valid not_True_eq_False if_False sum.inject option.inject]
  have "\<exists>reqs rows. set rows \<subseteq> {a \<in> set (t_accounts db). aw_entityId a = lr_entityId request} \<and>
      ctx_accountsByNumber ctx = js_map (map (\<lambda>a. (aw_number a, account_of_row reqs a)) rows)"
    unfolding ctx [symmetric] posting_context.simps by (rule exI, rule exI, rule conjI [OF _ refl]) auto
  with assms(2) show ?thesis by (fastforce dest: map_of_js_map_SomeD simp: account_of_row_def)
qed

lemma upsert_keeps_distinct: "distinct (map fst b) \<Longrightarrow> distinct (map fst (upsert_balance ent p t b))"
  by (simp add: upsert_balance_def Let_def AList.distinct_update)

lemma balanced_keeps_distinct: "distinct (map fst b) \<Longrightarrow> distinct (map fst (balanced_after e b))"
proof -
  have "distinct (map fst b) \<Longrightarrow> distinct (map fst (foldl (\<lambda>b t. upsert_balance ent p t b) b ts))" for ent p ts b
    by (induction ts arbitrary: b) (simp_all add: upsert_keeps_distinct)
  then show "distinct (map fst b) \<Longrightarrow> distinct (map fst (balanced_after e b))" by (simp add: balanced_after_def)
qed

lemma lines_posted:
  assumes inv: "db_inv env db" and ok: "lines_inv db"
    and post: "postJournalEntry env command who options deps db = Inr (r, db')" "\<not> res_replayed r" "\<not> op_dryRun options"
      "dep_repository deps = DrizzleLedgerRepository num" "rates_fit num (pe_lines (res_entry r))"
  shows "lines_inv db'"
proof -
  let ?e = "res_entry r"
  note p = posted_balances [OF inv post]
  obtain ctx ls chain n where checked: "checked_lines command options deps db = Inr (ctx, ls)"
    and e: "?e = sealed_entry env command who deps ctx ls chain n"
    using post(1,2) by (rule post_fresh_result)
  note facts = checked_lines_ok [OF checked]
  have load: "db_loadPostingContext (context_request command) db = Inr (Some ctx)"
    using facts(1) by (simp add: post(4) DrizzleLedgerRepository_def)
  have "own_accounts db (cmd_entityId command) ls"
    unfolding own_accounts_def
  proof
    fix item assume "item \<in> set ls"
    then obtain k where "k < length ls" "item = ls ! k" by (auto simp: in_set_conv_nth)
    with facts(5) have "line_resolves ctx (en_functionalCurrency (ctx_entity ctx)) (cmd_lines command ! k) item"
      by (simp add: list_all2_conv_all_nth)
    then obtain account where "map_of (ctx_accountsByNumber ctx) (li_accountNumber (cmd_lines command ! k)) = Some account"
      "pl_accountId item = ac_id account" unfolding line_resolves_def by blast
    with db_context_account [OF load this(1)]
    show "\<exists>a \<in> set (t_accounts db). aw_entityId a = cmd_entityId command \<and> aw_id a = pl_accountId item"
      by (simp add: context_request_def)
  qed
  moreover have "one_currency_balance ls"
    unfolding one_currency_balance_def
  proof (intro allI impI)
    fix c assume "\<forall>l \<in> set ls. pl_currency l = c"
    from resolved_currencies [OF facts(5) this]
    have "(\<Sum>l\<leftarrow>cmd_lines command. li_debit l) = (\<Sum>l\<leftarrow>cmd_lines command. li_credit l)"
      using facts(2) unfolding well_formed_command_def balances_in_one_currency_def by blast
    then show "(\<Sum>l\<leftarrow>ls. pl_debit l - pl_credit l) = 0" using sum_lines_resolved [OF facts(5)] by simp
  qed
  ultimately have new: "own_accounts db (cmd_entityId command) (pe_lines ?e)" "one_currency_balance (pe_lines ?e)"
    by (simp_all add: e)
  have acc: "own_accounts db' = own_accounts db" by (simp add: fun_eq_iff own_accounts_def p(2))
  have dist: "distinct (map fst (t_balances db'))"
    unfolding p(1) using ok by (intro balanced_keeps_distinct) (simp add: lines_inv_def)
  have "own_accounts db x (pe_lines f) \<and> one_currency_balance (pe_lines f)" if "f \<in> set (loadChain x db')" for x f
  proof (cases "f \<in> set (loadChain x db)")
    case True
    with ok show ?thesis by (simp add: lines_inv_def)
  next
    case False
    with that have "x = cmd_entityId command \<and> f = ?e"
      using post_keeps_inv(2) [OF inv post, of x] by (auto split: if_splits)
    with new show ?thesis by simp
  qed
  with dist show ?thesis unfolding lines_inv_def acc by blast
qed

interpretation journal_lines: run_invariant env num lines_inv for env num
proof unfold_locales
  show "fresh_db db \<Longrightarrow> lines_inv db" for db
    by (simp add: fresh_db_def lines_inv_def loadChain_def)
  show "lines_inv db'" if "lines_inv db" "status_change db db'" for db db'
    using that(1) by (simp add: lines_inv_def own_accounts_def status_change_frame(5,6) [OF that(2)] status_change_chain [OF that(2)])
qed (rule lines_posted)

section \<open>The trial balance of the database\<close>

text \<open>A query over the balance rows, as a sum of the balances kept per period.\<close>

lemma rows_sum:
  assumes "distinct (map fst b)" "distinct ps"
  shows "(\<Sum>(_, d, _)\<leftarrow>filter (\<lambda>((e, a, p, c), _). e = ent \<and> c = cur \<and> p \<in> set ps \<and> a = acc) b. d) =
      (\<Sum>p\<leftarrow>ps. fst (balance_at b (ent, acc, p, cur)))"
    "(\<Sum>(_, _, c)\<leftarrow>filter (\<lambda>((e, a, p, c), _). e = ent \<and> c = cur \<and> p \<in> set ps \<and> a = acc) b. c) =
      (\<Sum>p\<leftarrow>ps. snd (balance_at b (ent, acc, p, cur)))"
proof -
  have "(\<Sum>(_, d, _)\<leftarrow>filter (\<lambda>((e, a, p, c), _). e = ent \<and> c = cur \<and> p \<in> set ps \<and> a = acc) b. d) =
      (\<Sum>p\<leftarrow>ps. fst (balance_at b (ent, acc, p, cur))) \<and>
    (\<Sum>(_, _, c)\<leftarrow>filter (\<lambda>((e, a, p, c), _). e = ent \<and> c = cur \<and> p \<in> set ps \<and> a = acc) b. c) =
      (\<Sum>p\<leftarrow>ps. snd (balance_at b (ent, acc, p, cur)))"
    using assms(1)
  proof (induction b)
    case Nil
    then show ?case by (induction ps) (simp_all add: balance_at_def)
  next
    case (Cons kv b)
    obtain e a p c d k where kv: "kv = ((e, a, p, c), d, k)" by (cases kv) auto
    have none: "balance_at b (e, a, p, c) = (0, 0)"
    proof -
      have "map_of b (e, a, p, c) = None" using Cons.prems by (simp add: kv map_of_eq_None_iff)
      then show ?thesis by (simp add: balance_at_def)
    qed
    have at: "balance_at (kv # b) (ent, acc, q, cur) =
        (if e = ent \<and> a = acc \<and> c = cur \<and> p = q then add2 (d, k) (balance_at b (ent, acc, q, cur)) else balance_at b (ent, acc, q, cur))" for q
      using none by (auto simp: kv balance_at_def split: option.splits)
    note IH = Cons.IH Cons.prems
    show ?case
    proof (cases "e = ent \<and> a = acc \<and> c = cur \<and> p \<in> set ps")
      case True
      then have "(\<Sum>q\<leftarrow>ps. fst (balance_at (kv # b) (ent, acc, q, cur))) =
          (\<Sum>q\<leftarrow>ps. if p = q then d + fst (balance_at b (ent, acc, q, cur)) else fst (balance_at b (ent, acc, q, cur)))"
        "(\<Sum>q\<leftarrow>ps. snd (balance_at (kv # b) (ent, acc, q, cur))) =
          (\<Sum>q\<leftarrow>ps. if p = q then k + snd (balance_at b (ent, acc, q, cur)) else snd (balance_at b (ent, acc, q, cur)))"
        by (auto simp: at add2_def intro!: arg_cong [where f = sum_list] map_cong)
      with IH True assms(2) show ?thesis by (simp add: sum_list_one_key kv)
    next
      case False
      then have "(\<Sum>q\<leftarrow>ps. fst (balance_at (kv # b) (ent, acc, q, cur))) = (\<Sum>q\<leftarrow>ps. fst (balance_at b (ent, acc, q, cur)))"
        "(\<Sum>q\<leftarrow>ps. snd (balance_at (kv # b) (ent, acc, q, cur))) = (\<Sum>q\<leftarrow>ps. snd (balance_at b (ent, acc, q, cur)))"
        by (auto simp: at intro!: arg_cong [where f = sum_list] map_cong)
      with IH False show ?thesis by (auto simp: kv)
    qed
  qed
  then show "(\<Sum>(_, d, _)\<leftarrow>filter (\<lambda>((e, a, p, c), _). e = ent \<and> c = cur \<and> p \<in> set ps \<and> a = acc) b. d) =
      (\<Sum>p\<leftarrow>ps. fst (balance_at b (ent, acc, p, cur)))"
    "(\<Sum>(_, _, c)\<leftarrow>filter (\<lambda>((e, a, p, c), _). e = ent \<and> c = cur \<and> p \<in> set ps \<and> a = acc) b. c) =
      (\<Sum>p\<leftarrow>ps. snd (balance_at b (ent, acc, p, cur)))" by blast+
qed

text \<open>The net turnover of the journal in one currency, over the entries of a set of periods.\<close>

definition net_turnover :: "string list \<Rightarrow> string \<Rightarrow> posted_entry list \<Rightarrow> int" where
  "net_turnover ps cur es = (\<Sum>e\<leftarrow>filter (\<lambda>e. pe_periodId e \<in> set ps) es.
     \<Sum>l\<leftarrow>filter (\<lambda>l. pl_currency l = cur) (pe_lines e). pl_debit l - pl_credit l)"

lemma sum_periods:
  assumes "distinct ps"
  shows "(\<Sum>p\<leftarrow>ps. fst (turnover a p c es) - snd (turnover a p c es)) =
    (\<Sum>e\<leftarrow>filter (\<lambda>e. pe_periodId e \<in> set ps) es. fst (lines_turnover a c (pe_lines e)) - snd (lines_turnover a c (pe_lines e)))"
proof (induction es)
  case Nil
  then show ?case by (induction ps) simp_all
next
  case (Cons e es)
  let ?d = "fst (lines_turnover a c (pe_lines e)) - snd (lines_turnover a c (pe_lines e))"
  have step: "(\<Sum>p\<leftarrow>ps. fst (turnover a p c (e # es)) - snd (turnover a p c (e # es))) =
      (\<Sum>p\<leftarrow>ps. if pe_periodId e = p then ?d + (fst (turnover a p c es) - snd (turnover a p c es))
         else fst (turnover a p c es) - snd (turnover a p c es))"
    by (intro arg_cong [where f = sum_list] map_cong) (auto simp: add2_def)
  show ?case
  proof (cases "pe_periodId e \<in> set ps")
    case True
    with Cons show ?thesis unfolding step by (simp add: sum_list_one_key [OF assms])
  next
    case False
    then have "(\<Sum>p\<leftarrow>ps. if pe_periodId e = p then ?d + (fst (turnover a p c es) - snd (turnover a p c es))
         else fst (turnover a p c es) - snd (turnover a p c es)) = (\<Sum>p\<leftarrow>ps. fst (turnover a p c es) - snd (turnover a p c es))"
      by (intro arg_cong [where f = sum_list] map_cong) auto
    with Cons False show ?thesis unfolding step by simp
  qed
qed

lemma sum_accounts:
  assumes "distinct as" "\<forall>l \<in> set ls. pl_accountId l \<in> set as"
  shows "(\<Sum>a\<leftarrow>as. fst (lines_turnover a c ls) - snd (lines_turnover a c ls)) =
    (\<Sum>l\<leftarrow>filter (\<lambda>l. pl_currency l = c) ls. pl_debit l - pl_credit l)"
  using assms(2)
proof (induction ls)
  case Nil
  then show ?case by (induction as) simp_all
next
  case (Cons l ls)
  let ?g = "\<lambda>a. fst (lines_turnover a c ls) - snd (lines_turnover a c ls)"
  have "(\<Sum>a\<leftarrow>as. fst (lines_turnover a c (l # ls)) - snd (lines_turnover a c (l # ls))) =
      (\<Sum>a\<leftarrow>as. if pl_accountId l = a then (if pl_currency l = c then pl_debit l - pl_credit l else 0) + ?g a else ?g a)"
    by (intro arg_cong [where f = sum_list] map_cong) (auto simp: add2_def)
  also have "\<dots> = (if pl_currency l = c then pl_debit l - pl_credit l else 0) + (\<Sum>a\<leftarrow>as. ?g a)"
    using Cons.prems by (intro sum_list_one_key [OF assms(1)]) simp
  finally show ?case using Cons by simp
qed

lemma swap_sums: "(\<Sum>x\<leftarrow>xs. \<Sum>y\<leftarrow>ys. f x y) = (\<Sum>y\<leftarrow>ys. \<Sum>x\<leftarrow>xs. f x y :: int)"
  by (induction xs) (simp_all add: sum_list_addf)

lemma trial_balance_net:
  assumes run: "ledger_reachable env num db"
    and rows: "trialBalanceRows collation query db = row # rest"
  obtains year where "find (\<lambda>y. fy_entityId y = tq_entityId query \<and> fy_code y = tq_fiscalYearCode query) (t_fiscalYears db) = Some year"
    "(\<Sum>r\<leftarrow>trialBalanceRows collation query db. br_periodDebit r) - (\<Sum>r\<leftarrow>trialBalanceRows collation query db. br_periodCredit r) =
      net_turnover (map pw_id (period_range query db year)) (tq_currency query) (loadChain (tq_entityId query) db)"
proof -
  let ?ent = "tq_entityId query" and ?cur = "tq_currency query" and ?es = "loadChain (tq_entityId query) db"
  obtain year where year: "find (\<lambda>y. fy_entityId y = ?ent \<and> fy_code y = tq_fiscalYearCode query) (t_fiscalYears db) = Some year"
    using rows by (cases "find (\<lambda>y. fy_entityId y = ?ent \<and> fy_code y = tq_fiscalYearCode query) (t_fiscalYears db)")
      (auto simp: trialBalanceRows_def)
  let ?ps = "map pw_id (period_range query db year)"
  let ?chart = "chart_of collation ?ent db"
  have inv: "db_wf db" "balances_inv db" "lines_inv db"
    using reachable_inv [OF run] balances.holds [OF run] journal_lines.holds [OF run] by (simp_all add: db_inv_def)
  have ps: "distinct ?ps"
    using inv(1) by (simp add: period_range_def db_wf_def distinct_map inj_on_def)
  have chart: "distinct (map aw_id ?chart)"
    using inv(1) by (simp add: chart_of_def db_wf_def distinct_map inj_on_def)
  define before where "before = map pw_id (filter (\<lambda>p. pw_entityId p = ?ent \<and> pw_endsOn p < pw_startsOn (hd (period_range query db year))) (t_periods db))"
  have eq: "trialBalanceRows collation query db = map (row_of_account query db before ?ps) ?chart"
    using rows by (simp add: trialBalanceRows_def year Let_def before_def split: if_splits)
  have keys: "distinct (map fst (t_balances db))" using inv(3) by (simp add: lines_inv_def)
  have account: "br_periodDebit (row_of_account query db before ?ps a) - br_periodCredit (row_of_account query db before ?ps a) =
      (\<Sum>e\<leftarrow>filter (\<lambda>e. pe_periodId e \<in> set ?ps) ?es. fst (lines_turnover (aw_id a) ?cur (pe_lines e)) - snd (lines_turnover (aw_id a) ?cur (pe_lines e)))"
    if "a \<in> set ?chart" for a
  proof -
    have "colon_free (aw_id a)" using that inv(2) by (simp add: chart_of_def balances_inv_def)
    then have "balance_at (t_balances db) (?ent, aw_id a, p, ?cur) = turnover (aw_id a) p ?cur ?es" for p
      using inv(2) by (simp add: balances_inv_def)
    then show ?thesis
      unfolding sum_periods [OF ps, symmetric]
      by (simp add: row_of_account_def sum_for_def rows_sum [OF keys ps, of ?ent ?cur "aw_id a", simplified] comp_def sum_list_subtractf)
  qed
  have own: "\<forall>l \<in> set (pe_lines e). pl_accountId l \<in> set (map aw_id ?chart)" if "e \<in> set ?es" for e
  proof
    fix l assume l: "l \<in> set (pe_lines e)"
    have "own_accounts db ?ent (pe_lines e)" using inv(3) that by (simp add: lines_inv_def)
    with l obtain a where "a \<in> set (t_accounts db)" "aw_entityId a = ?ent" "aw_id a = pl_accountId l"
      unfolding own_accounts_def by blast
    then show "pl_accountId l \<in> set (map aw_id ?chart)" by (force simp: chart_of_def)
  qed
  have "(\<Sum>r\<leftarrow>trialBalanceRows collation query db. br_periodDebit r) - (\<Sum>r\<leftarrow>trialBalanceRows collation query db. br_periodCredit r) =
      (\<Sum>a\<leftarrow>?chart. br_periodDebit (row_of_account query db before ?ps a) - br_periodCredit (row_of_account query db before ?ps a))"
    by (simp add: eq comp_def sum_list_subtractf)
  also have "\<dots> = (\<Sum>a\<leftarrow>?chart. \<Sum>e\<leftarrow>filter (\<lambda>e. pe_periodId e \<in> set ?ps) ?es.
      fst (lines_turnover (aw_id a) ?cur (pe_lines e)) - snd (lines_turnover (aw_id a) ?cur (pe_lines e)))"
    using account by (intro arg_cong [where f = sum_list] map_cong refl)
  also have "\<dots> = (\<Sum>e\<leftarrow>filter (\<lambda>e. pe_periodId e \<in> set ?ps) ?es. \<Sum>a\<leftarrow>map aw_id ?chart.
      fst (lines_turnover a ?cur (pe_lines e)) - snd (lines_turnover a ?cur (pe_lines e)))"
    by (subst swap_sums) (simp add: comp_def)
  also have "\<dots> = net_turnover ?ps ?cur ?es"
    unfolding net_turnover_def
    using own by (intro arg_cong [where f = sum_list] map_cong refl sum_accounts [OF chart]) auto
  finally show thesis using that year by blast
qed

text \<open>
  C29: The trial balance of a reachable database balances. Built from the maintained balances for any
  range of periods, its difference of debits and credits is zero as long as the administration's lines
  are all in the currency the report is asked for.
\<close>

theorem trial_balance_balances:
  assumes "ledger_reachable env num db"
    and "\<forall>e \<in> set (loadChain (tq_entityId request) db). \<forall>l \<in> set (pe_lines e). pl_currency l = tq_currency request"
  shows "tb_difference (buildTrialBalance cmp request (trialBalanceRows collation (trial_balance_query.truncate request) db)) = 0"
proof (cases "trialBalanceRows collation (trial_balance_query.truncate request) db")
  case Nil
  then show ?thesis by (simp add: trial_balance_difference)
next
  case (Cons row rest)
  let ?query = "trial_balance_query.truncate request"
  have query: "tq_entityId ?query = tq_entityId request" "tq_currency ?query = tq_currency request"
    by (simp_all add: trial_balance_query.truncate_def)
  have lines: "lines_inv db" by (rule journal_lines.holds [OF assms(1)])
  have zero: "(\<Sum>l\<leftarrow>filter (\<lambda>l. pl_currency l = tq_currency request) (pe_lines e). pl_debit l - pl_credit l) = 0"
    if "e \<in> set (loadChain (tq_entityId request) db)" for e
  proof -
    from that assms(2) have cur: "\<forall>l \<in> set (pe_lines e). pl_currency l = tq_currency request" by blast
    then have "filter (\<lambda>l. pl_currency l = tq_currency request) (pe_lines e) = pe_lines e" by (simp add: filter_id_conv)
    moreover have "one_currency_balance (pe_lines e)" using lines that by (simp add: lines_inv_def)
    ultimately show ?thesis using cur by (simp add: one_currency_balance_def)
  qed
  have "net_turnover ps (tq_currency request) (loadChain (tq_entityId request) db) = 0" for ps
  proof -
    have "(\<Sum>e\<leftarrow>es. \<Sum>l\<leftarrow>filter (\<lambda>l. pl_currency l = tq_currency request) (pe_lines e). pl_debit l - pl_credit l) = 0"
      if "set es \<subseteq> set (loadChain (tq_entityId request) db)" for es
      using that zero by (induction es) auto
    then show ?thesis unfolding net_turnover_def by simp
  qed
  moreover obtain year where "(\<Sum>r\<leftarrow>trialBalanceRows collation ?query db. br_periodDebit r) -
      (\<Sum>r\<leftarrow>trialBalanceRows collation ?query db. br_periodCredit r) =
      net_turnover (map pw_id (period_range ?query db year)) (tq_currency ?query) (loadChain (tq_entityId ?query) db)"
    using trial_balance_net [OF assms(1) Cons] by blast
  ultimately show ?thesis unfolding trial_balance_difference by (simp add: query)
qed

end
