(* ===== verification/Ledger_Rates.thy ===== *)
theory Ledger_Rates
  imports Ledger_Repository
begin

text \<open>
  Rates through the database: the column is \<open>numeric(24,12)\<close>, which pads a rate to twelve fraction
  digits, and \<open>normaliseRate\<close> takes the padding off again. The column is Postgres; what is relied on of it
  is \<open>numeric_column\<close>.
\<close>

text \<open>A number is written with no superfluous leading zero, and is read back with twelve decimals.\<close>

definition plain_whole :: "string \<Rightarrow> bool" where
  "plain_whole w \<longleftrightarrow> list_all is_digit w \<and> w \<noteq> [] \<and> (w = ''0'' \<or> hd w \<noteq> CHR ''0'')"

definition numeric_column :: "(string \<Rightarrow> string) \<Rightarrow> bool" where
  "numeric_column num \<longleftrightarrow>
     (\<forall>w. plain_whole w \<longrightarrow> num w = w @ ''.'' @ replicate 12 CHR ''0'') \<and>
     (\<forall>w f. plain_whole w \<and> list_all is_digit f \<and> f \<noteq> [] \<and> length f \<le> 12 \<longrightarrow>
        num (w @ ''.'' @ f) = w @ ''.'' @ pad_end 12 CHR ''0'' f)"

definition fraction_digits :: "string \<Rightarrow> nat" where
  "fraction_digits s = (case split_on CHR ''.'' s of [w, f] \<Rightarrow> length f | _ \<Rightarrow> 0)"

lemma plain_whole_nat_to_string: "plain_whole (nat_to_string n)"
proof -
  have "n \<noteq> 0 \<Longrightarrow> hd (nat_to_string n) \<noteq> CHR ''0''"
  proof (induction n rule: nat_to_string.induct)
    case (1 n)
    show ?case
    proof (cases "n < 10")
      case True
      have "digit_char n \<noteq> CHR ''0''"
      proof
        assume "digit_char n = CHR ''0''"
        then have "char_digit (digit_char n) = char_digit CHR ''0''" by simp
        with True 1(2) show False by (simp add: char_digit_def)
      qed
      with True show ?thesis by (simp add: nat_to_string.simps [of n])
    next
      case False
      then have "n div 10 \<noteq> 0" by (simp add: div_eq_0_iff)
      with False 1(1) show ?thesis by (simp add: nat_to_string.simps [of n])
    qed
  qed
  moreover have "nat_to_string 0 = ''0''" by code_simp
  ultimately show ?thesis by (cases "n = 0") (simp_all add: plain_whole_def is_digit_def)
qed

lemma strip_fraction:
  "strip_trailing_zeros g = g \<Longrightarrow> g \<noteq> [] \<Longrightarrow> strip_trailing_zeros (w @ CHR ''.'' # g @ replicate k CHR ''0'') = w @ CHR ''.'' # g"
proof -
  assume g: "strip_trailing_zeros g = g" "g \<noteq> []"
  obtain h c where hc: "g = h @ [c]" using g(2) by (cases g rule: rev_cases) auto
  have "c \<noteq> CHR ''0''"
  proof
    assume c: "c = CHR ''0''"
    have "length (strip_trailing_zeros g) \<le> length h"
      by (simp add: hc c strip_trailing_zeros_def) (metis length_dropWhile_le length_rev)
    with g(1) show False by (simp add: hc)
  qed
  then have "strip_trailing_zeros (w @ CHR ''.'' # g) = w @ CHR ''.'' # g"
    by (simp add: hc strip_trailing_zeros_def)
  then show ?thesis using strip_trailing_zeros_append [of "w @ CHR ''.'' # g" k] by simp
qed

lemma strip_whole: "strip_trailing_zeros (w @ CHR ''.'' # replicate k CHR ''0'') = w @ ''.''"
  using strip_trailing_zeros_append [of "w @ ''.''" k] by (simp add: strip_trailing_zeros_def)

lemma strip_idem [simp]: "strip_trailing_zeros (strip_trailing_zeros f) = strip_trailing_zeros f"
  by (metis strip_trailing_zeros_append strip_trailing_zeros_decomp)

lemma fraction_digits_normal:
  "list_all is_digit f \<Longrightarrow> fraction_digits (normal_decimal w f) = length (strip_trailing_zeros f)"
  by (simp add: fraction_digits_def normal_decimal_def)

lemma rate_back:
  assumes num: "numeric_column num" and x: "is_decimal x" "normaliseDecimal x = Inr r" "fraction_digits r \<le> 12"
  shows "normaliseRate (Some (num r)) = Some r"
proof -
  obtain w f where wf: "list_all is_digit w" "list_all is_digit f" "normaliseDecimal x = Inr (normal_decimal w f)"
    using x(1) by (rule decimal_parts)
  then have r: "r = normal_decimal w f" using x(2) by simp
  let ?w = "nat_to_string (digits_value w)" and ?g = "strip_trailing_zeros f"
  note w = plain_whole_nat_to_string [of "digits_value w"]
  show ?thesis
  proof (cases "?g = []")
    case True
    then have "num r = ?w @ CHR ''.'' # replicate 12 CHR ''0''" "r = ?w"
      using num w by (simp_all add: numeric_column_def r normal_decimal_def)
    then show ?thesis by (simp add: normaliseRate_def strip_whole Let_def del: replicate.simps)
  next
    case False
    have "length ?g \<le> 12" using x(3) wf(2) by (simp add: r fraction_digits_normal)
    then have "num (?w @ ''.'' @ ?g) = ?w @ ''.'' @ pad_end 12 CHR ''0'' ?g"
      using num w wf(2) False unfolding numeric_column_def by (metis digits_strip)
    then have "num r = ?w @ CHR ''.'' # ?g @ replicate (12 - length ?g) CHR ''0''"
      using False by (simp add: r normal_decimal_def pad_end_def)
    moreover have "last ?g \<noteq> CHR ''.''"
      using False wf(2) digits_strip [OF wf(2)] by (metis dot_not_digit(1) last_in_set list_all_iff)
    ultimately show ?thesis
      using False strip_fraction [of ?g ?w "12 - length ?g"] by (simp add: normaliseRate_def r normal_decimal_def Let_def)
  qed
qed


text \<open>A column that pads, for the witness.\<close>

definition padding_column :: "string \<Rightarrow> string" where
  "padding_column s = (case split_on CHR ''.'' s of
       [w, f] \<Rightarrow> w @ ''.'' @ pad_end 12 CHR ''0'' f | _ \<Rightarrow> s @ ''.'' @ replicate 12 CHR ''0'')"

lemma padding_numeric: "numeric_column padding_column"
  by (auto simp: numeric_column_def padding_column_def plain_whole_def)


text \<open>So the lines of a posting fit the column as soon as their rates have at most twelve decimals.\<close>

lemma posted_rates_fit:
  assumes "numeric_column num" "postJournalEntry env command who options deps s = Inr (r, s')" "\<not> res_replayed r"
    and "\<forall>l \<in> set (pe_lines (res_entry r)). \<forall>x. pl_exchangeRate l = Some x \<longrightarrow> fraction_digits x \<le> 12"
  shows "rates_fit num (pe_lines (res_entry r))"
  unfolding rates_fit_def
proof
  fix item assume item: "item \<in> set (pe_lines (res_entry r))"
  obtain ctx ls chain n where checked: "checked_lines command options deps s = Inr (ctx, ls)"
    and e: "res_entry r = sealed_entry env command who deps ctx ls chain n"
    using assms(2,3) by (rule post_fresh_result)
  let ?fc = "en_functionalCurrency (ctx_entity ctx)"
  note ok = checked_lines_ok [OF checked]
  from item obtain k where k: "k < length ls" "item = ls ! k" by (auto simp: e in_set_conv_nth)
  with ok(5) have res: "line_resolves ctx ?fc (cmd_lines command ! k) item" and "k < length (cmd_lines command)"
    by (auto simp: list_all2_conv_all_nth)
  with ok(2) have well: "well_formed_line ?fc (cmd_lines command ! k)" by (simp add: well_formed_command_def)
  show "normaliseRate (map_option num (pl_exchangeRate item)) = pl_exchangeRate item"
  proof (cases "pl_exchangeRate item")
    case None
    then show ?thesis by (simp add: normaliseRate_def)
  next
    case (Some x)
    with res obtain y where y: "li_exchangeRate (cmd_lines command ! k) = Some y" "normaliseDecimal y = Inr x"
        "effective_currency ?fc (cmd_lines command ! k) \<noteq> ?fc"
      by (auto simp: line_resolves_def split: if_splits)
    with well have "is_decimal y" by (auto simp: well_formed_line_def rate_fits_def isValidExchangeRate_def)
    from rate_back [OF assms(1) this y(2)] assms(4) item Some show ?thesis by simp
  qed
qed

end
