(* ===== verification/Ledger_Sample.thy ===== *)
theory Ledger_Sample
  imports Ledger_Reports Ledger_Rates
begin

text \<open>
  A small administration, and one posting into it: the concrete input at which the properties of
  \<^verbatim>\<open>Ledger_Posting\<close> and \<^verbatim>\<open>Ledger_Journal\<close> are applied. The digest is the number of characters hashed, and
  the \<open>numeric\<close> column the one that pads.
\<close>

definition small_platform :: platform where
  "small_platform = \<lparr>sha256 = (\<lambda>s. nat_to_string (length s)), localeCompare = code_unit_compare\<rparr>"

definition small_db :: ledger_db where
  "small_db =
     \<lparr>t_entities = [\<lparr>en_id = ''x'', en_name = ''Bakker'', en_functionalCurrency = ''EUR'', en_rgsVersion = None\<rparr>],
      t_journals = [(''x'', \<lparr>jo_id = ''j'', jo_code = ''MEM'', jo_name = ''Memoriaal'', jo_type = Memoriaal\<rparr>)],
      t_fiscalYears = [\<lparr>fy_entityId = ''x'', fy_id = ''y'', fy_code = ''2026'', fy_status = YearOpen\<rparr>],
      t_periods = [\<lparr>pw_entityId = ''x'', pw_id = ''p'', pw_fiscalYearId = ''y'', pw_sequence = 1,
        pw_status = OpenPeriod, pw_startsOn = ''2026-01-01'', pw_endsOn = ''2026-01-31''\<rparr>],
      t_accounts =
        [\<lparr>aw_entityId = ''x'', aw_id = ''a'', aw_number = ''1000'', aw_name = ''Kas'', aw_type = Asset,
          aw_normalBalance = DebitNormal, aw_rgsCode = None, aw_isBlocked = False\<rparr>,
         \<lparr>aw_entityId = ''x'', aw_id = ''b'', aw_number = ''8000'', aw_name = ''Omzet'', aw_type = Revenue,
          aw_normalBalance = CreditNormal, aw_rgsCode = None, aw_isBlocked = False\<rparr>],
      t_requirements = [], t_dimensionTypes = [], t_dimensionValues = [], t_sequences = [], t_entries = [],
      t_lines = [], t_lineDimensions = [], t_balances = [], t_idempotency = [], t_audit = [], t_outbox = []\<rparr>"

definition small_line :: "string \<Rightarrow> int \<Rightarrow> int \<Rightarrow> journal_line_input" where
  "small_line n d c = \<lparr>li_accountNumber = n, li_description = None, li_debit = d, li_credit = c,
     li_currency = None, li_exchangeRate = None, li_exchangeRateSource = None, li_taxCode = None,
     li_taxRole = None, li_taxAmount = None, li_dimensions = [], li_subledgerKind = None, li_subledgerId = None\<rparr>"

definition small_command :: post_command where
  "small_command = \<lparr>cmd_entityId = ''x'', cmd_journalCode = ''MEM'', cmd_bookingDate = ''2026-01-15'',
     cmd_documentDate = ''2026-01-15'', cmd_description = ''cash'', cmd_sourceDocumentRef = None,
     cmd_reversesEntryId = None, cmd_lines = [small_line ''1000'' 100 0, small_line ''8000'' 0 100]\<rparr>"

definition small_actor :: actor where
  "small_actor = \<lparr>act_kind = Human, act_id = ''u'', act_principalId = None\<rparr>"

definition small_options :: "string \<Rightarrow> bool \<Rightarrow> posting_options" where
  "small_options key dry = \<lparr>op_dryRun = dry, op_idempotencyKey = key, op_requestId = None, op_ip = None,
     op_mayPostToSoftClosedPeriod = False\<rparr>"

definition small_deps :: "string \<Rightarrow> ledger_db posting_dependencies" where
  "small_deps prefix = \<lparr>dep_repository = DrizzleLedgerRepository padding_column,
     dep_now = ''2026-01-15T10:00:00.000Z'', dep_newId = (\<lambda>k. prefix @ nat_to_string k)\<rparr>"

section \<open>The posting, stage by stage\<close>

definition small_ctx :: posting_context where
  "small_ctx = \<lparr>ctx_entity = \<lparr>en_id = ''x'', en_name = ''Bakker'', en_functionalCurrency = ''EUR'', en_rgsVersion = None\<rparr>,
     ctx_journal = Some \<lparr>jo_id = ''j'', jo_code = ''MEM'', jo_name = ''Memoriaal'', jo_type = Memoriaal\<rparr>,
     ctx_period = Some \<lparr>pr_id = ''p'', pr_sequence = 1, pr_status = OpenPeriod, pr_startsOn = ''2026-01-01'',
       pr_endsOn = ''2026-01-31'', pr_fiscalYearId = ''y'', pr_fiscalYearCode = ''2026'', pr_fiscalYearStatus = YearOpen\<rparr>,
     ctx_accountsByNumber =
       [(''1000'', \<lparr>ac_id = ''a'', ac_number = ''1000'', ac_name = ''Kas'', ac_type = Asset, ac_normalBalance = DebitNormal,
           ac_rgsCode = None, ac_isBlocked = False, ac_requiredDimensionTypeIds = []\<rparr>),
        (''8000'', \<lparr>ac_id = ''b'', ac_number = ''8000'', ac_name = ''Omzet'', ac_type = Revenue, ac_normalBalance = CreditNormal,
           ac_rgsCode = None, ac_isBlocked = False, ac_requiredDimensionTypeIds = []\<rparr>)],
     ctx_dimensionTypesByCode = [], ctx_dimensionValuesByKey = []\<rparr>"

definition small_posted_line :: "string \<Rightarrow> nat \<Rightarrow> string \<Rightarrow> string \<Rightarrow> int \<Rightarrow> int \<Rightarrow> int \<Rightarrow> int \<Rightarrow> posted_line" where
  "small_posted_line i n a number d c fd fc =
     \<lparr>pl_id = i, pl_lineNumber = n, pl_accountId = a, pl_accountNumber = number, pl_description = None,
      pl_debit = d, pl_credit = c, pl_currency = ''EUR'', pl_functionalDebit = fd, pl_functionalCredit = fc,
      pl_exchangeRate = None, pl_exchangeRateSource = None, pl_taxCode = None, pl_taxRole = None, pl_taxAmount = None,
      pl_dimensions = [], pl_subledgerKind = None, pl_subledgerId = None\<rparr>"

definition small_lines :: "posted_line list" where
  "small_lines = [small_posted_line ''e0'' 1 ''a'' ''1000'' 100 0 100 0, small_posted_line ''e1'' 2 ''b'' ''8000'' 0 100 0 100]"

definition small_entry :: posted_entry where
  "small_entry = sealed_entry small_platform small_command small_actor (small_deps ''e'') small_ctx small_lines
     \<lparr>cp_sequence = 1, cp_previousHash = None\<rparr> 1"

lemma small_context: "db_loadPostingContext (context_request small_command) small_db = Inr (Some small_ctx)"
  by code_simp

lemma small_shape: "validateCommandShape small_command ''EUR'' = []"
  by code_simp

lemma small_context_ok: "context_violations small_command (small_options k d) small_ctx = []"
  by (simp add: context_violations_def small_ctx_def)

lemma small_resolved: "resolve_lines small_ctx ''EUR'' (dep_newId (small_deps ''e'')) 0 0 (cmd_lines small_command) =
    Inr ([], [small_posted_line ''e0'' 1 ''a'' ''1000'' 100 0 0 0, small_posted_line ''e1'' 2 ''b'' ''8000'' 0 100 0 0])"
  by code_simp

lemma small_converted: "convertToFunctional (map convertible_of
    [small_posted_line ''e0'' 1 ''a'' ''1000'' 100 0 0 0, small_posted_line ''e1'' 2 ''b'' ''8000'' 0 100 0 0]) =
    Inr ([\<lparr>fa_debit = 100, fa_credit = 0\<rparr>, \<lparr>fa_debit = 0, fa_credit = 100\<rparr>], 0)"
  by code_simp

lemma small_checked: "checked_lines small_command (small_options k d) (small_deps ''e'') small_db = Inr (small_ctx, small_lines)"
proof -
  have repo: "loadPostingContext (dep_repository (small_deps ''e'')) = db_loadPostingContext"
    by (simp add: small_deps_def DrizzleLedgerRepository_def)
  have rev: "reversal_violations small_command rep small_db = Inr []" for rep :: "ledger_db ledger_repository"
    by (simp add: reversal_violations_def small_command_def)
  have fc: "en_functionalCurrency (ctx_entity small_ctx) = ''EUR''" by (simp add: small_ctx_def)
  show ?thesis
    unfolding checked_lines_def repo small_context and_then_simps option.case Let_def rev fc small_resolved prod.case
      small_shape small_context_ok small_converted append_Nil
    by (simp add: with_functional_def small_lines_def small_posted_line_def)
qed

lemma small_entry_fields:
  "pe_id small_entry = ''e2''" "pe_entityId small_entry = ''x''" "pe_journalId small_entry = ''j''"
  "pe_journalCode small_entry = ''MEM''" "pe_fiscalYearId small_entry = ''y''" "pe_fiscalYearCode small_entry = ''2026''"
  "pe_periodId small_entry = ''p''" "pe_chainSequence small_entry = 1" "pe_previousHash small_entry = None"
  "pe_bookingDate small_entry = ''2026-01-15''" "pe_reversesEntryId small_entry = None" "pe_lines small_entry = small_lines"
  "pe_entryNumber small_entry = 1" "pe_functionalCurrency small_entry = ''EUR''"
proof -
  have "nat_to_string (Suc (Suc 0)) = ''2''" by code_simp
  then show "pe_id small_entry = ''e2''" by (simp add: small_entry_def small_deps_def small_lines_def)
  show "pe_entityId small_entry = ''x''" "pe_journalId small_entry = ''j''"
    "pe_journalCode small_entry = ''MEM''" "pe_fiscalYearId small_entry = ''y''" "pe_fiscalYearCode small_entry = ''2026''"
    "pe_periodId small_entry = ''p''" "pe_chainSequence small_entry = 1" "pe_previousHash small_entry = None"
    "pe_bookingDate small_entry = ''2026-01-15''" "pe_reversesEntryId small_entry = None" "pe_lines small_entry = small_lines"
    "pe_entryNumber small_entry = 1" "pe_functionalCurrency small_entry = ''EUR''"
    by (simp_all add: small_entry_def small_command_def small_ctx_def sealed_entry_def draft_entry_def Let_def)
qed

text \<open>The database after the two counters were taken, and after the whole posting.\<close>

definition small_counters :: "(sequence_key \<times> nat) list" where
  "small_counters = [((''x'', ''__chain'', []), 2), ((''x'', ''journal:MEM'', ''2026''), 2)]"

definition small_db' :: ledger_db where
  "small_db' = (inserted padding_column small_entry (small_db\<lparr>t_sequences := small_counters\<rparr>))
     \<lparr>t_balances := balanced_after small_entry [],
      t_idempotency := [(''x'', idempotency_of small_platform small_command (small_options ''k1'' False) small_entry)],
      t_audit := [posted_audit small_command small_actor (small_options ''k1'' False) small_entry],
      t_outbox := [posted_event small_command small_entry]\<rparr>"

lemma small_dates: "\<not> ''2026-01-15'' < (''2026-01-01'' :: string)" "\<not> ''2026-01-31'' < (''2026-01-15'' :: string)"
  by code_simp+

lemma small_insert: "db_insertEntry padding_column small_entry (small_db\<lparr>t_sequences := small_counters\<rparr>) =
    Inr (inserted padding_column small_entry (small_db\<lparr>t_sequences := small_counters\<rparr>))"
proof -
  let ?db = "small_db\<lparr>t_sequences := small_counters\<rparr>"
  have guard: "entry_guard ?db (row_of_entry small_entry) = None"
    using small_dates by (simp add: entry_guard_def first_some_def period_guard_def chain_guard_def entry_unique_def
        row_of_entry_def small_entry_fields small_db_def)
  have lines: "insert_lines (map (row_of_line padding_column small_entry) small_lines) (?db\<lparr>t_entries := t_entries ?db @ [row_of_entry small_entry]\<rparr>)
      = Inr (?db\<lparr>t_entries := t_entries ?db @ [row_of_entry small_entry],
          t_lines := t_lines ?db @ map (row_of_line padding_column small_entry) small_lines\<rparr>)"
    by (simp add: small_lines_def small_posted_line_def row_of_line_def line_guard_def small_db_def)
  have dims: "rows_of_dimensions small_entry = []"
    by (simp add: rows_of_dimensions_def small_entry_fields small_lines_def small_posted_line_def)
  show ?thesis
    unfolding db_insertEntry_def guard option.case small_entry_fields(12) lines and_then_simps dims insert_dimensions.simps inserted_def
    by simp
qed

lemma small_posted:
  "postJournalEntry small_platform small_command small_actor (small_options ''k1'' False) (small_deps ''e'') small_db =
   Inr (\<lparr>res_entry = small_entry, res_replayed = False, res_dryRun = False\<rparr>, small_db')"
proof -
  have entity: "cmd_entityId small_command = ''x''" by (simp add: small_command_def)
  have replay: "replay_of small_platform small_command (small_options ''k1'' False) (DrizzleLedgerRepository padding_column) small_db = Inr None"
    by (simp add: replay_of_def small_options_def DrizzleLedgerRepository_def db_findIdempotencyRecord_def small_db_def)
  let ?db1 = "small_db\<lparr>t_sequences := [((''x'', ''__chain'', []), 2)]\<rparr>"
  have chain: "db_allocateChainPosition ''x'' small_db = Inr (\<lparr>cp_sequence = 1, cp_previousHash = None\<rparr>, ?db1)"
    by (simp add: db_allocateChainPosition_def allocate_number_def small_db_def)
  have number: "db_allocateEntryNumber \<lparr>ar_entityId = ''x'', ar_documentType = ''journal:MEM'', ar_fiscalYearCode = ''2026''\<rparr> ?db1
      = Inr (1, small_db\<lparr>t_sequences := small_counters\<rparr>)"
    by (simp add: db_allocateEntryNumber_def allocate_number_def small_counters_def)
  have wr: "write_entry small_platform small_command small_actor (small_options ''k1'' False) (DrizzleLedgerRepository padding_column)
      small_entry (small_db\<lparr>t_sequences := small_counters\<rparr>) = Inr small_db'"
    unfolding write_entry_def DrizzleLedgerRepository_def ledger_repository.simps small_insert and_then_simps entity
      db_applyPeriodBalances_def db_recordIdempotency_def db_appendAudit_def db_enqueueEvent_def
    by (simp add: small_db'_def balanced_after_def idempotency_of_def inserted_def small_db_def)
  have ports: "dep_repository (small_deps ''e'') = DrizzleLedgerRepository padding_column" "\<not> op_dryRun (small_options ''k1'' False)"
    "allocateChainPosition (DrizzleLedgerRepository padding_column) = db_allocateChainPosition"
    "allocateEntryNumber (DrizzleLedgerRepository padding_column) = db_allocateEntryNumber"
    by (simp_all add: small_deps_def small_options_def DrizzleLedgerRepository_def)
  have codes: "''journal:'' @ jo_code (the (ctx_journal small_ctx)) = ''journal:MEM''"
    "pr_fiscalYearCode (the (ctx_period small_ctx)) = ''2026''" by (simp_all add: small_ctx_def)
  show ?thesis
    unfolding postJournalEntry_def ports(1) replay and_then_simps option.case post_fresh_def Let_def small_checked prod.case ports(3,4)
      entity chain codes number small_entry_def [symmetric] wr
    using ports(2) by simp
qed

section \<open>The posting properties at this posting\<close>

lemma posted_entries_are_sound_witness:
  "functionalBalance small_lines = 0 \<and> pe_hash small_entry = hashEntry small_platform small_entry"
  using posted_entries_are_sound [OF small_posted] by (auto simp: small_entry_fields)

lemma small_no_replay:
  "replay_of small_platform small_command ((small_options ''k1'' True)\<lparr>op_dryRun := False\<rparr>) (dep_repository (small_deps ''e'')) small_db = Inr None"
  by (simp add: replay_of_def small_options_def small_deps_def DrizzleLedgerRepository_def db_findIdempotencyRecord_def small_db_def)

lemma dry_run_predicts_witness:
  "case postJournalEntry small_platform small_command small_actor (small_options ''k1'' True) (small_deps ''e'') small_db of
     Inl e \<Rightarrow> False
   | Inr (d, s) \<Rightarrow> s = small_db \<and> (\<exists>n k p h. small_entry = (res_entry d)\<lparr>pe_entryNumber := n, pe_chainSequence := k,
         pe_previousHash := p, pe_hash := h\<rparr>)"
proof -
  have dry: "op_dryRun (small_options ''k1'' True)" "(small_options ''k1'' True)\<lparr>op_dryRun := False\<rparr> = small_options ''k1'' False"
    by (simp_all add: small_options_def)
  from dry_run_predicts [OF dry(1) refl small_no_replay, of small_actor] show ?thesis
    unfolding dry(2) small_posted by (auto split: sum.splits prod.splits)
qed

lemma small_fresh: "fresh_db small_db"
  by (simp add: fresh_db_def db_wf_def small_db_def)

lemma small_fits: "rates_fit padding_column (pe_lines small_entry)"
  by (simp add: rates_fit_def small_entry_fields small_lines_def small_posted_line_def normaliseRate_def)

lemma small_repository: "dep_repository (small_deps p) = DrizzleLedgerRepository padding_column"
  "\<not> op_dryRun (small_options k False)" "op_idempotencyKey (small_options k d) = k"
  by (simp_all add: small_deps_def small_options_def)

lemma small_start: "ledger_reachable small_platform padding_column small_db"
  using small_fresh by (rule ledger_reachable.fresh)

lemma small_step: "ledger_step small_platform padding_column small_db small_db'"
  by (rule ledger_step.posting [OF small_posted small_repository(1)]) (simp add: small_fits)

lemma small_reached: "ledger_reachable small_platform padding_column small_db'"
  using small_start small_step by (rule ledger_reachable.step)

lemma small_chain: "loadChain ''x'' small_db' = [small_entry]"
proof -
  have "loadChain ''x'' small_db = []" by (simp add: loadChain_def small_db_def)
  moreover have "cmd_entityId small_command = ''x''" by (simp add: small_command_def)
  ultimately show ?thesis
    using post_keeps_inv(2) [OF fresh_inv [OF small_fresh] small_posted _ small_repository(2,1), of "''x''"] small_fits by simp
qed


section \<open>A reversal\<close>

text \<open>A port that answers every question with the small administration and keeps no state.\<close>

definition answering :: "unit ledger_repository" where
  "answering = \<lparr>loadPostingContext = (\<lambda>_ _. Inr (Some small_ctx)), allocateEntryNumber = (\<lambda>_ s. Inr (2, s)),
     allocateChainPosition = (\<lambda>_ s. Inr (\<lparr>cp_sequence = 2, cp_previousHash = Some ''h''\<rparr>, s)),
     findEntryById = (\<lambda>_ _ _. Inr (Some small_entry)), findReversalOf = (\<lambda>_ _ _. Inr None),
     insertEntry = (\<lambda>_ s. Inr s), applyPeriodBalances = (\<lambda>_ s. Inr s), findIdempotencyRecord = (\<lambda>_ _ _. Inr None),
     recordIdempotency = (\<lambda>_ _ s. Inr s), appendAudit = (\<lambda>_ s. Inr s), enqueueEvent = (\<lambda>_ s. Inr s)\<rparr>"

definition answering_deps :: "unit posting_dependencies" where
  "answering_deps = \<lparr>dep_repository = answering, dep_now = ''2026-01-16T10:00:00.000Z'', dep_newId = (\<lambda>k. ''r'' @ nat_to_string k)\<rparr>"

abbreviation small_reversal :: post_command where
  "small_reversal \<equiv> buildReversal small_entry ''2026-01-16'' None"

definition small_reversed :: "posted_line list" where
  "small_reversed = [small_posted_line ''r0'' 1 ''a'' ''1000'' 0 100 0 100, small_posted_line ''r1'' 2 ''b'' ''8000'' 100 0 100 0]"

lemma small_reversal_lines: "cmd_lines small_reversal =
   [(small_line ''1000'' 0 100)\<lparr>li_currency := Some ''EUR''\<rparr>, (small_line ''8000'' 100 0)\<lparr>li_currency := Some ''EUR''\<rparr>]"
  by (simp add: buildReversal_def small_entry_fields small_lines_def small_posted_line_def reverse_line_def small_line_def)

lemma small_reversal_resolved:
  "resolve_lines small_ctx ''EUR'' (dep_newId answering_deps) 0 0
     [(small_line ''1000'' 0 100)\<lparr>li_currency := Some ''EUR''\<rparr>, (small_line ''8000'' 100 0)\<lparr>li_currency := Some ''EUR''\<rparr>] =
   Inr ([], [small_posted_line ''r0'' 1 ''a'' ''1000'' 0 100 0 0, small_posted_line ''r1'' 2 ''b'' ''8000'' 100 0 0 0])"
  by code_simp

lemma small_reversal_converted: "convertToFunctional (map convertible_of
    [small_posted_line ''r0'' 1 ''a'' ''1000'' 0 100 0 0, small_posted_line ''r1'' 2 ''b'' ''8000'' 100 0 0 0]) =
    Inr ([\<lparr>fa_debit = 0, fa_credit = 100\<rparr>, \<lparr>fa_debit = 100, fa_credit = 0\<rparr>], 0)"
  by code_simp

lemma small_reversal_shape: "validateCommandShape small_reversal ''EUR'' = []"
proof -
  have dates: "isValidDate ''2026-01-16''" "isValidDate ''2026-01-15''" by code_simp+
  have "cmd_bookingDate small_reversal = ''2026-01-16''" "cmd_documentDate small_reversal = ''2026-01-15''"
    by (simp_all add: buildReversal_def small_entry_def sealed_entry_def draft_entry_def small_command_def Let_def)
  with dates show ?thesis
    unfolding validateCommandShape_Nil well_formed_command_def small_reversal_lines
    by (auto simp: well_formed_line_def one_sided_def rate_fits_def small_line_def effective_currency_def balances_in_one_currency_def)
qed

lemma small_reversal_checked:
  "checked_lines small_reversal (small_options ''k2'' False) answering_deps () = Inr (small_ctx, small_reversed)"
proof -
  have load: "loadPostingContext (dep_repository answering_deps) q () = Inr (Some small_ctx)" for q
    by (simp add: answering_deps_def answering_def)
  have rev: "reversal_violations small_reversal (dep_repository answering_deps) () = Inr []"
    by (simp add: reversal_violations_def buildReversal_def answering_deps_def answering_def)
  have fc: "en_functionalCurrency (ctx_entity small_ctx) = ''EUR''" by (simp add: small_ctx_def)
  have ctx: "context_violations small_reversal (small_options ''k2'' False) small_ctx = []"
    by (simp add: context_violations_def small_ctx_def)
  show ?thesis
    unfolding checked_lines_def load and_then_simps option.case Let_def rev fc small_reversal_lines small_reversal_resolved
      prod.case small_reversal_shape ctx small_reversal_converted append_Nil
    by (simp add: with_functional_def small_reversed_def small_posted_line_def)
qed

lemma small_reversal_posted:
  "postJournalEntry small_platform small_reversal small_actor (small_options ''k2'' False) answering_deps () =
   Inr (\<lparr>res_entry = sealed_entry small_platform small_reversal small_actor answering_deps small_ctx small_reversed
       \<lparr>cp_sequence = 2, cp_previousHash = Some ''h''\<rparr> 2, res_replayed = False, res_dryRun = False\<rparr>, ())"
proof -
  have ports: "replay_of small_platform small_reversal (small_options ''k2'' False) (dep_repository answering_deps) () = Inr None"
    "allocateChainPosition (dep_repository answering_deps) = (\<lambda>_ s. Inr (\<lparr>cp_sequence = 2, cp_previousHash = Some ''h''\<rparr>, s))"
    "allocateEntryNumber (dep_repository answering_deps) = (\<lambda>_ s. Inr (2, s))"
    "write_entry env command who options (dep_repository answering_deps) e () = Inr ()" for env command who options e
    by (simp_all add: replay_of_def answering_deps_def answering_def write_entry_def small_options_def)
  show ?thesis
    unfolding postJournalEntry_def ports and_then_simps option.case post_fresh_def Let_def small_reversal_checked prod.case
    by (simp add: small_options_def)
qed

lemma reversal_cancels_witness: "list_all2 cancels small_lines small_reversed"
proof -
  have "keyed_by_number small_ctx" by (simp add: keyed_by_number_def small_ctx_def)
  then have keyed: "keyed_by_number ctx" if "loadPostingContext (dep_repository answering_deps) q () = Inr (Some ctx)" for ctx q
    using that by (simp add: answering_deps_def answering_def)
  let ?r = "\<lparr>res_entry = small_entry, res_replayed = False, res_dryRun = False\<rparr>"
  have "postJournalEntry small_platform (buildReversal (res_entry ?r) ''2026-01-16'' None) small_actor (small_options ''k2'' False) answering_deps () =
     Inr (\<lparr>res_entry = sealed_entry small_platform small_reversal small_actor answering_deps small_ctx small_reversed
       \<lparr>cp_sequence = 2, cp_previousHash = Some ''h''\<rparr> 2, res_replayed = False, res_dryRun = False\<rparr>, ())"
    unfolding posting_result.simps by (rule small_reversal_posted)
  from reversal_cancels [OF small_posted _ this _ _ keyed]
  have "list_all2 cancels (pe_lines small_entry) small_reversed \<and> cmd_reversesEntryId small_reversal = Some (pe_id small_entry)"
    by (simp add: small_entry_fields small_ctx_def)
  then show ?thesis by (simp add: small_entry_fields)
qed

section \<open>The journal properties after this posting\<close>



lemma entry_numbers_gapless_witness: "map pe_entryNumber (series small_db' ''x'' ''MEM'' ''2026'') = [1]"
proof -
  have "length (series small_db' ''x'' ''MEM'' ''2026'') = 1"
    by (simp add: series_def small_chain small_entry_fields)
  then show ?thesis using entry_numbers_gapless [OF small_reached, of "''x''" "''MEM''" "''2026''"] by simp
qed

lemma balances_agree_with_journal_witness: "balance_at (t_balances small_db') (''x'', ''a'', ''p'', ''EUR'') = (100, 0)"
proof -
  have "balance_at (t_balances small_db') (''x'', aw_id a, ''p'', ''EUR'') = turnover (aw_id a) ''p'' ''EUR'' [small_entry]"
    if "a \<in> set (t_accounts small_db')" for a
    using balances_agree_with_journal [OF small_reached that, of "''x''"] by (simp only: small_chain)
  moreover have "\<exists>a \<in> set (t_accounts small_db'). aw_id a = ''a''"
    by (simp add: small_db'_def inserted_def small_db_def)
  ultimately have "balance_at (t_balances small_db') (''x'', ''a'', ''p'', ''EUR'') = turnover ''a'' ''p'' ''EUR'' [small_entry]"
    by metis
  then show ?thesis by (simp add: small_entry_fields small_lines_def small_posted_line_def)
qed

lemma commit_check_never_refuses_witness: "check_entry_balanced small_db' ''e2'' = None"
  using commit_check_never_refuses [OF small_start small_posted _ small_repository(2,1)] by (simp add: small_entry_fields)


definition small_request :: trial_balance_request where
  "small_request = \<lparr>tq_entityId = ''x'', tq_fiscalYearCode = ''2026'', tq_fromPeriod = 1, tq_toPeriod = 1,
     tq_currency = ''EUR'', tr_includeZeroRows = False\<rparr>"

lemma trial_balance_balances_witness:
  "tb_difference (buildTrialBalance code_unit_compare small_request
     (trialBalanceRows code_unit_compare (trial_balance_query.truncate small_request) small_db')) = 0"
proof (rule trial_balance_balances [OF small_reached])
  show "\<forall>e \<in> set (loadChain (tq_entityId small_request) small_db'). \<forall>l \<in> set (pe_lines e).
      pl_currency l = tq_currency small_request"
    by (simp add: small_request_def small_chain small_entry_fields small_lines_def small_posted_line_def)
qed

end
