(* ===== verification/Year_Close.thy ===== *)
theory Year_Close
  imports Ledger_Reports
begin

text \<open>
  \<^verbatim>\<open>packages/core/src/ledger/year-close.ts\<close>: the two entries that close a fiscal year. The
  appropriation (\<open>resultaatbestemming\<close>) writes every profit and loss account back to zero against an
  equity account, the opening balance (\<open>beginbalans\<close>) posts every other closing balance into the new year.
\<close>

record year_close_request =
  yc_entityId :: string
  yc_resultAccountNumber :: string
  yc_journalCode :: string
  yc_closingDate :: string
  yc_openingDate :: string
  yc_fiscalYearCode :: string

record year_close_plan =
  yp_appropriation :: "post_command option"
  yp_openingBalance :: "post_command option"
  yp_result :: int
  yp_profitAndLossAccountCount :: nat
  yp_balanceSheetAccountCount :: nat

definition PROFIT_AND_LOSS :: "account_type set" where
  "PROFIT_AND_LOSS = {Revenue, Expense}"

definition close_line :: "string \<Rightarrow> int \<Rightarrow> string \<Rightarrow> journal_line_input" where
  "close_line accountNumber signed description =
     \<lparr>li_accountNumber = accountNumber, li_description = Some description,
      li_debit = (if signed > 0 then signed else 0), li_credit = (if signed < 0 then - signed else 0),
      li_currency = None, li_exchangeRate = None, li_exchangeRateSource = None, li_taxCode = None,
      li_taxRole = None, li_taxAmount = None, li_dimensions = [], li_subledgerKind = None, li_subledgerId = None\<rparr>"

record close_state =
  cs_lines :: "journal_line_input list"
  cs_result :: int
  cs_accounts :: nat

fun appropriation_loop :: "year_close_request \<Rightarrow> close_state \<Rightarrow> balance_row list \<Rightarrow> close_state" where
  "appropriation_loop request s [] = s"
| "appropriation_loop request s (row # rows) =
     (if br_accountType row \<notin> PROFIT_AND_LOSS then appropriation_loop request s rows
      else
        let signed = br_periodDebit row - br_periodCredit row in
        if signed = 0 then appropriation_loop request s rows
        else appropriation_loop request
          \<lparr>cs_lines = cs_lines s @ [close_line (br_accountNumber row) (- signed) (''Resultaatbestemming '' @ yc_fiscalYearCode request)],
           cs_result = cs_result s - signed, cs_accounts = cs_accounts s + 1\<rparr> rows)"

fun opening_loop :: "year_close_request \<Rightarrow> int \<Rightarrow> close_state \<Rightarrow> balance_row list \<Rightarrow> close_state" where
  "opening_loop request result s [] = s"
| "opening_loop request result s (row # rows) =
     (if br_accountType row \<in> PROFIT_AND_LOSS then opening_loop request result s rows
      else
        let signed = closing row - (if br_accountNumber row = yc_resultAccountNumber request then result else 0) in
        if signed = 0 then opening_loop request result s rows
        else opening_loop request result
          (s\<lparr>cs_lines := cs_lines s @ [close_line (br_accountNumber row) signed (''Beginbalans '' @ yc_fiscalYearCode request)],
             cs_accounts := cs_accounts s + 1\<rparr>) rows)"

definition close_command :: "year_close_request \<Rightarrow> string \<Rightarrow> string \<Rightarrow> string \<Rightarrow> journal_line_input list \<Rightarrow> post_command" where
  "close_command request date description ref ls =
     \<lparr>cmd_entityId = yc_entityId request, cmd_journalCode = yc_journalCode request, cmd_bookingDate = date,
      cmd_documentDate = date, cmd_description = description, cmd_sourceDocumentRef = Some ref,
      cmd_reversesEntryId = None, cmd_lines = ls\<rparr>"

definition close_plan :: "year_close_request \<Rightarrow> balance_row list \<Rightarrow> year_close_plan" where
  "close_plan request rows =
     (let a = appropriation_loop request \<lparr>cs_lines = [], cs_result = 0, cs_accounts = 0\<rparr> rows;
          b = opening_loop request (cs_result a) \<lparr>cs_lines = [], cs_result = 0, cs_accounts = 0\<rparr> rows;
          year = yc_fiscalYearCode request
      in \<lparr>yp_appropriation =
            (if cs_lines a = [] then None
             else Some (close_command request (yc_closingDate request)
               (''Resultaatbestemming boekjaar '' @ year) (''year-close:'' @ year @ '':appropriation'')
               (cs_lines a @ [close_line (yc_resultAccountNumber request) (- cs_result a) (''Resultaat '' @ year)]))),
          yp_openingBalance =
            (if cs_lines b = [] then None
             else Some (close_command request (yc_openingDate request)
               (''Beginbalans na afsluiting '' @ year) (''year-close:'' @ year @ '':opening-balance'') (cs_lines b))),
          yp_result = cs_result a, yp_profitAndLossAccountCount = cs_accounts a,
          yp_balanceSheetAccountCount = cs_accounts b\<rparr>)"

definition planYearClose :: "year_close_request \<Rightarrow> balance_row list \<Rightarrow> thrown + year_close_plan" where
  "planYearClose request rows =
     (case find (\<lambda>row. br_accountNumber row = yc_resultAccountNumber request) rows of
        None \<Rightarrow> throw ''unknown_account.account_appropriate_result'' (Some ''resultAccountNumber'')
                  (Some [(''accountNumber'', yc_resultAccountNumber request)])
      | Some resultAccount \<Rightarrow>
          if br_accountType resultAccount \<noteq> Equity
          then throw ''unknown_account.account_year_s'' (Some ''resultAccountNumber'')
                 (Some [(''accountNumber'', yc_resultAccountNumber request),
                        (''accountType'', account_type_text (br_accountType resultAccount))])
          else Inr (close_plan request rows))"

section \<open>What the two entries do to an account\<close>

text \<open>The signed amount an entry posts on an account, debit positive.\<close>

definition posts_on :: "string \<Rightarrow> journal_line_input list \<Rightarrow> int" where
  "posts_on number ls = (\<Sum>l\<leftarrow>filter (\<lambda>l. li_accountNumber l = number) ls. li_debit l - li_credit l)"

lemma posts_on_simps [simp]:
  "posts_on n [] = 0" "posts_on n (ls @ ms) = posts_on n ls + posts_on n ms"
  "posts_on n (close_line k s d # ls) = (if k = n then s else 0) + posts_on n ls"
  by (simp_all add: posts_on_def close_line_def)

lemma close_line_net: "li_debit (close_line k s d) - li_credit (close_line k s d) = s"
  by (simp add: close_line_def)

lemma close_line_well_formed: "well_formed_line fc (close_line k s d) \<longleftrightarrow> s \<noteq> 0"
  by (auto simp: well_formed_line_def close_line_def one_sided_def rate_fits_def effective_currency_def)

abbreviation pl_rows :: "balance_row list \<Rightarrow> balance_row list" where
  "pl_rows rows \<equiv> filter (\<lambda>r. br_accountType r \<in> PROFIT_AND_LOSS) rows"

lemma pl_types: "t \<in> PROFIT_AND_LOSS \<longleftrightarrow> t \<notin> BALANCE_SHEET_TYPES"
  by (cases t) (auto simp: PROFIT_AND_LOSS_def BALANCE_SHEET_TYPES_def)

lemma appropriation_loop_eq:
  "appropriation_loop request s rows =
     \<lparr>cs_lines = cs_lines s @ map (\<lambda>r. close_line (br_accountNumber r) (- movement r) (''Resultaatbestemming '' @ yc_fiscalYearCode request))
        (filter (\<lambda>r. movement r \<noteq> 0) (pl_rows rows)),
      cs_result = cs_result s - (\<Sum>r\<leftarrow>pl_rows rows. movement r),
      cs_accounts = cs_accounts s + length (filter (\<lambda>r. movement r \<noteq> 0) (pl_rows rows))\<rparr>"
  by (induction request s rows rule: appropriation_loop.induct) (auto simp: Let_def movement_def)

definition opening_amount :: "year_close_request \<Rightarrow> int \<Rightarrow> balance_row \<Rightarrow> int" where
  "opening_amount request result r = closing r - (if br_accountNumber r = yc_resultAccountNumber request then result else 0)"

lemma opening_loop_eq:
  "cs_lines (opening_loop request result s rows) =
     cs_lines s @ map (\<lambda>r. close_line (br_accountNumber r) (opening_amount request result r) (''Beginbalans '' @ yc_fiscalYearCode request))
        (filter (\<lambda>r. br_accountType r \<notin> PROFIT_AND_LOSS \<and> opening_amount request result r \<noteq> 0) rows)"
  by (induction request result s rows rule: opening_loop.induct) (auto simp: Let_def opening_amount_def)

lemma sum_nonzero: "(\<Sum>r\<leftarrow>filter (\<lambda>r. P r \<and> f r \<noteq> 0) rows. f r) = (\<Sum>r\<leftarrow>filter P rows. f r :: int)"
  by (induction rows) auto

lemma posts_on_closings:
  "posts_on n (map (\<lambda>r. close_line (br_accountNumber r) (f r) (d r)) (filter (\<lambda>r. P r \<and> f r \<noteq> 0) rows)) =
   (\<Sum>r\<leftarrow>filter (\<lambda>r. P r \<and> br_accountNumber r = n) rows. f r)"
  by (induction rows) auto

lemma net_closings:
  "(\<Sum>l\<leftarrow>map (\<lambda>r. close_line (br_accountNumber r) (f r) (d r)) rows. li_debit l - li_credit l) = (\<Sum>r\<leftarrow>rows. f r)"
  by (induction rows) (simp_all add: close_line_net)

lemma sum_negated: "(\<Sum>r\<leftarrow>rows. - f r) = - (\<Sum>r\<leftarrow>rows. f r :: int)"
  by (induction rows) auto

lemma filter_unique:
  assumes "distinct (map br_accountNumber rows)" "r \<in> set rows"
  shows "filter (\<lambda>x. P x \<and> br_accountNumber x = br_accountNumber r) rows = (if P r then [r] else [])"
proof (cases "P r")
  case True
  with distinct_filter_one [OF assms] show ?thesis by simp
next
  case False
  have "x = r" if "x \<in> set rows" "br_accountNumber x = br_accountNumber r" for x
    using assms that by (simp add: distinct_map inj_on_def)
  with False show ?thesis by (auto simp: filter_empty_conv)
qed

lemma planYearClose_Inr:
  assumes "planYearClose request rows = Inr plan"
  shows "plan = close_plan request rows"
    "\<exists>account \<in> set rows. br_accountNumber account = yc_resultAccountNumber request \<and> br_accountType account = Equity"
  using assms by (auto simp: planYearClose_def split: option.splits if_splits dest: find_SomeD)

lemma plan_result: "yp_result (close_plan request rows) = - (\<Sum>r\<leftarrow>pl_rows rows. movement r)"
  by (simp add: close_plan_def Let_def appropriation_loop_eq)

lemma plan_appropriation:
  assumes "yp_appropriation (close_plan request rows) = Some a"
  shows "cmd_lines a = map (\<lambda>r. close_line (br_accountNumber r) (- movement r) (''Resultaatbestemming '' @ yc_fiscalYearCode request))
        (filter (\<lambda>r. br_accountType r \<in> PROFIT_AND_LOSS \<and> - movement r \<noteq> 0) rows)
      @ [close_line (yc_resultAccountNumber request) (\<Sum>r\<leftarrow>pl_rows rows. movement r) (''Resultaat '' @ yc_fiscalYearCode request)]"
    "filter (\<lambda>r. br_accountType r \<in> PROFIT_AND_LOSS \<and> - movement r \<noteq> 0) rows \<noteq> []"
    "cmd_bookingDate a = yc_closingDate request" "cmd_documentDate a = yc_closingDate request"
proof -
  have "filter (\<lambda>r. movement r \<noteq> 0) (pl_rows rows) = filter (\<lambda>r. br_accountType r \<in> PROFIT_AND_LOSS \<and> - movement r \<noteq> 0) rows"
    by (simp add: conj_commute)
  moreover have "filter (\<lambda>r. movement r \<noteq> 0) (pl_rows rows) \<noteq> []"
    using assms by (auto simp: close_plan_def Let_def appropriation_loop_eq split: if_splits)
  moreover have "a = close_command request (yc_closingDate request) (''Resultaatbestemming boekjaar '' @ yc_fiscalYearCode request)
      (''year-close:'' @ yc_fiscalYearCode request @ '':appropriation'')
      (map (\<lambda>r. close_line (br_accountNumber r) (- movement r) (''Resultaatbestemming '' @ yc_fiscalYearCode request))
        (filter (\<lambda>r. movement r \<noteq> 0) (pl_rows rows))
      @ [close_line (yc_resultAccountNumber request) (\<Sum>r\<leftarrow>pl_rows rows. movement r) (''Resultaat '' @ yc_fiscalYearCode request)])"
    using assms by (simp add: close_plan_def Let_def appropriation_loop_eq split: if_splits)
  ultimately show "cmd_lines a = map (\<lambda>r. close_line (br_accountNumber r) (- movement r) (''Resultaatbestemming '' @ yc_fiscalYearCode request))
        (filter (\<lambda>r. br_accountType r \<in> PROFIT_AND_LOSS \<and> - movement r \<noteq> 0) rows)
      @ [close_line (yc_resultAccountNumber request) (\<Sum>r\<leftarrow>pl_rows rows. movement r) (''Resultaat '' @ yc_fiscalYearCode request)]"
    "filter (\<lambda>r. br_accountType r \<in> PROFIT_AND_LOSS \<and> - movement r \<noteq> 0) rows \<noteq> []"
    "cmd_bookingDate a = yc_closingDate request" "cmd_documentDate a = yc_closingDate request"
    by (simp_all only: close_command_def post_command.simps not_False_eq_True)
qed

lemma plan_opening:
  assumes "yp_openingBalance (close_plan request rows) = Some b"
  shows "cmd_lines b = map (\<lambda>r. close_line (br_accountNumber r) (opening_amount request (yp_result (close_plan request rows)) r)
      (''Beginbalans '' @ yc_fiscalYearCode request))
    (filter (\<lambda>r. br_accountType r \<notin> PROFIT_AND_LOSS \<and> opening_amount request (yp_result (close_plan request rows)) r \<noteq> 0) rows)"
proof -
  have "b = close_command request (yc_openingDate request) (''Beginbalans na afsluiting '' @ yc_fiscalYearCode request)
      (''year-close:'' @ yc_fiscalYearCode request @ '':opening-balance'')
      (cs_lines (opening_loop request (yp_result (close_plan request rows)) \<lparr>cs_lines = [], cs_result = 0, cs_accounts = 0\<rparr> rows))"
    using assms by (simp add: close_plan_def Let_def split: if_splits)
  then show ?thesis by (simp only: close_command_def post_command.simps opening_loop_eq close_state.simps append_Nil)
qed

text \<open>
  C30: The appropriation closes the year. The result is the bottom line of the profit and loss; every
  profit and loss account with a movement is posted back to exactly zero, the result account takes the
  result as a credit, no other account is touched, and debits equal credits. When there is a result and
  the date is a date, the shape check of the posting function accepts the entry.
\<close>

theorem appropriation_flattens:
  assumes "planYearClose request rows = Inr plan" "distinct (map br_accountNumber rows)"
    and "yp_appropriation plan = Some a"
  shows "yp_result plan = pp_result (buildProfitAndLoss cmp sr rows) \<and>
    (\<forall>r \<in> set rows. movement r + posts_on (br_accountNumber r) (cmd_lines a) =
       (if br_accountType r \<in> PROFIT_AND_LOSS then 0
        else if br_accountNumber r = yc_resultAccountNumber request then movement r - yp_result plan else movement r)) \<and>
    (\<Sum>l\<leftarrow>cmd_lines a. li_debit l) = (\<Sum>l\<leftarrow>cmd_lines a. li_credit l) \<and>
    (yp_result plan \<noteq> 0 \<and> isValidDate (yc_closingDate request) \<longrightarrow> validateCommandShape a fc = [])"
proof (intro conjI)
  note plan = planYearClose_Inr [OF assms(1)]
  note a = plan_appropriation [OF assms(3) [unfolded plan(1)]]
  have result: "yp_result plan = - (\<Sum>r\<leftarrow>pl_rows rows. movement r)" by (simp add: plan(1) plan_result)
  have "profit_rows rows = pl_rows rows" by (simp add: pl_types)
  then have "pp_result (buildProfitAndLoss cmp sr rows) = - (\<Sum>r\<leftarrow>pl_rows rows. movement r)"
    using profit_loop_totals [of "[]" "[]" rows] by (simp add: buildProfitAndLoss_def Let_def section_total split: prod.split)
  then show "yp_result plan = pp_result (buildProfitAndLoss cmp sr rows)" using result by simp
  show "\<forall>r \<in> set rows. movement r + posts_on (br_accountNumber r) (cmd_lines a) =
       (if br_accountType r \<in> PROFIT_AND_LOSS then 0
        else if br_accountNumber r = yc_resultAccountNumber request then movement r - yp_result plan else movement r)"
  proof
    fix r assume r: "r \<in> set rows"
    from plan(2) obtain account where account: "account \<in> set rows"
      "br_accountNumber account = yc_resultAccountNumber request" "br_accountType account = Equity" by blast
    have "r = account" if "br_accountNumber r = yc_resultAccountNumber request"
      using assms(2) r account that by (simp add: distinct_map inj_on_def)
    then have equity: "br_accountType r \<notin> PROFIT_AND_LOSS" if "br_accountNumber r = yc_resultAccountNumber request"
      using that account(3) by (simp add: PROFIT_AND_LOSS_def)
    show "movement r + posts_on (br_accountNumber r) (cmd_lines a) =
       (if br_accountType r \<in> PROFIT_AND_LOSS then 0
        else if br_accountNumber r = yc_resultAccountNumber request then movement r - yp_result plan else movement r)"
      unfolding a(1) posts_on_simps posts_on_closings filter_unique [OF assms(2) r]
      using equity by (auto simp: result)
  qed
  have net: "(\<Sum>l\<leftarrow>cmd_lines a. li_debit l - li_credit l) = 0"
    unfolding a(1) map_append sum_list_append net_closings sum_nonzero
    by (simp add: close_line_net sum_negated)
  then show balanced: "(\<Sum>l\<leftarrow>cmd_lines a. li_debit l) = (\<Sum>l\<leftarrow>cmd_lines a. li_credit l)"
    by (simp add: sum_list_subtractf)
  show "yp_result plan \<noteq> 0 \<and> isValidDate (yc_closingDate request) \<longrightarrow> validateCommandShape a fc = []"
  proof
    assume ok: "yp_result plan \<noteq> 0 \<and> isValidDate (yc_closingDate request)"
    have "2 \<le> length (cmd_lines a)" using a(2) unfolding a(1) by (cases "filter (\<lambda>r. br_accountType r \<in> PROFIT_AND_LOSS \<and> - movement r \<noteq> 0) rows") auto
    moreover have "\<forall>l \<in> set (cmd_lines a). well_formed_line fc l"
      using ok result unfolding a(1) by (auto simp: close_line_well_formed)
    ultimately show "validateCommandShape a fc = []"
      using ok balanced a(3,4) unfolding validateCommandShape_Nil well_formed_command_def balances_in_one_currency_def by simp
  qed
qed

text \<open>
  A year that broke even cannot be closed. When the profit and loss accounts moved but their result
  is zero, the plan still appends a line for the result, with neither a debit nor a credit, and the shape
  check of the posting function refuses the whole appropriation.
\<close>

theorem break_even_close_is_refused:
  assumes "planYearClose request rows = Inr plan" "yp_appropriation plan = Some a" "yp_result plan = 0"
  shows "validateCommandShape a fc \<noteq> []"
proof -
  note plan = planYearClose_Inr [OF assms(1)]
  note a = plan_appropriation(1) [OF assms(2) [unfolded plan(1)]]
  have "(\<Sum>r\<leftarrow>pl_rows rows. movement r) = 0" using assms(3) by (simp add: plan(1) plan_result)
  then have "close_line (yc_resultAccountNumber request) 0 (''Resultaat '' @ yc_fiscalYearCode request) \<in> set (cmd_lines a)"
    by (simp add: a)
  then have "\<exists>l \<in> set (cmd_lines a). \<not> well_formed_line fc l" by (metis close_line_well_formed)
  then show ?thesis unfolding validateCommandShape_Nil well_formed_command_def by blast
qed

text \<open>
  C31: The opening balance carries every balance-sheet account forward: after the appropriation is posted,
  the opening entry posts on each of them exactly its closing balance and touches no profit and loss
  account; its debits less its credits are those of the whole book, less what profit and loss accounts
  carried into the year.
\<close>

theorem opening_balance_carries_forward:
  assumes "planYearClose request rows = Inr plan" "distinct (map br_accountNumber rows)"
    and "yp_appropriation plan = Some a" "yp_openingBalance plan = Some b"
  shows "(\<forall>r \<in> set rows. posts_on (br_accountNumber r) (cmd_lines b) =
       (if br_accountType r \<in> PROFIT_AND_LOSS then 0 else closing r + posts_on (br_accountNumber r) (cmd_lines a))) \<and>
    (\<Sum>l\<leftarrow>cmd_lines b. li_debit l - li_credit l) =
      (\<Sum>r\<leftarrow>rows. closing r) - (\<Sum>r\<leftarrow>pl_rows rows. br_openingDebit r - br_openingCredit r)"
proof
  note plan = planYearClose_Inr [OF assms(1)]
  note a = plan_appropriation(1) [OF assms(3) [unfolded plan(1)]]
  note b = plan_opening [OF assms(4) [unfolded plan(1)]]
  let ?result = "yp_result (close_plan request rows)"
  show "\<forall>r \<in> set rows. posts_on (br_accountNumber r) (cmd_lines b) =
       (if br_accountType r \<in> PROFIT_AND_LOSS then 0 else closing r + posts_on (br_accountNumber r) (cmd_lines a))"
    unfolding a b posts_on_simps posts_on_closings
    by (auto simp: filter_unique [OF assms(2)] opening_amount_def plan_result)
  from plan(2) obtain account where account: "account \<in> set rows"
    "br_accountNumber account = yc_resultAccountNumber request" "br_accountType account = Equity" by blast
  have one: "filter (\<lambda>r. br_accountType r \<notin> PROFIT_AND_LOSS \<and> br_accountNumber r = yc_resultAccountNumber request) rows = [account]"
    using filter_unique [OF assms(2) account(1), of "\<lambda>r. br_accountType r \<notin> PROFIT_AND_LOSS"] account(2,3)
    by (simp add: PROFIT_AND_LOSS_def)
  have "(\<Sum>r\<leftarrow>filter P rows. opening_amount request k r) = (\<Sum>r\<leftarrow>filter P rows. closing r) -
      k * int (length (filter (\<lambda>r. P r \<and> br_accountNumber r = yc_resultAccountNumber request) rows))" for P k
    by (induction rows) (auto simp: opening_amount_def algebra_simps)
  then have net: "(\<Sum>l\<leftarrow>cmd_lines b. li_debit l - li_credit l) =
      (\<Sum>r\<leftarrow>filter (\<lambda>r. br_accountType r \<notin> PROFIT_AND_LOSS) rows. closing r) - ?result"
    unfolding b net_closings sum_nonzero by (simp add: one)
  have "(\<Sum>r\<leftarrow>rows. closing r) = (\<Sum>r\<leftarrow>filter (\<lambda>r. br_accountType r \<notin> PROFIT_AND_LOSS) rows. closing r) +
      (\<Sum>r\<leftarrow>pl_rows rows. movement r) + (\<Sum>r\<leftarrow>pl_rows rows. br_openingDebit r - br_openingCredit r)"
    by (induction rows) (auto simp: closing_def movement_def)
  with net show "(\<Sum>l\<leftarrow>cmd_lines b. li_debit l - li_credit l) =
      (\<Sum>r\<leftarrow>rows. closing r) - (\<Sum>r\<leftarrow>pl_rows rows. br_openingDebit r - br_openingCredit r)"
    by (simp add: plan_result)
qed

section \<open>Two small books\<close>

definition close_row :: "string \<Rightarrow> account_type \<Rightarrow> int \<Rightarrow> int \<Rightarrow> balance_row" where
  "close_row number type d c =
     \<lparr>br_accountId = number, br_accountNumber = number, br_accountName = number, br_accountType = type,
      br_normalBalance = DebitNormal, br_rgsCode = None, br_openingDebit = 0, br_openingCredit = 0,
      br_periodDebit = d, br_periodCredit = c\<rparr>"

definition sample_close :: year_close_request where
  "sample_close = \<lparr>yc_entityId = ''x'', yc_resultAccountNumber = ''0500'', yc_journalCode = ''MEM'',
     yc_closingDate = ''2026-12-31'', yc_openingDate = ''2027-01-01'', yc_fiscalYearCode = ''2026''\<rparr>"

definition profit_book :: "balance_row list" where
  "profit_book = [close_row ''0500'' Equity 0 0, close_row ''1000'' Asset 100 0, close_row ''8000'' Revenue 0 100]"

definition break_even_book :: "balance_row list" where
  "break_even_book = [close_row ''0500'' Equity 0 0, close_row ''4000'' Expense 100 0, close_row ''8000'' Revenue 0 100]"

lemmas sample_book = profit_book_def break_even_book_def close_row_def sample_close_def

lemma sample_plans:
  "planYearClose sample_close profit_book = Inr (close_plan sample_close profit_book)"
  "planYearClose sample_close break_even_book = Inr (close_plan sample_close break_even_book)"
  "distinct (map br_accountNumber profit_book)"
  by (simp_all add: planYearClose_def sample_book)

lemma profit_plan:
  "yp_appropriation (close_plan sample_close profit_book) =
     Some (close_command sample_close ''2026-12-31'' ''Resultaatbestemming boekjaar 2026'' ''year-close:2026:appropriation''
       [close_line ''8000'' 100 ''Resultaatbestemming 2026'', close_line ''0500'' (- 100) ''Resultaat 2026''])"
  "yp_openingBalance (close_plan sample_close profit_book) =
     Some (close_command sample_close ''2027-01-01'' ''Beginbalans na afsluiting 2026'' ''year-close:2026:opening-balance''
       [close_line ''0500'' (- 100) ''Beginbalans 2026'', close_line ''1000'' 100 ''Beginbalans 2026''])"
  "yp_result (close_plan sample_close profit_book) = 100"
  by (simp_all add: close_plan_def Let_def sample_book PROFIT_AND_LOSS_def closing_def)

lemma break_even_plan:
  "yp_appropriation (close_plan sample_close break_even_book) =
     Some (close_command sample_close ''2026-12-31'' ''Resultaatbestemming boekjaar 2026'' ''year-close:2026:appropriation''
       [close_line ''4000'' (- 100) ''Resultaatbestemming 2026'', close_line ''8000'' 100 ''Resultaatbestemming 2026'',
        close_line ''0500'' 0 ''Resultaat 2026''])"
  "yp_result (close_plan sample_close break_even_book) = 0"
  by (simp_all add: close_plan_def Let_def sample_book PROFIT_AND_LOSS_def closing_def)

lemma appropriation_flattens_witness:
  "pp_result (buildProfitAndLoss code_unit_compare \<lparr>sr_currency = ''EUR'', sr_fromDate = ''2026-01-01'', sr_toDate = ''2026-12-31''\<rparr> profit_book) = 100"
  using appropriation_flattens [OF sample_plans(1) sample_plans(3) profit_plan(1), of code_unit_compare
      "\<lparr>sr_currency = ''EUR'', sr_fromDate = ''2026-01-01'', sr_toDate = ''2026-12-31''\<rparr>"] profit_plan(3)
  by simp

lemma break_even_close_is_refused_witness:
  "validateCommandShape (close_command sample_close ''2026-12-31'' ''Resultaatbestemming boekjaar 2026'' ''year-close:2026:appropriation''
       [close_line ''4000'' (- 100) ''Resultaatbestemming 2026'', close_line ''8000'' 100 ''Resultaatbestemming 2026'',
        close_line ''0500'' 0 ''Resultaat 2026'']) ''EUR'' \<noteq> []"
  by (rule break_even_close_is_refused [OF sample_plans(2) break_even_plan])

lemma opening_balance_carries_forward_witness:
  "posts_on ''1000'' [close_line ''0500'' (- 100) ''Beginbalans 2026'', close_line ''1000'' 100 ''Beginbalans 2026''] = 100"
  using opening_balance_carries_forward [OF sample_plans(1) sample_plans(3) profit_plan(1,2)]
  by (simp add: profit_book_def close_row_def close_command_def PROFIT_AND_LOSS_def closing_def)

end
