(* ===== verification/Iso_Order.thy ===== *)
theory Iso_Order
  imports Calendar
begin

text \<open>
  The order of dates: comparing two ISO dates as text, which is what the sources do with \<open><=\<close>, is comparing
  the days they name.
\<close>

lemma char_less_digit: "is_digit c \<Longrightarrow> is_digit d \<Longrightarrow> c < d \<longleftrightarrow> char_digit c < char_digit d"
  by (auto simp: less_char_def is_digit_def char_digit_def)

lemma digits_less_iff:
  "length s = length t \<Longrightarrow> list_all is_digit s \<Longrightarrow> list_all is_digit t \<Longrightarrow> s < t \<longleftrightarrow> digits_value s < digits_value t"
proof (induction s t rule: list_induct2)
  case (Cons c s d t)
  let ?p = "10 ^ length t :: nat"
  from Cons.prems have v: "digits_value s < ?p" "digits_value t < ?p"
    using digits_value_bound [of s] digits_value_bound [of t] Cons.hyps by simp_all
  have IH: "s < t \<longleftrightarrow> digits_value s < digits_value t" using Cons by simp
  have cd: "c < d \<longleftrightarrow> char_digit c < char_digit d" "c = d \<longleftrightarrow> char_digit c = char_digit d"
    using Cons.prems char_less_digit by (auto, metis digit_char_char_digit)
  have "(c < d \<or> c = d \<and> s < t) \<longleftrightarrow> char_digit c * ?p + digits_value s < char_digit d * ?p + digits_value t"
  proof (cases "char_digit c" "char_digit d" rule: linorder_cases)
    case less
    then have "char_digit c * ?p + ?p \<le> char_digit d * ?p" by (metis Suc_leI add.commute mult_Suc mult_le_mono1)
    with v less cd show ?thesis by simp
  next
    case equal
    with IH cd show ?thesis by simp
  next
    case greater
    then have "char_digit d * ?p + ?p \<le> char_digit c * ?p" by (metis Suc_leI add.commute mult_Suc mult_le_mono1)
    with v greater cd show ?thesis by simp
  qed
  then show ?case using Cons.hyps by (simp add: digits_value_Cons)
qed simp

lemma append_less: "length a = length b \<Longrightarrow> a @ x < b @ y \<longleftrightarrow> a < b \<or> a = b \<and> x < y" for a b x y :: string
  by (induction a b rule: list_induct2) auto

lemma iso_parts:
  assumes "valid_civil y m d" "0 \<le> y" "y \<le> 9999"
  shows "list_all is_digit (iso_year y)" "length (iso_year y) = 4" "digits_value (iso_year y) = nat y"
    "list_all is_digit (pad2 m)" "length (pad2 m) = 2" "digits_value (pad2 m) = m"
    "list_all is_digit (pad2 (nat d))" "length (pad2 (nat d)) = 2" "digits_value (pad2 (nat d)) = nat d"
proof -
  have b: "m < 100" "nat d < 100" "nat y < 10000"
    using valid_civil_bounds [OF assms(1)] assms(2,3) by auto
  show "length (iso_year y) = 4" "length (pad2 m) = 2" "length (pad2 (nat d)) = 2"
    using b assms(2,3) by (simp_all only: length_iso_year length_pad2)
  show "list_all is_digit (iso_year y)" "digits_value (iso_year y) = nat y" "list_all is_digit (pad2 m)"
    "digits_value (pad2 m) = m" "list_all is_digit (pad2 (nat d))" "digits_value (pad2 (nat d)) = nat d"
    using assms(2,3) by (simp_all add: iso_year_def pad2_def)
qed

lemma iso_less:
  assumes "valid_civil y m d" "0 \<le> y" "y \<le> 9999" "valid_civil y' m' d'" "0 \<le> y'" "y' \<le> 9999"
  shows "iso_string y m d < iso_string y' m' d' \<longleftrightarrow> y < y' \<or> y = y' \<and> (m < m' \<or> m = m' \<and> d < d')"
proof -
  note p = iso_parts [OF assms(1-3)] and q = iso_parts [OF assms(4-6)]
  have d: "1 \<le> d" "1 \<le> d'" using valid_civil_bounds [OF assms(1)] valid_civil_bounds [OF assms(4)] by auto
  have eqs: "iso_year y = iso_year y' \<longleftrightarrow> nat y = nat y'" "pad2 m = pad2 m' \<longleftrightarrow> m = m'"
    using p q by (metis digits_value_eq_iff)+
  have "iso_year y < iso_year y' \<longleftrightarrow> nat y < nat y'" "pad2 m < pad2 m' \<longleftrightarrow> m < m'"
    "pad2 (nat d) < pad2 (nat d') \<longleftrightarrow> nat d < nat d'"
    using p q by (simp_all add: digits_less_iff)
  then show ?thesis
    using p q d assms(2,5) unfolding iso_string_def by (simp add: append_less eqs) linarith
qed

lemma make_day_less:
  assumes "valid_civil y m d" "valid_civil y' m' d'" "y < y' \<or> y = y' \<and> (m < m' \<or> m = m' \<and> d < d')"
  shows "make_day y (int m - 1) d < make_day y' (int m' - 1) d'"
proof -
  note day = make_day_civil [OF assms(1)] make_day_civil [OF assms(2)]
  note yr = day_in_year [OF assms(1)] day_in_year [OF assms(2)]
  from assms(3) consider "y < y'" | "y = y'" "m < m'" | "y = y'" "m = m'" "d < d'" by blast
  then show ?thesis
  proof cases
    case 1
    then have "day_from_year (y + 1) \<le> day_from_year y'" by (intro day_from_year_mono) simp
    with yr day show ?thesis by (simp add: day_from_year_Suc)
  next
    case 2
    let ?l = "month_lengths y"
    have m: "m - 1 < length ?l" "m \<le> m' - 1" using assms(1) 2 by (auto simp: valid_civil_def)
    obtain k where k: "m' - 1 = m + k" using m(2) le_Suc_ex by blast
    have "sum_list (take (m' - 1) ?l) = sum_list (take m ?l) + sum_list (take k (drop m ?l))"
      unfolding k by (simp add: take_add)
    moreover have "0 \<le> sum_list (take k (drop m ?l))"
      using month_lengths_pos [of y] by (auto intro!: sum_list_nonneg dest!: in_set_takeD in_set_dropD intro: less_imp_le)
    moreover have "sum_list (take m ?l) = sum_list (take (m - 1) ?l) + ?l ! (m - 1)"
      using m(1) assms(1) take_Suc_conv_app_nth [of "m - 1" ?l] by (simp add: valid_civil_def)
    moreover have "d \<le> ?l ! (m - 1)" "1 \<le> d'" using assms by (simp_all add: valid_civil_def days_in_month_def)
    ultimately show ?thesis using day 2(1) by simp
  next
    case 3
    with day show ?thesis by simp
  qed
qed

lemma iso_less_day:
  assumes "valid_civil y m d" "0 \<le> y" "y \<le> 9999" "valid_civil y' m' d'" "0 \<le> y'" "y' \<le> 9999"
  shows "iso_string y m d < iso_string y' m' d' \<longleftrightarrow> make_day y (int m - 1) d < make_day y' (int m' - 1) d'"
  unfolding iso_less [OF assms]
  using make_day_less [OF assms(1,4)] make_day_less [OF assms(4,1)]
  by (metis linorder_neqE_nat not_less_iff_gr_or_eq order_less_irrefl)

definition day_of :: "string \<Rightarrow> int" where
  "day_of s = the (date_parse s)"

lemma valid_date_civil:
  assumes "isValidDate s"
  obtains y m d where "0 \<le> y" "y \<le> 9999" "valid_civil y m d" "s = iso_string y m d"
    "date_parse s = Some (make_day y (int m - 1) d)" "day_of s = make_day y (int m - 1) d"
  using assms unfolding isValidDate_civil by (auto simp: date_parse_iso day_of_def)

lemma valid_date_day: "isValidDate s \<Longrightarrow> date_parse s = Some (day_of s)"
  by (rule valid_date_civil) auto

lemma iso_date_day_of: "isValidDate s \<Longrightarrow> iso_date (day_of s) = s"
  by (rule valid_date_civil) (auto simp: iso_date_make_day)

lemma date_less: "isValidDate s \<Longrightarrow> isValidDate t \<Longrightarrow> s < t \<longleftrightarrow> day_of s < day_of t"
  by (rule valid_date_civil [of s], assumption, rule valid_date_civil [of t], assumption) (simp add: iso_less_day)

lemma date_eq: "isValidDate s \<Longrightarrow> isValidDate t \<Longrightarrow> s = t \<longleftrightarrow> day_of s = day_of t"
  by (metis iso_date_day_of)

lemma date_le: "isValidDate s \<Longrightarrow> isValidDate t \<Longrightarrow> s \<le> t \<longleftrightarrow> day_of s \<le> day_of t"
  using date_less [of t s] by (simp add: linorder_not_less [symmetric])

lemma iso_date_valid:
  assumes "0 \<le> year_of_day n" "year_of_day n \<le> 9999"
  shows "isValidDate (iso_date n)" "day_of (iso_date n) = n"
proof -
  obtain y m d where c: "civil_of_day n = (y, m, d)" "valid_civil y m d" "make_day y (int m - 1) d = n"
    by (rule civil_of_day_cases)
  have "y = year_of_day n" using c(1) by (simp add: civil_of_day_def Let_def split: prod.splits)
  with date_parse_iso_date [OF _ _ c(1)] assms show "isValidDate (iso_date n)" "day_of (iso_date n) = n"
    by (simp_all add: day_of_def)
qed

end
