(* ===== verification/Fiscal_Year.thy ===== *)
theory Fiscal_Year
  imports Iso_Order
begin

text \<open>
  The layout of a book year: \<^verbatim>\<open>packages/core/src/setup/fiscal-year.ts\<close>. \<open>month_start q\<close> is the day on which
  the \<open>q\<close>-th month since year 0 begins; a year is twelve such months, and everything here follows from the
  months adjoining. A start month is an integer of the source's \<open>number\<close> (one that is no integer is refused
  in the same way).
\<close>

section \<open>The layout\<close>

record fiscal_year_period =
  fyp_sequence :: int
  fyp_startsOn :: string
  fyp_endsOn :: string

record fiscal_year_layout =
  fyl_code :: string
  fyl_startsOn :: string
  fyl_endsOn :: string
  fyl_periods :: "fiscal_year_period list"

definition FISCAL_YEAR_CODE_MIN :: nat where
  "FISCAL_YEAR_CODE_MIN = 1960"

definition FISCAL_YEAR_CODE_MAX :: nat where
  "FISCAL_YEAR_CODE_MAX = 2100"

definition is_year_label :: "string \<Rightarrow> bool" where
  "is_year_label code \<longleftrightarrow> length code = 4 \<and> list_all is_digit code"

definition isFiscalYearCodeInRange :: "string \<Rightarrow> bool" where
  "isFiscalYearCodeInRange code \<longleftrightarrow> is_year_label code \<and>
     FISCAL_YEAR_CODE_MIN \<le> digits_value code \<and> digits_value code \<le> FISCAL_YEAR_CODE_MAX"

text \<open>One turn of the loop: the first of the month, and day 0 of the next one.\<close>

definition plan_period :: "int \<Rightarrow> int \<Rightarrow> int \<Rightarrow> fiscal_year_period" where
  "plan_period year startMonth index =
     (let monthIndex = startMonth - 1 + index
      in \<lparr>fyp_sequence = index + 1,
          fyp_startsOn = iso_date (make_day year monthIndex 1),
          fyp_endsOn = iso_date (make_day year (monthIndex + 1) 0)\<rparr>)"

definition planFiscalYear :: "string \<Rightarrow> int \<Rightarrow> thrown + fiscal_year_layout" where
  "planFiscalYear code startMonth =
     (if \<not> is_year_label code then throw ''invalid_date.fiscal_year_labelled'' (Some ''code'') None
      else if \<not> isFiscalYearCodeInRange code then
        throw ''invalid_date.fiscal_year_out_of_range'' (Some ''code'')
          (Some [(''min'', nat_to_string FISCAL_YEAR_CODE_MIN), (''max'', nat_to_string FISCAL_YEAR_CODE_MAX)])
      else if startMonth < 1 \<or> 12 < startMonth then
        throw ''invalid_date.starting_month'' (Some ''startMonth'') None
      else
        let periods = map (plan_period (int (digits_value code)) startMonth) [0..11]
        in Inr \<lparr>fyl_code = code, fyl_startsOn = fyp_startsOn (periods ! 0),
                fyl_endsOn = fyp_endsOn (periods ! 11), fyl_periods = periods\<rparr>)"

text \<open>
  \<open>String(Number(code) + n)\<close> for the codes of a book year, which are digits; \<open>Number\<close> of other text is
  \<open>NaN\<close> in the model.
\<close>

definition shift_code :: "int \<Rightarrow> string \<Rightarrow> string" where
  "shift_code n code =
     (if list_all is_digit code then int_to_string (int (digits_value code) + n) else ''NaN'')"

definition nextFiscalYearCode :: "string \<Rightarrow> string" where
  "nextFiscalYearCode code = shift_code 1 code"

definition priorFiscalYearCodeToOpen :: "string \<Rightarrow> string option" where
  "priorFiscalYearCodeToOpen earliestOpenCode =
     (let prior = shift_code (- 1) earliestOpenCode
      in if isFiscalYearCodeInRange prior then Some prior else None)"

section \<open>The year of a date\<close>

definition in_layout :: "fiscal_year_layout \<Rightarrow> string \<Rightarrow> bool" where
  "in_layout layout day \<longleftrightarrow> fyl_startsOn layout \<le> day \<and> day \<le> fyl_endsOn layout"

fun candidate_loop :: "string \<Rightarrow> int \<Rightarrow> int list \<Rightarrow> thrown + string option" where
  "candidate_loop day startMonth [] = Inr None"
| "candidate_loop day startMonth (candidate # others) =
     (let code = int_to_string candidate
      in if \<not> isFiscalYearCodeInRange code then candidate_loop day startMonth others
         else and_then (planFiscalYear code startMonth) (\<lambda>layout.
           if in_layout layout day then Inr (Some (fyl_code layout))
           else candidate_loop day startMonth others))"

definition fiscalYearCodeForDate :: "string \<Rightarrow> int \<Rightarrow> thrown + string option" where
  "fiscalYearCodeForDate documentDate startMonth =
     (let day = take 10 documentDate
      in if \<not> is_date_shaped day then Inr None
         else let calendarYear = int (digits_value (take 4 day))
              in candidate_loop day startMonth [calendarYear, calendarYear - 1, calendarYear + 1])"

section \<open>The gate of a document\<close>

record fiscal_year_gate_input =
  fyg_code :: string
  fyg_startsOn :: string
  fyg_endsOn :: string
  fyg_status :: string

datatype document_fiscal_year_gate = GateOk | GateBlocked string string

definition earlier_year :: "fiscal_year_gate_input \<Rightarrow> fiscal_year_gate_input \<Rightarrow> fiscal_year_gate_input" where
  "earlier_year earliest year = (if fyg_startsOn year < fyg_startsOn earliest then year else earliest)"

definition earliestOpenFiscalYear :: "fiscal_year_gate_input list \<Rightarrow> fiscal_year_gate_input option" where
  "earliestOpenFiscalYear years =
     (case filter (\<lambda>year. fyg_status year \<noteq> ''closed'') years of
        [] \<Rightarrow> None
      | y # ys \<Rightarrow> Some (foldl earlier_year y ys))"

definition assessDocumentFiscalYear ::
  "fiscal_year_gate_input list \<Rightarrow> string \<Rightarrow> int \<Rightarrow> thrown + document_fiscal_year_gate" where
  "assessDocumentFiscalYear years documentDate startMonth =
     (let day = take 10 documentDate
      in case find (\<lambda>year. fyg_startsOn year \<le> day \<and> day \<le> fyg_endsOn year) years of
           Some containing \<Rightarrow>
             if fyg_status containing = ''closed'' then Inr (GateBlocked (fyg_code containing) ''closed'')
             else Inr GateOk
         | None \<Rightarrow>
             and_then (fiscalYearCodeForDate day startMonth) (\<lambda>code.
               case code of
                 None \<Rightarrow> Inr GateOk
               | Some code \<Rightarrow>
                   if list_ex (\<lambda>year. fyg_code year = code) years then
                     (case find (\<lambda>year. fyg_code year = code) years of
                        Some row \<Rightarrow> if fyg_status row = ''closed'' then Inr (GateBlocked code ''closed'')
                                    else Inr GateOk
                      | None \<Rightarrow> Inr GateOk)
                   else Inr (GateBlocked code ''missing'')))"

section \<open>Months adjoin\<close>

definition month_start :: "int \<Rightarrow> int" where
  "month_start q = make_day 0 q 1"

lemma make_day_month_start: "make_day y m d = month_start (12 * y + m) + d - 1"
  by (simp add: make_day_def month_start_def Let_def)

lemma month_start_day: "0 \<le> m \<Longrightarrow> m < 12 \<Longrightarrow>
    month_start (12 * y + m) = day_from_year y + sum_list (take (nat m) (month_lengths y))"
  using make_day_month_start [of y m 1] by (simp add: make_day_def Let_def)

lemma month_start_Suc: "month_start q < month_start (q + 1)"
proof -
  define y m where "y = q div 12" and "m = q mod 12"
  have q: "q = 12 * y + m" "0 \<le> m" "m < 12" by (simp_all add: y_def m_def)
  have len: "nat m < length (month_lengths y)" using q by simp
  have pos: "0 < month_lengths y ! nat m" using month_lengths_pos [of y] len nth_mem by blast
  have step: "sum_list (take (Suc (nat m)) (month_lengths y)) =
      sum_list (take (nat m) (month_lengths y)) + month_lengths y ! nat m"
    using len by (simp add: take_Suc_conv_app_nth)
  show ?thesis
  proof (cases "m = 11")
    case True
    have "month_start (q + 1) = day_from_year (y + 1)"
      using month_start_day [of 0 "y + 1"] q True by (simp add: algebra_simps)
    moreover have "Suc (nat m) = length (month_lengths y)" using True by simp
    then have "sum_list (take (Suc (nat m)) (month_lengths y)) = sum_list (month_lengths y)" by simp
    ultimately show ?thesis
      using month_start_day [OF q(2,3), of y] pos step q(1)
      by (simp add: sum_month_lengths day_from_year_Suc)
  next
    case False
    then have "month_start (q + 1) = day_from_year y + sum_list (take (Suc (nat m)) (month_lengths y))"
      using month_start_day [of "m + 1" y] q by (simp add: algebra_simps nat_add_distrib)
    with month_start_day [OF q(2,3), of y] pos step q(1) show ?thesis by simp
  qed
qed

lemma month_start_mono: "p \<le> q \<Longrightarrow> month_start p \<le> month_start q"
proof (induction "nat (q - p)" arbitrary: q)
  case (Suc n)
  then have "month_start p \<le> month_start (q - 1)" by auto
  with month_start_Suc [of "q - 1"] show ?case by simp
qed simp

lemma month_start_less_iff: "month_start p < month_start q \<longleftrightarrow> p < q"
  using month_start_mono [of q p] month_start_mono [of "p + 1" q] month_start_Suc [of p]
  by (cases "p < q") auto

lemma month_start_le_iff: "month_start p \<le> month_start q \<longleftrightarrow> p \<le> q"
  by (simp add: linorder_not_less [symmetric] month_start_less_iff)

text \<open>The month of a day is the only one it lies in.\<close>

lemma month_of_day_ex:
  assumes "month_start p \<le> n" "n < month_start (p + int k)"
  shows "\<exists>j < k. month_start (p + int j) \<le> n \<and> n < month_start (p + int j + 1)"
  using assms
proof (induction k)
  case (Suc k)
  then show ?case
    by (cases "n < month_start (p + int k)") (auto simp: less_Suc_eq algebra_simps not_less)
qed simp

lemma month_of_day_unique:
  assumes "month_start p \<le> n" "n < month_start (p + 1)" "month_start q \<le> n" "n < month_start (q + 1)"
  shows "p = q"
proof -
  have "month_start p < month_start (q + 1)" "month_start q < month_start (p + 1)" using assms by simp_all
  then show ?thesis by (simp add: month_start_less_iff)
qed


section \<open>The twelve periods\<close>

lemmas planFiscalYear_simps = planFiscalYear_def isFiscalYearCodeInRange_def Let_def

lemma plan_ok:
  assumes "planFiscalYear code sm = Inr layout"
  obtains y where "y = int (digits_value code)" "1960 \<le> y" "y \<le> 2100" "is_year_label code" "1 \<le> sm" "sm \<le> 12"
    "fyl_code layout = code" "fyl_periods layout = map (plan_period y sm) [0..11]"
    "fyl_startsOn layout = iso_date (month_start (12 * y + sm - 1))"
    "fyl_endsOn layout = iso_date (month_start (12 * y + sm + 11) - 1)"
proof -
  from assms have ok: "isFiscalYearCodeInRange code" "is_year_label code" "1 \<le> sm" "sm \<le> 12"
    and l: "layout = (let periods = map (plan_period (int (digits_value code)) sm) [0..11]
      in \<lparr>fyl_code = code, fyl_startsOn = fyp_startsOn (periods ! 0), fyl_endsOn = fyp_endsOn (periods ! 11),
         fyl_periods = periods\<rparr>)"
    unfolding planFiscalYear_def by (auto split: if_splits)
  have upto: "[0..11] ! 0 = (0 :: int)" "[0..11] ! 11 = (11 :: int)" "length [0..11 :: int] = 12"
    by (simp_all add: nth_upto)
  show thesis
    using ok l upto
    by (intro that [of "int (digits_value code)"])
      (auto simp: Let_def plan_period_def make_day_month_start isFiscalYearCodeInRange_def FISCAL_YEAR_CODE_MIN_def
        FISCAL_YEAR_CODE_MAX_def algebra_simps)
qed

lemma plan_exists:
  "isFiscalYearCodeInRange code \<Longrightarrow> 1 \<le> sm \<Longrightarrow> sm \<le> 12 \<Longrightarrow> \<exists>layout. planFiscalYear code sm = Inr layout"
  by (auto simp: planFiscalYear_simps)

lemma plan_in_range: "planFiscalYear code sm = Inr layout \<Longrightarrow> isFiscalYearCodeInRange code"
  by (simp add: planFiscalYear_def split: if_splits)

lemma plan_period_days:
  "fyp_startsOn (plan_period y sm i) = iso_date (month_start (12 * y + sm - 1 + i))"
  "fyp_endsOn (plan_period y sm i) = iso_date (month_start (12 * y + sm - 1 + i + 1) - 1)"
  by (simp_all add: plan_period_def make_day_month_start algebra_simps)

text \<open>The days the book years can name have four-digit years, so their texts are dates.\<close>

lemma month_start_in_range:
  assumes "12 * 1960 \<le> q" "q \<le> 12 * 2102" "e = 0 \<or> e = 1"
  shows "isValidDate (iso_date (month_start q - e))" "day_of (iso_date (month_start q - e)) = month_start q - e"
proof -
  have ends: "month_start (12 * 1960) = day_from_year 1960" "month_start (12 * 2102) = day_from_year 2102"
    using month_start_day [of 0 1960] month_start_day [of 0 2102] by simp_all
  have "month_start (12 * 1960) \<le> month_start q" "month_start q \<le> month_start (12 * 2102)"
    using assms by (simp_all only: month_start_le_iff)
  then have "in_four_digit_years (month_start q - e)"
    using assms(3) unfolding ends in_four_digit_years_def by (auto simp: day_from_year_def)
  with four_digit_year show "isValidDate (iso_date (month_start q - e))"
    "day_of (iso_date (month_start q - e)) = month_start q - e" by (simp_all add: iso_date_valid)
qed

lemma year_dates:
  assumes "1960 \<le> y" "y \<le> 2100" "1 \<le> sm" "sm \<le> 12" "0 \<le> i" "i \<le> 12" "e = 0 \<or> e = 1"
  shows "isValidDate (iso_date (month_start (12 * y + sm - 1 + i) - e))"
    "day_of (iso_date (month_start (12 * y + sm - 1 + i) - e)) = month_start (12 * y + sm - 1 + i) - e"
  using assms by (intro month_start_in_range; simp)+

lemma in_period_iff:
  assumes "1960 \<le> y" "y \<le> 2100" "1 \<le> sm" "sm \<le> 12" "0 \<le> i" "i \<le> 11" "isValidDate d"
  shows "fyp_startsOn (plan_period y sm i) \<le> d \<and> d \<le> fyp_endsOn (plan_period y sm i) \<longleftrightarrow>
    month_start (12 * y + sm - 1 + i) \<le> day_of d \<and> day_of d < month_start (12 * y + sm - 1 + i + 1)"
  using year_dates [of y sm i 0] year_dates [of y sm "i + 1" 1] assms
  by (simp add: plan_period_days date_le algebra_simps) linarith

lemma in_layout_iff:
  assumes "planFiscalYear code sm = Inr layout" "isValidDate d"
  shows "in_layout layout d \<longleftrightarrow> month_start (12 * int (digits_value code) + sm - 1) \<le> day_of d \<and>
    day_of d < month_start (12 * int (digits_value code) + sm - 1 + 12)"
proof -
  obtain y where y: "y = int (digits_value code)" "1960 \<le> y" "y \<le> 2100" "1 \<le> sm" "sm \<le> 12"
    "fyl_startsOn layout = iso_date (month_start (12 * y + sm - 1))"
    "fyl_endsOn layout = iso_date (month_start (12 * y + sm + 11) - 1)"
    using assms(1) by (rule plan_ok)
  show ?thesis
    using year_dates [OF y(2-5), of 0 0] year_dates [OF y(2-5), of 12 1] assms(2)
    unfolding in_layout_def y(6,7) y(1) [symmetric] by (simp add: date_le algebra_simps) linarith
qed

text \<open>
  The twelve periods tile the book year: a date lies in the year exactly when it lies in one of its periods,
  and then in only one, so that the period of a booking date is never ambiguous and never missing.
\<close>

theorem periods_tile_the_year:
  assumes "planFiscalYear code startMonth = Inr layout" "isValidDate d"
  shows "length (fyl_periods layout) = 12 \<and>
    (in_layout layout d \<longleftrightarrow>
      (\<exists>!p. p \<in> set (fyl_periods layout) \<and> fyp_startsOn p \<le> d \<and> d \<le> fyp_endsOn p))"
proof -
  obtain y where y: "y = int (digits_value code)" "1960 \<le> y" "y \<le> 2100" "1 \<le> startMonth" "startMonth \<le> 12"
    "fyl_periods layout = map (plan_period y startMonth) [0..11]"
    using assms(1) by (rule plan_ok)
  let ?P = "\<lambda>p. p \<in> set (fyl_periods layout) \<and> fyp_startsOn p \<le> d \<and> d \<le> fyp_endsOn p"
  let ?s = "12 * y + startMonth - 1"
  let ?in = "\<lambda>i. month_start (?s + i) \<le> day_of d \<and> day_of d < month_start (?s + i + 1)"
  have P: "?P p \<longleftrightarrow> (\<exists>i. 0 \<le> i \<and> i \<le> 11 \<and> p = plan_period y startMonth i \<and> ?in i)" for p
    using in_period_iff [OF y(2-5) _ _ assms(2)]
    unfolding y(6) set_map image_iff set_upto atLeastAtMost_iff Bex_def by blast
  have unique: "p = q" if "?P p" "?P q" for p q
  proof -
    from that obtain i j where "p = plan_period y startMonth i" "?in i" "q = plan_period y startMonth j" "?in j"
      unfolding P by blast
    with month_of_day_unique [of "?s + i" "day_of d" "?s + j"] show "p = q" by simp
  qed
  have in_year: "in_layout layout d \<longleftrightarrow> month_start ?s \<le> day_of d \<and> day_of d < month_start (?s + 12)"
    using in_layout_iff [OF assms] y(1) by simp
  have "in_layout layout d \<longleftrightarrow> (\<exists>p. ?P p)"
  proof
    assume "in_layout layout d"
    then obtain j where "j < 12" "month_start (?s + int j) \<le> day_of d" "day_of d < month_start (?s + int j + 1)"
      using month_of_day_ex [of ?s "day_of d" 12] in_year by auto
    then show "\<exists>p. ?P p" unfolding P by (intro exI [of _ "plan_period y startMonth (int j)"] exI [of _ "int j"]) simp
  next
    assume "\<exists>p. ?P p"
    then obtain i where i: "0 \<le> i" "i \<le> 11" "?in i" unfolding P by blast
    then have "month_start ?s \<le> month_start (?s + i)" "month_start (?s + i + 1) \<le> month_start (?s + 12)"
      by (simp_all only: month_start_le_iff)
    with i show "in_layout layout d" unfolding in_year by linarith
  qed
  with unique have "in_layout layout d \<longleftrightarrow> (\<exists>!p. ?P p)" by blast
  then show ?thesis by (simp add: y(6))
qed


theorem periods_tile_the_year_witness:
  "\<exists>layout. planFiscalYear ''2024'' 7 = Inr layout \<and> length (fyl_periods layout) = 12 \<and>
    (in_layout layout ''2025-02-28'' \<longleftrightarrow>
      (\<exists>!p. p \<in> set (fyl_periods layout) \<and> fyp_startsOn p \<le> ''2025-02-28'' \<and> ''2025-02-28'' \<le> fyp_endsOn p))"
proof -
  have "isFiscalYearCodeInRange ''2024''" by code_simp
  then obtain layout where l: "planFiscalYear ''2024'' 7 = Inr layout" using plan_exists [of _ 7] by auto
  have "isValidDate ''2025-02-28''" by code_simp
  with periods_tile_the_year [OF l] l show ?thesis by blast
qed

section \<open>Book years adjoin\<close>

lemma in_range_code:
  assumes "isFiscalYearCodeInRange code"
  shows "code = int_to_string (int (digits_value code))"
proof -
  let ?v = "digits_value code"
  have c: "list_all is_digit code" "length code = 4" "1960 \<le> ?v"
    using assms by (auto simp: isFiscalYearCodeInRange_def is_year_label_def FISCAL_YEAR_CODE_MIN_def)
  have "pad_start 4 CHR ''0'' (nat_to_string ?v) = code" using pad_digits_value [OF c(1,2)] by simp
  moreover have "?v < 10 ^ length (nat_to_string ?v)"
    using digits_value_bound [OF nat_to_string_digits, of ?v] by simp
  then have "10 ^ 3 < (10 :: nat) ^ length (nat_to_string ?v)" using c(3) by simp
  then have "3 < length (nat_to_string ?v)" by (simp only: power_strict_increasing_iff)
  ultimately show ?thesis by (simp add: pad_start_def int_to_string_def)
qed

lemma code_in_range_iff: "isFiscalYearCodeInRange (int_to_string n) \<longleftrightarrow> 1960 \<le> n \<and> n \<le> 2100"
proof (cases "0 \<le> n")
  case True
  let ?s = "nat_to_string (nat n)"
  have "length ?s = 4" if "1960 \<le> n" "n \<le> 2100"
  proof -
    have "nat n < 10 ^ length ?s" using digits_value_bound [OF nat_to_string_digits, of "nat n"] by simp
    moreover have "10 ^ 3 < nat n" using that by simp
    ultimately have "10 ^ 3 < (10 :: nat) ^ length ?s" by (rule less_trans [rotated])
    then have "3 < length ?s" by (simp only: power_strict_increasing_iff)
    moreover have "length ?s \<le> 4" using nat_to_string_length [of 4 "nat n"] that by simp
    ultimately show ?thesis by simp
  qed
  then show ?thesis using True
    by (auto simp: isFiscalYearCodeInRange_def is_year_label_def int_to_string_def FISCAL_YEAR_CODE_MIN_def
        FISCAL_YEAR_CODE_MAX_def nat_le_iff le_nat_iff)
next
  case False
  then show ?thesis
    by (auto simp: isFiscalYearCodeInRange_def is_year_label_def int_to_string_def is_digit_def)
qed

lemma digits_value_int_to_string: "0 \<le> n \<Longrightarrow> int (digits_value (int_to_string n)) = n"
  by (simp add: int_to_string_def)

text \<open>
  A book year and the one its close opens adjoin: the second starts on the day after the first ends, whatever
  the starting month, so that no date falls between two years or into both.
\<close>

theorem next_year_adjoins:
  assumes "planFiscalYear code startMonth = Inr this_year"
    "planFiscalYear (nextFiscalYearCode code) startMonth = Inr next_year"
  shows "dueDate (fyl_endsOn this_year) 1 = Inr (fyl_startsOn next_year)"
proof -
  obtain y where y: "y = int (digits_value code)" "1960 \<le> y" "y \<le> 2100" "is_year_label code"
    "1 \<le> startMonth" "startMonth \<le> 12"
    "fyl_endsOn this_year = iso_date (month_start (12 * y + startMonth + 11) - 1)"
    using assms(1) by (rule plan_ok)
  have "digits_value (nextFiscalYearCode code) = digits_value code + 1"
    using y(4) by (simp add: nextFiscalYearCode_def shift_code_def is_year_label_def int_to_string_def nat_add_distrib)
  moreover obtain z where "z = int (digits_value (nextFiscalYearCode code))" "z \<le> 2100"
    "fyl_startsOn next_year = iso_date (month_start (12 * z + startMonth - 1))"
    using assms(2) by (rule plan_ok)
  ultimately have z: "y + 1 \<le> 2100" "fyl_startsOn next_year = iso_date (month_start (12 * y + startMonth + 11))"
    using y(1) by (simp_all add: algebra_simps)
  let ?n = "month_start (12 * y + startMonth + 11)"
  have day: "date_parse (iso_date (?n - 1)) = Some (?n - 1)"
    using year_dates [OF y(2,3,5,6), of 12 1] by (simp add: valid_date_day algebra_simps)
  have "month_start (12 * 1960) \<le> ?n" "?n \<le> month_start (12 * 2102)"
    using y z by (simp_all only: month_start_le_iff)
  then have "\<bar>?n\<bar> \<le> 100000000"
    using month_start_day [of 0 1960] month_start_day [of 0 2102] by (simp add: day_from_year_def)
  with day y(7) z(2) show ?thesis by (simp add: dueDate_def)
qed

theorem next_year_adjoins_witness:
  "\<exists>this_year next_year. planFiscalYear ''2023'' 3 = Inr this_year \<and>
    planFiscalYear (nextFiscalYearCode ''2023'') 3 = Inr next_year \<and>
    dueDate (fyl_endsOn this_year) 1 = Inr (fyl_startsOn next_year)"
proof -
  have "isFiscalYearCodeInRange ''2023''" by code_simp
  moreover have "isFiscalYearCodeInRange (nextFiscalYearCode ''2023'')" by code_simp
  ultimately obtain a b where "planFiscalYear ''2023'' 3 = Inr a" "planFiscalYear (nextFiscalYearCode ''2023'') 3 = Inr b"
    using plan_exists [of "''2023''" 3] plan_exists [of "nextFiscalYearCode ''2023''" 3] by auto
  with next_year_adjoins show ?thesis by blast
qed

section \<open>The label of a date\<close>

definition in_book_year :: "int \<Rightarrow> int \<Rightarrow> int \<Rightarrow> bool" where
  "in_book_year sm n y \<longleftrightarrow> month_start (12 * y + sm - 1) \<le> n \<and> n < month_start (12 * y + sm - 1 + 12)"

lemma in_book_year_unique:
  assumes "in_book_year sm n y" "in_book_year sm n z"
  shows "y = z"
proof -
  have "month_start (12 * y + sm - 1) < month_start (12 * z + sm - 1 + 12)"
    "month_start (12 * z + sm - 1) < month_start (12 * y + sm - 1 + 12)"
    using assms by (simp_all add: in_book_year_def)
  then show ?thesis unfolding month_start_less_iff by presburger
qed

lemma candidate_loop_find:
  assumes "1 \<le> sm" "sm \<le> 12" "isValidDate d"
  shows "candidate_loop d sm cs =
    Inr (map_option int_to_string (find (\<lambda>n. 1960 \<le> n \<and> n \<le> 2100 \<and> in_book_year sm (day_of d) n) cs))"
proof (induction cs)
  case (Cons n cs)
  show ?case
  proof (cases "1960 \<le> n \<and> n \<le> 2100")
    case True
    then obtain layout where l: "planFiscalYear (int_to_string n) sm = Inr layout"
      using plan_exists [OF _ assms(1,2)] code_in_range_iff by blast
    have "int (digits_value (int_to_string n)) = n" using True by (simp add: digits_value_int_to_string)
    then have "in_layout layout d \<longleftrightarrow> in_book_year sm (day_of d) n"
      using in_layout_iff [OF l assms(3)] by (simp add: in_book_year_def)
    moreover have "fyl_code layout = int_to_string n" using l by (rule plan_ok)
    ultimately show ?thesis using Cons True l by (simp add: code_in_range_iff Let_def)
  next
    case False
    with Cons show ?thesis by (cases "1960 \<le> n") (simp_all add: code_in_range_iff Let_def)
  qed
qed simp

lemma years_around:
  "1 \<le> sm \<Longrightarrow> sm \<le> 12 \<Longrightarrow> 12 * y + sm - 1 < 12 * (Y + 1) \<Longrightarrow> 12 * Y < 12 * y + sm - 1 + 12 \<Longrightarrow>
   y = Y \<or> y = Y - 1" for y Y sm :: int
  by arith

lemma book_year_near:
  assumes "isValidDate d" "1 \<le> sm" "sm \<le> 12" "in_book_year sm (day_of d) y"
  shows "y = int (digits_value (take 4 d)) \<or> y = int (digits_value (take 4 d)) - 1"
proof -
  obtain Y m dd where c: "0 \<le> Y" "Y \<le> 9999" "valid_civil Y m dd" "d = iso_string Y m dd"
    "day_of d = make_day Y (int m - 1) dd"
    using assms(1) by (rule valid_date_civil)
  have b: "1 \<le> m" "m \<le> 12" "1 \<le> dd" using valid_civil_bounds [OF c(3)] by simp_all
  have "take 4 d = iso_year Y" using c by (simp add: iso_string_def)
  then have Y: "int (digits_value (take 4 d)) = Y" using iso_parts(3) [OF c(3,1,2)] c(1) by simp
  have "day_of d < month_start (12 * (Y + 1))" "month_start (12 * Y) \<le> day_of d"
    using day_in_year [OF c(3)] c(5) make_day_civil [OF c(3)] month_start_day [of 0 "Y + 1"] month_start_day [of 0 Y]
    by (simp_all add: day_from_year_Suc)
  with assms(4) have "month_start (12 * y + sm - 1) < month_start (12 * (Y + 1))"
    "month_start (12 * Y) < month_start (12 * y + sm - 1 + 12)" by (auto simp: in_book_year_def)
  then have "12 * y + sm - 1 < 12 * (Y + 1)" "12 * Y < 12 * y + sm - 1 + 12" by (simp_all only: month_start_less_iff)
  with assms(2,3) have "y = Y \<or> y = Y - 1" by (rule years_around)
  then show ?thesis using Y by simp
qed

text \<open>
  The label found for a date is the one book year that contains it: trying the calendar year, the one before
  and the one after loses none, whatever the starting month, and no label is found exactly when the date lies
  outside every book year that can be opened.
\<close>

theorem label_of_date:
  assumes "isValidDate d" "1 \<le> startMonth" "startMonth \<le> 12"
  shows "\<exists>found. fiscalYearCodeForDate d startMonth = Inr found \<and>
    (\<forall>code. found = Some code \<longleftrightarrow> (\<exists>layout. planFiscalYear code startMonth = Inr layout \<and> in_layout layout d))"
proof -
  have ten: "length d = 10" "is_date_shaped d" using assms(1) by (simp_all add: isValidDate_def is_date_shaped_def)
  let ?y = "int (digits_value (take 4 d))"
  let ?ok = "\<lambda>n. 1960 \<le> n \<and> n \<le> 2100 \<and> in_book_year startMonth (day_of d) n"
  let ?found = "find ?ok [?y, ?y - 1, ?y + 1]"
  have f: "fiscalYearCodeForDate d startMonth = Inr (map_option int_to_string ?found)"
    using ten unfolding fiscalYearCodeForDate_def Let_def candidate_loop_find [OF assms(2,3,1), symmetric] by simp
  have found: "?found = Some n \<longleftrightarrow> ?ok n" for n
    using book_year_near [OF assms, of n] in_book_year_unique [of startMonth "day_of d"] by auto
  have planned: "(\<exists>layout. planFiscalYear code startMonth = Inr layout \<and> in_layout layout d) \<longleftrightarrow>
      isFiscalYearCodeInRange code \<and> in_book_year startMonth (day_of d) (int (digits_value code))" for code
    using in_layout_iff [OF _ assms(1)] plan_exists [OF _ assms(2,3)] plan_in_range unfolding in_book_year_def by blast
  have "map_option int_to_string ?found = Some code \<longleftrightarrow>
      isFiscalYearCodeInRange code \<and> in_book_year startMonth (day_of d) (int (digits_value code))" for code
  proof
    assume "map_option int_to_string ?found = Some code"
    then obtain n where "code = int_to_string n" "?ok n" using found by auto
    then show "isFiscalYearCodeInRange code \<and> in_book_year startMonth (day_of d) (int (digits_value code))"
      by (simp add: code_in_range_iff digits_value_int_to_string)
  next
    assume r: "isFiscalYearCodeInRange code \<and> in_book_year startMonth (day_of d) (int (digits_value code))"
    then have code: "code = int_to_string (int (digits_value code))" by (simp add: in_range_code)
    with r code_in_range_iff have "?ok (int (digits_value code))" by metis
    then have "?found = Some (int (digits_value code))" using found by blast
    then show "map_option int_to_string ?found = Some code" using code by simp
  qed
  with f planned show ?thesis by auto
qed

theorem label_of_date_witness:
  "\<exists>found. fiscalYearCodeForDate ''2025-02-28'' 7 = Inr found \<and>
    (\<forall>code. found = Some code \<longleftrightarrow>
      (\<exists>layout. planFiscalYear code 7 = Inr layout \<and> in_layout layout ''2025-02-28''))"
proof (rule label_of_date)
  show "isValidDate ''2025-02-28''" by code_simp
qed simp_all

end
