(* ===== verification/Vat_Tax_Code.thy ===== *)
theory Vat_Tax_Code
  imports Calendar
begin

text \<open>
  The boxes of the VAT return and the rules that feed them: \<^verbatim>\<open>packages/core/src/vat/rubrieken.ts\<close> and
  \<^verbatim>\<open>vat/tax-code.ts\<close>. A rate or a share is an integer of the source's \<open>number\<close>; one that is no integer is
  refused in the same way as one out of range.
\<close>

section \<open>The form\<close>

datatype rubriek_carries = CarriesBase | CarriesVat | CarriesBoth

datatype rubriek_role = Owed | Deductible | Informational

record rubriek =
  ru_id :: string
  ru_section :: string
  ru_label :: string
  ru_carries :: rubriek_carries
  ru_role :: rubriek_role
  ru_computed :: bool
  ru_since :: "string option"
  ru_until :: "string option"

text \<open>The function \<open>rubriek\<close>, whose options are only ever \<open>computed\<close> in the table.\<close>

definition form_box :: "string \<Rightarrow> string \<Rightarrow> string \<Rightarrow> rubriek_carries \<Rightarrow> rubriek_role \<Rightarrow> bool \<Rightarrow> rubriek" where
  "form_box i heading label carries role computed =
     \<lparr>ru_id = i, ru_section = heading, ru_label = label, ru_carries = carries, ru_role = role,
      ru_computed = computed, ru_since = None, ru_until = None\<rparr>"

definition BINNENLAND :: string where "BINNENLAND = ''Prestaties binnenland''"
definition VERLEGD :: string where "VERLEGD = ''Verleggingsregelingen binnenland''"
definition BUITENLAND :: string where "BUITENLAND = ''Prestaties naar of in het buitenland''"
definition INKOMEND :: string where "INKOMEND = ''Prestaties vanuit het buitenland aan u verricht''"
definition BEREKENING :: string where "BEREKENING = ''Berekening totaal''"

definition RUBRIEKEN :: "rubriek list" where
  "RUBRIEKEN =
    [form_box ''1a'' BINNENLAND ''Leveringen/diensten belast met hoog tarief'' CarriesBoth Owed False,
     form_box ''1b'' BINNENLAND ''Leveringen/diensten belast met laag tarief'' CarriesBoth Owed False,
     form_box ''1c'' BINNENLAND ''Leveringen/diensten belast met overige tarieven, behalve 0%'' CarriesBoth Owed False,
     form_box ''1d'' BINNENLAND (''Priv'' @ [CHR 0xE9] @ ''gebruik'') CarriesBoth Owed False,
     form_box ''1e'' BINNENLAND ''Leveringen/diensten belast met 0% of niet bij u belast'' CarriesBase Informational False,
     form_box ''2a'' VERLEGD ''Leveringen/diensten waarbij de omzetbelasting naar u is verlegd'' CarriesBoth Owed False,
     form_box ''3a'' BUITENLAND ''Leveringen naar landen buiten de EU (uitvoer)'' CarriesBase Informational False,
     form_box ''3b'' BUITENLAND ''Leveringen naar of diensten in landen binnen de EU'' CarriesBase Informational False,
     form_box ''3c'' BUITENLAND ''Installatie/afstandsverkopen binnen de EU'' CarriesBase Informational False,
     form_box ''4a'' INKOMEND ''Leveringen/diensten uit landen buiten de EU'' CarriesBoth Owed False,
     form_box ''4b'' INKOMEND ''Leveringen/diensten uit landen binnen de EU'' CarriesBoth Owed False,
     form_box ''5a'' BEREKENING ''Verschuldigde omzetbelasting (rubrieken 1a t/m 4b)'' CarriesVat Owed True,
     form_box ''5b'' BEREKENING ''Voorbelasting'' CarriesVat Deductible False,
     form_box ''5c'' BEREKENING ''Totaal te betalen of terug te vragen'' CarriesVat Informational True]"

definition OWED_RUBRIEKEN :: "string list" where
  "OWED_RUBRIEKEN = map ru_id (filter (\<lambda>e. ru_role e = Owed \<and> \<not> ru_computed e) RUBRIEKEN)"

definition findRubriek :: "string \<Rightarrow> rubriek option" where
  "findRubriek i = find (\<lambda>e. ru_id e = i) RUBRIEKEN"

definition isAssignableRubriek :: "string \<Rightarrow> bool" where
  "isAssignableRubriek i = (case findRubriek i of None \<Rightarrow> False | Some found \<Rightarrow> \<not> ru_computed found)"

fun section_step :: "(string \<times> rubriek list) list \<Rightarrow> rubriek \<Rightarrow> (string \<times> rubriek list) list" where
  "section_step acc entry =
     (if acc \<noteq> [] \<and> fst (last acc) = ru_section entry
      then butlast acc @ [(fst (last acc), snd (last acc) @ [entry])]
      else acc @ [(ru_section entry, [entry])])"

definition rubriekSections :: "(string \<times> rubriek list) list" where
  "rubriekSections = foldl section_step [] RUBRIEKEN"

section \<open>The rule\<close>

datatype reverse_charge = NoReverseCharge | DomesticReverseCharge | ImportArticle23

datatype tax_scope =
    DomesticScope | IntraCommunitySupply | IntraCommunityAcquisition | ImportScope | ExportScope
  | PrivateUse | ExemptScope | OutOfScope

datatype deductibility = FullDeduction | ProRata | NoDeduction

datatype supply_kind = Goods | Services | NotApplicable

datatype tax_direction = OutputTax | InputTax

record tax_code_rule =
  tc_code :: string
  tc_description :: string
  tc_rateBasisPoints :: int
  tc_validFrom :: string
  tc_validTo :: "string option"
  tc_direction :: tax_direction
  tc_baseRubriek :: "string option"
  tc_vatRubriek :: "string option"
  tc_reverseCharge :: reverse_charge
  tc_scope :: tax_scope
  tc_deductibility :: deductibility
  tc_proRataBasisPoints :: "int option"
  tc_supplyKind :: supply_kind
  tc_ublCategory :: string
  tc_deductionCode :: "string option"

fun scope_text :: "tax_scope \<Rightarrow> string" where
  "scope_text DomesticScope = ''domestic''"
| "scope_text IntraCommunitySupply = ''intra_community_supply''"
| "scope_text IntraCommunityAcquisition = ''intra_community_acquisition''"
| "scope_text ImportScope = ''import''"
| "scope_text ExportScope = ''export''"
| "scope_text PrivateUse = ''private_use''"
| "scope_text ExemptScope = ''exempt''"
| "scope_text OutOfScope = ''out_of_scope''"

definition isReverseChargeDeduction :: "tax_code_rule \<Rightarrow> bool" where
  "isReverseChargeDeduction rule \<longleftrightarrow> tc_direction rule = InputTax \<and> tc_vatRubriek rule = Some ''5b'' \<and>
     (tc_scope rule = ImportScope \<or> tc_scope rule = IntraCommunityAcquisition)"

definition feedsIcp :: "tax_code_rule \<Rightarrow> bool" where
  "feedsIcp rule \<longleftrightarrow> tc_scope rule = IntraCommunitySupply"

definition recoverableBasisPoints :: "tax_code_rule \<Rightarrow> int" where
  "recoverableBasisPoints rule =
     (case tc_deductibility rule of
        FullDeduction \<Rightarrow> 10000
      | NoDeduction \<Rightarrow> 0
      | ProRata \<Rightarrow> (case tc_proRataBasisPoints rule of Some n \<Rightarrow> n | None \<Rightarrow> 0))"

definition isIsoDate :: "string \<Rightarrow> bool" where
  "isIsoDate s \<longleftrightarrow> is_date_shaped s \<and> date_parse s \<noteq> None"

section \<open>Checking a rule\<close>

definition field_path :: "tax_code_rule \<Rightarrow> string \<Rightarrow> string option" where
  "field_path rule field = Some (''taxCodes.'' @ tc_code rule @ ''.'' @ field)"

definition when_problem :: "bool \<Rightarrow> ledger_violation \<Rightarrow> ledger_violation list" where
  "when_problem c v = (if c then [v] else [])"

definition box_problems :: "tax_code_rule \<Rightarrow> string \<Rightarrow> string option \<Rightarrow> ledger_violation list" where
  "box_problems rule field box =
     (case box of
        None \<Rightarrow> []
      | Some i \<Rightarrow>
          if findRubriek i = None then
            [violation ''unknown_rubriek.rubriek_btw_aangifte'' (field_path rule field) (Some [(''id'', i)])]
          else if \<not> isAssignableRubriek i then
            [violation ''unknown_rubriek.rubriek_computed_subtotal'' (field_path rule field) (Some [(''id'', i)])]
          else [])"

definition declares_base :: "tax_code_rule \<Rightarrow> bool" where
  "declares_base rule \<longleftrightarrow> tc_vatRubriek rule \<noteq> Some ''5b'' \<and> tc_scope rule \<noteq> OutOfScope"

definition carries_problem ::
  "tax_code_rule \<Rightarrow> string \<Rightarrow> string \<Rightarrow> rubriek_carries \<Rightarrow> string option \<Rightarrow> ledger_violation list" where
  "carries_problem rule key field wrong box =
     (case Option.bind box findRubriek of
        None \<Rightarrow> []
      | Some r \<Rightarrow> when_problem (ru_carries r = wrong) (violation key (field_path rule field) (Some [(''id'', ru_id r)])))"

definition pro_rata_problems :: "tax_code_rule \<Rightarrow> ledger_violation list" where
  "pro_rata_problems rule =
     (if tc_deductibility rule = ProRata then
        when_problem (case tc_proRataBasisPoints rule of None \<Rightarrow> True | Some n \<Rightarrow> n \<le> 0 \<or> 10000 \<le> n)
          (violation ''invalid_tax_code.pro_rata_code'' (field_path rule ''proRataBasisPoints'') None)
      else
        when_problem (tc_proRataBasisPoints rule \<noteq> None)
          (violation ''invalid_tax_code.recoverable_share_only'' (field_path rule ''proRataBasisPoints'') None))"

fun expected_base :: "tax_scope \<Rightarrow> string list option" where
  "expected_base IntraCommunitySupply = Some [''3b'', ''3c'']"
| "expected_base IntraCommunityAcquisition = Some [''4b'']"
| "expected_base ImportScope = Some [''4a'']"
| "expected_base ExportScope = Some [''3a'']"
| "expected_base PrivateUse = Some [''1d'']"
| "expected_base _ = None"

definition scope_problems :: "tax_code_rule \<Rightarrow> ledger_violation list" where
  "scope_problems rule =
     (case (expected_base (tc_scope rule), tc_baseRubriek rule) of
        (Some allowed, Some i) \<Rightarrow>
          when_problem (i \<notin> set allowed)
            (violation ''invalid_tax_code.scope_declares_base'' (field_path rule ''baseRubriek'')
              (Some [(''scope'', scope_text (tc_scope rule)), (''allowed'', join_with '' or '' allowed), (''baseRubriek'', i)]))
      | _ \<Rightarrow> [])"

definition checkTaxCodeRule :: "tax_code_rule \<Rightarrow> ledger_violation list" where
  "checkTaxCodeRule rule =
     when_problem (js_trim (tc_code rule) = [])
       (violation ''invalid_tax_code.tax_code_code'' (field_path rule ''code'') None) @
     when_problem (tc_rateBasisPoints rule < 0 \<or> 10000 < tc_rateBasisPoints rule)
       (violation ''invalid_tax_code.rate_basis_points'' (field_path rule ''rateBasisPoints'') None) @
     when_problem (\<not> isIsoDate (tc_validFrom rule))
       (violation ''invalid_date.validfrom_date'' (field_path rule ''validFrom'') None) @
     when_problem (case tc_validTo rule of None \<Rightarrow> False | Some t \<Rightarrow> \<not> isIsoDate t)
       (violation ''invalid_date.validto_date_null'' (field_path rule ''validTo'') None) @
     when_problem (case tc_validTo rule of None \<Rightarrow> False | Some t \<Rightarrow> isIsoDate (tc_validFrom rule) \<and> t < tc_validFrom rule)
       (violation ''invalid_date.validity_window_end'' (field_path rule ''validTo'') None) @
     box_problems rule ''baseRubriek'' (tc_baseRubriek rule) @
     box_problems rule ''vatRubriek'' (tc_vatRubriek rule) @
     when_problem (declares_base rule \<and> tc_baseRubriek rule = None)
       (violation ''invalid_tax_code.base_box_named'' (field_path rule ''baseRubriek'') None) @
     when_problem (\<not> declares_base rule \<and> tc_baseRubriek rule \<noteq> None)
       (violation ''invalid_tax_code.aangifte_base_box'' (field_path rule ''baseRubriek'') None) @
     carries_problem rule ''invalid_tax_code.rubriek_reports_base'' ''baseRubriek'' CarriesVat (tc_baseRubriek rule) @
     carries_problem rule ''invalid_tax_code.rubriek_reports_vat'' ''vatRubriek'' CarriesBase (tc_vatRubriek rule) @
     when_problem (0 < tc_rateBasisPoints rule \<and> tc_vatRubriek rule = None)
       (violation ''invalid_tax_code.rate_needs_rubriek'' (field_path rule ''vatRubriek'') None) @
     when_problem (tc_rateBasisPoints rule = 0 \<and> tc_vatRubriek rule \<noteq> None)
       (violation ''invalid_tax_code.zero_rate_code'' (field_path rule ''vatRubriek'') None) @
     pro_rata_problems rule @
     when_problem (tc_direction rule = OutputTax \<and> tc_deductibility rule \<noteq> FullDeduction)
       (violation ''invalid_tax_code.deductibility_describes_input'' (field_path rule ''deductibility'') None) @
     scope_problems rule @
     when_problem (tc_scope rule = IntraCommunitySupply \<and> tc_supplyKind rule = NotApplicable)
       (violation ''invalid_tax_code.supply_kind_named'' (field_path rule ''supplyKind'') None) @
     when_problem (tc_reverseCharge rule = DomesticReverseCharge \<and> tc_rateBasisPoints rule \<noteq> 0 \<and>
         tc_direction rule = OutputTax)
       (violation ''invalid_tax_code.under_domestic_reverse'' (field_path rule ''rateBasisPoints'') None) @
     when_problem (tc_reverseCharge rule = ImportArticle23 \<and> tc_scope rule \<noteq> ImportScope)
       (violation ''invalid_tax_code.article_deferment_applies'' (field_path rule ''scope'') None)"

definition assertTaxCodeRule :: "tax_code_rule \<Rightarrow> thrown + unit" where
  "assertTaxCodeRule rule =
     (let problems = checkTaxCodeRule rule in if problems \<noteq> [] then Inl (LedgerError problems) else Inr ())"

definition ruleInForce :: "tax_code_rule list \<Rightarrow> string \<Rightarrow> string \<Rightarrow> tax_code_rule option" where
  "ruleInForce rules code onDate =
     find (\<lambda>rule. tc_code rule = code \<and> tc_validFrom rule \<le> onDate \<and>
       (case tc_validTo rule of None \<Rightarrow> True | Some t \<Rightarrow> onDate \<le> t)) rules"

section \<open>What an accepted rule can declare\<close>

lemma when_problem_Nil [simp]: "when_problem c v = [] \<longleftrightarrow> \<not> c"
  by (simp add: when_problem_def)

lemmas form_simps = RUBRIEKEN_def form_box_def findRubriek_def isAssignableRubriek_def OWED_RUBRIEKEN_def

text \<open>The boxes a code can be assigned to, by what they carry: every box that takes VAT is owed or 5b.\<close>

lemma findRubriek_in: "findRubriek i = Some r \<Longrightarrow> r \<in> set RUBRIEKEN \<and> ru_id r = i"
  unfolding findRubriek_def by (metis (mono_tags) find_Some_iff nth_mem)

lemma form_table:
  "list_all (\<lambda>r. \<not> ru_computed r \<longrightarrow>
     (ru_carries r \<noteq> CarriesBase \<longrightarrow> ru_id r \<in> set OWED_RUBRIEKEN \<and> ru_role r = Owed \<or> ru_id r = ''5b'' \<and> ru_role r = Deductible) \<and>
     (ru_carries r = CarriesVat \<longleftrightarrow> ru_id r = ''5b'')) RUBRIEKEN"
  by code_simp

lemma form_ids: "distinct (map ru_id RUBRIEKEN)"
  by code_simp

lemma assignable_boxes:
  assumes "findRubriek i = Some r" "\<not> ru_computed r"
  shows "ru_carries r \<noteq> CarriesBase \<Longrightarrow> i \<in> set OWED_RUBRIEKEN \<and> ru_role r = Owed \<or> i = ''5b'' \<and> ru_role r = Deductible"
    and "ru_carries r = CarriesVat \<longleftrightarrow> i = ''5b''"
  using findRubriek_in [OF assms(1)] form_table assms(2) by (auto simp: list_all_iff)

lemma box_problems_Nil: "box_problems rule field box = [] \<longleftrightarrow>
    (\<forall>i. box = Some i \<longrightarrow> (\<exists>r. findRubriek i = Some r \<and> \<not> ru_computed r))"
  by (auto simp: box_problems_def isAssignableRubriek_def split: option.splits)

lemma box_problems_assignable: "box_problems rule field box = [] \<longleftrightarrow>
    (case box of None \<Rightarrow> True | Some i \<Rightarrow> isAssignableRubriek i)"
  by (auto simp: box_problems_def isAssignableRubriek_def split: option.splits)

lemma carries_problem_Nil_code: "carries_problem rule key field wrong box = [] \<longleftrightarrow>
    (case Option.bind box findRubriek of None \<Rightarrow> True | Some r \<Rightarrow> ru_carries r \<noteq> wrong)"
  by (simp add: carries_problem_def split: option.splits)

text \<open>The check as a condition, with no message in it to render.\<close>

lemmas checkTaxCodeRule_Nil = checkTaxCodeRule_def append_is_Nil_conv when_problem_Nil box_problems_assignable
  carries_problem_Nil_code

lemma carries_problem_Nil: "carries_problem rule key field wrong box = [] \<longleftrightarrow>
    (\<forall>i r. box = Some i \<longrightarrow> findRubriek i = Some r \<longrightarrow> ru_carries r \<noteq> wrong)"
  by (cases box) (auto simp: carries_problem_def split: option.splits)

lemma coherent_rule:
  assumes "assertTaxCodeRule rule = Inr ()"
  shows "(tc_rateBasisPoints rule = 0 \<longleftrightarrow> tc_vatRubriek rule = None) \<and>
    (\<forall>i. tc_vatRubriek rule = Some i \<longrightarrow> i \<in> set OWED_RUBRIEKEN \<or> i = ''5b'') \<and>
    (tc_baseRubriek rule = None \<longleftrightarrow> tc_vatRubriek rule = Some ''5b'' \<or> tc_scope rule = OutOfScope) \<and>
    (\<forall>i. tc_baseRubriek rule = Some i \<longrightarrow>
      i \<noteq> ''5b'' \<and> isAssignableRubriek i \<and> (\<forall>allowed. expected_base (tc_scope rule) = Some allowed \<longrightarrow> i \<in> set allowed)) \<and>
    0 \<le> recoverableBasisPoints rule \<and> recoverableBasisPoints rule \<le> 10000"
proof -
  have none: "checkTaxCodeRule rule = []" using assms by (simp add: assertTaxCodeRule_def Let_def split: if_splits)
  note parts = none [unfolded checkTaxCodeRule_def append_is_Nil_conv when_problem_Nil]
  have box: "\<exists>r. findRubriek i = Some r \<and> \<not> ru_computed r"
    if "tc_baseRubriek rule = Some i \<or> tc_vatRubriek rule = Some i" for i
    using parts that unfolding box_problems_Nil by blast
  have vat: "i \<in> set OWED_RUBRIEKEN \<or> i = ''5b''" if v: "tc_vatRubriek rule = Some i" for i
  proof -
    obtain r where r: "findRubriek i = Some r" "\<not> ru_computed r" using box v by blast
    then have "ru_carries r \<noteq> CarriesBase" using parts v unfolding carries_problem_Nil by blast
    with assignable_boxes(1) [OF r] show ?thesis by blast
  qed
  have base: "i \<noteq> ''5b'' \<and> isAssignableRubriek i \<and> (\<forall>allowed. expected_base (tc_scope rule) = Some allowed \<longrightarrow> i \<in> set allowed)"
    if b: "tc_baseRubriek rule = Some i" for i
  proof -
    obtain r where r: "findRubriek i = Some r" "\<not> ru_computed r" using box b by blast
    then have "ru_carries r \<noteq> CarriesVat" using parts b unfolding carries_problem_Nil by blast
    moreover have "scope_problems rule = []" using parts by blast
    ultimately show ?thesis
      using r assignable_boxes(2) [OF r] b
      by (auto simp: isAssignableRubriek_def scope_problems_def)
  qed
  have "0 \<le> recoverableBasisPoints rule \<and> recoverableBasisPoints rule \<le> 10000"
    using parts unfolding pro_rata_problems_def recoverableBasisPoints_def
    by (auto split: deductibility.splits option.splits if_splits)
  moreover have "tc_rateBasisPoints rule = 0 \<longleftrightarrow> tc_vatRubriek rule = None"
    using parts by (metis linorder_neqE_linordered_idom)
  moreover have "tc_baseRubriek rule = None \<longleftrightarrow> tc_vatRubriek rule = Some ''5b'' \<or> tc_scope rule = OutOfScope"
    using parts unfolding declares_base_def by blast
  ultimately show ?thesis using vat base by blast
qed

lemma coherent_vat_box:
  "assertTaxCodeRule rule = Inr () \<Longrightarrow> tc_vatRubriek rule = Some i \<Longrightarrow> i \<in> set OWED_RUBRIEKEN \<or> i = ''5b''"
  using coherent_rule by blast

text \<open>
  C32: A rule that passes the check is coherent: it declares VAT exactly when its rate is not zero, and then in a box
  that the return adds to what is owed or in 5b; its base goes nowhere exactly when its VAT is voorbelasting or
  it is out of scope, and otherwise into a box that takes a base and that its scope allows.
\<close>

theorem accepted_rule_is_coherent:
  assumes "assertTaxCodeRule rule = Inr ()"
  shows "(tc_rateBasisPoints rule = 0 \<longleftrightarrow> tc_vatRubriek rule = None) \<and>
    (\<forall>i. tc_vatRubriek rule = Some i \<longrightarrow> i \<in> set OWED_RUBRIEKEN \<or> i = ''5b'') \<and>
    (tc_baseRubriek rule = None \<longleftrightarrow> tc_vatRubriek rule = Some ''5b'' \<or> tc_scope rule = OutOfScope) \<and>
    (\<forall>i. tc_baseRubriek rule = Some i \<longrightarrow>
      i \<noteq> ''5b'' \<and> isAssignableRubriek i \<and> (\<forall>allowed. expected_base (tc_scope rule) = Some allowed \<longrightarrow> i \<in> set allowed)) \<and>
    0 \<le> recoverableBasisPoints rule \<and> recoverableBasisPoints rule \<le> 10000"
  by (rule coherent_rule [OF assms])

definition high_rate :: tax_code_rule where
  "high_rate = \<lparr>tc_code = ''VH'', tc_description = ''Hoog'', tc_rateBasisPoints = 2100, tc_validFrom = ''2019-01-01'',
     tc_validTo = None, tc_direction = OutputTax, tc_baseRubriek = Some ''1a'', tc_vatRubriek = Some ''1a'',
     tc_reverseCharge = NoReverseCharge, tc_scope = DomesticScope, tc_deductibility = FullDeduction,
     tc_proRataBasisPoints = None, tc_supplyKind = NotApplicable, tc_ublCategory = ''S'', tc_deductionCode = None\<rparr>"

lemma high_rate_accepted: "assertTaxCodeRule high_rate = Inr ()"
proof -
  have "checkTaxCodeRule high_rate = []"
    unfolding checkTaxCodeRule_Nil pro_rata_problems_def scope_problems_def by (intro conjI; code_simp)
  then show ?thesis by (simp add: assertTaxCodeRule_def)
qed

theorem accepted_rule_is_coherent_witness: "''1a'' \<in> set OWED_RUBRIEKEN \<or> ''1a'' = ''5b''"
  using accepted_rule_is_coherent [OF high_rate_accepted] by (simp add: high_rate_def)

end
