(* ===== verification/Finding_Messages.thy ===== *)
theory Finding_Messages
  imports Violations
begin

text \<open>
  \<^verbatim>\<open>packages/core/src/finding-messages.ts\<close>: the catalogue of every sentence a check reports a finding with, as
  an association list in the order of the source, in four parts, and its rendering, which is that of the
  violations.
\<close>

definition finding_messages_1 :: "(string \<times> string) list" where
  "finding_messages_1 =
    [(''icp.counterparty_without_vat_number'',
       ''An intra-community supply is zero-rated to a customer with no VAT number on file. The customer'' @ right_quote @ ''s number is a condition of the zero rate, not a detail.''),
     (''icp.icp_mismatch'',
       ''The opgaaf totals {total} and rubriek 3b declares {rubriek3b} (minor units). The two describe the same supplies and must agree; the findings above name the lines the opgaaf could not place.''),
     (''icp.proof_predates_period'',
       ''The VIES check for this customer predates the period being declared. A number can be deregistered between one quarter and the next, so the proof is weaker than a check made during the period.''),
     (''icp.supply_without_counterparty'',
       ''An intra-community supply is posted with no customer on the line, so it cannot appear in the opgaaf. The aangifte declares it in 3b and the opgaaf cannot, which is the mismatch the Belastingdienst checks for first.''),
     (''icp.vat_number_invalid'',
       ''VIES says this VAT number is not valid. The zero rate does not apply, and the supply has to be corrected before either filing goes out.''),
     (''icp.vat_number_malformed'',
       ''A customer'' @ right_quote @ ''s VAT number is not the shape that member state issues. VIES will refuse it, so it is refused here where it can still be corrected.''),
     (''icp.vat_number_not_eu'',
       ''A supply is declared as intra-community to a customer whose VAT number is not from an EU member state. Either the number or the tax code is wrong.''),
     (''icp.vat_number_unproven'',
       ''This VAT number has never been checked against VIES, or the last attempt could not reach it. What VIES said and when is the evidence for applying the zero rate; without it there is nothing to show.''),
     (''inbound.credit_note'',
       ''This is a credit note. It reduces what is owed, and its amounts are booked the other way round.''),
     (''inbound.currency_not_functional'',
       ''The document is in {currency} and the books are in {functionalCurrency}. The amounts are recorded as stated; the conversion is not done here.''),
     (''inbound.no_due_date'',
       ''The document carries no due date (BT-9). The supplier'' @ right_quote @ ''s payment terms have been used instead.''),
     (''inbound.no_invoice_number'',
       ''The document carries no invoice number (BT-1), so there is nothing to book it under or to recognise it by if it arrives again.''),
     (''inbound.no_supplier_identifier'',
       ''The document identifies its sender by name only '' @ em_dash @ '' no VAT number, no KvK number, no Peppol address '' @ em_dash @ '' so it cannot be matched to a supplier automatically.''),
     (''inbound.no_tax_category'',
       ''Line {lineNumber} says nothing about its VAT category, so no tax code could be suggested.''),
     (''inbound.totals_disagree_with_lines'',
       ''The document's own total excluding VAT is {declared} and its lines add up to {fromLines}. Both are recorded as they are; the difference is usually a document-level charge or allowance, which is not read here.''),
     (''inbound.unmapped_tax_category'',
       ''Line {lineNumber} is category {categoryCode} at {percent}%, and no input tax code matches it. Code it by hand.'')]"

definition finding_messages_2 :: "(string \<times> string) list" where
  "finding_messages_2 =
    [(''payment.duplicate_end_to_end_id'',
       ''{endToEndId} appears twice. A bank may treat that as a duplicate payment.''),
     (''payment.empty_batch'',
       ''A payment batch with no instructions pays nobody.''),
     (''payment.invalid_amount'',
       ''A payment of zero or less is not a payment.''),
     (''payment.invalid_bic.creditor'',
       ''{creditorBic} is not a valid BIC.''),
     (''payment.invalid_bic.debtor'',
       ''{debtorBic} is not a valid BIC.''),
     (''payment.invalid_characters'',
       ''SEPA does not accept {characters}.''),
     (''payment.invalid_currency'',
       ''A SEPA credit transfer is in euro. Use a different instrument for other currencies.''),
     (''payment.invalid_date'',
       ''The execution date is yyyy-mm-dd.''),
     (''payment.invalid_iban.creditor'',
       ''{creditorIban} is not a valid IBAN.''),
     (''payment.invalid_iban.debtor'',
       ''{debtorIban} is not a valid IBAN.''),
     (''payment.missing_name.payee'',
       ''A payee needs a name.''),
     (''payment.missing_name.payer'',
       ''The payer needs a name.''),
     (''paymentRun.credit_exceeds_invoices'',
       ''{contactName} has {net} more credited than invoiced. That is a refund to ask them for, not a payment to send.''),
     (''paymentRun.invalid_iban'',
       ''{contactName}'s IBAN does not pass its own check digits. A mistyped IBAN gets the whole batch refused.''),
     (''paymentRun.mixed_currencies'',
       ''{contactName} has {count} open document(s) in another currency than the batch's {currency}. A pain.001 batch carries one currency; put those in their own run.''),
     (''paymentRun.no_iban'',
       ''{contactName} is owed {net} and has no IBAN on file. Add it under Relaties.''),
     (''paymentRun.nothing_owed'',
       ''{contactName}'s open invoices and credit notes cancel out exactly. Nothing to pay, and nothing wrong.''),
     (''purchase.duplicate_invoice_number'',
       ''This supplier has already sent invoice {supplierInvoiceNumber}. Booking it twice is how an invoice gets paid twice.''),
     (''purchase.lines_do_not_sum_to_net'',
       ''The lines add up to {lineNet} and the invoice states {netMinorUnits}. A line is missing or mistyped '' @ em_dash @ '' what is in the system is not the document.''),
     (''purchase.lines_do_not_sum_to_tax'',
       ''The lines' VAT adds up to {lineTax} and the invoice states {taxMinorUnits}.''),
     (''purchase.net_plus_tax_is_not_total'',
       ''{netMinorUnits} plus {taxMinorUnits} is not {totalMinorUnits}. Check the figures against the document.''),
     (''purchase.no_rule_in_force'',
       ''Tax code {taxCode} has no rule valid on {invoiceDate}.''),
     (''purchase.unknown_tax_code.no_such_code'',
       ''There is no tax code {taxCode}.''),
     (''purchase.not_deductible'',
       ''{taxCode} is not deductible, so the {taxMinorUnits} of VAT on line {lineNumber} becomes part of the cost rather than voorbelasting.''),
     (''purchase.pro_rata'',
       ''{taxCode} is {share}% deductible, so {deductible} of line {lineNumber}'s VAT goes to voorbelasting and {deductible} to the cost.''),
     (''purchase.rate_mismatch'',
       ''Line {lineNumber} charges {taxMinorUnits} where {taxCode} at {rate}% over {netMinorUnits} would be {expected}. The invoice is booked as stated; check whether the code is right.''),
     (''purchase.reverse_charge_with_tax'',
       ''Line {lineNumber} uses {taxCode}, which means the VAT is ours to declare '' @ em_dash @ '' but the invoice charges {taxMinorUnits} of it. Either the supplier should not have charged VAT, or this is the wrong code.''),
     (''purchase.unknown_tax_code'',
       ''Tax code {taxCode} is an output code. A purchase invoice needs an input code '' @ em_dash @ '' the VAT on it is ours to deduct, not to charge.'')]"

definition finding_messages_3 :: "(string \<times> string) list" where
  "finding_messages_3 =
    [(''vat.code_declares_no_base'',
       ''A taxable base is posted under a code the aangifte gives no base box and that does not declare VAT either. Nothing about those lines reaches the return.''),
     (''vat.code_declares_no_vat'',
       ''VAT is posted under a zero-rate code, which has no rubriek to declare it in. Either the rate or the posting is wrong.''),
     (''vat.control_account_difference'',
       ''Account {accountNumber} {accountName} moved {taggedMovementMinorUnits} on tax-coded lines but the return declares {declaredMinorUnits} (minor units). The difference is the VAT that did not reach a rubriek '' @ em_dash @ '' the findings above name every line of it.''),
     (''vat.no_rule_in_force'',
       ''A tax code exists but has no rule valid on the booking date, so those lines cannot be assigned to a rubriek. Klopt has no fix for this yet '' @ em_dash @ '' a code'' @ right_quote @ ''s start date cannot be changed here. Check the booking date and the rate in the source.''),
     (''vat.rate_mismatch'',
       ''Rubriek {id} declares VAT that its own base and rate do not produce. Expected roughly {expected}, found {vatMinorUnits} (minor units). A manual correction explains this; a miscoded line also does.''),
     (''vat.unknown_tax_code'',
       ''Journal lines carry a tax code that no configured code matches, so their VAT is in the books but not in the return.''),
     (''vat.untagged_control_movement'',
       ''A VAT control account moved without a tax code. A payment to or refund from the Belastingdienst looks exactly like this, and so does VAT booked by hand.''),
     (''vat.moneybird_untagged_vat'',
       ''VAT from imported Moneybird documents is missing. Klopt cannot fix this yet: it leaves the VAT of {count} Moneybird documents out of boxes 1a and 5b, so those boxes are too low. You can'' @ right_quote @ ''t file this period through Klopt. You can file it yourself or with a tax adviser using corrected figures.''),
     (''vat.moneybird_untagged_vat_one'',
       ''VAT from imported Moneybird documents is missing. Klopt cannot fix this yet: it leaves the VAT of {count} Moneybird document out of boxes 1a and 5b, so those boxes are too low. You can'' @ right_quote @ ''t file this period through Klopt. You can file it yourself or with a tax adviser using corrected figures.''),
     (''vat.moneybird_untagged_vat_other'',
       ''VAT from imported Moneybird documents is missing. Klopt cannot fix this yet: it leaves the VAT of {count} Moneybird documents out of boxes 1a and 5b, so those boxes are too low. You can'' @ right_quote @ ''t file this period through Klopt. You can file it yourself or with a tax adviser using corrected figures.''),
     (''vat.moneybird_self_assessed_unsupported'',
       ''Klopt cannot fix this yet: {count} imported Moneybird reverse-charge or intra-EU purchases need self-assessed VAT in boxes 2a/4a/4b and 5b, which the import does not book. You can'' @ right_quote @ ''t file this period through Klopt. You can file it yourself or with a tax adviser using corrected figures. Filing through Klopt will work once Klopt supports this; don'' @ right_quote @ ''t wait for that if your filing deadline comes first.''),
     (''vat.moneybird_self_assessed_unsupported_one'',
       ''Klopt cannot fix this yet: {count} imported Moneybird reverse-charge or intra-EU purchase needs self-assessed VAT in boxes 2a/4a/4b and 5b, which the import does not book. You can'' @ right_quote @ ''t file this period through Klopt. You can file it yourself or with a tax adviser using corrected figures. Filing through Klopt will work once Klopt supports this; don'' @ right_quote @ ''t wait for that if your filing deadline comes first.''),
     (''vat.moneybird_self_assessed_unsupported_other'',
       ''Klopt cannot fix this yet: {count} imported Moneybird reverse-charge or intra-EU purchases need self-assessed VAT in boxes 2a/4a/4b and 5b, which the import does not book. You can'' @ right_quote @ ''t file this period through Klopt. You can file it yourself or with a tax adviser using corrected figures. Filing through Klopt will work once Klopt supports this; don'' @ right_quote @ ''t wait for that if your filing deadline comes first.''),
     (''vat.moneybird_untagged_vat_export'',
       ''Note: the VAT totals in this export (1a, 5b) leave out the VAT of imported Moneybird documents.''),
     (''vat.moneybird_self_assessed_unsupported_export'',
       ''Note: this export leaves out self-assessed VAT (2a/4a/4b and 5b) from imported Moneybird reverse-charge or intra-EU documents. Klopt does not book that VAT yet.'')]"

definition finding_messages_4 :: "(string \<times> string) list" where
  "finding_messages_4 =
    [(''xaf.accounts_without_rgs'',
       ''{unmapped} of {total} accounts have no RGS lead code: {accounts}''),
     (''xaf.date_outside_fiscal_year'',
       ''{trDt} is outside the fiscal year in the header.''),
     (''xaf.duplicate_account'',
       ''Duplicate account {accID}.''),
     (''xaf.duplicate_journal'',
       ''Duplicate journal {jrnID}.''),
     (''xaf.duplicate_transaction'',
       ''Duplicate transaction number {nr} in this journal.''),
     (''xaf.field_too_long'',
       ''Exceeds the schema's {limit} character limit ({count}).''),
     (''xaf.file_unbalanced'',
       ''The file does not balance: {totalDebit} debit against {totalCredit} credit.''),
     (''xaf.invalid_country'',
       ''Must be a two-letter ISO 3166 code.''),
     (''xaf.invalid_currency'',
       dquote @ ''{curCode}'' @ dquote @ '' is not an ISO 4217 code.''),
     (''xaf.invalid_date'',
       dquote @ ''{value}'' @ dquote @ '' is not an ISO date.''),
     (''xaf.negative_amount'',
       ''XAF amounts are unsigned.''),
     (''xaf.opening_balance_unbalanced'',
       ''Does not balance: {openingDebit} debit against {openingCredit} credit.''),
     (''xaf.period_reversed'',
       ''endDate is before startDate.''),
     (''xaf.transaction_unbalanced'',
       ''Does not balance: {transactionDebit} debit against {transactionCredit} credit, in minor units.''),
     (''xaf.transaction_without_lines'',
       ''A transaction with no lines.''),
     (''xaf.unknown_account'',
       ''References unknown account {accountId}.''),
     (''xaf.unknown_offset_account'',
       ''Unknown account {offsetAccID}.''),
     (''xaf.unknown_party'',
       ''References unknown party {custSupID}.''),
     (''xaf.unknown_period'',
       ''Period {periodNumber} is not declared.''),
     (''xaf.unknown_vat_code'',
       ''References unknown VAT code {vatID}.''),
     (''moneybird.unknown_currency'',
       ''This administration is kept in {currency} and these books are in {functionalCurrency}. Importing would convert every amount at a rate nobody has chosen.''),
     (''moneybird.unknown_currency_document'',
       ''{reference} is in {currency} and these books are in {functionalCurrency}. Choose an exchange rate before importing it.''),
     (''moneybird.unmapped_account'',
       ''Ledger account {name} ({number}) has no confirmed Klopt account. Map it before importing.''),
     (''moneybird.unmapped_tax_rate'',
       ''Tax rate {name} ({percentage}) has no confirmed Klopt VAT code. Map it before importing.''),
     (''moneybird.incompatible_tax_rate'',
       ''Tax rate {name} ({percentage}) cannot map to {mappedCode}: direction or rate does not match the chart.''),
     (''moneybird.incompatible_tax_rate_both_sides'',
       ''Direction unknown: this tax rate is used on both sales and purchase invoices.''),
     (''moneybird.null_percentage_vat_mismatch'',
       ''Tax rate {name} has no percentage, but {count} documents still show VAT ({references}). Mapping it to 0% would drop that VAT from the return '' @ em_dash @ '' fix the rate or the documents in Moneybird first.''),
     (''moneybird.null_percentage_vat_mismatch_one'',
       ''Tax rate {name} has no percentage, but {count} document still shows VAT ({references}). Mapping it to 0% would drop that VAT from the return '' @ em_dash @ '' fix the rate or the documents in Moneybird first.''),
     (''moneybird.null_percentage_vat_mismatch_other'',
       ''Tax rate {name} has no percentage, but {count} documents still show VAT ({references}). Mapping it to 0% would drop that VAT from the return '' @ em_dash @ '' fix the rate or the documents in Moneybird first.''),
     (''moneybird.self_assessed_vat_unsupported'',
       ''Klopt cannot book self-assessed VAT for reverse-charge or intra-EU purchases yet. {reference} will import, but filing through Klopt stays blocked. Filing through Klopt will work once Klopt supports this; don'' @ right_quote @ ''t wait for that if your filing deadline comes first.''),
     (''moneybird.tax_code_not_in_force'',
       ''{reference} is dated {bookingDate}, but that VAT code does not apply yet on that date in Klopt. There is no fix inside Klopt yet. Check the date and the rate in Moneybird.''),
     (''moneybird.vat_without_tax_rate'',
       ''{reference} dated {bookingDate} shows VAT, but its lines have no VAT rate that carries that VAT. Klopt cannot place that VAT in the return.''),
     (''moneybird.account_number_collision'',
       ''Moneybird returned ledger number {number} twice ({name}).''),
     (''moneybird.contact_number_collision'',
       ''Moneybird returned contact number {number} twice ({name}).''),
     (''moneybird.resource_unreadable'',
       ''Moneybird refused {resource} (HTTP {status}): {detail}. Unreadable is not empty, so this is not reported as reconciled.''),
     (''moneybird.trial_balance_empty'',
       ''No booked history was read for year {year}. That is not a balanced empty year.''),
     (''moneybird.trial_balance_unbalanced'',
       ''The Moneybird history for {year} does not balance: in {debit} / out {credit}.''),
     (''moneybird.trial_balance_account_missing'',
       ''Year {year} has a balance on {number}, which is not in the chart being imported.''),
     (''moneybird.period_locked'',
       ''{reference} is dated in a closed year ({year}). It is reported rather than posted.''),
     (''moneybird.unbalanced_document'',
       ''{reference} does not balance: in {debit} / out {credit}.''),
     (''moneybird.attachment_without_url'',
       ''Attachment {filename} has no download URL, so the file cannot be stored.''),
     (''moneybird.draft_skipped'',
       ''{reference} is still {state} in Moneybird and is not imported.''),
     (''moneybird.derived_account_type'',
       ''{number} ({name}) has Moneybird type {accountType}, which is not a known account type. It is being read as an asset. Check it before posting to it.''),
     (''moneybird.fiscal_year_start_mismatch'',
       ''Moneybird starts the year in month {moneybirdMonth} and these books start in month {entityMonth}. Importing would post into the wrong periods.''),
     (''moneybird.fiscal_year_start_unknown'',
       ''Moneybird did not say which month the year starts (no period_start_date). Check the year start before trusting the imported periods.'')]"

definition FINDING_MESSAGES :: "(string \<times> string) list" where
  "FINDING_MESSAGES =
     finding_messages_1 @ finding_messages_2 @ finding_messages_3 @ finding_messages_4"

text \<open>
  The key is a \<open>keyof typeof FINDING_MESSAGES\<close>, so the lookup cannot miss; the model answers an unknown key
  with an empty text.
\<close>

definition renderFindingMessage :: "string \<Rightarrow> violation_detail option \<Rightarrow> string" where
  "renderFindingMessage key detail =
     (let msg = (case map_of FINDING_MESSAGES key of Some t \<Rightarrow> t | None \<Rightarrow> [])
      in case detail of None \<Rightarrow> msg | Some d \<Rightarrow> render_message msg d)"

end
