(* ===== verification/Insertion_Maps.thy ===== *)
theory Insertion_Maps
  imports Prelude
begin

text \<open>
  A JavaScript \<open>Map\<close> that is filled while scanning: the entries in the order of their first insertion.
  \<open>map_alter k d f m\<close> is the idiom of the sources that fetches the seat of \<open>k\<close>, creates it as \<open>d\<close> when it is
  missing and changes it by \<open>f\<close>; \<open>seat_or\<close> reads with a default.
\<close>

fun map_alter :: "'k \<Rightarrow> 'v \<Rightarrow> ('v \<Rightarrow> 'v) \<Rightarrow> ('k \<times> 'v) list \<Rightarrow> ('k \<times> 'v) list" where
  "map_alter k d f [] = [(k, f d)]"
| "map_alter k d f ((j, v) # m) = (if j = k then (j, f v) # m else (j, v) # map_alter k d f m)"

definition seat_or :: "'v \<Rightarrow> ('k \<times> 'v) list \<Rightarrow> 'k \<Rightarrow> 'v" where
  "seat_or d m k = (case map_of m k of Some v \<Rightarrow> v | None \<Rightarrow> d)"

lemma seat_or_Nil [simp]: "seat_or d [] k = d"
  by (simp add: seat_or_def)

lemma map_of_map_alter:
  "map_of (map_alter k d f m) j = (if j = k then Some (f (seat_or d m k)) else map_of m j)"
  by (induction k d f m rule: map_alter.induct) (auto simp: seat_or_def)

lemma seat_or_map_alter: "seat_or d (map_alter k d f m) j = (if j = k then f (seat_or d m k) else seat_or d m j)"
  by (simp add: seat_or_def [of d "map_alter k d f m"] map_of_map_alter) (simp add: seat_or_def)

lemma keys_map_alter [simp]: "fst ` set (map_alter k d f m) = insert k (fst ` set m)"
  by (induction k d f m rule: map_alter.induct) auto

lemma distinct_map_alter [simp]: "distinct (map fst m) \<Longrightarrow> distinct (map fst (map_alter k d f m))"
  by (induction k d f m rule: map_alter.induct) (auto simp: image_iff)

text \<open>A total over the seats moves by what changed in one of them; a new seat counts for nothing before.\<close>

lemma sum_map_alter:
  fixes g :: "'v \<Rightarrow> int"
  assumes "g d = 0"
  shows "(\<Sum>e\<leftarrow>map_alter k d f m. g (snd e)) = (\<Sum>e\<leftarrow>m. g (snd e)) + g (f (seat_or d m k)) - g (seat_or d m k)"
  using assms by (induction k d f m rule: map_alter.induct) (auto simp: seat_or_def)

lemma foldl_sum:
  fixes m :: "'s \<Rightarrow> int"
  assumes "\<And>s x. m (step s x) = m s + e x"
  shows "m (foldl step s xs) = m s + (\<Sum>x\<leftarrow>xs. e x)"
  using assms by (induction xs arbitrary: s) simp_all

lemma sum_one_index:
  fixes v :: int
  shows "distinct is \<Longrightarrow> (\<Sum>i\<leftarrow>is. if j = i then v else 0) = (if j \<in> set is then v else 0)"
  by (induction "is") auto

end
