(* ===== verification/Vat_Return.thy ===== *)
theory Vat_Return
  imports Vat_Tax_Code Finding_Messages Insertion_Maps Ledger_Types "HOL-Library.Signed_Division"
begin

text \<open>
  The VAT return derived from the journal: \<^verbatim>\<open>packages/core/src/vat/return.ts\<close>. The scan over the lines keeps the
  four maps of the source in the record \<open>vat_state\<close>; \<open>vat_step\<close> is one turn of it. The collation of
  \<open>localeCompare\<close> is a parameter.
\<close>

section \<open>Lines, totals and findings\<close>

record vat_journal_line =
  vl_entryId :: string
  vl_entryNumber :: string
  vl_journalCode :: string
  vl_bookingDate :: string
  vl_lineNumber :: int
  vl_accountNumber :: string
  vl_accountName :: string
  vl_description :: string
  vl_taxCode :: "string option"
  vl_taxRole :: "tax_role option"
  vl_signed :: int
  vl_sourceDocumentRef :: "string option"

record vat_line_contribution =
  ct_entryId :: string
  ct_entryNumber :: string
  ct_journalCode :: string
  ct_bookingDate :: string
  ct_lineNumber :: int
  ct_accountNumber :: string
  ct_accountName :: string
  ct_description :: string
  ct_taxCode :: string
  ct_taxRole :: tax_role
  ct_amount :: int

record rubriek_total =
  rt_rubriek :: rubriek
  rt_base :: int
  rt_vat :: int
  rt_lines :: "vat_line_contribution list"

datatype vat_finding_code =
    UnknownTaxCode | NoRuleInForce | CodeDeclaresNoVat | CodeDeclaresNoBase | UntaggedControlMovement
  | MoneybirdUntaggedVat | MoneybirdSelfAssessedUnsupported | RateMismatch | ControlAccountDifference

fun finding_code_text :: "vat_finding_code \<Rightarrow> string" where
  "finding_code_text UnknownTaxCode = ''unknown_tax_code''"
| "finding_code_text NoRuleInForce = ''no_rule_in_force''"
| "finding_code_text CodeDeclaresNoVat = ''code_declares_no_vat''"
| "finding_code_text CodeDeclaresNoBase = ''code_declares_no_base''"
| "finding_code_text UntaggedControlMovement = ''untagged_control_movement''"
| "finding_code_text MoneybirdUntaggedVat = ''moneybird_untagged_vat''"
| "finding_code_text MoneybirdSelfAssessedUnsupported = ''moneybird_self_assessed_unsupported''"
| "finding_code_text RateMismatch = ''rate_mismatch''"
| "finding_code_text ControlAccountDifference = ''control_account_difference''"

datatype finding_severity = Blocking | Warning

record vat_finding =
  vf_code :: vat_finding_code
  vf_severity :: finding_severity
  vf_message :: string
  vf_messageKey :: string
  vf_detail :: "violation_detail option"
  vf_amount :: int
  vf_lines :: "vat_line_contribution list"

record control_reconciliation =
  cr_accountNumber :: string
  cr_accountName :: string
  cr_tagged :: int
  cr_declared :: int
  cr_difference :: int
  cr_untagged :: int

record vat_return =
  vr_periodFrom :: string
  vr_periodTo :: string
  vr_rubrieken :: "rubriek_total list"
  vr_owed :: int
  vr_deductible :: int
  vr_payable :: int
  vr_reconciliation :: "control_reconciliation list"
  vr_findings :: "vat_finding list"
  vr_blocked :: bool

record vat_return_request =
  vq_periodFrom :: string
  vq_periodTo :: string
  vq_lines :: "vat_journal_line list"
  vq_rules :: "tax_code_rule list"
  vq_controlAccountNumbers :: "string list"

definition isMoneybirdSource :: "string option \<Rightarrow> bool" where
  "isMoneybirdSource ref = (case ref of None \<Rightarrow> False | Some r \<Rightarrow> starts_with ''moneybird:'' r)"

definition purchaseCodeNeedsSelfAssessedVat :: "tax_code_rule \<Rightarrow> bool" where
  "purchaseCodeNeedsSelfAssessedVat rule \<longleftrightarrow> tc_direction rule = InputTax \<and>
     (tc_reverseCharge rule \<noteq> NoReverseCharge \<or> tc_scope rule = IntraCommunityAcquisition \<or>
      tc_scope rule = ImportScope)"

definition contribution :: "vat_journal_line \<Rightarrow> string \<Rightarrow> tax_role \<Rightarrow> int \<Rightarrow> vat_line_contribution" where
  "contribution line taxCode taxRole amount =
     \<lparr>ct_entryId = vl_entryId line, ct_entryNumber = vl_entryNumber line, ct_journalCode = vl_journalCode line,
      ct_bookingDate = vl_bookingDate line, ct_lineNumber = vl_lineNumber line,
      ct_accountNumber = vl_accountNumber line, ct_accountName = vl_accountName line,
      ct_description = vl_description line, ct_taxCode = taxCode, ct_taxRole = taxRole, ct_amount = amount\<rparr>"

section \<open>The scan\<close>

record vat_seat =
  vs_base :: int
  vs_vat :: int
  vs_lines :: "vat_line_contribution list"

record control_seat =
  cs_name :: string
  cs_tagged :: int
  cs_declared :: int
  cs_untagged :: int

record excluded_seat =
  xs_amount :: int
  xs_lines :: "vat_line_contribution list"

record vat_state =
  st_totals :: "(string \<times> vat_seat) list"
  st_control :: "(string \<times> control_seat) list"
  st_excluded :: "(vat_finding_code \<times> excluded_seat) list"
  st_selfAssessed :: "(string \<times> excluded_seat) list"

definition empty_seat :: vat_seat where
  "empty_seat = \<lparr>vs_base = 0, vs_vat = 0, vs_lines = []\<rparr>"

definition add_excluded :: "vat_line_contribution \<Rightarrow> excluded_seat \<Rightarrow> excluded_seat" where
  "add_excluded c seat = \<lparr>xs_amount = xs_amount seat + ct_amount c, xs_lines = xs_lines seat @ [c]\<rparr>"

definition exclude ::
  "vat_finding_code \<Rightarrow> vat_journal_line \<Rightarrow> string \<Rightarrow> tax_role \<Rightarrow> int \<Rightarrow> vat_state \<Rightarrow> vat_state" where
  "exclude code line taxCode role amount st =
     st\<lparr>st_excluded := map_alter code \<lparr>xs_amount = 0, xs_lines = []\<rparr>
       (add_excluded (contribution line taxCode role amount)) (st_excluded st)\<rparr>"

definition control_bucket :: "vat_journal_line \<Rightarrow> (control_seat \<Rightarrow> control_seat) \<Rightarrow> vat_state \<Rightarrow> vat_state" where
  "control_bucket line change st =
     st\<lparr>st_control := map_alter (vl_accountNumber line)
       \<lparr>cs_name = vl_accountName line, cs_tagged = 0, cs_declared = 0, cs_untagged = 0\<rparr> change (st_control st)\<rparr>"

definition note_untagged :: "vat_journal_line \<Rightarrow> vat_state \<Rightarrow> vat_state" where
  "note_untagged line = control_bucket line (\<lambda>s. s\<lparr>cs_untagged := cs_untagged s + vl_signed line\<rparr>)"

definition note_tagged :: "vat_journal_line \<Rightarrow> vat_state \<Rightarrow> vat_state" where
  "note_tagged line = control_bucket line (\<lambda>s. s\<lparr>cs_tagged := cs_tagged s + vl_signed line\<rparr>)"

definition note_declared :: "vat_journal_line \<Rightarrow> vat_state \<Rightarrow> vat_state" where
  "note_declared line = control_bucket line (\<lambda>s. s\<lparr>cs_declared := cs_declared s + vl_signed line\<rparr>)"

definition note_self_assessed :: "vat_journal_line \<Rightarrow> string \<Rightarrow> tax_role \<Rightarrow> vat_state \<Rightarrow> vat_state" where
  "note_self_assessed line code role st =
     st\<lparr>st_selfAssessed := map_alter (vl_entryId line) \<lparr>xs_amount = 0, xs_lines = []\<rparr>
       (add_excluded (contribution line code role (vl_signed line))) (st_selfAssessed st)\<rparr>"

definition bucket_vat :: "string \<Rightarrow> vat_line_contribution \<Rightarrow> vat_state \<Rightarrow> vat_state" where
  "bucket_vat i c st =
     st\<lparr>st_totals := map_alter i empty_seat
       (\<lambda>s. s\<lparr>vs_vat := vs_vat s + ct_amount c, vs_lines := vs_lines s @ [c]\<rparr>) (st_totals st)\<rparr>"

definition bucket_base :: "string \<Rightarrow> vat_line_contribution \<Rightarrow> vat_state \<Rightarrow> vat_state" where
  "bucket_base i c st =
     st\<lparr>st_totals := map_alter i empty_seat
       (\<lambda>s. s\<lparr>vs_base := vs_base s + ct_amount c, vs_lines := vs_lines s @ [c]\<rparr>) (st_totals st)\<rparr>"

text \<open>A tax line is signed by the role of its box, a base line by the direction of its code.\<close>

definition natural_vat :: "string \<Rightarrow> int \<Rightarrow> int" where
  "natural_vat i signed =
     (if (case findRubriek i of Some box \<Rightarrow> ru_role box = Owed | None \<Rightarrow> False) then - signed else signed)"

definition natural_base :: "tax_code_rule \<Rightarrow> int \<Rightarrow> int" where
  "natural_base rule signed = (if tc_direction rule = OutputTax then - signed else signed)"

definition untagged_step :: "bool \<Rightarrow> vat_journal_line \<Rightarrow> vat_state \<Rightarrow> vat_state" where
  "untagged_step onControl line st =
     (if onControl \<and> vl_signed line \<noteq> 0 then
        exclude (if isMoneybirdSource (vl_sourceDocumentRef line) then MoneybirdUntaggedVat else UntaggedControlMovement)
          line em_dash Tax (vl_signed line) (note_untagged line st)
      else st)"

definition tax_step :: "bool \<Rightarrow> vat_journal_line \<Rightarrow> tax_code_rule \<Rightarrow> vat_state \<Rightarrow> vat_state" where
  "tax_step onControl line rule st =
     (case tc_vatRubriek rule of
        None \<Rightarrow> exclude CodeDeclaresNoVat line (tc_code rule) Tax (vl_signed line) st
      | Some i \<Rightarrow>
          let st = bucket_vat i (contribution line (tc_code rule) Tax (natural_vat i (vl_signed line))) st
          in if onControl then note_declared line st else st)"

definition base_step :: "vat_journal_line \<Rightarrow> tax_code_rule \<Rightarrow> vat_state \<Rightarrow> vat_state" where
  "base_step line rule st =
     (let natural = natural_base rule (vl_signed line)
      in case tc_baseRubriek rule of
           None \<Rightarrow>
             if tc_vatRubriek rule \<noteq> Some ''5b'' \<and> tc_scope rule \<noteq> OutOfScope
             then exclude CodeDeclaresNoBase line (tc_code rule) Base natural st else st
         | Some i \<Rightarrow> bucket_base i (contribution line (tc_code rule) Base natural) st)"

definition vat_step :: "vat_return_request \<Rightarrow> vat_state \<Rightarrow> vat_journal_line \<Rightarrow> vat_state" where
  "vat_step request st line =
     (let onControl = vl_accountNumber line \<in> set (vq_controlAccountNumbers request)
      in case (vl_taxCode line, vl_taxRole line) of
           (Some taxCode, Some taxRole) \<Rightarrow>
             (case ruleInForce (vq_rules request) taxCode (vl_bookingDate line) of
                None \<Rightarrow>
                  let code = (if list_ex (\<lambda>entry. tc_code entry = taxCode) (vq_rules request) then NoRuleInForce
                              else UnknownTaxCode);
                      st = exclude code line taxCode taxRole (vl_signed line) st
                  in if onControl then note_tagged line st else st
              | Some rule \<Rightarrow>
                  let st = (if isMoneybirdSource (vl_sourceDocumentRef line) \<and> purchaseCodeNeedsSelfAssessedVat rule \<and>
                               vl_signed line \<noteq> 0
                            then note_self_assessed line (tc_code rule) taxRole st else st);
                      st = (if onControl then note_tagged line st else st)
                  in if taxRole = Tax then tax_step onControl line rule st else base_step line rule st)
         | _ \<Rightarrow> untagged_step onControl line st)"

definition in_journal_order :: "(string \<Rightarrow> string \<Rightarrow> int) \<Rightarrow> vat_journal_line list \<Rightarrow> vat_journal_line list" where
  "in_journal_order collation ls =
     sort_by (\<lambda>a b. cmp_or (collation (vl_bookingDate a) (vl_bookingDate b))
       (cmp_or (collation (vl_entryNumber a) (vl_entryNumber b)) (vl_lineNumber a - vl_lineNumber b))) ls"

definition vat_scan :: "(string \<Rightarrow> string \<Rightarrow> int) \<Rightarrow> vat_return_request \<Rightarrow> vat_state" where
  "vat_scan collation request =
     foldl (vat_step request) \<lparr>st_totals = [], st_control = [], st_excluded = [], st_selfAssessed = []\<rparr>
       (in_journal_order collation (vq_lines request))"

section \<open>Totals and findings\<close>

definition rubriek_totals :: "vat_state \<Rightarrow> rubriek_total list" where
  "rubriek_totals st =
     map (\<lambda>entry. let seat = seat_or empty_seat (st_totals st) (ru_id entry)
       in \<lparr>rt_rubriek = entry, rt_base = vs_base seat, rt_vat = vs_vat seat, rt_lines = vs_lines seat\<rparr>)
     (filter (\<lambda>entry. \<not> ru_computed entry) RUBRIEKEN)"

definition vat_by_id :: "rubriek_total list \<Rightarrow> string \<Rightarrow> int" where
  "vat_by_id rubrieken i = (case find (\<lambda>e. ru_id (rt_rubriek e) = i) rubrieken of Some e \<Rightarrow> rt_vat e | None \<Rightarrow> 0)"

text \<open>The VAT a box's base lines produce at their own rates; \<open>None\<close> when a rate is not known.\<close>

fun expected_vat :: "tax_code_rule list \<Rightarrow> int \<Rightarrow> vat_line_contribution list \<Rightarrow> int option" where
  "expected_vat rules expected [] = Some expected"
| "expected_vat rules expected (line # ls) =
     (if ct_taxRole line \<noteq> Base then expected_vat rules expected ls
      else case ruleInForce rules (ct_taxCode line) (ct_bookingDate line) of
             None \<Rightarrow> None
           | Some rule \<Rightarrow>
               expected_vat rules (expected + (ct_amount line * tc_rateBasisPoints rule) sdiv 10000) ls)"

definition mismatch_finding :: "tax_code_rule list \<Rightarrow> rubriek_total \<Rightarrow> vat_finding list" where
  "mismatch_finding rules entry =
     (if ru_carries (rt_rubriek entry) \<noteq> CarriesBoth then []
      else if rt_base entry = 0 \<and> rt_vat entry = 0 then []
      else case expected_vat rules 0 (rt_lines entry) of
             None \<Rightarrow> []
           | Some expected \<Rightarrow>
               let drift = rt_vat entry - expected; slack = int (max 1 (length (rt_lines entry)));
                   detail = Some [(''id'', ru_id (rt_rubriek entry)), (''expected'', int_to_string expected),
                     (''vatMinorUnits'', int_to_string (rt_vat entry))]
               in if \<bar>drift\<bar> > slack
                  then [\<lparr>vf_code = RateMismatch, vf_severity = Warning,
                         vf_message = renderFindingMessage ''vat.rate_mismatch'' detail,
                         vf_messageKey = ''vat.rate_mismatch'', vf_detail = detail, vf_amount = drift,
                         vf_lines = rt_lines entry\<rparr>]
                  else [])"

definition reconciliation_of :: "(string \<Rightarrow> string \<Rightarrow> int) \<Rightarrow> vat_state \<Rightarrow> control_reconciliation list" where
  "reconciliation_of collation st =
     map (\<lambda>(accountNumber, seat).
       \<lparr>cr_accountNumber = accountNumber, cr_accountName = cs_name seat, cr_tagged = cs_tagged seat,
        cr_declared = cs_declared seat, cr_difference = cs_tagged seat - cs_declared seat,
        cr_untagged = cs_untagged seat\<rparr>)
     (sort_by (\<lambda>a b. collation (fst a) (fst b)) (st_control st))"

definition EXCLUSIONS :: "(vat_finding_code \<times> finding_severity \<times> string) list" where
  "EXCLUSIONS =
    [(UnknownTaxCode, Blocking, ''vat.unknown_tax_code''),
     (NoRuleInForce, Blocking, ''vat.no_rule_in_force''),
     (CodeDeclaresNoVat, Blocking, ''vat.code_declares_no_vat''),
     (CodeDeclaresNoBase, Warning, ''vat.code_declares_no_base''),
     (UntaggedControlMovement, Warning, ''vat.untagged_control_movement''),
     (MoneybirdUntaggedVat, Blocking, ''vat.moneybird_untagged_vat'')]"

definition exclusion_finding :: "vat_state \<Rightarrow> vat_finding_code \<times> finding_severity \<times> string \<Rightarrow> vat_finding list" where
  "exclusion_finding st kind =
     (case kind of (code, severity, key) \<Rightarrow>
        case map_of (st_excluded st) code of
          None \<Rightarrow> []
        | Some found \<Rightarrow>
            if code = MoneybirdUntaggedVat then
              let documentCount = length (js_set (map ct_entryId (xs_lines found)));
                  messageKey = (if documentCount = 1 then ''vat.moneybird_untagged_vat_one''
                    else ''vat.moneybird_untagged_vat_other'');
                  detail = Some [(''count'', nat_to_string documentCount)]
              in [\<lparr>vf_code = code, vf_severity = severity, vf_message = renderFindingMessage messageKey detail,
                    vf_messageKey = messageKey, vf_detail = detail, vf_amount = xs_amount found,
                    vf_lines = xs_lines found\<rparr>]
            else [\<lparr>vf_code = code, vf_severity = severity, vf_message = renderFindingMessage key None,
                   vf_messageKey = key, vf_detail = None, vf_amount = xs_amount found, vf_lines = xs_lines found\<rparr>])"

definition self_assessed_finding :: "vat_state \<Rightarrow> vat_finding list" where
  "self_assessed_finding st =
     (if st_selfAssessed st = [] then []
      else let documentCount = length (st_selfAssessed st); detail = Some [(''count'', nat_to_string documentCount)];
               messageKey = (if documentCount = 1 then ''vat.moneybird_self_assessed_unsupported_one''
                 else ''vat.moneybird_self_assessed_unsupported_other'')
           in [\<lparr>vf_code = MoneybirdSelfAssessedUnsupported, vf_severity = Blocking,
                vf_message = renderFindingMessage messageKey detail, vf_messageKey = messageKey, vf_detail = detail,
                vf_amount = (\<Sum>e\<leftarrow>st_selfAssessed st. xs_amount (snd e)),
                vf_lines = concat (map (\<lambda>e. xs_lines (snd e)) (st_selfAssessed st))\<rparr>])"

definition difference_finding :: "control_reconciliation \<Rightarrow> vat_finding list" where
  "difference_finding account =
     (if cr_difference account = 0 then []
      else let detail = Some [(''accountNumber'', cr_accountNumber account), (''accountName'', cr_accountName account),
             (''taggedMovementMinorUnits'', int_to_string (cr_tagged account)),
             (''declaredMinorUnits'', int_to_string (cr_declared account))]
           in [\<lparr>vf_code = ControlAccountDifference, vf_severity = Blocking,
                vf_message = renderFindingMessage ''vat.control_account_difference'' detail,
                vf_messageKey = ''vat.control_account_difference'', vf_detail = detail,
                vf_amount = cr_difference account, vf_lines = []\<rparr>])"

fun severity_order :: "finding_severity \<Rightarrow> int" where
  "severity_order Blocking = 0"
| "severity_order Warning = 1"

definition buildVatReturn :: "(string \<Rightarrow> string \<Rightarrow> int) \<Rightarrow> vat_return_request \<Rightarrow> vat_return" where
  "buildVatReturn collation request =
     (let st = vat_scan collation request;
          rubrieken = rubriek_totals st;
          owed = (\<Sum>i\<leftarrow>OWED_RUBRIEKEN. vat_by_id rubrieken i);
          deductible = vat_by_id rubrieken ''5b'';
          reconciliation = reconciliation_of collation st;
          findings = concat (map (mismatch_finding (vq_rules request)) rubrieken) @
            concat (map (exclusion_finding st) EXCLUSIONS) @ self_assessed_finding st @
            concat (map difference_finding reconciliation)
      in \<lparr>vr_periodFrom = vq_periodFrom request, vr_periodTo = vq_periodTo request, vr_rubrieken = rubrieken,
          vr_owed = owed, vr_deductible = deductible, vr_payable = owed - deductible,
          vr_reconciliation = reconciliation,
          vr_findings = sort_by (\<lambda>a b. cmp_or (severity_order (vf_severity a) - severity_order (vf_severity b))
            (collation (finding_code_text (vf_code a)) (finding_code_text (vf_code b)))) findings,
          vr_blocked = list_ex (\<lambda>f. vf_severity f = Blocking) findings\<rparr>)"

text \<open>Presenting the return: the two subtotals are computed, every other box is read.\<close>

definition rubriekAmounts :: "vat_return \<Rightarrow> string \<Rightarrow> int \<times> int" where
  "rubriekAmounts vatReturn i =
     (if i = ''5a'' then (0, vr_owed vatReturn)
      else if i = ''5c'' then (0, vr_payable vatReturn)
      else case find (\<lambda>e. ru_id (rt_rubriek e) = i) (vr_rubrieken vatReturn) of
             Some found \<Rightarrow> (rt_base found, rt_vat found)
           | None \<Rightarrow> (0, 0))"

definition presentVatReturn :: "vat_return \<Rightarrow> (rubriek \<times> int \<times> int) list" where
  "presentVatReturn vatReturn =
     map (\<lambda>entry. (case findRubriek (ru_id entry) of Some r \<Rightarrow> r | None \<Rightarrow> entry, rubriekAmounts vatReturn (ru_id entry)))
       RUBRIEKEN"

section \<open>What the scan adds up to\<close>

text \<open>The rule a line is declared under, and the box and amount its VAT lands with.\<close>

definition line_rule :: "vat_return_request \<Rightarrow> vat_journal_line \<Rightarrow> tax_code_rule option" where
  "line_rule request line =
     (case vl_taxCode line of None \<Rightarrow> None | Some c \<Rightarrow> ruleInForce (vq_rules request) c (vl_bookingDate line))"

definition declared_in :: "vat_return_request \<Rightarrow> vat_journal_line \<Rightarrow> string option" where
  "declared_in request line =
     (if vl_taxRole line = Some Tax then Option.bind (line_rule request line) tc_vatRubriek else None)"

definition vat_effect :: "vat_return_request \<Rightarrow> string \<Rightarrow> vat_journal_line \<Rightarrow> int" where
  "vat_effect request i line = (if declared_in request line = Some i then natural_vat i (vl_signed line) else 0)"

definition tagged_on_control :: "vat_return_request \<Rightarrow> vat_journal_line \<Rightarrow> bool" where
  "tagged_on_control request line \<longleftrightarrow> vl_accountNumber line \<in> set (vq_controlAccountNumbers request) \<and>
     vl_taxCode line \<noteq> None \<and> vl_taxRole line \<noteq> None"

definition vat_of :: "string \<Rightarrow> vat_state \<Rightarrow> int" where
  "vat_of i st = vs_vat (seat_or empty_seat (st_totals st) i)"

definition control_total :: "(control_seat \<Rightarrow> int) \<Rightarrow> vat_state \<Rightarrow> int" where
  "control_total g st = (\<Sum>e\<leftarrow>st_control st. g (snd e))"

lemmas scan_steps = vat_step_def untagged_step_def tax_step_def base_step_def note_untagged_def note_tagged_def
  note_declared_def note_self_assessed_def control_bucket_def exclude_def bucket_vat_def bucket_base_def Let_def

lemma vat_of_simps [simp]:
  "vat_of i (exclude code line t r a st) = vat_of i st"
  "vat_of i (control_bucket line f st) = vat_of i st"
  "vat_of i (note_self_assessed line t r st) = vat_of i st"
  "vat_of i (bucket_base j c st) = vat_of i st"
  "vat_of i (bucket_vat j c st) = vat_of i st + (if i = j then ct_amount c else 0)"
  by (simp_all add: vat_of_def exclude_def control_bucket_def note_self_assessed_def bucket_base_def bucket_vat_def
      seat_or_map_alter)

lemma control_simps [simp]:
  "control_total g (exclude code line t r a st) = control_total g st"
  "control_total g (note_self_assessed line t r st) = control_total g st"
  "control_total g (bucket_base j c st) = control_total g st"
  "control_total g (bucket_vat j c st) = control_total g st"
  by (simp_all add: control_total_def exclude_def note_self_assessed_def bucket_base_def bucket_vat_def)

lemma control_note [simp]:
  "control_total cs_tagged (note_tagged line st) = control_total cs_tagged st + vl_signed line"
  "control_total cs_tagged (note_untagged line st) = control_total cs_tagged st"
  "control_total cs_tagged (note_declared line st) = control_total cs_tagged st"
  "control_total cs_declared (note_tagged line st) = control_total cs_declared st"
  "control_total cs_declared (note_untagged line st) = control_total cs_declared st"
  "control_total cs_declared (note_declared line st) = control_total cs_declared st + vl_signed line"
  by (simp_all add: control_total_def note_tagged_def note_untagged_def note_declared_def control_bucket_def sum_map_alter)

lemma vat_of_note [simp]:
  "vat_of i (note_tagged line st) = vat_of i st" "vat_of i (note_untagged line st) = vat_of i st"
  "vat_of i (note_declared line st) = vat_of i st"
  by (simp_all add: note_tagged_def note_untagged_def note_declared_def)

lemma vat_of_step: "vat_of i (vat_step request st line) = vat_of i st + vat_effect request i line"
  by (auto simp: vat_step_def untagged_step_def tax_step_def base_step_def Let_def vat_effect_def declared_in_def
      line_rule_def contribution_def split: option.splits)

lemma tagged_step: "control_total cs_tagged (vat_step request st line) =
    control_total cs_tagged st + (if tagged_on_control request line then vl_signed line else 0)"
  by (auto simp: vat_step_def untagged_step_def tax_step_def base_step_def Let_def tagged_on_control_def split: option.splits)

lemma declared_step: "control_total cs_declared (vat_step request st line) =
    control_total cs_declared st + (if tagged_on_control request line \<and> declared_in request line \<noteq> None then vl_signed line else 0)"
  by (auto simp: vat_step_def untagged_step_def tax_step_def base_step_def Let_def tagged_on_control_def declared_in_def
      line_rule_def split: option.splits)

lemma scan_totals:
  "vat_of i (vat_scan collation request) = (\<Sum>l\<leftarrow>vq_lines request. vat_effect request i l)"
  "control_total cs_tagged (vat_scan collation request) =
     (\<Sum>l\<leftarrow>vq_lines request. if tagged_on_control request l then vl_signed l else 0)"
  "control_total cs_declared (vat_scan collation request) =
     (\<Sum>l\<leftarrow>vq_lines request. if tagged_on_control request l \<and> declared_in request l \<noteq> None then vl_signed l else 0)"
  unfolding vat_scan_def in_journal_order_def
  by (simp_all add: foldl_sum [of "vat_of i" "vat_step request", OF vat_of_step]
      foldl_sum [of "control_total cs_tagged" "vat_step request", OF tagged_step]
      foldl_sum [of "control_total cs_declared" "vat_step request", OF declared_step])
    (simp_all add: vat_of_def control_total_def empty_seat_def)

lemma find_unique: "distinct (map g xs) \<Longrightarrow> x \<in> set xs \<Longrightarrow> find (\<lambda>y. g y = g x) xs = Some x"
  by (induction xs) (auto simp: image_iff)

lemma find_total:
  assumes "r \<in> set RUBRIEKEN" "\<not> ru_computed r"
  shows "find (\<lambda>e. ru_id (rt_rubriek e) = ru_id r) (rubriek_totals st) =
    (let seat = seat_or empty_seat (st_totals st) (ru_id r)
     in Some \<lparr>rt_rubriek = r, rt_base = vs_base seat, rt_vat = vs_vat seat, rt_lines = vs_lines seat\<rparr>)"
proof -
  let ?F = "filter (\<lambda>entry. \<not> ru_computed entry) RUBRIEKEN"
  have "distinct (map ru_id ?F)" using form_ids by (simp add: distinct_map_filter)
  then have "find (\<lambda>y. ru_id y = ru_id r) ?F = Some r" using assms by (intro find_unique) simp_all
  moreover have "find P (map f xs) = map_option f (find (P \<circ> f) xs)" for P and f :: "rubriek \<Rightarrow> rubriek_total" and xs
    by (induction xs) auto
  ultimately show ?thesis by (simp add: rubriek_totals_def Let_def comp_def)
qed

lemma vat_by_id_totals:
  "r \<in> set RUBRIEKEN \<Longrightarrow> \<not> ru_computed r \<Longrightarrow> vat_by_id (rubriek_totals st) (ru_id r) = vat_of (ru_id r) st"
  by (simp add: vat_by_id_def find_total Let_def vat_of_def)

lemma owed_boxes:
  "distinct OWED_RUBRIEKEN" "''5b'' \<notin> set OWED_RUBRIEKEN"
  "i \<in> set OWED_RUBRIEKEN \<Longrightarrow> natural_vat i x = - x" "natural_vat ''5b'' x = x"
proof -
  have "list_all (\<lambda>i. case findRubriek i of Some b \<Rightarrow> ru_role b = Owed | None \<Rightarrow> False) OWED_RUBRIEKEN" by code_simp
  then show "i \<in> set OWED_RUBRIEKEN \<Longrightarrow> natural_vat i x = - x" by (auto simp: list_all_iff natural_vat_def)
  have "(case findRubriek ''5b'' of Some b \<Rightarrow> ru_role b \<noteq> Owed | None \<Rightarrow> True)" by code_simp
  then show "natural_vat ''5b'' x = x" by (simp add: natural_vat_def split: option.splits)
  show "distinct OWED_RUBRIEKEN" by code_simp
  show "''5b'' \<notin> set OWED_RUBRIEKEN" by code_simp
qed

lemma owed_and_deductible:
  "vr_owed (buildVatReturn collation request) = (\<Sum>i\<leftarrow>OWED_RUBRIEKEN. vat_of i (vat_scan collation request))"
  "vr_deductible (buildVatReturn collation request) = vat_of ''5b'' (vat_scan collation request)"
proof -
  let ?st = "vat_scan collation request"
  have ids: "vat_by_id (rubriek_totals ?st) i = vat_of i ?st" if i: "i \<in> set OWED_RUBRIEKEN" for i
  proof -
    obtain r where r: "r \<in> set RUBRIEKEN" "\<not> ru_computed r" "i = ru_id r"
      using i unfolding OWED_RUBRIEKEN_def by auto
    show ?thesis unfolding r(3) by (rule vat_by_id_totals [OF r(1,2)])
  qed
  have "list_ex (\<lambda>r. \<not> ru_computed r \<and> ru_id r = ''5b'') RUBRIEKEN" by code_simp
  then obtain b where "b \<in> set RUBRIEKEN" "\<not> ru_computed b" "ru_id b = ''5b''" by (auto simp: list_ex_iff)
  with vat_by_id_totals have "vat_by_id (rubriek_totals ?st) ''5b'' = vat_of ''5b'' ?st" by metis
  then show "vr_deductible (buildVatReturn collation request) = vat_of ''5b'' ?st"
    by (simp add: buildVatReturn_def Let_def)
  show "vr_owed (buildVatReturn collation request) = (\<Sum>i\<leftarrow>OWED_RUBRIEKEN. vat_of i ?st)"
    using ids by (simp add: buildVatReturn_def Let_def cong: map_cong)
qed

lemma sum_swap: "(\<Sum>i\<leftarrow>is. \<Sum>l\<leftarrow>ls. f i l) = (\<Sum>l\<leftarrow>ls. \<Sum>i\<leftarrow>is. f i l)" for f :: "'a \<Rightarrow> 'b \<Rightarrow> int"
  by (induction ls) (simp_all add: sum_list_addf)

text \<open>A line declared under an accepted rule moves what is payable by its own amount, whatever its box.\<close>

lemma payable_effect:
  assumes "\<forall>rule \<in> set (vq_rules request). assertTaxCodeRule rule = Inr ()"
  shows "(\<Sum>i\<leftarrow>OWED_RUBRIEKEN. vat_effect request i l) - vat_effect request ''5b'' l =
    (if declared_in request l \<noteq> None then - vl_signed l else 0)"
proof (cases "declared_in request l")
  case None
  then show ?thesis by (simp add: vat_effect_def)
next
  case (Some j)
  then obtain rule where "line_rule request l = Some rule" "tc_vatRubriek rule = Some j"
    by (auto simp: declared_in_def split: if_splits bind_splits)
  moreover from this(1) have "rule \<in> set (vq_rules request)"
    unfolding line_rule_def ruleInForce_def by (metis (no_types, lifting) find_Some_iff nth_mem option.case_eq_if option.distinct(1))
  ultimately have j: "j \<in> set OWED_RUBRIEKEN \<or> j = ''5b''" using assms coherent_vat_box by blast
  have "(\<Sum>i\<leftarrow>OWED_RUBRIEKEN. vat_effect request i l) = (\<Sum>i\<leftarrow>OWED_RUBRIEKEN. if j = i then natural_vat j (vl_signed l) else 0)"
    using Some by (intro arg_cong [of _ _ sum_list] map_cong) (simp_all add: vat_effect_def)
  also have "\<dots> = (if j \<in> set OWED_RUBRIEKEN then natural_vat j (vl_signed l) else 0)"
    using owed_boxes(1) by (rule sum_one_index)
  finally show ?thesis using j owed_boxes Some by (auto simp: vat_effect_def)
qed

lemma payable_difference: "vr_payable (buildVatReturn collation request) =
    vr_owed (buildVatReturn collation request) - vr_deductible (buildVatReturn collation request)"
  by (simp add: buildVatReturn_def Let_def)

lemma payable_is_declared:
  assumes "\<forall>rule \<in> set (vq_rules request). assertTaxCodeRule rule = Inr ()"
  shows "vr_payable (buildVatReturn collation request) =
    - (\<Sum>l\<leftarrow>vq_lines request. if declared_in request l \<noteq> None then vl_signed l else 0)"
proof -
  have "vr_payable (buildVatReturn collation request) =
      (\<Sum>i\<leftarrow>OWED_RUBRIEKEN. \<Sum>l\<leftarrow>vq_lines request. vat_effect request i l) -
      (\<Sum>l\<leftarrow>vq_lines request. vat_effect request ''5b'' l)"
    by (simp only: payable_difference owed_and_deductible scan_totals)
  also have "\<dots> = (\<Sum>l\<leftarrow>vq_lines request. (\<Sum>i\<leftarrow>OWED_RUBRIEKEN. vat_effect request i l) - vat_effect request ''5b'' l)"
    by (subst sum_swap) (simp add: sum_list_subtractf)
  also have "\<dots> = (\<Sum>l\<leftarrow>vq_lines request. if declared_in request l \<noteq> None then - vl_signed l else 0)"
    by (simp only: payable_effect [OF assms])
  also have "(\<Sum>l\<leftarrow>ls. if declared_in request l \<noteq> None then - vl_signed l else 0) =
      - (\<Sum>l\<leftarrow>ls. if declared_in request l \<noteq> None then vl_signed l else 0)" for ls
    by (induction ls) auto
  finally show ?thesis .
qed

lemma unblocked_accounts_agree:
  assumes "\<not> vr_blocked (buildVatReturn collation request)"
  shows "control_total cs_tagged (vat_scan collation request) = control_total cs_declared (vat_scan collation request)"
proof -
  let ?st = "vat_scan collation request"
  have "cr_difference account = 0" if a: "account \<in> set (reconciliation_of collation ?st)" for account
  proof (rule ccontr)
    assume "cr_difference account \<noteq> 0"
    then obtain f where f: "f \<in> set (difference_finding account)" "vf_severity f = Blocking"
      by (auto simp: difference_finding_def Let_def)
    then have "vr_blocked (buildVatReturn collation request)"
      using a unfolding buildVatReturn_def Let_def vat_return.simps list_ex_iff set_append set_concat set_map by blast
    with assms show False by simp
  qed
  then have "\<forall>e \<in> set (st_control ?st). cs_tagged (snd e) = cs_declared (snd e)"
    by (fastforce simp: reconciliation_of_def)
  then show ?thesis by (simp add: control_total_def cong: map_cong)
qed


definition sample_vat_line :: "string \<Rightarrow> tax_role option \<Rightarrow> int \<Rightarrow> vat_journal_line" where
  "sample_vat_line account role signed =
     \<lparr>vl_entryId = ''e1'', vl_entryNumber = ''1'', vl_journalCode = ''VRK'', vl_bookingDate = ''2026-02-01'',
      vl_lineNumber = 1, vl_accountNumber = account, vl_accountName = account, vl_description = [],
      vl_taxCode = map_option (\<lambda>_. ''VH'') role, vl_taxRole = role, vl_signed = signed, vl_sourceDocumentRef = None\<rparr>"

definition sample_vat_request :: vat_return_request where
  "sample_vat_request =
     \<lparr>vq_periodFrom = ''2026-01-01'', vq_periodTo = ''2026-03-31'',
      vq_lines = [sample_vat_line ''8000'' (Some Base) (- 1000), sample_vat_line ''1500'' (Some Tax) (- 210)],
      vq_rules = [high_rate], vq_controlAccountNumbers = [''1500'']\<rparr>"


section \<open>The bases\<close>

definition base_of :: "string \<Rightarrow> vat_state \<Rightarrow> int" where
  "base_of i st = vs_base (seat_or empty_seat (st_totals st) i)"

definition base_effect :: "vat_return_request \<Rightarrow> string \<Rightarrow> vat_journal_line \<Rightarrow> int" where
  "base_effect request i line =
     (if vl_taxRole line = Some Base then
        case line_rule request line of
          None \<Rightarrow> 0
        | Some rule \<Rightarrow> if tc_baseRubriek rule = Some i then natural_base rule (vl_signed line) else 0
      else 0)"

lemma base_of_simps [simp]:
  "base_of i (exclude code line t r a st) = base_of i st"
  "base_of i (control_bucket line f st) = base_of i st"
  "base_of i (note_self_assessed line t r st) = base_of i st"
  "base_of i (bucket_vat j c st) = base_of i st"
  "base_of i (bucket_base j c st) = base_of i st + (if i = j then ct_amount c else 0)"
  by (simp_all add: base_of_def exclude_def control_bucket_def note_self_assessed_def bucket_base_def bucket_vat_def
      seat_or_map_alter)

lemma base_of_note [simp]:
  "base_of i (note_tagged line st) = base_of i st" "base_of i (note_untagged line st) = base_of i st"
  "base_of i (note_declared line st) = base_of i st"
  by (simp_all add: note_tagged_def note_untagged_def note_declared_def)

lemma base_of_step: "base_of i (vat_step request st line) = base_of i st + base_effect request i line"
proof (cases "vl_taxRole line")
  case (Some r)
  then show ?thesis
    by (cases r) (auto simp: vat_step_def untagged_step_def tax_step_def base_step_def Let_def base_effect_def
        line_rule_def contribution_def split: option.splits)
qed (auto simp: vat_step_def untagged_step_def Let_def base_effect_def split: option.splits)

lemma scan_base: "base_of i (vat_scan collation request) = (\<Sum>l\<leftarrow>vq_lines request. base_effect request i l)"
  unfolding vat_scan_def in_journal_order_def
  by (simp add: foldl_sum [of "base_of i" "vat_step request", OF base_of_step]) (simp add: base_of_def empty_seat_def)

lemma base_in_return:
  assumes "r \<in> set RUBRIEKEN" "\<not> ru_computed r"
  shows "find (\<lambda>e. ru_id (rt_rubriek e) = ru_id r) (vr_rubrieken (buildVatReturn collation request)) =
    Some \<lparr>rt_rubriek = r, rt_base = base_of (ru_id r) (vat_scan collation request),
      rt_vat = vat_of (ru_id r) (vat_scan collation request),
      rt_lines = vs_lines (seat_or empty_seat (st_totals (vat_scan collation request)) (ru_id r))\<rparr>"
proof -
  have "vr_rubrieken (buildVatReturn collation request) = rubriek_totals (vat_scan collation request)"
    by (simp add: buildVatReturn_def Let_def)
  then show ?thesis by (simp only: find_total [OF assms] Let_def base_of_def vat_of_def)
qed

end
