(* ===== verification/Vat_Icp.thy ===== *)
theory Vat_Icp
  imports Vat_Return
begin

text \<open>
  The ICP return and its check against box 3b: \<^verbatim>\<open>packages/core/src/vat/icp.ts\<close>, over the VAT numbers of
  \<^verbatim>\<open>ports/vat-number.ts\<close>. The patterns of the member states are predicates.
\<close>

section \<open>VAT numbers\<close>

definition is_upper :: "char \<Rightarrow> bool" where
  "is_upper c \<longleftrightarrow> (let n = (of_char c :: nat) in 65 \<le> n \<and> n \<le> 90)"

definition is_alnum :: "char \<Rightarrow> bool" where
  "is_alnum c \<longleftrightarrow> is_upper c \<or> is_digit c"

definition upper_between :: "char \<Rightarrow> char \<Rightarrow> char \<Rightarrow> bool" where
  "upper_between a b c \<longleftrightarrow> a \<le> c \<and> c \<le> b"

text \<open>A pattern of the table: one predicate per character, with its alternatives as a list.\<close>

definition fits :: "(char \<Rightarrow> bool) list \<Rightarrow> string \<Rightarrow> bool" where
  "fits ps s \<longleftrightarrow> length s = length ps \<and> list_all2 (\<lambda>p c. p c) ps s"

definition digits :: "nat \<Rightarrow> (char \<Rightarrow> bool) list" where
  "digits n = replicate n is_digit"

definition only :: "char \<Rightarrow> (char \<Rightarrow> bool) list" where
  "only c = [\<lambda>d. d = c]"

definition VAT_PATTERNS :: "(string \<times> (char \<Rightarrow> bool) list list) list" where
  "VAT_PATTERNS =
    [(''AT'', [only CHR ''U'' @ digits 8]),
     (''BE'', [[\<lambda>c. c = CHR ''0'' \<or> c = CHR ''1''] @ digits 9]),
     (''BG'', [digits 9, digits 10]),
     (''CY'', [digits 8 @ [is_upper]]),
     (''CZ'', [digits 8, digits 9, digits 10]),
     (''DE'', [digits 9]),
     (''DK'', [digits 8]),
     (''EE'', [digits 9]),
     (''EL'', [digits 9]),
     (''ES'', [[is_alnum] @ digits 7 @ [is_alnum]]),
     (''FI'', [digits 8]),
     (''FR'', [[is_alnum, is_alnum] @ digits 9]),
     (''HR'', [digits 11]),
     (''HU'', [digits 8]),
     (''IE'', [digits 7 @ [upper_between CHR ''A'' CHR ''W''],
               digits 7 @ [upper_between CHR ''A'' CHR ''W'', upper_between CHR ''A'' CHR ''I''],
               digits 7 @ [upper_between CHR ''A'' CHR ''W'', \<lambda>c. c = CHR ''W''],
               [upper_between CHR ''A'' CHR ''W''] @ digits 7 @ [upper_between CHR ''A'' CHR ''W'']]),
     (''IT'', [digits 11]),
     (''LT'', [digits 9, digits 12]),
     (''LU'', [digits 8]),
     (''LV'', [digits 11]),
     (''MT'', [digits 8]),
     (''NL'', [digits 9 @ only CHR ''B'' @ digits 2]),
     (''PL'', [digits 10]),
     (''PT'', [digits 9]),
     (''RO'', map digits [2..<11]),
     (''SE'', [digits 12]),
     (''SI'', [digits 8]),
     (''SK'', [digits 10]),
     (''XI'', [digits 9, digits 12, only CHR ''G'' @ only CHR ''D'' @ digits 3,
               only CHR ''H'' @ only CHR ''A'' @ digits 3])]"

record parsed_vat_number =
  pv_countryCode :: string
  pv_number :: string
  pv_normalised :: string

definition normaliseVatNumber :: "string \<Rightarrow> string" where
  "normaliseVatNumber v =
     filter (\<lambda>c. \<not> is_space c \<and> c \<noteq> CHR ''.'' \<and> c \<noteq> CHR ''-'' \<and> c \<noteq> CHR ''/'') (toUpperCase v)"

definition parseVatNumber :: "string \<Rightarrow> parsed_vat_number option" where
  "parseVatNumber v =
     (let normalised = normaliseVatNumber v; countryCode = take 2 normalised; number = drop 2 normalised
      in case map_of VAT_PATTERNS countryCode of
           None \<Rightarrow> None
         | Some patterns \<Rightarrow>
             if \<not> list_ex (\<lambda>p. fits p number) patterns then None
             else Some \<lparr>pv_countryCode = countryCode, pv_number = number, pv_normalised = normalised\<rparr>)"

definition isEuVatCountry :: "string \<Rightarrow> bool" where
  "isEuVatCountry countryCode \<longleftrightarrow> map_of VAT_PATTERNS (toUpperCase countryCode) \<noteq> None"

section \<open>The opgaaf\<close>

datatype vat_number_outcome = NumberValid | NumberInvalid | NumberUnavailable

record icp_proof =
  ip_outcome :: vat_number_outcome
  ip_checkedAt :: string
  ip_requestIdentifier :: "string option"
  ip_source :: string

record icp_entry =
  ie_vatNumber :: string
  ie_countryCode :: string
  ie_contactNumber :: "string option"
  ie_contactName :: "string option"
  ie_goods :: int
  ie_services :: int
  ie_total :: int
  ie_proof :: "icp_proof option"
  ie_lines :: "vat_line_contribution list"

datatype icp_finding_code =
    SupplyWithoutCounterparty | CounterpartyWithoutVatNumber | VatNumberNotEu | VatNumberMalformed
  | VatNumberInvalid | VatNumberUnproven | ProofPredatesPeriod | IcpMismatch

fun icp_code_text :: "icp_finding_code \<Rightarrow> string" where
  "icp_code_text SupplyWithoutCounterparty = ''supply_without_counterparty''"
| "icp_code_text CounterpartyWithoutVatNumber = ''counterparty_without_vat_number''"
| "icp_code_text VatNumberNotEu = ''vat_number_not_eu''"
| "icp_code_text VatNumberMalformed = ''vat_number_malformed''"
| "icp_code_text VatNumberInvalid = ''vat_number_invalid''"
| "icp_code_text VatNumberUnproven = ''vat_number_unproven''"
| "icp_code_text ProofPredatesPeriod = ''proof_predates_period''"
| "icp_code_text IcpMismatch = ''icp_mismatch''"

record icp_finding =
  if_code :: icp_finding_code
  if_severity :: finding_severity
  if_message :: string
  if_messageKey :: string
  if_detail :: "violation_detail option"
  if_amount :: int
  if_lines :: "vat_line_contribution list"

record icp_return =
  ir_periodFrom :: string
  ir_periodTo :: string
  ir_entries :: "icp_entry list"
  ir_goods :: int
  ir_services :: int
  ir_total :: int
  ir_rubriek3b :: int
  ir_difference :: int
  ir_findings :: "icp_finding list"
  ir_blocked :: bool

record icp_journal_line = vat_journal_line +
  ij_counterpartyNumber :: "string option"
  ij_counterpartyName :: "string option"
  ij_counterpartyVatNumber :: "string option"
  ij_counterpartyCountryCode :: "string option"

record icp_request =
  iq_periodFrom :: string
  iq_periodTo :: string
  iq_lines :: "icp_journal_line list"
  iq_rules :: "tax_code_rule list"
  iq_vatReturn :: vat_return
  iq_proofs :: "(string \<times> icp_proof) list"

definition contributionOf :: "icp_journal_line \<Rightarrow> string \<Rightarrow> int \<Rightarrow> vat_line_contribution" where
  "contributionOf line taxCode amount =
     \<lparr>ct_entryId = vl_entryId line, ct_entryNumber = vl_entryNumber line, ct_journalCode = vl_journalCode line,
      ct_bookingDate = vl_bookingDate line, ct_lineNumber = vl_lineNumber line,
      ct_accountNumber = vl_accountNumber line, ct_accountName = vl_accountName line,
      ct_description = vl_description line, ct_taxCode = taxCode, ct_taxRole = Base, ct_amount = amount\<rparr>"

record icp_seat =
  is_countryCode :: string
  is_contactNumber :: "string option"
  is_contactName :: "string option"
  is_goods :: int
  is_services :: int
  is_lines :: "vat_line_contribution list"

record icp_state =
  ix_byNumber :: "(string \<times> icp_seat) list"
  ix_problems :: "(icp_finding_code \<times> excluded_seat) list"

definition flag_problem :: "icp_finding_code \<Rightarrow> vat_line_contribution \<Rightarrow> (icp_finding_code \<times> excluded_seat) list \<Rightarrow>
    (icp_finding_code \<times> excluded_seat) list" where
  "flag_problem code c problems = map_alter code \<lparr>xs_amount = 0, xs_lines = []\<rparr> (add_excluded c) problems"

definition flag :: "icp_finding_code \<Rightarrow> vat_line_contribution \<Rightarrow> icp_state \<Rightarrow> icp_state" where
  "flag code c st = st\<lparr>ix_problems := flag_problem code c (ix_problems st)\<rparr>"

definition seat_supply :: "icp_journal_line \<Rightarrow> tax_code_rule \<Rightarrow> vat_line_contribution \<Rightarrow> parsed_vat_number \<Rightarrow> icp_state \<Rightarrow> icp_state" where
  "seat_supply line rule c parsed st =
     st\<lparr>ix_byNumber := map_alter (pv_normalised parsed)
       \<lparr>is_countryCode = pv_countryCode parsed, is_contactNumber = ij_counterpartyNumber line,
        is_contactName = ij_counterpartyName line, is_goods = 0, is_services = 0, is_lines = []\<rparr>
       (\<lambda>s. (if tc_supplyKind rule = Services then s\<lparr>is_services := is_services s + ct_amount c\<rparr>
             else s\<lparr>is_goods := is_goods s + ct_amount c\<rparr>)\<lparr>is_lines := is_lines s @ [c]\<rparr>)
       (ix_byNumber st)\<rparr>"

definition place_supply :: "icp_journal_line \<Rightarrow> tax_code_rule \<Rightarrow> icp_state \<Rightarrow> icp_state" where
  "place_supply line rule st =
     (let c = contributionOf line (tc_code rule) (- vl_signed line)
      in if ij_counterpartyNumber line = None then flag SupplyWithoutCounterparty c st
         else case ij_counterpartyVatNumber line of
                None \<Rightarrow> flag CounterpartyWithoutVatNumber c st
              | Some number \<Rightarrow>
                  if js_trim number = [] then flag CounterpartyWithoutVatNumber c st
                  else case parseVatNumber number of
                         None \<Rightarrow> flag (if isEuVatCountry (take 2 number) then VatNumberMalformed else VatNumberNotEu) c st
                       | Some parsed \<Rightarrow> seat_supply line rule c parsed st)"

definition icp_rule :: "tax_code_rule list \<Rightarrow> ('a vat_journal_line_scheme) \<Rightarrow> tax_code_rule option" where
  "icp_rule rules line =
     (case vl_taxCode line of
        None \<Rightarrow> None
      | Some taxCode \<Rightarrow>
          if vl_taxRole line \<noteq> Some Base then None
          else case ruleInForce rules taxCode (vl_bookingDate line) of
                 None \<Rightarrow> None
               | Some rule \<Rightarrow> if feedsIcp rule then Some rule else None)"

definition icp_step :: "icp_request \<Rightarrow> icp_state \<Rightarrow> icp_journal_line \<Rightarrow> icp_state" where
  "icp_step request st line =
     (case icp_rule (iq_rules request) line of None \<Rightarrow> st | Some rule \<Rightarrow> place_supply line rule st)"

definition entry_of_seat :: "icp_request \<Rightarrow> string \<times> icp_seat \<Rightarrow> icp_entry" where
  "entry_of_seat request e =
     (case e of (number, seat) \<Rightarrow>
        \<lparr>ie_vatNumber = number, ie_countryCode = is_countryCode seat, ie_contactNumber = is_contactNumber seat,
         ie_contactName = is_contactName seat, ie_goods = is_goods seat, ie_services = is_services seat,
         ie_total = is_goods seat + is_services seat, ie_proof = map_of (iq_proofs request) number,
         ie_lines = is_lines seat\<rparr>)"

definition proof_problem :: "icp_request \<Rightarrow> icp_entry \<Rightarrow> icp_finding_code option" where
  "proof_problem request entry =
     (case ie_proof entry of
        None \<Rightarrow> Some VatNumberUnproven
      | Some p \<Rightarrow>
          (case ip_outcome p of
             NumberInvalid \<Rightarrow> Some VatNumberInvalid
           | NumberUnavailable \<Rightarrow> Some VatNumberUnproven
           | NumberValid \<Rightarrow> if take 10 (ip_checkedAt p) < iq_periodFrom request then Some ProofPredatesPeriod else None))"

definition proof_step :: "icp_request \<Rightarrow> (icp_finding_code \<times> excluded_seat) list \<Rightarrow> icp_entry \<Rightarrow>
    (icp_finding_code \<times> excluded_seat) list" where
  "proof_step request problems entry =
     (case proof_problem request entry of
        None \<Rightarrow> problems
      | Some code \<Rightarrow> foldl (\<lambda>m c. flag_problem code c m) problems (ie_lines entry))"

definition ICP_KINDS :: "(icp_finding_code \<times> finding_severity \<times> string) list" where
  "ICP_KINDS =
    [(SupplyWithoutCounterparty, Blocking, ''icp.supply_without_counterparty''),
     (CounterpartyWithoutVatNumber, Blocking, ''icp.counterparty_without_vat_number''),
     (VatNumberMalformed, Blocking, ''icp.vat_number_malformed''),
     (VatNumberNotEu, Blocking, ''icp.vat_number_not_eu''),
     (VatNumberInvalid, Blocking, ''icp.vat_number_invalid''),
     (VatNumberUnproven, Blocking, ''icp.vat_number_unproven''),
     (ProofPredatesPeriod, Warning, ''icp.proof_predates_period'')]"

definition kind_finding :: "(icp_finding_code \<times> excluded_seat) list \<Rightarrow> icp_finding_code \<times> finding_severity \<times> string \<Rightarrow>
    icp_finding list" where
  "kind_finding problems kind =
     (case kind of (code, severity, key) \<Rightarrow>
        case map_of problems code of
          None \<Rightarrow> []
        | Some found \<Rightarrow>
            [\<lparr>if_code = code, if_severity = severity, if_message = renderFindingMessage key None, if_messageKey = key,
              if_detail = None, if_amount = xs_amount found, if_lines = xs_lines found\<rparr>])"

definition mismatch_with_3b :: "int \<Rightarrow> int \<Rightarrow> icp_finding list" where
  "mismatch_with_3b amount rubriek3b =
     (if amount - rubriek3b \<noteq> 0
      then let detail = Some [(''total'', int_to_string amount), (''rubriek3b'', int_to_string rubriek3b)]
           in [\<lparr>if_code = IcpMismatch, if_severity = Blocking, if_message = renderFindingMessage ''icp.icp_mismatch'' detail,
                if_messageKey = ''icp.icp_mismatch'', if_detail = detail, if_amount = amount - rubriek3b, if_lines = []\<rparr>]
      else [])"

definition buildIcpReturn :: "(string \<Rightarrow> string \<Rightarrow> int) \<Rightarrow> icp_request \<Rightarrow> icp_return" where
  "buildIcpReturn collation request =
     (let st = foldl (icp_step request) \<lparr>ix_byNumber = [], ix_problems = []\<rparr> (iq_lines request);
          entries = sort_by (\<lambda>a b. collation (ie_vatNumber a) (ie_vatNumber b))
            (map (entry_of_seat request) (ix_byNumber st));
          problems = foldl (proof_step request) (ix_problems st) entries;
          goods = (\<Sum>e\<leftarrow>entries. ie_goods e);
          services = (\<Sum>e\<leftarrow>entries. ie_services e);
          amount = goods + services;
          rubriek3b = (case find (\<lambda>e. ru_id (rt_rubriek e) = ''3b'') (vr_rubrieken (iq_vatReturn request)) of
            Some e \<Rightarrow> rt_base e | None \<Rightarrow> 0);
          findings = concat (map (kind_finding problems) ICP_KINDS) @ mismatch_with_3b amount rubriek3b
      in \<lparr>ir_periodFrom = iq_periodFrom request, ir_periodTo = iq_periodTo request, ir_entries = entries,
          ir_goods = goods, ir_services = services, ir_total = amount, ir_rubriek3b = rubriek3b,
          ir_difference = amount - rubriek3b,
          ir_findings = sort_by (\<lambda>a b. cmp_or (severity_order (if_severity a) - severity_order (if_severity b))
            (collation (icp_code_text (if_code a)) (icp_code_text (if_code b)))) findings,
          ir_blocked = list_ex (\<lambda>f. if_severity f = Blocking) findings\<rparr>)"

definition assertIcpFileable :: "icp_return \<Rightarrow> thrown + unit" where
  "assertIcpFileable icp =
     (let problems = map (\<lambda>f. forwarded ''icp_mismatch'' (Some (''icp.'' @ icp_code_text (if_code f))) (if_message f)
            (Some (if_messageKey f))
            (Some [(''code'', icp_code_text (if_code f)), (''amount'', int_to_string (if_amount f)),
              (''lines'', nat_to_string (length (if_lines f)))]))
          (filter (\<lambda>f. if_severity f = Blocking) (ir_findings icp))
      in if problems \<noteq> [] then Inl (LedgerError problems) else Inr ())"

section \<open>The opgaaf against box 3b\<close>

definition UNPLACED :: "icp_finding_code list" where
  "UNPLACED = [SupplyWithoutCounterparty, CounterpartyWithoutVatNumber, VatNumberNotEu, VatNumberMalformed]"

definition flagged :: "icp_finding_code \<Rightarrow> (icp_finding_code \<times> excluded_seat) list \<Rightarrow> int" where
  "flagged code problems = xs_amount (seat_or \<lparr>xs_amount = 0, xs_lines = []\<rparr> problems code)"

lemma flagged_flag_problem [simp]:
  "flagged k (flag_problem code c problems) = flagged k problems + (if k = code then ct_amount c else 0)"
  by (simp add: flagged_def flag_problem_def seat_or_map_alter add_excluded_def)

definition seat_amount :: "icp_seat \<Rightarrow> int" where
  "seat_amount s = is_goods s + is_services s"

lemma seat_amount_simps:
  "seat_amount \<lparr>is_countryCode = cc, is_contactNumber = n, is_contactName = m, is_goods = g, is_services = v, is_lines = ls\<rparr> = g + v"
  "seat_amount (s\<lparr>is_lines := ls\<rparr>) = seat_amount s"
  "seat_amount (s\<lparr>is_goods := is_goods s + x\<rparr>) = seat_amount s + x"
  "seat_amount (s\<lparr>is_services := is_services s + x\<rparr>) = seat_amount s + x"
  by (simp_all add: seat_amount_def)

definition placed :: "icp_state \<Rightarrow> int" where
  "placed st = (\<Sum>e\<leftarrow>ix_byNumber st. seat_amount (snd e))"

definition supplies :: "icp_state \<Rightarrow> int" where
  "supplies st = placed st + (\<Sum>k\<leftarrow>UNPLACED. flagged k (ix_problems st))"

lemma supplies_flag: "code \<in> set UNPLACED \<Longrightarrow> supplies (flag code c st) = supplies st + ct_amount c"
  by (auto simp: supplies_def placed_def flag_def UNPLACED_def)

lemma supplies_seat: "supplies (seat_supply line rule c parsed st) = supplies st + ct_amount c"
  unfolding supplies_def placed_def seat_supply_def
  by (simp add: seat_amount_simps sum_map_alter [where g = seat_amount])

lemma supplies_step: "supplies (icp_step request st line) =
    supplies st + (if icp_rule (iq_rules request) line \<noteq> None then - vl_signed line else 0)"
  by (auto simp: icp_step_def place_supply_def Let_def supplies_flag supplies_seat UNPLACED_def contributionOf_def
      split: option.splits)

lemma flagged_proof: "k \<in> set UNPLACED \<Longrightarrow> flagged k (foldl (proof_step request) problems entries) = flagged k problems"
proof (induction entries arbitrary: problems)
  case (Cons e es)
  have "flagged k (foldl (\<lambda>m c. flag_problem code c m) m cs) = flagged k m" if "code \<noteq> k" for code cs m
    using that by (induction cs arbitrary: m) simp_all
  moreover have "proof_problem request e \<noteq> Some k"
    using Cons.prems by (auto simp: proof_problem_def UNPLACED_def split: option.splits vat_number_outcome.splits)
  ultimately have "flagged k (proof_step request problems e) = flagged k problems"
    by (auto simp: proof_step_def split: option.splits)
  with Cons show ?case by simp
qed simp

lemma unplaced_findings:
  "(\<Sum>f\<leftarrow>filter (\<lambda>f. if_code f \<in> set UNPLACED) (concat (map (kind_finding problems) ICP_KINDS) @ mismatch_with_3b t b).
      if_amount f) = (\<Sum>k\<leftarrow>UNPLACED. flagged k problems)"
proof -
  let ?P = "\<lambda>f. if_code f \<in> set UNPLACED"
  have kind: "(\<Sum>f\<leftarrow>filter ?P (kind_finding problems (code, severity, key)). if_amount f) =
      (if code \<in> set UNPLACED then flagged code problems else 0)" for code severity key
    by (simp add: kind_finding_def flagged_def seat_or_def split: option.splits)
  have "filter ?P (mismatch_with_3b t b) = []"
    by (simp add: mismatch_with_3b_def Let_def UNPLACED_def)
  then show ?thesis by (simp add: ICP_KINDS_def kind) (simp add: UNPLACED_def)
qed

lemma sum_entries: "(\<Sum>e\<leftarrow>m. ie_goods (entry_of_seat request e)) + (\<Sum>e\<leftarrow>m. ie_services (entry_of_seat request e)) =
    (\<Sum>e\<leftarrow>m. seat_amount (snd e))"
  by (induction m) (auto simp: entry_of_seat_def seat_amount_def)

definition declares_3b :: "tax_code_rule \<Rightarrow> bool" where
  "declares_3b rule \<longleftrightarrow> (feedsIcp rule \<longleftrightarrow> tc_baseRubriek rule = Some ''3b'') \<and> (feedsIcp rule \<longrightarrow> tc_direction rule = OutputTax)"

lemma base_effect_3b:
  assumes "\<forall>rule \<in> set (vq_rules vq). declares_3b rule"
  shows "base_effect vq ''3b'' (vat_journal_line.truncate line) =
    (if icp_rule (vq_rules vq) line \<noteq> None then - vl_signed line else 0)"
proof (cases "line_rule vq (vat_journal_line.truncate line)")
  case None
  then show ?thesis
    by (auto simp: base_effect_def icp_rule_def line_rule_def vat_journal_line.truncate_def split: option.splits)
next
  case (Some rule)
  then have "rule \<in> set (vq_rules vq)"
    unfolding line_rule_def ruleInForce_def by (metis (no_types, lifting) find_Some_iff nth_mem option.case_eq_if option.distinct(1))
  with assms have "declares_3b rule" by blast
  with Some show ?thesis
    by (auto simp: base_effect_def icp_rule_def line_rule_def vat_journal_line.truncate_def declares_3b_def natural_base_def
        split: option.splits)
qed

lemma opgaaf_total:
  "ir_total (buildIcpReturn collation request) +
     (\<Sum>f\<leftarrow>filter (\<lambda>f. if_code f \<in> set UNPLACED) (ir_findings (buildIcpReturn collation request)). if_amount f) =
   (\<Sum>l\<leftarrow>iq_lines request. if icp_rule (iq_rules request) l \<noteq> None then - vl_signed l else 0)"
proof -
  let ?st = "foldl (icp_step request) \<lparr>ix_byNumber = [], ix_problems = []\<rparr> (iq_lines request)"
  have filter_sorted: "(\<Sum>f\<leftarrow>filter P (sort_by cmp fs). if_amount f) = (\<Sum>f\<leftarrow>filter P fs. if_amount f)" for P cmp fs
    by (metis mset_filter mset_map mset_sort_by sum_mset_sum_list)
  have total: "ir_total (buildIcpReturn collation request) = placed ?st"
    by (simp add: buildIcpReturn_def Let_def sum_entries placed_def comp_def)
  have "(\<Sum>f\<leftarrow>filter (\<lambda>f. if_code f \<in> set UNPLACED) (ir_findings (buildIcpReturn collation request)). if_amount f) =
      (\<Sum>k\<leftarrow>UNPLACED. flagged k (ix_problems ?st))"
    unfolding buildIcpReturn_def Let_def icp_return.simps filter_sorted unplaced_findings
    using flagged_proof by (simp cong: map_cong)
  with total show ?thesis
    using foldl_sum [of supplies "icp_step request", OF supplies_step]
    by (simp add: supplies_def [of ?st]) (simp add: supplies_def placed_def flagged_def UNPLACED_def)
qed


definition supply_rule :: tax_code_rule where
  "supply_rule = high_rate\<lparr>tc_code := ''ICL'', tc_rateBasisPoints := 0, tc_baseRubriek := Some ''3b'', tc_vatRubriek := None,
     tc_scope := IntraCommunitySupply, tc_supplyKind := Goods\<rparr>"

definition sample_supply :: "string option \<Rightarrow> int \<Rightarrow> icp_journal_line" where
  "sample_supply number amount =
     \<lparr>vl_entryId = ''e1'', vl_entryNumber = ''1'', vl_journalCode = ''VRK'', vl_bookingDate = ''2026-02-01'',
      vl_lineNumber = 1, vl_accountNumber = ''8000'', vl_accountName = ''Omzet'', vl_description = [],
      vl_taxCode = Some ''ICL'', vl_taxRole = Some Base, vl_signed = - amount, vl_sourceDocumentRef = None,
      ij_counterpartyNumber = number, ij_counterpartyName = number,
      ij_counterpartyVatNumber = map_option (\<lambda>_. ''DE123456789'') number, ij_counterpartyCountryCode = Some ''DE''\<rparr>"

definition sample_supplies :: "icp_journal_line list" where
  "sample_supplies = [sample_supply (Some ''K1'') 700, sample_supply None 300]"

definition supplies_return :: vat_return_request where
  "supplies_return = \<lparr>vq_periodFrom = ''2026-01-01'', vq_periodTo = ''2026-03-31'',
     vq_lines = map vat_journal_line.truncate sample_supplies, vq_rules = [supply_rule], vq_controlAccountNumbers = []\<rparr>"

definition sample_icp :: "(string \<Rightarrow> string \<Rightarrow> int) \<Rightarrow> icp_request" where
  "sample_icp collation = \<lparr>iq_periodFrom = ''2026-01-01'', iq_periodTo = ''2026-03-31'', iq_lines = sample_supplies,
     iq_rules = [supply_rule], iq_vatReturn = buildVatReturn collation supplies_return, iq_proofs = []\<rparr>"


end
