(* ===== verification/Vat_Filing.thy ===== *)
theory Vat_Filing
  imports Vat_Return
begin

text \<open>
  Deciding whether a return may be filed and whether it is a suppletie: \<^verbatim>\<open>packages/core/src/vat/filing.ts\<close>. The
  transport is carried through; it is the text of the source's union.
\<close>

datatype vat_period_kind = Monthly | Quarterly | Annual

record filed_snapshot =
  fs_id :: string
  fs_sequence :: int
  fs_owed :: int
  fs_deductible :: int
  fs_payable :: int

record filing_request =
  fr_vatReturn :: vat_return
  fr_kind :: vat_period_kind
  fr_existing :: "filed_snapshot option"
  fr_acceptWarnings :: bool
  fr_acceptedReason :: "string option"
  fr_transport :: string

record filing_difference =
  fd_label :: string
  fd_filed :: int
  fd_now :: int

record filing_plan =
  fp_kind :: vat_period_kind
  fp_sequence :: int
  fp_supersedesId :: "string option"
  fp_isSuppletie :: bool
  fp_differences :: "filing_difference list"
  fp_acceptedWarnings :: "vat_finding list"
  fp_transport :: string

definition compare_figure :: "string \<Rightarrow> int \<Rightarrow> int \<Rightarrow> filing_difference list" where
  "compare_figure label was now =
     (if was \<noteq> now then [\<lparr>fd_label = label, fd_filed = was, fd_now = now\<rparr>] else [])"

definition suppletieNeeded :: "filed_snapshot \<Rightarrow> vat_return \<Rightarrow> filing_difference list" where
  "suppletieNeeded filed current =
     compare_figure ''5a Verschuldigde omzetbelasting'' (fs_owed filed) (vr_owed current) @
     compare_figure ''5b Voorbelasting'' (fs_deductible filed) (vr_deductible current) @
     compare_figure ''5c Totaal te betalen of terug te vragen'' (fs_payable filed) (vr_payable current)"

definition blocking_problem :: "vat_finding \<Rightarrow> ledger_violation" where
  "blocking_problem f =
     forwarded ''vat_out_of_balance'' (Some (''findings.'' @ finding_code_text (vf_code f))) (vf_message f)
       (Some (vf_messageKey f))
       (Some [(''code'', finding_code_text (vf_code f)), (''amount'', int_to_string (vf_amount f)),
         (''lines'', nat_to_string (length (vf_lines f)))])"

definition planFiling :: "filing_request \<Rightarrow> thrown + filing_plan" where
  "planFiling request =
     (let blocking = filter (\<lambda>f. vf_severity f = Blocking) (vr_findings (fr_vatReturn request));
          warnings = filter (\<lambda>f. vf_severity f = Warning) (vr_findings (fr_vatReturn request));
          differences = (case fr_existing request of None \<Rightarrow> []
            | Some existing \<Rightarrow> suppletieNeeded existing (fr_vatReturn request));
          problems = map blocking_problem blocking @
            (if warnings \<noteq> [] \<and> \<not> fr_acceptWarnings request
             then [violation ''vat_out_of_balance.return_warning_s'' (Some ''acceptWarnings'')
                     (Some [(''count'', nat_to_string (length warnings))])] else []) @
            (if fr_acceptWarnings request \<and>
                js_trim (case fr_acceptedReason request of Some r \<Rightarrow> r | None \<Rightarrow> []) = []
             then [violation ''vat_out_of_balance.accepting_warning_reason'' (Some ''acceptedReason'') None] else []) @
            (if fr_existing request \<noteq> None \<and> differences = []
             then [violation ''period_already_filed'' (Some ''period'') None] else [])
      in if problems \<noteq> [] then Inl (LedgerError problems)
         else Inr \<lparr>fp_kind = fr_kind request,
           fp_sequence = (case fr_existing request of Some e \<Rightarrow> fs_sequence e | None \<Rightarrow> 0) + 1,
           fp_supersedesId = map_option fs_id (fr_existing request),
           fp_isSuppletie = (fr_existing request \<noteq> None), fp_differences = differences,
           fp_acceptedWarnings = (if fr_acceptWarnings request then warnings else []),
           fp_transport = fr_transport request\<rparr>)"

text \<open>The snapshot that filing a return leaves behind.\<close>

definition snapshot_of :: "string \<Rightarrow> int \<Rightarrow> vat_return \<Rightarrow> filed_snapshot" where
  "snapshot_of i sequence ret =
     \<lparr>fs_id = i, fs_sequence = sequence, fs_owed = vr_owed ret, fs_deductible = vr_deductible ret,
      fs_payable = vr_payable ret\<rparr>"

lemma suppletieNeeded_Nil:
  "suppletieNeeded filed ret = [] \<longleftrightarrow>
     fs_owed filed = vr_owed ret \<and> fs_deductible filed = vr_deductible ret \<and> fs_payable filed = vr_payable ret"
  by (auto simp: suppletieNeeded_def compare_figure_def)

lemma planFiling_ok:
  "planFiling request = Inr plan \<longleftrightarrow>
     (\<forall>f \<in> set (vr_findings (fr_vatReturn request)). vf_severity f = Warning \<and> fr_acceptWarnings request) \<and>
     (fr_acceptWarnings request \<longrightarrow> js_trim (case fr_acceptedReason request of Some r \<Rightarrow> r | None \<Rightarrow> []) \<noteq> []) \<and>
     (\<forall>e. fr_existing request = Some e \<longrightarrow> suppletieNeeded e (fr_vatReturn request) \<noteq> []) \<and>
     plan = \<lparr>fp_kind = fr_kind request,
       fp_sequence = (case fr_existing request of Some e \<Rightarrow> fs_sequence e | None \<Rightarrow> 0) + 1,
       fp_supersedesId = map_option fs_id (fr_existing request), fp_isSuppletie = (fr_existing request \<noteq> None),
       fp_differences = (case fr_existing request of None \<Rightarrow> [] | Some e \<Rightarrow> suppletieNeeded e (fr_vatReturn request)),
       fp_acceptedWarnings = vr_findings (fr_vatReturn request), fp_transport = fr_transport request\<rparr>"
proof -
  have sev: "vf_severity f \<noteq> Blocking \<longleftrightarrow> vf_severity f = Warning" for f by (cases "vf_severity f") simp_all
  have all: "filter (\<lambda>f. vf_severity f = Blocking) fs = [] \<Longrightarrow> filter (\<lambda>f. vf_severity f = Warning) fs = fs" for fs
    by (induction fs) (auto simp: sev split: if_splits)
  show ?thesis
    using all [of "vr_findings (fr_vatReturn request)"]
    by (cases "fr_existing request") (auto simp: planFiling_def Let_def filter_empty_conv sev split: if_splits)
qed

text \<open>
  A return is filed at most once as it stands. When a plan is accepted nothing blocking was found and every
  warning was accepted with a reason; filed under the next number, the same return is then refused as already
  filed, and a return with other figures is a suppletie that supersedes it with the number after.
\<close>

theorem filing_is_once:
  assumes "planFiling request = Inr plan"
  shows "\<not> (\<exists>f \<in> set (vr_findings (fr_vatReturn request)). vf_severity f = Blocking) \<and>
    fp_acceptedWarnings plan = vr_findings (fr_vatReturn request) \<and>
    (let filed = snapshot_of i (fp_sequence plan) (fr_vatReturn request); again = request\<lparr>fr_existing := Some filed\<rparr>
     in planFiling again = Inl (LedgerError [violation ''period_already_filed'' (Some ''period'') None]) \<and>
        (\<forall>ret. vr_findings ret = [] \<longrightarrow>
          (vr_owed ret, vr_deductible ret, vr_payable ret) \<noteq> (fs_owed filed, fs_deductible filed, fs_payable filed) \<longrightarrow>
          (\<exists>next_plan. planFiling (again\<lparr>fr_vatReturn := ret\<rparr>) = Inr next_plan \<and> fp_isSuppletie next_plan \<and>
            fp_supersedesId next_plan = Some i \<and> fp_sequence next_plan = fp_sequence plan + 1 \<and>
            fp_differences next_plan \<noteq> [])))"
proof -
  note ok = assms [unfolded planFiling_ok]
  let ?filed = "snapshot_of i (fp_sequence plan) (fr_vatReturn request)"
  let ?again = "request\<lparr>fr_existing := Some ?filed\<rparr>"
  have no_blocking: "filter (\<lambda>f. vf_severity f = Blocking) (vr_findings (fr_vatReturn request)) = []"
    using ok by (auto simp: filter_empty_conv)
  have "suppletieNeeded ?filed (fr_vatReturn request) = []" by (simp add: suppletieNeeded_Nil snapshot_of_def)
  then have refused: "planFiling ?again = Inl (LedgerError [violation ''period_already_filed'' (Some ''period'') None])"
    using ok no_blocking by (auto simp: planFiling_def Let_def filter_empty_conv)
  have suppletie: "\<exists>next_plan. planFiling (?again\<lparr>fr_vatReturn := ret\<rparr>) = Inr next_plan \<and> fp_isSuppletie next_plan \<and>
      fp_supersedesId next_plan = Some i \<and> fp_sequence next_plan = fp_sequence plan + 1 \<and> fp_differences next_plan \<noteq> []"
    if "vr_findings ret = []"
      "(vr_owed ret, vr_deductible ret, vr_payable ret) \<noteq> (fs_owed ?filed, fs_deductible ?filed, fs_payable ?filed)" for ret
  proof -
    have "suppletieNeeded ?filed ret \<noteq> []" using that(2) by (auto simp: suppletieNeeded_Nil)
    then show ?thesis using that(1) ok unfolding planFiling_ok by (auto simp: snapshot_of_def)
  qed
  show ?thesis using ok refused suppletie unfolding Let_def by auto
qed

definition clean_return :: "int \<Rightarrow> vat_return" where
  "clean_return owed = \<lparr>vr_periodFrom = ''2026-01-01'', vr_periodTo = ''2026-03-31'', vr_rubrieken = [], vr_owed = owed,
     vr_deductible = 0, vr_payable = owed, vr_reconciliation = [], vr_findings = [], vr_blocked = False\<rparr>"

definition first_filing :: filing_request where
  "first_filing = \<lparr>fr_vatReturn = clean_return 210, fr_kind = Quarterly, fr_existing = None, fr_acceptWarnings = False,
     fr_acceptedReason = None, fr_transport = ''manual''\<rparr>"

theorem filing_is_once_witness:
  "planFiling (first_filing\<lparr>fr_existing := Some (snapshot_of ''f1'' 1 (clean_return 210))\<rparr>) =
   Inl (LedgerError [violation ''period_already_filed'' (Some ''period'') None])"
proof -
  have "planFiling first_filing = Inr \<lparr>fp_kind = Quarterly, fp_sequence = 1, fp_supersedesId = None, fp_isSuppletie = False,
     fp_differences = [], fp_acceptedWarnings = [], fp_transport = ''manual''\<rparr>"
    by (simp add: planFiling_ok first_filing_def clean_return_def)
  from filing_is_once [OF this, of "''f1''"] show ?thesis by (simp add: Let_def first_filing_def)
qed

end
