(* ===== verification/Sales_Pricing.thy ===== *)
theory Sales_Pricing
  imports Money Insertion_Maps "HOL-Library.Signed_Division"
begin

text \<open>
  What an invoice adds up to: \<^verbatim>\<open>packages/core/src/sales/pricing.ts\<close>. \<open>dueDate\<close> of the same file is in
  \<^verbatim>\<open>Calendar\<close>. A rate is an integer of the source's \<open>number\<close>; \<open>BigInt\<close> of any other number is an error.
\<close>

datatype vat_rounding = PerInvoice | PerLine

record tax_code_snapshot =
  ts_id :: string
  ts_code :: string
  ts_description :: string
  ts_rateBasisPoints :: int
  ts_isReverseCharge :: bool
  ts_ublCategory :: string

record invoice_line_input =
  il_description :: string
  il_quantity :: string
  il_unitCode :: string
  il_unitPrice :: int
  il_revenueAccountNumber :: string
  il_taxCode :: string

record priced_line =
  pn_lineNumber :: nat
  pn_description :: string
  pn_quantity :: string
  pn_unitCode :: string
  pn_unitPrice :: int
  pn_revenueAccountNumber :: string
  pn_tax :: tax_code_snapshot
  pn_net :: int
  pn_taxAmount :: int

record tax_group =
  tg_tax :: tax_code_snapshot
  tg_net :: int
  tg_amount :: int

record priced_invoice =
  pi_lines :: "priced_line list"
  pi_taxGroups :: "tax_group list"
  pi_net :: int
  pi_tax :: int
  pi_total :: int
  pi_rounding :: vat_rounding

section \<open>Arithmetic\<close>

definition parseDecimal :: "string \<Rightarrow> string \<Rightarrow> thrown + (int \<times> int)" where
  "parseDecimal v field =
     (if \<not> is_signed_decimal v
      then throw ''invalid_exchange_rate.decimal_number'' (Some field) (Some [(''value'', v)])
      else
        let negative = starts_with ''-'' v;
            unsigned = (if negative then drop 1 v else v);
            parts = split_on CHR ''.'' unsigned;
            whole = item_or parts 0 ''0'';
            fraction = item_or parts 1 []
        in (case BigInt (whole @ fraction) of
              None \<Rightarrow> Inl SyntaxError
            | Some scaled \<Rightarrow> Inr (if negative then - scaled else scaled, 10 ^ length fraction)))"

definition divideRound :: "int \<Rightarrow> int \<Rightarrow> int" where
  "divideRound numerator denominator =
     (let negative = (numerator < 0) \<noteq> (denominator < 0);
          a = (if numerator < 0 then - numerator else numerator);
          b = (if denominator < 0 then - denominator else denominator);
          rounded = (a * 2 + b) sdiv (b * 2)
      in if negative then - rounded else rounded)"

definition lineNet :: "string \<Rightarrow> int \<Rightarrow> thrown + int" where
  "lineNet quantity unitPrice =
     and_then (parseDecimal quantity ''quantity'') (\<lambda>(scaled, scale). Inr (divideRound (scaled * unitPrice) scale))"

definition taxOn :: "int \<Rightarrow> int \<Rightarrow> int" where
  "taxOn net rateBasisPoints = divideRound (net * rateBasisPoints) 10000"

text \<open>Largest remainders first, ties to the earlier line; the loop stops when nothing is left over.\<close>

definition by_remainder :: "nat \<times> int \<Rightarrow> nat \<times> int \<Rightarrow> int" where
  "by_remainder a b =
     (if snd a = snd b then int (fst a) - int (fst b) else if snd a > snd b then - 1 else 1)"

fun spread :: "int \<Rightarrow> (nat \<times> int) list \<Rightarrow> int \<Rightarrow> int list \<Rightarrow> int list" where
  "spread step [] leftover shares = shares"
| "spread step (entry # entries) leftover shares =
     (if leftover = 0 then shares
      else spread step entries (leftover - step) (shares[fst entry := shares ! fst entry + step]))"

definition allocate :: "int \<Rightarrow> int list \<Rightarrow> int list" where
  "allocate tot weights =
     (let weightTotal = sum_list weights
      in if weightTotal = 0 then map (\<lambda>_. 0) weights
         else
           let shares = map (\<lambda>weight. (tot * weight) sdiv weightTotal) weights;
               remainders = map (\<lambda>(index, weight). (index, (tot * weight) smod weightTotal)) (enumerate 0 weights);
               leftover = tot - sum_list shares
           in spread (if leftover < 0 then - 1 else 1) (sort_by by_remainder remainders) leftover shares)"

section \<open>Pricing\<close>

record resolved_item =
  ri_line :: invoice_line_input
  ri_tax :: tax_code_snapshot
  ri_index :: nat
  ri_net :: int

definition resolve_item :: "(string \<times> tax_code_snapshot) list \<Rightarrow> nat \<times> invoice_line_input \<Rightarrow> thrown + resolved_item" where
  "resolve_item taxCodes e =
     (case e of (index, line) \<Rightarrow>
        case map_of taxCodes (il_taxCode line) of
          None \<Rightarrow> throw ''unknown_account.tax_code'' (Some (''lines.'' @ nat_to_string index @ ''.taxCode''))
                    (Some [(''taxCode'', il_taxCode line)])
        | Some tax \<Rightarrow>
            and_then (lineNet (il_quantity line) (il_unitPrice line)) (\<lambda>net.
              Inr \<lparr>ri_line = line, ri_tax = tax, ri_index = index, ri_net = net\<rparr>))"

definition group_of_items :: "vat_rounding \<Rightarrow> resolved_item list \<Rightarrow> tax_group" where
  "group_of_items rounding members =
     (let tax = ri_tax (hd members); groupNet = (\<Sum>m\<leftarrow>members. ri_net m)
      in \<lparr>tg_tax = tax, tg_net = groupNet,
          tg_amount = (case rounding of
              PerLine \<Rightarrow> (\<Sum>m\<leftarrow>members. taxOn (ri_net m) (ts_rateBasisPoints tax))
            | PerInvoice \<Rightarrow> taxOn groupNet (ts_rateBasisPoints tax))\<rparr>)"

definition taxes_of_items :: "vat_rounding \<Rightarrow> resolved_item list \<Rightarrow> (nat \<times> int) list" where
  "taxes_of_items rounding members =
     (let tax = ri_tax (hd members)
      in zip (map ri_index members) (case rounding of
           PerLine \<Rightarrow> map (\<lambda>m. taxOn (ri_net m) (ts_rateBasisPoints tax)) members
         | PerInvoice \<Rightarrow> allocate (taxOn (\<Sum>m\<leftarrow>members. ri_net m) (ts_rateBasisPoints tax)) (map ri_net members)))"

definition price_item :: "(nat \<times> int) list \<Rightarrow> resolved_item \<Rightarrow> priced_line" where
  "price_item lineTax item =
     \<lparr>pn_lineNumber = ri_index item + 1, pn_description = il_description (ri_line item),
      pn_quantity = il_quantity (ri_line item), pn_unitCode = il_unitCode (ri_line item),
      pn_unitPrice = il_unitPrice (ri_line item), pn_revenueAccountNumber = il_revenueAccountNumber (ri_line item),
      pn_tax = ri_tax item, pn_net = ri_net item,
      pn_taxAmount = (case map_of lineTax (ri_index item) of Some v \<Rightarrow> v | None \<Rightarrow> 0)\<rparr>"

definition priceInvoice ::
  "(string \<Rightarrow> string \<Rightarrow> int) \<Rightarrow> invoice_line_input list \<Rightarrow> (string \<times> tax_code_snapshot) list \<Rightarrow> vat_rounding \<Rightarrow>
   thrown + priced_invoice" where
  "priceInvoice collation ls taxCodes rounding =
     (if length ls = 0 then throw ''entry_too_few_lines.invoice_line'' (Some ''lines'') None
      else and_then (map_result (resolve_item taxCodes) (enumerate 0 ls)) (\<lambda>resolved.
        let groups = map snd (group_by (\<lambda>i. ts_code (ri_tax i)) resolved);
            lineTax = js_map (concat (map (taxes_of_items rounding) groups));
            taxGroups = sort_by (\<lambda>a b. collation (ts_code (tg_tax a)) (ts_code (tg_tax b)))
              (map (group_of_items rounding) groups);
            priced = map (price_item lineTax) resolved;
            net = (\<Sum>l\<leftarrow>priced. pn_net l);
            tax = (\<Sum>g\<leftarrow>taxGroups. tg_amount g)
        in Inr \<lparr>pi_lines = priced, pi_taxGroups = taxGroups, pi_net = net, pi_tax = tax, pi_total = net + tax,
                pi_rounding = rounding\<rparr>))"

section \<open>Shares add up\<close>

lemma length_spread [simp]: "length (spread step es leftover shares) = length shares"
  by (induction step es leftover shares rule: spread.induct) auto

lemma spread_sum:
  assumes "\<bar>leftover\<bar> \<le> int (length es)" "\<forall>e \<in> set es. fst e < length shares" "0 \<le> step * leftover" "step * step = 1"
  shows "sum_list (spread step es leftover shares) = sum_list shares + leftover"
  using assms
proof (induction step es leftover shares rule: spread.induct)
  case (2 step e es leftover shares)
  show ?case
  proof (cases "leftover = 0")
    case False
    have step: "step = 1 \<or> step = - 1" using "2.prems"(4) by (simp add: zmult_eq_1_iff)
    then have "\<bar>leftover - step\<bar> \<le> int (length es)" "0 \<le> step * (leftover - step)"
      using "2.prems" False by auto
    with 2 False show ?thesis by (simp add: sum_list_update_add)
  qed simp
qed simp

lemma sum_enumerate: "(\<Sum>e\<leftarrow>enumerate k xs. f (snd e)) = (\<Sum>x\<leftarrow>xs. f x)"
  by (induction xs arbitrary: k) simp_all

lemma abs_sum_less:
  fixes f :: "'a \<Rightarrow> int"
  assumes "xs \<noteq> []" "\<And>x. x \<in> set xs \<Longrightarrow> \<bar>f x\<bar> < w"
  shows "\<bar>\<Sum>x\<leftarrow>xs. f x\<bar> < w * int (length xs)"
  using assms
proof (induction xs)
  case (Cons x xs)
  show ?case
  proof (cases "xs = []")
    case False
    with Cons have "\<bar>\<Sum>x\<leftarrow>xs. f x\<bar> < w * int (length xs)" "\<bar>f x\<bar> < w" by auto
    then show ?thesis by (simp add: algebra_simps)
  next
    case True
    with Cons.prems show ?thesis by simp
  qed
qed simp

text \<open>The parts sum to the whole, whatever the signs of the weights.\<close>

lemma allocate_sum:
  assumes "sum_list weights = 0 \<Longrightarrow> tot = 0"
  shows "sum_list (allocate tot weights) = tot" "length (allocate tot weights) = length weights"
proof -
  let ?W = "sum_list weights"
  let ?shares = "map (\<lambda>w. (tot * w) sdiv ?W) weights"
  let ?rem = "\<lambda>w. (tot * w) smod ?W"
  let ?left = "tot - sum_list ?shares"
  show "length (allocate tot weights) = length weights" by (simp add: allocate_def Let_def)
  show "sum_list (allocate tot weights) = tot"
  proof (cases "?W = 0")
    case True
    then show ?thesis using assms by (simp add: allocate_def)
  next
    case False
    then have ne: "weights \<noteq> []" by auto
    have "tot * w = ?W * ((tot * w) sdiv ?W) + ?rem w" for w by (metis mult_sdiv_smod_eq mult.commute)
    then have "(\<Sum>w\<leftarrow>weights. tot * w) = (\<Sum>w\<leftarrow>weights. ?W * ((tot * w) sdiv ?W)) + (\<Sum>w\<leftarrow>weights. ?rem w)"
      by (simp add: sum_list_addf [symmetric])
    then have "tot * (\<Sum>w\<leftarrow>weights. w) = ?W * (\<Sum>w\<leftarrow>weights. (tot * w) sdiv ?W) + (\<Sum>w\<leftarrow>weights. ?rem w)"
      unfolding sum_list_const_mult .
    then have eq: "?W * ?left = (\<Sum>w\<leftarrow>weights. ?rem w)"
      by (simp add: right_diff_distrib mult.commute [of ?W tot])
    have "\<bar>?rem w\<bar> < \<bar>?W\<bar>" for w using False smod_int_range [of ?W "tot * w"] by (auto simp: abs_less_iff)
    then have "\<bar>?W * ?left\<bar> < \<bar>?W\<bar> * int (length weights)" unfolding eq by (intro abs_sum_less [OF ne]) simp
    then have "\<bar>?left\<bar> \<le> int (length weights)" using False by (simp add: abs_mult mult_less_cancel_left)
    then show ?thesis using False
      by (subst allocate_def) (auto simp: Let_def in_set_enumerate_eq intro!: trans [OF spread_sum])
  qed
qed

lemma taxOn_nonneg: "0 \<le> net \<Longrightarrow> 0 \<le> rate \<Longrightarrow> 0 \<le> taxOn net rate"
proof -
  assume "0 \<le> net" "0 \<le> rate"
  then have "0 \<le> net * rate" by simp
  then show ?thesis by (simp add: taxOn_def divideRound_def sdiv_nonneg pos_imp_zdiv_nonneg_iff)
qed

section \<open>The totals of an invoice\<close>

lemma group_shares:
  "map fst (taxes_of_items rounding members) = map ri_index members"
  "(\<Sum>e\<leftarrow>taxes_of_items rounding members. snd e) = tg_amount (group_of_items rounding members)"
proof -
  let ?rate = "ts_rateBasisPoints (ri_tax (hd members))"
  have zero: "taxOn 0 ?rate = 0" by (simp add: taxOn_def divideRound_def sdiv_nonneg)
  have "sum_list (map ri_net members) = 0 \<Longrightarrow> taxOn (\<Sum>m\<leftarrow>members. ri_net m) ?rate = 0" by (simp add: zero)
  note a = allocate_sum [OF this]
  have "length (case rounding of PerLine \<Rightarrow> map (\<lambda>m. taxOn (ri_net m) ?rate) members
      | PerInvoice \<Rightarrow> allocate (taxOn (\<Sum>m\<leftarrow>members. ri_net m) ?rate) (map ri_net members)) = length members"
    using a(2) by (simp split: vat_rounding.splits)
  then show "map fst (taxes_of_items rounding members) = map ri_index members"
    and "(\<Sum>e\<leftarrow>taxes_of_items rounding members. snd e) = tg_amount (group_of_items rounding members)"
    using a(1) by (simp_all add: taxes_of_items_def group_of_items_def Let_def split: vat_rounding.splits)
qed

lemma resolve_indexes:
  "map_result (resolve_item taxCodes) (enumerate k ls) = Inr items \<Longrightarrow> map ri_index items = [k..<k + length ls]"
proof (induction ls arbitrary: k items)
  case (Cons l ls)
  then obtain i others where "resolve_item taxCodes (k, l) = Inr i" "items = i # others"
    "map_result (resolve_item taxCodes) (enumerate (Suc k) ls) = Inr others"
    by (auto simp: and_then_Inr)
  moreover from this(1) have "ri_index i = k"
    by (auto simp: resolve_item_def and_then_Inr split: option.splits)
  moreover have "[k..<k + length (l # ls)] = k # [Suc k..<Suc k + length ls]"
    by (subst upt_rec) (simp del: upt_Suc)
  ultimately show ?case using Cons.IH by simp
qed simp

text \<open>Looking the shares up by index gives back each group's own shares.\<close>

lemma lookup_shares:
  assumes "distinct (map ri_index items)"
    and "groups = map snd (group_by key items)" "members \<in> set groups"
    and "shares = js_map (concat (map (taxes_of_items rounding) groups))"
  shows "(\<Sum>m\<leftarrow>members. case map_of shares (ri_index m) of Some v \<Rightarrow> v | None \<Rightarrow> 0) =
    tg_amount (group_of_items rounding members)"
proof -
  let ?all = "concat (map (taxes_of_items rounding) groups)"
  have "map fst ?all = map ri_index (concat groups)"
    by (simp add: map_concat comp_def group_shares(1))
  moreover have "distinct (map ri_index (concat groups))"
  proof -
    have "distinct items" using assms(1) by (simp add: distinct_map)
    then have "distinct (concat groups)" unfolding assms(2) by (rule distinct_concat_groups)
    moreover have "inj_on ri_index (set (concat groups))"
      using assms(1) by (simp only: assms(2) set_concat_groups distinct_map)
    ultimately show ?thesis by (simp add: distinct_map)
  qed
  ultimately have distinct: "distinct (map fst ?all)" by simp
  have look: "map_of shares i = Some v" if "(i, v) \<in> set (taxes_of_items rounding members)" for i v
    using that assms(3) distinct unfolding assms(4) map_of_js_map
    by (intro map_of_is_SomeI) (auto simp: rev_map [symmetric])
  have "map (\<lambda>m. case map_of shares (ri_index m) of Some v \<Rightarrow> v | None \<Rightarrow> 0) members =
      map (\<lambda>i. case map_of shares i of Some v \<Rightarrow> v | None \<Rightarrow> 0) (map fst (taxes_of_items rounding members))"
    by (simp add: group_shares(1) comp_def)
  also have "\<dots> = map snd (taxes_of_items rounding members)"
    using look by auto
  finally show ?thesis by (simp add: group_shares(2))
qed

definition of_code :: "string \<Rightarrow> priced_line \<Rightarrow> bool" where
  "of_code c l \<longleftrightarrow> ts_code (pn_tax l) = c"

lemma priced_groups:
  assumes "priceInvoice collation ls taxCodes rounding = Inr priced"
  shows "mset (map (\<lambda>g. ts_code (tg_tax g)) (pi_taxGroups priced)) = mset (js_set (map (\<lambda>l. ts_code (pn_tax l)) (pi_lines priced)))"
    and "\<And>g. g \<in> set (pi_taxGroups priced) \<Longrightarrow>
      tg_net g = (\<Sum>l\<leftarrow>filter (of_code (ts_code (tg_tax g))) (pi_lines priced). pn_net l) \<and>
      tg_amount g = (\<Sum>l\<leftarrow>filter (of_code (ts_code (tg_tax g))) (pi_lines priced). pn_taxAmount l) \<and>
      (rounding = PerInvoice \<longrightarrow> tg_amount g = taxOn (tg_net g) (ts_rateBasisPoints (tg_tax g))) \<and>
      (rounding = PerLine \<longrightarrow> tg_amount g =
        (\<Sum>l\<leftarrow>filter (of_code (ts_code (tg_tax g))) (pi_lines priced). taxOn (pn_net l) (ts_rateBasisPoints (tg_tax g)))) \<and>
      (\<exists>l \<in> set (pi_lines priced). pn_tax l = tg_tax g)"
    and "pi_net priced = (\<Sum>l\<leftarrow>pi_lines priced. pn_net l)" "pi_tax priced = (\<Sum>g\<leftarrow>pi_taxGroups priced. tg_amount g)"
    and "pi_total priced = pi_net priced + pi_tax priced"
proof -
  let ?key = "\<lambda>i. ts_code (ri_tax i)"
  from assms obtain items where items: "map_result (resolve_item taxCodes) (enumerate 0 ls) = Inr items"
    by (auto simp: priceInvoice_def and_then_Inr Let_def split: if_splits)
  define groups where "groups = map snd (group_by ?key items)"
  define shares where "shares = js_map (concat (map (taxes_of_items rounding) groups))"
  from assms items have p: "pi_lines priced = map (price_item shares) items"
    "mset (pi_taxGroups priced) = mset (map (group_of_items rounding) groups)"
    "pi_net priced = (\<Sum>l\<leftarrow>pi_lines priced. pn_net l)" "pi_tax priced = (\<Sum>g\<leftarrow>pi_taxGroups priced. tg_amount g)"
    "pi_total priced = pi_net priced + pi_tax priced"
    by (auto simp: priceInvoice_def and_then_Inr Let_def groups_def shares_def comp_def split: if_splits)
  show "pi_net priced = (\<Sum>l\<leftarrow>pi_lines priced. pn_net l)" "pi_tax priced = (\<Sum>g\<leftarrow>pi_taxGroups priced. tg_amount g)"
    "pi_total priced = pi_net priced + pi_tax priced" by (fact p)+
  have distinct: "distinct (map ri_index items)" using resolve_indexes [OF items] by simp
  have groups: "groups = map (\<lambda>k. filter (\<lambda>i. ?key i = k) items) (js_set (map ?key items))"
    by (simp add: groups_def group_by_filter comp_def)
  have code: "?key (hd (filter (\<lambda>i. ?key i = k) items)) = k" "hd (filter (\<lambda>i. ?key i = k) items) \<in> set items"
    if "k \<in> ?key ` set items" for k
  proof -
    have "filter (\<lambda>i. ?key i = k) items \<noteq> []" using that by (auto simp: filter_empty_conv)
    then have "hd (filter (\<lambda>i. ?key i = k) items) \<in> set (filter (\<lambda>i. ?key i = k) items)" by (rule hd_in_set)
    then show "?key (hd (filter (\<lambda>i. ?key i = k) items)) = k" "hd (filter (\<lambda>i. ?key i = k) items) \<in> set items" by auto
  qed
  have codes: "map (\<lambda>g. ts_code (tg_tax g)) (map (group_of_items rounding) groups) = js_set (map ?key items)"
    unfolding groups map_map comp_def using code(1) by (intro map_idI) (auto simp: group_of_items_def Let_def)
  have "mset (map (\<lambda>g. ts_code (tg_tax g)) (pi_taxGroups priced)) = mset (js_set (map ?key items))"
    unfolding codes [symmetric] by (simp only: mset_map p(2))
  moreover have "map (\<lambda>l. ts_code (pn_tax l)) (pi_lines priced) = map ?key items"
    unfolding p(1) by (simp add: price_item_def)
  ultimately show "mset (map (\<lambda>g. ts_code (tg_tax g)) (pi_taxGroups priced)) = mset (js_set (map (\<lambda>l. ts_code (pn_tax l)) (pi_lines priced)))"
    by simp
  fix g
  assume "g \<in> set (pi_taxGroups priced)"
  then have "g \<in> set (map (group_of_items rounding) groups)" using mset_eq_setD [OF p(2)] by simp
  then obtain k where k: "k \<in> ?key ` set items" and g: "g = group_of_items rounding (filter (\<lambda>i. ?key i = k) items)"
    unfolding groups by auto
  let ?members = "filter (\<lambda>i. ?key i = k) items"
  have tax: "tg_tax g = ri_tax (hd ?members)" "ts_code (tg_tax g) = k" using code(1) [OF k] by (simp_all add: g group_of_items_def Let_def)
  have lines: "filter (of_code k) (pi_lines priced) = map (price_item shares) ?members"
    unfolding p(1) by (simp add: filter_map of_code_def price_item_def comp_def)
  have "?members \<in> set groups" using k unfolding groups by auto
  from lookup_shares [OF distinct groups_def this shares_def]
  have "tg_amount g = (\<Sum>l\<leftarrow>filter (of_code k) (pi_lines priced). pn_taxAmount l)"
    unfolding lines g by (simp add: price_item_def comp_def)
  moreover have "tg_net g = (\<Sum>l\<leftarrow>filter (of_code k) (pi_lines priced). pn_net l)"
    unfolding lines g by (simp add: price_item_def comp_def group_of_items_def Let_def)
  moreover have "rounding = PerInvoice \<longrightarrow> tg_amount g = taxOn (tg_net g) (ts_rateBasisPoints (tg_tax g))"
    by (simp add: g group_of_items_def Let_def)
  moreover have "rounding = PerLine \<longrightarrow> tg_amount g =
      (\<Sum>l\<leftarrow>filter (of_code k) (pi_lines priced). taxOn (pn_net l) (ts_rateBasisPoints (tg_tax g)))"
    unfolding lines by (simp add: g group_of_items_def Let_def price_item_def comp_def)
  moreover have "\<exists>l \<in> set (pi_lines priced). pn_tax l = tg_tax g"
    using code(2) [OF k] unfolding p(1) tax(1) by (auto simp: price_item_def)
  ultimately show "tg_net g = (\<Sum>l\<leftarrow>filter (of_code (ts_code (tg_tax g))) (pi_lines priced). pn_net l) \<and>
      tg_amount g = (\<Sum>l\<leftarrow>filter (of_code (ts_code (tg_tax g))) (pi_lines priced). pn_taxAmount l) \<and>
      (rounding = PerInvoice \<longrightarrow> tg_amount g = taxOn (tg_net g) (ts_rateBasisPoints (tg_tax g))) \<and>
      (rounding = PerLine \<longrightarrow> tg_amount g =
        (\<Sum>l\<leftarrow>filter (of_code (ts_code (tg_tax g))) (pi_lines priced). taxOn (pn_net l) (ts_rateBasisPoints (tg_tax g)))) \<and>
      (\<exists>l \<in> set (pi_lines priced). pn_tax l = tg_tax g)"
    unfolding tax(2) by blast
qed

lemma priced_totals:
  assumes "priceInvoice collation ls taxCodes rounding = Inr priced"
  shows "(\<forall>g \<in> set (pi_taxGroups priced).
      tg_net g = (\<Sum>l\<leftarrow>filter (of_code (ts_code (tg_tax g))) (pi_lines priced). pn_net l) \<and>
      tg_amount g = (\<Sum>l\<leftarrow>filter (of_code (ts_code (tg_tax g))) (pi_lines priced). pn_taxAmount l) \<and>
      (rounding = PerInvoice \<longrightarrow> tg_amount g = taxOn (tg_net g) (ts_rateBasisPoints (tg_tax g)))) \<and>
    distinct (map (\<lambda>g. ts_code (tg_tax g)) (pi_taxGroups priced)) \<and>
    pi_net priced = (\<Sum>l\<leftarrow>pi_lines priced. pn_net l) \<and> pi_net priced = (\<Sum>g\<leftarrow>pi_taxGroups priced. tg_net g) \<and>
    pi_tax priced = (\<Sum>l\<leftarrow>pi_lines priced. pn_taxAmount l) \<and> pi_total priced = pi_net priced + pi_tax priced"
proof -
  note p = priced_groups [OF assms]
  let ?codes = "map (\<lambda>g. ts_code (tg_tax g)) (pi_taxGroups priced)"
  have distinct: "distinct ?codes" using mset_eq_imp_distinct_iff [OF p(1)] by simp
  have "set ?codes = set (map (\<lambda>l. ts_code (pn_tax l)) (pi_lines priced))" using mset_eq_setD [OF p(1)] by simp
  then have cover: "set (map (\<lambda>l. ts_code (pn_tax l)) (pi_lines priced)) \<subseteq> set ?codes" by simp
  have by_code: "(\<Sum>g\<leftarrow>pi_taxGroups priced. \<Sum>l\<leftarrow>filter (of_code (ts_code (tg_tax g))) (pi_lines priced). f l) =
      (\<Sum>l\<leftarrow>pi_lines priced. f l)" for f :: "priced_line \<Rightarrow> int"
    using sum_filter_partition [OF distinct cover, of f] by (simp add: of_code_def [abs_def] comp_def)
  have "(\<Sum>g\<leftarrow>pi_taxGroups priced. tg_net g) = (\<Sum>l\<leftarrow>pi_lines priced. pn_net l)"
    "(\<Sum>g\<leftarrow>pi_taxGroups priced. tg_amount g) = (\<Sum>l\<leftarrow>pi_lines priced. pn_taxAmount l)"
    using p(2) by (simp_all add: by_code [symmetric] cong: map_cong)
  with p(3-5) have sums: "pi_net priced = (\<Sum>l\<leftarrow>pi_lines priced. pn_net l)"
    "pi_net priced = (\<Sum>g\<leftarrow>pi_taxGroups priced. tg_net g)"
    "pi_tax priced = (\<Sum>l\<leftarrow>pi_lines priced. pn_taxAmount l)" by simp_all
  show ?thesis by (intro conjI ballI; (rule distinct | rule sums | rule p(5) | use p(2) in blast))
qed

text \<open>
  C35: An invoice adds up the same way from every side, under either rounding policy: per tax code the lines of that
  code sum exactly to the group, for the net and for the tax, the groups sum to the invoice, there is one group
  per code in use, and under rounding per invoice the group's tax is the rounded tax on its whole net.
\<close>

theorem invoice_adds_up:
  assumes "priceInvoice collation ls taxCodes rounding = Inr priced"
  shows "(\<forall>g \<in> set (pi_taxGroups priced).
      tg_net g = (\<Sum>l\<leftarrow>filter (of_code (ts_code (tg_tax g))) (pi_lines priced). pn_net l) \<and>
      tg_amount g = (\<Sum>l\<leftarrow>filter (of_code (ts_code (tg_tax g))) (pi_lines priced). pn_taxAmount l) \<and>
      (rounding = PerInvoice \<longrightarrow> tg_amount g = taxOn (tg_net g) (ts_rateBasisPoints (tg_tax g)))) \<and>
    distinct (map (\<lambda>g. ts_code (tg_tax g)) (pi_taxGroups priced)) \<and>
    pi_net priced = (\<Sum>l\<leftarrow>pi_lines priced. pn_net l) \<and> pi_net priced = (\<Sum>g\<leftarrow>pi_taxGroups priced. tg_net g) \<and>
    pi_tax priced = (\<Sum>l\<leftarrow>pi_lines priced. pn_taxAmount l) \<and> pi_total priced = pi_net priced + pi_tax priced"
  by (rule priced_totals [OF assms])

definition high_snapshot :: tax_code_snapshot where
  "high_snapshot = \<lparr>ts_id = ''t'', ts_code = ''VH'', ts_description = ''Hoog'', ts_rateBasisPoints = 2100,
     ts_isReverseCharge = False, ts_ublCategory = ''S''\<rparr>"

definition third :: invoice_line_input where
  "third = \<lparr>il_description = ''Uur'', il_quantity = ''1'', il_unitCode = ''HUR'', il_unitPrice = 3333,
     il_revenueAccountNumber = ''8000'', il_taxCode = ''VH''\<rparr>"

definition priced_line_of :: "nat \<Rightarrow> int \<Rightarrow> priced_line" where
  "priced_line_of n t = \<lparr>pn_lineNumber = n, pn_description = ''Uur'', pn_quantity = ''1'', pn_unitCode = ''HUR'',
     pn_unitPrice = 3333, pn_revenueAccountNumber = ''8000'', pn_tax = high_snapshot, pn_net = 3333, pn_taxAmount = t\<rparr>"

text \<open>The example of the source: three lines of 33.33 at 21% come to 21.00 on the total, 7.00 a line.\<close>

definition thirds_priced :: priced_invoice where
  "thirds_priced = \<lparr>pi_lines = [priced_line_of 1 700, priced_line_of 2 700, priced_line_of 3 700],
     pi_taxGroups = [\<lparr>tg_tax = high_snapshot, tg_net = 9999, tg_amount = 2100\<rparr>], pi_net = 9999, pi_tax = 2100,
     pi_total = 12099, pi_rounding = PerInvoice\<rparr>"

lemma thirds: "priceInvoice (\<lambda>_ _. 0) [third, third, third] [(''VH'', high_snapshot)] PerInvoice = Inr thirds_priced"
  by code_simp

theorem invoice_adds_up_witness: "pi_tax thirds_priced = (\<Sum>l\<leftarrow>pi_lines thirds_priced. pn_taxAmount l)"
  using invoice_adds_up [OF thirds] by blast

end
