(* ===== verification/Sales_Posting.thy ===== *)
theory Sales_Posting
  imports Sales_Pricing Ledger_Validation
begin

text \<open>
  An invoice as a journal entry: \<^verbatim>\<open>packages/core/src/sales/posting.ts\<close>. The command it builds is the one of the
  ledger, and what is proved is that the ledger's own shape check accepts it.
\<close>

record invoice_posting_request =
  ip_entityId :: string
  ip_journalCode :: string
  ip_bookingDate :: string
  ip_documentDate :: string
  ip_invoiceNumber :: string
  ip_contactNumber :: string
  ip_contactName :: string
  ip_contactId :: string
  ip_receivableAccountNumber :: string
  ip_isCreditNote :: bool
  ip_reference :: "string option"
  ip_currency :: string

definition invoice_line :: "string \<Rightarrow> int \<Rightarrow> bool \<Rightarrow> string \<Rightarrow> journal_line_input" where
  "invoice_line accountNumber amt isDebit description =
     \<lparr>li_accountNumber = accountNumber, li_description = Some description, li_debit = (if isDebit then amt else 0),
      li_credit = (if isDebit then 0 else amt), li_currency = None, li_exchangeRate = None,
      li_exchangeRateSource = None, li_taxCode = None, li_taxRole = None, li_taxAmount = None, li_dimensions = [],
      li_subledgerKind = None, li_subledgerId = None\<rparr>"

definition with_tax :: "string \<Rightarrow> tax_role \<Rightarrow> int \<Rightarrow> journal_line_input \<Rightarrow> journal_line_input" where
  "with_tax code role amt l = l\<lparr>li_taxCode := Some code, li_taxRole := Some role, li_taxAmount := Some amt\<rparr>"

record revenue_group =
  rg_accountNumber :: string
  rg_taxCode :: string
  rg_net :: int
  rg_tax :: int

definition revenue_key :: "priced_line \<Rightarrow> string" where
  "revenue_key item = pn_revenueAccountNumber item @ CHR 0x00 # ts_code (pn_tax item)"

definition revenue_of :: "priced_line list \<Rightarrow> revenue_group" where
  "revenue_of items =
     \<lparr>rg_accountNumber = pn_revenueAccountNumber (hd items), rg_taxCode = ts_code (pn_tax (hd items)),
      rg_net = (\<Sum>i\<leftarrow>items. pn_net i), rg_tax = (\<Sum>i\<leftarrow>items. pn_taxAmount i)\<rparr>"

definition revenue_groups :: "(string \<Rightarrow> string \<Rightarrow> int) \<Rightarrow> priced_line list \<Rightarrow> revenue_group list" where
  "revenue_groups collation items =
     sort_by (\<lambda>a b. cmp_or (collation (rg_accountNumber a) (rg_accountNumber b)) (collation (rg_taxCode a) (rg_taxCode b)))
       (map (\<lambda>g. revenue_of (snd g)) (group_by revenue_key items))"

definition revenue_line :: "invoice_posting_request \<Rightarrow> bool \<Rightarrow> revenue_group \<Rightarrow> journal_line_input list" where
  "revenue_line request receivableIsDebit g =
     (if rg_net g = 0 then []
      else [with_tax (rg_taxCode g) Base (if receivableIsDebit then rg_tax g else - rg_tax g)
             (invoice_line (rg_accountNumber g) (rg_net g) (\<not> receivableIsDebit) (''Omzet factuur '' @ ip_invoiceNumber request))])"

definition tax_line :: "invoice_posting_request \<Rightarrow> (string \<Rightarrow> string option) \<Rightarrow> bool \<Rightarrow> tax_group \<Rightarrow>
    thrown + journal_line_input list" where
  "tax_line request taxAccountFor receivableIsDebit g =
     (if tg_amount g = 0 then Inr []
      else let code = ts_code (tg_tax g)
           in case taxAccountFor code of
                None \<Rightarrow> throw ''unknown_account.tax_code_no_account_invoicing'' (Some (''taxCodes.'' @ code)) (Some [(''taxCode'', code)])
              | Some accountNumber \<Rightarrow>
                  Inr [with_tax code Tax (if receivableIsDebit then tg_amount g else - tg_amount g)
                    (invoice_line accountNumber (tg_amount g) (\<not> receivableIsDebit)
                      (code @ '' over '' @ amount (toWire \<lparr>minorUnits = tg_net g, currency = ip_currency request\<rparr>)))])"

definition buildInvoiceEntry ::
  "(string \<Rightarrow> string \<Rightarrow> int) \<Rightarrow> invoice_posting_request \<Rightarrow> priced_invoice \<Rightarrow> (string \<Rightarrow> string option) \<Rightarrow> thrown + post_command" where
  "buildInvoiceEntry collation request priced taxAccountFor =
     (if pi_total priced = 0 then throw ''line_no_amount.invoice_totalling_zero'' (Some ''lines'') None
      else
        let receivableIsDebit = (\<not> ip_isCreditNote request);
            receivable = (invoice_line (ip_receivableAccountNumber request) (pi_total priced) receivableIsDebit
              (ip_contactNumber request @ '' '' @ ip_contactName request))
                \<lparr>li_subledgerKind := Some Customer, li_subledgerId := Some (ip_contactId request)\<rparr>;
            revenue = concat (map (revenue_line request receivableIsDebit) (revenue_groups collation (pi_lines priced)))
        in and_then (map_result (tax_line request taxAccountFor receivableIsDebit) (pi_taxGroups priced)) (\<lambda>taxes.
             Inr \<lparr>cmd_entityId = ip_entityId request, cmd_journalCode = ip_journalCode request,
               cmd_bookingDate = ip_bookingDate request, cmd_documentDate = ip_documentDate request,
               cmd_description = (if ip_isCreditNote request then ''Creditnota'' else ''Verkoopfactuur'') @ '' '' @
                 ip_invoiceNumber request @ '' '' @ ip_contactName request,
               cmd_sourceDocumentRef = Some (ip_invoiceNumber request), cmd_reversesEntryId = None,
               cmd_lines = receivable # revenue @ concat taxes\<rparr>))"

section \<open>The entry of an invoice\<close>

text \<open>What the lines on one side come to, and that no line carries a currency, a rate or a dimension.\<close>

definition plain :: "journal_line_input \<Rightarrow> bool" where
  "plain l \<longleftrightarrow> li_currency l = None \<and> li_exchangeRate l = None \<and> li_dimensions l = []"

lemma line_sides [simp]:
  "li_debit (with_tax c r a l) = li_debit l" "li_credit (with_tax c r a l) = li_credit l"
  "li_debit (invoice_line acc m d txt) = (if d then m else 0)" "li_credit (invoice_line acc m d txt) = (if d then 0 else m)"
  "plain (with_tax c r a l) = plain l" "plain (invoice_line acc m d txt)"
  by (simp_all add: with_tax_def invoice_line_def plain_def)

definition side_sum :: "bool \<Rightarrow> journal_line_input list \<Rightarrow> int" where
  "side_sum d ls = (\<Sum>l\<leftarrow>ls. if d then li_debit l else li_credit l)"

lemma side_sum_simps [simp]:
  "side_sum d [] = 0" "side_sum d (l # ls) = (if d then li_debit l else li_credit l) + side_sum d ls"
  "side_sum d (xs @ ys) = side_sum d xs + side_sum d ys"
  by (simp_all add: side_sum_def)

lemma side_sum_concat: "side_sum d (concat xss) = (\<Sum>xs\<leftarrow>xss. side_sum d xs)"
  by (induction xss) simp_all

lemma revenue_lines:
  "side_sum d (concat (map (revenue_line request rid) (revenue_groups collation items))) =
    (if d = rid then 0 else (\<Sum>i\<leftarrow>items. pn_net i))"
proof -
  have "side_sum d (revenue_line request rid g) = (if d = rid then 0 else rg_net g)" for g
    by (simp add: revenue_line_def)
  moreover have "(\<Sum>g\<leftarrow>revenue_groups collation items. rg_net g) = (\<Sum>i\<leftarrow>items. pn_net i)"
    unfolding revenue_groups_def by (simp add: comp_def revenue_of_def sum_group_by)
  ultimately show ?thesis by (simp add: side_sum_concat comp_def)
qed

lemma tax_line_side:
  "tax_line request taf rid g = Inr ls \<Longrightarrow> side_sum d ls = (if d = rid then 0 else tg_amount g)"
  by (auto simp: tax_line_def Let_def split: if_splits option.splits)

lemma tax_lines:
  "map_result (tax_line request taf rid) gs = Inr lss \<Longrightarrow>
   side_sum d (concat lss) = (if d = rid then 0 else (\<Sum>g\<leftarrow>gs. tg_amount g))"
proof (induction gs arbitrary: lss)
  case (Cons g gs)
  then show ?case by (auto simp: and_then_Inr dest!: tax_line_side [of _ _ _ _ _ d] Cons.IH)
qed simp

lemma built:
  assumes "buildInvoiceEntry collation request priced taf = Inr cmd"
  obtains receivable revenue lss where "pi_total priced \<noteq> 0"
    "cmd_bookingDate cmd = ip_bookingDate request" "cmd_documentDate cmd = ip_documentDate request"
    "cmd_lines cmd = receivable # revenue @ concat lss"
    "plain receivable" "li_debit receivable = (if ip_isCreditNote request then 0 else pi_total priced)"
    "li_credit receivable = (if ip_isCreditNote request then pi_total priced else 0)"
    "revenue = concat (map (revenue_line request (\<not> ip_isCreditNote request)) (revenue_groups collation (pi_lines priced)))"
    "map_result (tax_line request taf (\<not> ip_isCreditNote request)) (pi_taxGroups priced) = Inr lss"
proof -
  from assms obtain lss where lss: "map_result (tax_line request taf (\<not> ip_isCreditNote request)) (pi_taxGroups priced) = Inr lss"
    by (auto simp: buildInvoiceEntry_def Let_def and_then_Inr split: if_splits)
  show thesis
    using assms lss
    by (intro that [where lss = lss and receivable = "(invoice_line (ip_receivableAccountNumber request) (pi_total priced)
            (\<not> ip_isCreditNote request) (ip_contactNumber request @ '' '' @ ip_contactName request))
              \<lparr>li_subledgerKind := Some Customer, li_subledgerId := Some (ip_contactId request)\<rparr>"])
      (auto simp: buildInvoiceEntry_def Let_def and_then_Inr plain_def invoice_line_def split: if_splits)
qed

lemma invoice_sides:
  assumes "priceInvoice collation' items taxCodes rounding = Inr priced"
    "buildInvoiceEntry collation request priced taf = Inr cmd"
  shows "side_sum d (cmd_lines cmd) = pi_total priced"
proof -
  obtain receivable revenue lss where b: "cmd_lines cmd = receivable # revenue @ concat lss"
    "li_debit receivable = (if ip_isCreditNote request then 0 else pi_total priced)"
    "li_credit receivable = (if ip_isCreditNote request then pi_total priced else 0)"
    "revenue = concat (map (revenue_line request (\<not> ip_isCreditNote request)) (revenue_groups collation (pi_lines priced)))"
    "map_result (tax_line request taf (\<not> ip_isCreditNote request)) (pi_taxGroups priced) = Inr lss"
    by (rule built [OF assms(2)]) blast
  note p = priced_groups(3-5) [OF assms(1)]
  show ?thesis using b(2,3) p unfolding b(1,4) by (auto simp: revenue_lines tax_lines [OF b(5)])
qed

lemma tax_line_wf:
  "tax_line request taf rid g = Inr ls \<Longrightarrow> 0 \<le> tg_amount g \<Longrightarrow> l \<in> set ls \<Longrightarrow> plain l \<and> one_sided l"
  by (auto simp: tax_line_def Let_def one_sided_def split: if_splits option.splits)

lemma tax_lines_wf:
  "map_result (tax_line request taf rid) gs = Inr lss \<Longrightarrow> \<forall>g \<in> set gs. 0 \<le> tg_amount g \<Longrightarrow>
   l \<in> set (concat lss) \<Longrightarrow> plain l \<and> one_sided l"
proof (induction gs arbitrary: lss)
  case (Cons g gs)
  from Cons.prems(1) obtain ls rest where parts: "tax_line request taf rid g = Inr ls" "lss = ls # rest"
    "map_result (tax_line request taf rid) gs = Inr rest" by (auto simp: and_then_Inr)
  then consider "l \<in> set ls" | "l \<in> set (concat rest)" using Cons.prems(3) by auto
  then show ?case
  proof cases
    case 1
    with Cons.prems(2) show ?thesis by (intro tax_line_wf [OF parts(1)]) simp_all
  next
    case 2
    with Cons.IH [OF parts(3)] Cons.prems(2) show ?thesis by simp
  qed
qed simp

lemma revenue_lines_wf:
  assumes "\<forall>i \<in> set items. 0 \<le> pn_net i"
    "l \<in> set (concat (map (revenue_line request rid) (revenue_groups collation items)))"
  shows "plain l \<and> one_sided l"
proof -
  from assms(2) obtain k g where g: "(k, g) \<in> set (group_by revenue_key items)" "l \<in> set (revenue_line request rid (revenue_of g))"
    unfolding revenue_groups_def by auto
  have "\<forall>i \<in> set g. 0 \<le> pn_net i" using set_group_by [OF g(1)] assms(1) by auto
  then have "0 \<le> rg_net (revenue_of g)" unfolding revenue_of_def revenue_group.simps by (intro sum_list_nonneg) auto
  with g(2) show ?thesis by (auto simp: revenue_line_def one_sided_def split: if_splits)
qed

lemma group_taxes_nonneg:
  assumes "priceInvoice collation items taxCodes rounding = Inr priced"
    "\<forall>l \<in> set (pi_lines priced). 0 \<le> pn_net l \<and> 0 \<le> ts_rateBasisPoints (pn_tax l)" "g \<in> set (pi_taxGroups priced)"
  shows "0 \<le> tg_amount g"
proof -
  note g = priced_groups(2) [OF assms(1,3)]
  then have rate: "0 \<le> ts_rateBasisPoints (tg_tax g)" using assms(2) by force
  have net: "0 \<le> tg_net g" using g assms(2) by (auto intro!: sum_list_nonneg)
  have taxes: "0 \<le> (\<Sum>l\<leftarrow>filter P (pi_lines priced). taxOn (pn_net l) (ts_rateBasisPoints (tg_tax g)))" for P
    using assms(2) rate by (intro sum_list_nonneg) (auto intro: taxOn_nonneg)
  show ?thesis
  proof (cases rounding)
    case PerInvoice
    with g have "tg_amount g = taxOn (tg_net g) (ts_rateBasisPoints (tg_tax g))" by blast
    with taxOn_nonneg [OF net rate] show ?thesis by simp
  next
    case PerLine
    then have "tg_amount g = (\<Sum>l\<leftarrow>filter (of_code (ts_code (tg_tax g))) (pi_lines priced). taxOn (pn_net l) (ts_rateBasisPoints (tg_tax g)))"
      using g by blast
    then show ?thesis by (simp only: taxes)
  qed
qed

text \<open>
  C36: The entry of a priced invoice balances, and is one the ledger accepts: for real dates and lines that charge
  nothing negative, the command passes the shape check of the posting function whatever the functional currency,
  for an invoice and for a credit note, and both sides come to the invoice total.
\<close>

theorem invoice_entry_is_postable:
  assumes "priceInvoice collation' items taxCodes rounding = Inr priced"
    and "buildInvoiceEntry collation request priced taxAccountFor = Inr cmd"
    and "isValidDate (ip_bookingDate request)" "isValidDate (ip_documentDate request)"
    and "\<forall>l \<in> set (pi_lines priced). 0 \<le> pn_net l \<and> 0 \<le> ts_rateBasisPoints (pn_tax l)"
  shows "validateCommandShape cmd fc = [] \<and>
    (\<Sum>l\<leftarrow>cmd_lines cmd. li_debit l) = pi_total priced \<and> (\<Sum>l\<leftarrow>cmd_lines cmd. li_credit l) = pi_total priced"
proof -
  obtain receivable revenue lss where b: "pi_total priced \<noteq> 0"
    "cmd_bookingDate cmd = ip_bookingDate request" "cmd_documentDate cmd = ip_documentDate request"
    "cmd_lines cmd = receivable # revenue @ concat lss" "plain receivable"
    "li_debit receivable = (if ip_isCreditNote request then 0 else pi_total priced)"
    "li_credit receivable = (if ip_isCreditNote request then pi_total priced else 0)"
    "revenue = concat (map (revenue_line request (\<not> ip_isCreditNote request)) (revenue_groups collation (pi_lines priced)))"
    "map_result (tax_line request taxAccountFor (\<not> ip_isCreditNote request)) (pi_taxGroups priced) = Inr lss"
    using assms(2) by (rule built)
  have taxes: "\<forall>g \<in> set (pi_taxGroups priced). 0 \<le> tg_amount g" using group_taxes_nonneg [OF assms(1,5)] by blast
  note sides = invoice_sides [OF assms(1,2)]
  have total: "0 < pi_total priced"
  proof -
    have "0 \<le> (\<Sum>l\<leftarrow>pi_lines priced. pn_net l)" "0 \<le> (\<Sum>g\<leftarrow>pi_taxGroups priced. tg_amount g)"
      using taxes assms(5) by (auto intro!: sum_list_nonneg)
    with b(1) priced_groups(3-5) [OF assms(1)] show ?thesis by simp
  qed
  have wf: "plain l \<and> one_sided l" if "l \<in> set (cmd_lines cmd)" for l
  proof -
    from that consider "l = receivable" | "l \<in> set revenue" | "l \<in> set (concat lss)" unfolding b(4) by auto
    then show ?thesis
    proof cases
      case 1
      with b(5-7) total show ?thesis by (simp add: one_sided_def)
    next
      case 2
      with assms(5) show ?thesis unfolding b(8) by (intro revenue_lines_wf) simp_all
    qed (rule tax_lines_wf [OF b(9) taxes])
  qed
  have "revenue @ concat lss \<noteq> []"
  proof
    assume "revenue @ concat lss = []"
    then have "cmd_lines cmd = [receivable]" unfolding b(4) by simp
    then have "side_sum (ip_isCreditNote request) (cmd_lines cmd) = 0" using b(6,7) by simp
    with sides b(1) show False by simp
  qed
  then have two: "2 \<le> length (cmd_lines cmd)" unfolding b(4) by (cases "revenue @ concat lss") auto
  have sums: "(\<Sum>l\<leftarrow>cmd_lines cmd. li_debit l) = pi_total priced" "(\<Sum>l\<leftarrow>cmd_lines cmd. li_credit l) = pi_total priced"
    using sides [of True] sides [of False] by (simp_all add: side_sum_def)
  have "well_formed_command cmd fc"
    unfolding well_formed_command_def balances_in_one_currency_def
    using b(2,3) assms(3,4) two wf sums by (auto simp: well_formed_line_def plain_def rate_fits_def effective_currency_def)
  with sums show ?thesis by (simp add: validateCommandShape_Nil)
qed

definition sample_invoice :: invoice_posting_request where
  "sample_invoice = \<lparr>ip_entityId = ''x'', ip_journalCode = ''VRK'', ip_bookingDate = ''2026-03-01'', ip_documentDate = ''2026-03-01'',
     ip_invoiceNumber = ''2026-001'', ip_contactNumber = ''D1'', ip_contactName = ''Jansen'', ip_contactId = ''c'',
     ip_receivableAccountNumber = ''1300'', ip_isCreditNote = False, ip_reference = None, ip_currency = ''EUR''\<rparr>"

theorem invoice_entry_is_postable_witness:
  "\<exists>cmd. buildInvoiceEntry (\<lambda>_ _. 0) sample_invoice thirds_priced (\<lambda>_. Some ''1500'') = Inr cmd \<and>
    validateCommandShape cmd ''EUR'' = []"
proof -
  have ok: "\<forall>l \<in> set (pi_lines thirds_priced). 0 \<le> pn_net l \<and> 0 \<le> ts_rateBasisPoints (pn_tax l)"
    by (simp add: thirds_priced_def priced_line_of_def high_snapshot_def)
  have dates: "isValidDate (ip_bookingDate sample_invoice)" "isValidDate (ip_documentDate sample_invoice)"
    by code_simp+
  obtain cmd where cmd: "buildInvoiceEntry (\<lambda>_ _. 0) sample_invoice thirds_priced (\<lambda>_. Some ''1500'') = Inr cmd"
    by (simp add: buildInvoiceEntry_def Let_def and_then_Inr thirds_priced_def tax_line_def high_snapshot_def)
  from invoice_entry_is_postable [OF thirds cmd dates ok, of "''EUR''"] cmd show ?thesis by blast
qed

text \<open>The limit of that: a group of lines that nets negative, a discount on its own account, is refused.\<close>

lemma negative_group_is_refused:
  assumes "buildInvoiceEntry collation request priced taf = Inr cmd"
    and "g \<in> set (revenue_groups collation (pi_lines priced))" "rg_net g < 0"
  shows "validateCommandShape cmd fc \<noteq> []"
proof -
  obtain receivable revenue lss where b: "cmd_lines cmd = receivable # revenue @ concat lss"
    "revenue = concat (map (revenue_line request (\<not> ip_isCreditNote request)) (revenue_groups collation (pi_lines priced)))"
    using assms(1) by (rule built)
  obtain l where "l \<in> set (revenue_line request (\<not> ip_isCreditNote request) g)" "\<not> one_sided l"
    using assms(3) by (auto simp: revenue_line_def one_sided_def)
  then have "\<exists>l \<in> set (cmd_lines cmd). \<not> one_sided l" using assms(2) unfolding b by auto
  then show ?thesis by (auto simp: validateCommandShape_Nil well_formed_command_def well_formed_line_def)
qed

end
