(* ===== verification/Sales_Dunning.thy ===== *)
theory Sales_Dunning
  imports Calendar
begin

text \<open>
  Chasing unpaid invoices: \<^verbatim>\<open>packages/core/src/sales/dunning.ts\<close>. \<open>daysBetween\<close> of the same file is in
  \<^verbatim>\<open>Calendar\<close>; its \<open>NaN\<close> compares false with every number, so an invoice with an unreadable due date is
  never chased. Stages and days are integers of the source's \<open>number\<close>.
\<close>

datatype dunning_tone = Reminder | Demand | Final

record dunning_stage =
  ds_stage :: int
  ds_afterDays :: int
  ds_label :: string
  ds_tone :: dunning_tone

definition DEFAULT_DUNNING_SCHEDULE :: "dunning_stage list" where
  "DEFAULT_DUNNING_SCHEDULE =
    [\<lparr>ds_stage = 1, ds_afterDays = 7, ds_label = ''Betalingsherinnering'', ds_tone = Reminder\<rparr>,
     \<lparr>ds_stage = 2, ds_afterDays = 21, ds_label = ''Tweede herinnering'', ds_tone = Demand\<rparr>,
     \<lparr>ds_stage = 3, ds_afterDays = 42, ds_label = ''Derde herinnering'', ds_tone = Final\<rparr>]"

datatype invoice_kind = InvoiceKind | CreditNoteKind

datatype invoice_status = DraftInvoice | IssuedInvoice | CancelledInvoice

record dunnable_invoice =
  di_invoiceId :: string
  di_number :: string
  di_kind :: invoice_kind
  di_status :: invoice_status
  di_dueDate :: string
  di_total :: int
  di_currency :: string
  di_contactName :: string
  di_contactEmail :: "string option"
  di_remindersSent :: "int list"

record dunning_action =
  dn_invoiceId :: string
  dn_number :: string
  dn_contactName :: string
  dn_contactEmail :: "string option"
  dn_total :: int
  dn_currency :: string
  dn_dueDate :: string
  dn_daysOverdue :: int
  dn_stage :: dunning_stage
  dn_sendable :: bool

definition stages_due :: "dunning_stage list \<Rightarrow> int \<Rightarrow> dunnable_invoice \<Rightarrow> dunning_stage list" where
  "stages_due ordered daysOverdue invoice =
     (let highestSent = foldl max 0 (di_remindersSent invoice)
      in filter (\<lambda>stage. ds_stage stage > highestSent \<and> daysOverdue \<ge> ds_afterDays stage) ordered)"

definition dunning_action_for :: "dunning_stage list \<Rightarrow> string \<Rightarrow> dunnable_invoice \<Rightarrow> dunning_action option" where
  "dunning_action_for ordered asOf invoice =
     (if di_kind invoice \<noteq> InvoiceKind \<or> di_status invoice \<noteq> IssuedInvoice then None
      else case daysBetween (di_dueDate invoice) asOf of
             None \<Rightarrow> None
           | Some daysOverdue \<Rightarrow>
               if daysOverdue \<le> 0 then None
               else let due = stages_due ordered daysOverdue invoice
                    in if due = [] then None
                       else Some \<lparr>dn_invoiceId = di_invoiceId invoice, dn_number = di_number invoice,
                              dn_contactName = di_contactName invoice, dn_contactEmail = di_contactEmail invoice,
                              dn_total = di_total invoice, dn_currency = di_currency invoice,
                              dn_dueDate = di_dueDate invoice, dn_daysOverdue = daysOverdue, dn_stage = last due,
                              dn_sendable = (di_contactEmail invoice \<noteq> None \<and> di_contactEmail invoice \<noteq> Some [])\<rparr>)"

definition planDunning :: "dunnable_invoice list \<Rightarrow> string \<Rightarrow> dunning_stage list \<Rightarrow> thrown + dunning_action list" where
  "planDunning invoices asOf schedule =
     (if \<not> is_date_shaped asOf then throw ''invalid_date.date_yyyy_mm'' (Some ''asOf'') None
      else let ordered = sort_by (\<lambda>a b. ds_afterDays a - ds_afterDays b) schedule
           in Inr (sort_by (\<lambda>a b. dn_daysOverdue b - dn_daysOverdue a)
                (List.map_filter (dunning_action_for ordered asOf) invoices)))"

definition stageOf :: "int \<Rightarrow> dunning_stage list \<Rightarrow> dunning_stage option" where
  "stageOf stage schedule = find (\<lambda>item. ds_stage item = stage) schedule"

section \<open>Chasing ends\<close>

lemma foldl_max: "a \<le> foldl max a xs" for a :: int
proof (induction xs arbitrary: a)
  case (Cons x xs)
  have "a \<le> max a x" by simp
  also have "\<dots> \<le> foldl max (max a x) xs" by (rule Cons.IH)
  finally show ?case by simp
qed simp

lemma foldl_max_in: "x \<in> set xs \<Longrightarrow> x \<le> foldl max a xs" for a x :: int
proof (induction xs arbitrary: a)
  case (Cons y ys)
  have "y \<le> foldl max (max a y) ys" using foldl_max [of "max a y" ys] by simp
  with Cons show ?case by auto
qed simp

lemma action_stage:
  assumes "dunning_action_for ordered asOf invoice = Some a"
  shows "dn_stage a \<in> set ordered" "\<forall>s \<in> set (di_remindersSent invoice). s < ds_stage (dn_stage a)"
    "ds_afterDays (dn_stage a) \<le> dn_daysOverdue a" "daysBetween (di_dueDate invoice) asOf = Some (dn_daysOverdue a)"
proof -
  from assms obtain n where n: "daysBetween (di_dueDate invoice) asOf = Some n" "stages_due ordered n invoice \<noteq> []"
    "dn_stage a = last (stages_due ordered n invoice)" "dn_daysOverdue a = n"
    by (auto simp: dunning_action_for_def Let_def split: if_splits option.splits)
  then have "dn_stage a \<in> set (stages_due ordered n invoice)" by simp
  then show "dn_stage a \<in> set ordered" "\<forall>s \<in> set (di_remindersSent invoice). s < ds_stage (dn_stage a)"
    "ds_afterDays (dn_stage a) \<le> dn_daysOverdue a" "daysBetween (di_dueDate invoice) asOf = Some (dn_daysOverdue a)"
    using n foldl_max_in [of _ "di_remindersSent invoice" 0] by (fastforce simp: stages_due_def Let_def)+
qed

text \<open>One day of the chase: what was planned is sent and its stage recorded, whatever happens to the message.\<close>

fun chase :: "dunning_stage list \<Rightarrow> dunnable_invoice \<Rightarrow> string list \<Rightarrow> int list" where
  "chase schedule invoice [] = []"
| "chase schedule invoice (day # days) =
     (case planDunning [invoice] day schedule of
        Inr (a # _) \<Rightarrow> ds_stage (dn_stage a) #
          chase schedule (invoice\<lparr>di_remindersSent := di_remindersSent invoice @ [ds_stage (dn_stage a)]\<rparr>) days
      | _ \<Rightarrow> chase schedule invoice days)"

lemma plan_one: "planDunning [invoice] day schedule = Inr (a # rest) \<Longrightarrow>
    dunning_action_for (sort_by (\<lambda>a b. ds_afterDays a - ds_afterDays b) schedule) day invoice = Some a"
  by (auto simp: planDunning_def Let_def List.map_filter_simps split: if_splits option.splits)

lemma chase_increasing:
  "sorted_wrt (<) (chase schedule invoice days) \<and>
   (\<forall>n \<in> set (chase schedule invoice days). n \<in> ds_stage ` set schedule \<and> (\<forall>s \<in> set (di_remindersSent invoice). s < n))"
proof (induction schedule invoice days rule: chase.induct)
  case (2 schedule invoice day days)
  show ?case
  proof (cases "\<exists>a rest. planDunning [invoice] day schedule = Inr (a # rest)")
    case True
    then obtain a rest where p: "planDunning [invoice] day schedule = Inr (a # rest)" by blast
    note a = action_stage [OF plan_one [OF p]]
    from "2.IH" p have
      "sorted_wrt (<) (chase schedule (invoice\<lparr>di_remindersSent := di_remindersSent invoice @ [ds_stage (dn_stage a)]\<rparr>) days) \<and>
       (\<forall>n \<in> set (chase schedule (invoice\<lparr>di_remindersSent := di_remindersSent invoice @ [ds_stage (dn_stage a)]\<rparr>) days).
         n \<in> ds_stage ` set schedule \<and> (\<forall>s \<in> set (di_remindersSent invoice @ [ds_stage (dn_stage a)]). s < n))"
      by fastforce
    then show ?thesis using a(1,2) p by auto
  next
    case False
    then have "chase schedule invoice (day # days) = chase schedule invoice days"
      by (auto split: sum.splits list.splits)
    moreover have "sorted_wrt (<) (chase schedule invoice days) \<and>
      (\<forall>n \<in> set (chase schedule invoice days). n \<in> ds_stage ` set schedule \<and> (\<forall>s \<in> set (di_remindersSent invoice). s < n))"
    proof (cases "planDunning [invoice] day schedule")
      case (Inr plan)
      with False show ?thesis using "2.IH" by (cases plan) auto
    qed (use "2.IH" in blast)
    ultimately show ?thesis by simp
  qed
qed simp

text \<open>
  C38: Chasing ends: however often and in whatever order of days the plan is run, an invoice gets each stage of the
  schedule at most once, every reminder of a higher stage than all before it, so there are never more reminders
  than the schedule has stages.
\<close>

theorem chasing_ends:
  "sorted_wrt (<) (di_remindersSent invoice) \<Longrightarrow>
   sorted_wrt (<) (di_remindersSent invoice @ chase schedule invoice days) \<and>
   length (chase schedule invoice days) \<le> length schedule"
proof -
  assume "sorted_wrt (<) (di_remindersSent invoice)"
  note c = chase_increasing [of schedule invoice days]
  have "distinct (chase schedule invoice days)"
    using c by (simp add: strict_sorted_iff)
  then have "length (chase schedule invoice days) = card (set (chase schedule invoice days))" by (simp add: distinct_card)
  also have "\<dots> \<le> card (ds_stage ` set schedule)" using c by (intro card_mono) auto
  also have "\<dots> \<le> length schedule" by (metis card_length list.set_map length_map)
  finally show ?thesis using c \<open>sorted_wrt (<) (di_remindersSent invoice)\<close> by (auto simp: sorted_wrt_append)
qed

definition late_invoice :: dunnable_invoice where
  "late_invoice = \<lparr>di_invoiceId = ''i'', di_number = ''2026-001'', di_kind = InvoiceKind, di_status = IssuedInvoice,
     di_dueDate = ''2026-01-01'', di_total = 12100, di_currency = ''EUR'', di_contactName = ''Jansen'',
     di_contactEmail = None, di_remindersSent = [1]\<rparr>"

theorem chasing_ends_witness:
  "sorted_wrt (<) ([1] @ chase DEFAULT_DUNNING_SCHEDULE late_invoice [''2026-03-01'', ''2026-03-02'']) \<and>
   chase DEFAULT_DUNNING_SCHEDULE late_invoice [''2026-03-01'', ''2026-03-02''] = [3]"
proof
  have "sorted_wrt (<) (di_remindersSent late_invoice)" by (simp add: late_invoice_def)
  from chasing_ends [OF this, of DEFAULT_DUNNING_SCHEDULE "[''2026-03-01'', ''2026-03-02'']"]
  show "sorted_wrt (<) ([1] @ chase DEFAULT_DUNNING_SCHEDULE late_invoice [''2026-03-01'', ''2026-03-02''])"
    by (simp only: late_invoice_def dunnable_invoice.simps)
  show "chase DEFAULT_DUNNING_SCHEDULE late_invoice [''2026-03-01'', ''2026-03-02''] = [3]" by code_simp
qed

end
