(* ===== verification/Auth_Roles.thy ===== *)
theory Auth_Roles
  imports Violations
begin

text \<open>
  Roles, permissions and membership (\<open>packages/core/src/auth/roles.ts\<close>, \<open>membership.ts\<close>): the permission strings,
  the bundle of each role, the wildcard rule of \<open>grants\<close>, and the check that an administration keeps an owner.
\<close>

definition PERMISSIONS :: "(string \<times> string) list" where
  "PERMISSIONS =
    [(''read'', ''ledger:read''), (''post'', ''ledger:post''), (''postClosed'', ''ledger:post-closed''),
     (''close'', ''ledger:close''), (''configure'', ''ledger:configure''), (''export'', ''ledger:export''),
     (''import'', ''ledger:import''), (''manageTokens'', ''tokens:manage''), (''draft'', ''ledger:draft''),
     (''manageMembers'', ''members:manage''), (''preparePayments'', ''payments:prepare''),
     (''approvePayments'', ''payments:approve''), (''fileVat'', ''vat:file''),
     (''approvePurchase'', ''purchase:approve''), (''manageRetention'', ''retention:manage''),
     (''manageTaxCodes'', ''tax-codes:manage''), (''createEntity'', ''entity:create'')]"

text \<open>\<open>PERMISSIONS.key\<close>; the keys used are keys of the object.\<close>

definition permission :: "string \<Rightarrow> string" where
  "permission key = (case map_of PERMISSIONS key of Some p \<Rightarrow> p | None \<Rightarrow> [])"

datatype role = Owner | Accountant | Bookkeeper | Auditor

fun role_text :: "role \<Rightarrow> string" where
  "role_text Owner = ''owner''"
| "role_text Accountant = ''accountant''"
| "role_text Bookkeeper = ''bookkeeper''"
| "role_text Auditor = ''auditor''"

fun permissionsForRole :: "role \<Rightarrow> string list" where
  "permissionsForRole Owner =
     map permission [''read'', ''post'', ''draft'', ''postClosed'', ''close'', ''configure'', ''export'', ''import'',
       ''manageTokens'', ''manageMembers'', ''preparePayments'', ''approvePayments'', ''fileVat'',
       ''approvePurchase'', ''manageRetention'', ''manageTaxCodes'']"
| "permissionsForRole Accountant =
     map permission [''read'', ''post'', ''draft'', ''postClosed'', ''close'', ''configure'', ''export'', ''import'',
       ''preparePayments'', ''approvePayments'', ''fileVat'', ''approvePurchase'', ''manageTaxCodes'']"
| "permissionsForRole Bookkeeper =
     map permission [''read'', ''post'', ''draft'', ''configure'', ''export'', ''preparePayments'']"
| "permissionsForRole Auditor = map permission [''read'', ''export'']"

definition ROLES :: "role list" where
  "ROLES = [Owner, Accountant, Bookkeeper, Auditor]"

definition find_role :: "string \<Rightarrow> role option" where
  "find_role text = find (\<lambda>r. role_text r = text) ROLES"

definition isRole :: "string \<Rightarrow> bool" where
  "isRole text \<longleftrightarrow> find_role text \<noteq> None"

text \<open>Whether the permissions held satisfy the one required.\<close>

definition grants :: "string set \<Rightarrow> string \<Rightarrow> bool" where
  "grants held required \<longleftrightarrow>
     ''*'' \<in> held \<or> required \<in> held \<or>
     (required = permission ''draft'' \<and> permission ''post'' \<in> held) \<or>
     hd (split_on (CHR '':'') required) @ '':*'' \<in> held"

section \<open>Membership\<close>

definition INVITATION_DAYS :: int where
  "INVITATION_DAYS = 14"

record member =
  mb_userId :: string
  mb_role :: string

definition normaliseEmail :: "string \<Rightarrow> string" where
  "normaliseEmail v = toLowerCase (js_trim v)"

text \<open>The pattern \<open>^[^\s@]+@[^\s@.]+(\.[^\s@.]+)+$\<close>: one at sign, and a domain of two or more labels.\<close>

definition is_email :: "string \<Rightarrow> bool" where
  "is_email s \<longleftrightarrow> list_all (\<lambda>c. \<not> is_space c) s \<and>
     (case split_on (CHR ''@'') s of
        [local_part, domain] \<Rightarrow>
          local_part \<noteq> [] \<and> 2 \<le> length (split_on (CHR ''.'') domain) \<and> [] \<notin> set (split_on (CHR ''.'') domain)
      | _ \<Rightarrow> False)"

definition requireEmail :: "string \<Rightarrow> string \<Rightarrow> thrown + string" where
  "requireEmail v path =
     (let email = normaliseEmail v
      in if is_email email then Inr email else throw ''invalid_email'' (Some path) None)"

definition requireRole :: "string \<Rightarrow> string \<Rightarrow> thrown + role" where
  "requireRole v path = (case find_role v of Some r \<Rightarrow> Inr r | None \<Rightarrow> throw ''unknown_role'' (Some path) None)"

definition wouldOrphanEntity :: "member list \<Rightarrow> string \<Rightarrow> role option \<Rightarrow> bool" where
  "wouldOrphanEntity members userId next_role =
     (let owners = filter (\<lambda>m. mb_role m = role_text Owner) members;
          isTheOnlyOwner = (length owners = 1 \<and> mb_userId (hd owners) = userId)
      in isTheOnlyOwner \<and> next_role \<noteq> Some Owner)"

definition assertKeepsAnOwner :: "member list \<Rightarrow> string \<Rightarrow> role option \<Rightarrow> thrown + unit" where
  "assertKeepsAnOwner members userId next_role =
     (if \<not> wouldOrphanEntity members userId next_role then Inr ()
      else throw (if next_role = None then ''last_owner.make_somebody_owner'' else ''last_owner.without_owner'')
        (Some (if next_role = None then ''userId'' else ''role'')) None)"

definition invitationExpiry :: "int \<Rightarrow> int" where
  "invitationExpiry now = now + INVITATION_DAYS * 24 * 60 * 60 * 1000"

section \<open>What roles hold\<close>

lemma role_text_inject [simp]: "role_text r = role_text r' \<longleftrightarrow> r = r'"
  by (cases r; cases r'; simp)

lemma role_text_owner [simp]: "role_text r = ''owner'' \<longleftrightarrow> r = Owner"
  by (cases r) simp_all

lemma find_role_text [simp]: "find_role (role_text r) = Some r"
  by (cases r) (simp_all add: find_role_def ROLES_def)

lemma find_role_Some: "find_role t = Some r \<longleftrightarrow> t = role_text r"
proof
  assume "find_role t = Some r"
  then show "t = role_text r" unfolding find_role_def by (auto simp: find_Some_iff)
qed simp

lemma grants_mono: "held \<subseteq> held' \<Longrightarrow> grants held required \<Longrightarrow> grants held' required"
  by (auto simp: grants_def)

text \<open>A role grants exactly the permissions of its bundle: no wildcard is in any of them.\<close>

lemma for_every_role: "list_all P ROLES \<Longrightarrow> P r"
  by (cases r) (simp_all add: ROLES_def)

lemma role_grants:
  assumes "required \<in> set (map snd PERMISSIONS)"
  shows "grants (set (permissionsForRole r)) required \<longleftrightarrow> required \<in> set (permissionsForRole r)"
proof -
  have "list_all (\<lambda>r. list_all (\<lambda>p. grants (set (permissionsForRole r)) p = (p \<in> set (permissionsForRole r)))
      (map snd PERMISSIONS)) ROLES" by code_simp
  from for_every_role [OF this, unfolded list_all_iff] assms show ?thesis by (rule bspec)
qed

lemma roles_that_hold:
  "permission ''manageMembers'' \<in> set (permissionsForRole r) \<longleftrightarrow> r = Owner"
  "permission ''approvePayments'' \<in> set (permissionsForRole r) \<longleftrightarrow> r \<in> set [Owner, Accountant]"
  "permission ''preparePayments'' \<in> set (permissionsForRole r) \<longleftrightarrow> r \<noteq> Auditor"
  "permission ''createEntity'' \<notin> set (permissionsForRole r)"
proof -
  have "list_all (\<lambda>r. (permission ''manageMembers'' \<in> set (permissionsForRole r) \<longleftrightarrow> r = Owner) \<and>
      (permission ''approvePayments'' \<in> set (permissionsForRole r) \<longleftrightarrow> r \<in> set [Owner, Accountant]) \<and>
      (permission ''preparePayments'' \<in> set (permissionsForRole r) \<longleftrightarrow> r \<noteq> Auditor) \<and>
      permission ''createEntity'' \<notin> set (permissionsForRole r)) ROLES" by code_simp
  from for_every_role [OF this, of r] show
    "permission ''manageMembers'' \<in> set (permissionsForRole r) \<longleftrightarrow> r = Owner"
    "permission ''approvePayments'' \<in> set (permissionsForRole r) \<longleftrightarrow> r \<in> set [Owner, Accountant]"
    "permission ''preparePayments'' \<in> set (permissionsForRole r) \<longleftrightarrow> r \<noteq> Auditor"
    "permission ''createEntity'' \<notin> set (permissionsForRole r)"
    by - (elim conjE, assumption)+
qed

lemma keeps_an_owner:
  assumes "assertKeepsAnOwner members userId next_role = Inr ()" "\<exists>m \<in> set members. mb_role m = role_text Owner"
    and "distinct (map mb_userId members)"
  shows "next_role = Some Owner \<or> (\<exists>m \<in> set members. mb_role m = role_text Owner \<and> mb_userId m \<noteq> userId)"
proof (rule ccontr)
  let ?owners = "filter (\<lambda>m. mb_role m = role_text Owner) members"
  assume n: "\<not> ?thesis"
  then have "set (map mb_userId ?owners) \<subseteq> {userId}" by auto
  moreover have "?owners \<noteq> []" using assms(2) by (auto simp: filter_empty_conv)
  moreover have "distinct (map mb_userId ?owners)" using assms(3) by (rule distinct_map_filter)
  ultimately have "length ?owners = 1 \<and> mb_userId (hd ?owners) = userId"
    by (cases ?owners; cases "tl ?owners") auto
  with n assms(1) show False by (simp add: assertKeepsAnOwner_def wouldOrphanEntity_def Let_def split: if_splits)
qed

end
