(* ===== verification/Api_Context.thy ===== *)
theory Api_Context
  imports Auth_Roles Ledger_Types
begin

text \<open>
  What an API handler works with (\<open>apps/web/src/api/context.ts\<close>, \<open>errors.ts\<close>): the resolved request context, the
  permission check, the errors of the boundary and the problem document every error becomes.
\<close>

record request_context =
  rc_actor :: actor
  rc_entityId :: string
  rc_permissions :: "string set"
  rc_requestId :: string
  rc_ip :: "string option"
  rc_idempotencyKey :: "string option"
  rc_ifMatch :: "string option"

definition hasPermission :: "request_context \<Rightarrow> string \<Rightarrow> bool" where
  "hasPermission ctx required = grants (rc_permissions ctx) required"

definition mayPostToSoftClosedPeriod :: "request_context \<Rightarrow> bool" where
  "mayPostToSoftClosedPeriod ctx = hasPermission ctx (permission ''postClosed'')"

datatype api_error_code =
    Unauthenticated | Forbidden | NotFound | Gone | ValidationFailed | IdempotencyKeyRequired | Conflict
  | PreconditionFailed | InternalError

fun api_code_text :: "api_error_code \<Rightarrow> string" where
  "api_code_text Unauthenticated = ''unauthenticated''"
| "api_code_text Forbidden = ''forbidden''"
| "api_code_text NotFound = ''not_found''"
| "api_code_text Gone = ''gone''"
| "api_code_text ValidationFailed = ''validation_failed''"
| "api_code_text IdempotencyKeyRequired = ''idempotency_key_required''"
| "api_code_text Conflict = ''conflict''"
| "api_code_text PreconditionFailed = ''precondition_failed''"
| "api_code_text InternalError = ''internal_error''"

fun STATUS :: "api_error_code \<Rightarrow> nat" where
  "STATUS Unauthenticated = 401"
| "STATUS Forbidden = 403"
| "STATUS NotFound = 404"
| "STATUS Gone = 410"
| "STATUS ValidationFailed = 422"
| "STATUS IdempotencyKeyRequired = 400"
| "STATUS Conflict = 409"
| "STATUS PreconditionFailed = 412"
| "STATUS InternalError = 500"

text \<open>A violation of the domain is assignable to one of the boundary, so they share a type.\<close>

type_synonym api_violation = ledger_violation

text \<open>What a handler can throw: its own error, or one of the domain.\<close>

datatype api_thrown = ApiError api_error_code string "api_violation list" | DomainError thrown

abbreviation api_error :: "api_error_code \<Rightarrow> string \<Rightarrow> api_thrown + 'a" where
  "api_error code message \<equiv> Inl (ApiError code message [])"

definition in_domain :: "thrown + 'a \<Rightarrow> api_thrown + 'a" where
  "in_domain r = (case r of Inl e \<Rightarrow> Inl (DomainError e) | Inr x \<Rightarrow> Inr x)"

text \<open>The message of a \<open>LedgerError\<close>: its first violation.\<close>

definition ledger_error_message :: "ledger_violation list \<Rightarrow> string" where
  "ledger_error_message vs =
     (case vs of [] \<Rightarrow> ''Ledger validation failed'' | v # _ \<Rightarrow> lv_code v @ '': '' @ lv_message v)"

record problem_document =
  pd_type :: string
  pd_title :: string
  pd_status :: nat
  pd_code :: string
  pd_detail :: string
  pd_requestId :: "string option"
  pd_violations :: "api_violation list"

definition toProblem :: "api_thrown \<Rightarrow> string option \<Rightarrow> problem_document" where
  "toProblem e requestId =
     (case e of
        ApiError code message violations \<Rightarrow>
          \<lparr>pd_type = ''https://klopt.dev/errors/'' @ api_code_text code, pd_title = api_code_text code,
           pd_status = STATUS code, pd_code = api_code_text code, pd_detail = message, pd_requestId = requestId,
           pd_violations = violations\<rparr>
      | DomainError (LedgerError violations) \<Rightarrow>
          \<lparr>pd_type = ''https://klopt.dev/errors/validation_failed'', pd_title = ''validation_failed'', pd_status = 422,
           pd_code = ''validation_failed'', pd_detail = ledger_error_message violations, pd_requestId = requestId,
           pd_violations = violations\<rparr>
      | DomainError _ \<Rightarrow>
          \<lparr>pd_type = ''https://klopt.dev/errors/internal_error'', pd_title = ''internal_error'', pd_status = 500,
           pd_code = ''internal_error'', pd_detail = ''The request could not be completed.'',
           pd_requestId = requestId, pd_violations = []\<rparr>)"

text \<open>The two guards most handlers of the payments open with.\<close>

definition requirePermission :: "request_context \<Rightarrow> string \<Rightarrow> api_thrown + unit" where
  "requirePermission ctx required =
     (if hasPermission ctx required then Inr ()
      else api_error Forbidden (''This caller does not have '' @ required @ ''.''))"

definition requireIdempotencyKey :: "request_context \<Rightarrow> api_thrown + string" where
  "requireIdempotencyKey ctx =
     (case rc_idempotencyKey ctx of
        None \<Rightarrow> api_error IdempotencyKeyRequired ''Every write needs an Idempotency-Key header.''
      | Some key \<Rightarrow> if key = [] then api_error IdempotencyKeyRequired ''Every write needs an Idempotency-Key header.''
          else Inr key)"

lemma in_domain_simps [simp]: "in_domain (Inl e) = Inl (DomainError e)" "in_domain (Inr x) = Inr x"
  by (simp_all add: in_domain_def)

lemma in_domain_Inr [simp]: "in_domain r = Inr x \<longleftrightarrow> r = Inr x"
  by (cases r) simp_all

lemma requirePermission_Inr [simp]: "requirePermission ctx p = Inr u \<longleftrightarrow> hasPermission ctx p"
  by (simp add: requirePermission_def)

lemma requireIdempotencyKey_Inr:
  "requireIdempotencyKey ctx = Inr key \<longleftrightarrow> rc_idempotencyKey ctx = Some key \<and> key \<noteq> []"
  by (auto simp: requireIdempotencyKey_def split: option.splits if_splits)

end
