(* ===== verification/Auth_Members.thy ===== *)
theory Auth_Members
  imports Api_Context
begin

text \<open>
  Membership of an administration (\<open>packages/db/src/repositories/members.ts\<close> and
  \<open>apps/web/src/api/handlers/members.ts\<close>): invitations, roles and removals on the tables of the database, and
  which requests can leave an administration without an owner.
\<close>

section \<open>Tables\<close>

record user_row =
  us_id :: string
  us_email :: string

record member_row =
  mr_id :: string
  mr_entityId :: string
  mr_userId :: string
  mr_role :: string

record invitation_row =
  iv_id :: string
  iv_entityId :: string
  iv_email :: string
  iv_role :: string
  iv_invitedByUserId :: "string option"
  iv_expiresAt :: int
  iv_revokedAt :: "int option"
  iv_acceptedAt :: "int option"
  iv_acceptedUserId :: "string option"

record session_row =
  sn_userId :: string
  sn_activeEntityId :: "string option"

record members_db =
  md_users :: "user_row list"
  md_members :: "member_row list"
  md_invitations :: "invitation_row list"
  md_sessions :: "session_row list"
  md_audit :: "audit_event list"

record request_actor = actor +
  ra_requestId :: "string option"
  ra_ip :: "string option"

definition member_audit ::
  "request_actor \<Rightarrow> string \<Rightarrow> string \<Rightarrow> string \<Rightarrow> (string \<times> string) list option \<Rightarrow> (string \<times> string) list option
   \<Rightarrow> members_db \<Rightarrow> members_db" where
  "member_audit who entityId action resourceId before after db =
     db\<lparr>md_audit := md_audit db @
       [\<lparr>au_entityId = entityId, au_actor = actor.truncate who, au_action = action, au_resourceType = ''entity_member'',
         au_resourceId = resourceId, au_before = before, au_after = after, au_requestId = ra_requestId who,
         au_ip = ra_ip who\<rparr>]\<rparr>"

definition is_member :: "string \<Rightarrow> string \<Rightarrow> member_row \<Rightarrow> bool" where
  "is_member entityId userId m \<longleftrightarrow> mr_entityId m = entityId \<and> mr_userId m = userId"

definition pending_for :: "string \<Rightarrow> invitation_row \<Rightarrow> bool" where
  "pending_for email i \<longleftrightarrow> iv_email i = email \<and> iv_acceptedAt i = None \<and> iv_revokedAt i = None"

definition membersOf :: "string \<Rightarrow> members_db \<Rightarrow> member list" where
  "membersOf entityId db =
     map (\<lambda>m. \<lparr>mb_userId = mr_userId m, mb_role = mr_role m\<rparr>) (filter (\<lambda>m. mr_entityId m = entityId) (md_members db))"

section \<open>The repository\<close>

record invite_result =
  in_invitationId :: string
  in_email :: string
  in_role :: role
  in_expiresAt :: int
  in_joinedImmediately :: bool
  in_created :: bool

text \<open>\<open>insert ... on conflict do update\<close> and \<open>on conflict do nothing\<close> on the key (entity, user).\<close>

definition upsert_member :: "bool \<Rightarrow> member_row \<Rightarrow> members_db \<Rightarrow> members_db" where
  "upsert_member overwrite m db =
     (let found = is_member (mr_entityId m) (mr_userId m)
      in if list_ex found (md_members db)
         then (if overwrite
               then db\<lparr>md_members := map (\<lambda>r. if found r then r\<lparr>mr_role := mr_role m\<rparr> else r) (md_members db)\<rparr>
               else db)
         else db\<lparr>md_members := md_members db @ [m]\<rparr>)"

definition invite_user ::
  "(nat \<Rightarrow> string) \<Rightarrow> int \<Rightarrow> string \<Rightarrow> string \<Rightarrow> role \<Rightarrow> request_actor \<Rightarrow> user_row \<Rightarrow> members_db
   \<Rightarrow> invite_result \<times> members_db" where
  "invite_user newId now entityId email r who existing db =
     (let already = find (is_member entityId (us_id existing)) (md_members db);
          joined = \<lparr>in_invitationId = us_id existing, in_email = email, in_role = r, in_expiresAt = now,
            in_joinedImmediately = True, in_created = True\<rparr>
      in if map_option mr_role already = Some (role_text r) then (joined\<lparr>in_created := False\<rparr>, db)
         else (joined,
           member_audit who entityId (if already = None then ''members.invite'' else ''members.setRole'') (us_id existing)
             (map_option (\<lambda>m. [(''role'', mr_role m)]) already) (Some [(''email'', email), (''role'', role_text r)])
             (upsert_member True
               \<lparr>mr_id = newId 0, mr_entityId = entityId, mr_userId = us_id existing, mr_role = role_text r\<rparr> db)))"

definition invite_address ::
  "(nat \<Rightarrow> string) \<Rightarrow> int \<Rightarrow> string \<Rightarrow> string \<Rightarrow> role \<Rightarrow> request_actor \<Rightarrow> members_db \<Rightarrow> invite_result \<times> members_db" where
  "invite_address newId now entityId email r who db =
     (let expiresAt = invitationExpiry now; after = Some [(''email'', email), (''role'', role_text r)];
          result = \<lparr>in_invitationId = newId 0, in_email = email, in_role = r, in_expiresAt = expiresAt,
            in_joinedImmediately = False, in_created = True\<rparr>
      in case find (\<lambda>i. iv_entityId i = entityId \<and> pending_for email i) (md_invitations db) of
           Some outstanding \<Rightarrow>
             (result\<lparr>in_invitationId := iv_id outstanding, in_created := False\<rparr>,
              member_audit who entityId ''members.invite'' (iv_id outstanding)
                (Some [(''email'', email), (''role'', iv_role outstanding)]) after
                (db\<lparr>md_invitations := map (\<lambda>i. if iv_id i = iv_id outstanding
                    then i\<lparr>iv_role := role_text r, iv_expiresAt := expiresAt\<rparr> else i) (md_invitations db)\<rparr>))
         | None \<Rightarrow>
             (result,
              member_audit who entityId ''members.invite'' (newId 0) None after
                (db\<lparr>md_invitations := md_invitations db @
                  [\<lparr>iv_id = newId 0, iv_entityId = entityId, iv_email = email, iv_role = role_text r,
                    iv_invitedByUserId = (if act_kind who = Human then Some (act_id who) else None),
                    iv_expiresAt = expiresAt, iv_revokedAt = None, iv_acceptedAt = None, iv_acceptedUserId = None\<rparr>]\<rparr>)))"

definition invite ::
  "(nat \<Rightarrow> string) \<Rightarrow> int \<Rightarrow> string \<Rightarrow> string \<Rightarrow> role \<Rightarrow> request_actor \<Rightarrow> members_db \<Rightarrow> invite_result \<times> members_db" where
  "invite newId now entityId address r who db =
     (let email = normaliseEmail address
      in case find (\<lambda>u. us_email u = email) (md_users db) of
           Some existing \<Rightarrow> invite_user newId now entityId email r who existing db
         | None \<Rightarrow> invite_address newId now entityId email r who db)"

definition setRole ::
  "string \<Rightarrow> string \<Rightarrow> role \<Rightarrow> request_actor \<Rightarrow> members_db \<Rightarrow> thrown + (string \<times> role) \<times> members_db" where
  "setRole entityId userId r who db =
     (let members = membersOf entityId db
      in case find (\<lambda>m. mb_userId m = userId) members of
           None \<Rightarrow> throw ''unknown_member.not_a_member'' (Some ''userId'') None
         | Some current \<Rightarrow>
             and_then (assertKeepsAnOwner members userId (Some r)) (\<lambda>_.
               Inr ((userId, r), member_audit who entityId ''members.setRole'' userId (Some [(''role'', mb_role current)])
                 (Some [(''role'', role_text r)])
                 (db\<lparr>md_members := map (\<lambda>m. if is_member entityId userId m then m\<lparr>mr_role := role_text r\<rparr> else m)
                   (md_members db)\<rparr>))))"

datatype removed = RemovedMember | RemovedInvitation

definition revoke_invitation ::
  "int \<Rightarrow> string \<Rightarrow> string \<Rightarrow> request_actor \<Rightarrow> members_db \<Rightarrow> thrown + removed \<times> members_db" where
  "revoke_invitation now entityId invitationId who db =
     (case find (\<lambda>i. iv_id i = invitationId \<and> iv_entityId i = entityId \<and> iv_acceptedAt i = None \<and> iv_revokedAt i = None)
        (md_invitations db) of
        None \<Rightarrow> throw ''unknown_invitation'' (Some ''invitationId'') None
      | Some invitation \<Rightarrow>
          Inr (RemovedInvitation,
            member_audit who entityId ''members.revokeInvitation'' invitationId
              (Some [(''email'', iv_email invitation), (''role'', iv_role invitation)]) None
              (db\<lparr>md_invitations := map (\<lambda>i. if iv_id i = invitationId then i\<lparr>iv_revokedAt := Some now\<rparr> else i)
                (md_invitations db)\<rparr>)))"

definition remove_member :: "string \<Rightarrow> string \<Rightarrow> request_actor \<Rightarrow> members_db \<Rightarrow> thrown + removed \<times> members_db" where
  "remove_member entityId userId who db =
     (let members = membersOf entityId db
      in case find (\<lambda>m. mb_userId m = userId) members of
           None \<Rightarrow> throw ''unknown_member.not_a_member'' (Some ''userId'') None
         | Some current \<Rightarrow>
             and_then (assertKeepsAnOwner members userId None) (\<lambda>_.
               Inr (RemovedMember,
                 member_audit who entityId ''members.remove'' userId (Some [(''role'', mb_role current)]) None
                   (db\<lparr>md_members := filter (\<lambda>m. \<not> is_member entityId userId m) (md_members db),
                       md_sessions := map (\<lambda>s. if sn_userId s = userId \<and> sn_activeEntityId s = Some entityId
                         then s\<lparr>sn_activeEntityId := None\<rparr> else s) (md_sessions db)\<rparr>))))"

definition remove ::
  "int \<Rightarrow> string \<Rightarrow> string option \<Rightarrow> string option \<Rightarrow> request_actor \<Rightarrow> members_db \<Rightarrow> thrown + removed \<times> members_db" where
  "remove now entityId user invitation who db =
     (case (invitation, user) of
        (Some invitationId, _) \<Rightarrow> revoke_invitation now entityId invitationId who db
      | (None, None) \<Rightarrow> throw ''unknown_member.say_who'' (Some ''userId'') None
      | (None, Some userId) \<Rightarrow> remove_member entityId userId who db)"

definition hasLiveInvitation :: "members_db \<Rightarrow> string \<Rightarrow> int \<Rightarrow> bool" where
  "hasLiveInvitation db email now =
     list_ex (\<lambda>i. pending_for (normaliseEmail email) i \<and> iv_expiresAt i > now) (md_invitations db)"

text \<open>One pending invitation claimed; an expired one is passed over.\<close>

definition claim_step ::
  "(nat \<Rightarrow> string) \<Rightarrow> int \<Rightarrow> string \<Rightarrow> string \<Rightarrow> nat \<times> members_db \<Rightarrow> invitation_row \<Rightarrow> nat \<times> members_db" where
  "claim_step newId now userId address st invitation =
     (case st of (claimed, db) \<Rightarrow>
      if iv_expiresAt invitation < now then (claimed, db)
      else (claimed + 1,
        member_audit \<lparr>act_kind = Human, act_id = userId, act_principalId = None, ra_requestId = None, ra_ip = None\<rparr>
          (iv_entityId invitation) ''members.acceptInvitation'' userId None
          (Some [(''email'', address), (''role'', iv_role invitation)])
          (let db1 = upsert_member False \<lparr>mr_id = newId claimed, mr_entityId = iv_entityId invitation, mr_userId = userId,
               mr_role = iv_role invitation\<rparr> db
           in db1\<lparr>md_invitations := map (\<lambda>i. if iv_id i = iv_id invitation
                then i\<lparr>iv_acceptedAt := Some now, iv_acceptedUserId := Some userId\<rparr> else i) (md_invitations db1)\<rparr>)))"

definition claimInvitations :: "(nat \<Rightarrow> string) \<Rightarrow> int \<Rightarrow> string \<Rightarrow> string \<Rightarrow> members_db \<Rightarrow> nat \<times> members_db" where
  "claimInvitations newId now userId email db =
     (let address = normaliseEmail email
      in foldl (claim_step newId now userId address) (0, db) (filter (pending_for address) (md_invitations db)))"

section \<open>The handlers\<close>

definition requireOwner :: "request_context \<Rightarrow> api_thrown + unit" where
  "requireOwner ctx =
     (if hasPermission ctx (permission ''manageMembers'') then Inr ()
      else api_error Forbidden ''Only an owner can manage who has access.'')"

definition actorFor :: "request_context \<Rightarrow> request_actor" where
  "actorFor ctx = actor.extend (rc_actor ctx) \<lparr>ra_requestId = Some (rc_requestId ctx), ra_ip = rc_ip ctx\<rparr>"

text \<open>The invitation is mailed after the transaction; what the mail server answers does not change the state.\<close>

definition handleInviteMember ::
  "request_context \<Rightarrow> (nat \<Rightarrow> string) \<Rightarrow> int \<Rightarrow> string \<Rightarrow> string \<Rightarrow> members_db \<Rightarrow> api_thrown + invite_result \<times> members_db" where
  "handleInviteMember ctx newId now address roleName db =
     and_then (requireOwner ctx) (\<lambda>_.
     and_then (in_domain (requireEmail address ''email'')) (\<lambda>email.
     and_then (in_domain (requireRole roleName ''role'')) (\<lambda>r.
       Inr (invite newId now (rc_entityId ctx) email r (actorFor ctx) db))))"

definition handleSetMemberRole ::
  "request_context \<Rightarrow> string \<Rightarrow> string \<Rightarrow> members_db \<Rightarrow> api_thrown + (string \<times> role) \<times> members_db" where
  "handleSetMemberRole ctx memberId roleName db =
     and_then (requireOwner ctx) (\<lambda>_.
     and_then (in_domain (requireRole roleName ''role'')) (\<lambda>r.
       in_domain (setRole (rc_entityId ctx) memberId r (actorFor ctx) db)))"

definition handleRemoveMember ::
  "request_context \<Rightarrow> int \<Rightarrow> string \<Rightarrow> members_db \<Rightarrow> api_thrown + removed \<times> members_db" where
  "handleRemoveMember ctx now memberId db =
     and_then (requireOwner ctx) (\<lambda>_.
       (let listed = filter (\<lambda>i. iv_entityId i = rc_entityId ctx \<and> iv_acceptedAt i = None \<and> iv_revokedAt i = None)
              (md_invitations db)
        in in_domain (if list_ex (\<lambda>i. iv_id i = memberId) listed
             then remove now (rc_entityId ctx) None (Some memberId) (actorFor ctx) db
             else remove now (rc_entityId ctx) (Some memberId) None (actorFor ctx) db)))"

section \<open>Requests and owners\<close>

datatype member_request =
    InviteRequest request_context "nat \<Rightarrow> string" int string string
  | SetRoleRequest request_context string string
  | RemoveRequest request_context int string
  | ClaimRequest "nat \<Rightarrow> string" int string string

text \<open>The database after a request; the transaction of a request that throws is rolled back.\<close>

fun handle_member_request :: "member_request \<Rightarrow> members_db \<Rightarrow> members_db" where
  "handle_member_request (InviteRequest ctx newId now address roleName) db =
     (case handleInviteMember ctx newId now address roleName db of Inl _ \<Rightarrow> db | Inr (_, db') \<Rightarrow> db')"
| "handle_member_request (SetRoleRequest ctx memberId roleName) db =
     (case handleSetMemberRole ctx memberId roleName db of Inl _ \<Rightarrow> db | Inr (_, db') \<Rightarrow> db')"
| "handle_member_request (RemoveRequest ctx now memberId) db =
     (case handleRemoveMember ctx now memberId db of Inl _ \<Rightarrow> db | Inr (_, db') \<Rightarrow> db')"
| "handle_member_request (ClaimRequest newId now userId email) db = snd (claimInvitations newId now userId email db)"

definition owns :: "string \<Rightarrow> member_row \<Rightarrow> bool" where
  "owns e m \<longleftrightarrow> mr_entityId m = e \<and> mr_role m = role_text Owner"

definition has_owner :: "string \<Rightarrow> members_db \<Rightarrow> bool" where
  "has_owner e db \<longleftrightarrow> (\<exists>m \<in> set (md_members db). owns e m)"

definition sole_owner :: "string \<Rightarrow> string \<Rightarrow> members_db \<Rightarrow> bool" where
  "sole_owner e userId db \<longleftrightarrow> has_owner e db \<and> (\<forall>m \<in> set (md_members db). owns e m \<longrightarrow> mr_userId m = userId)"

text \<open>The unique key of the table.\<close>

abbreviation member_key :: "member_row \<Rightarrow> string \<times> string" where
  "member_key m \<equiv> (mr_entityId m, mr_userId m)"

definition members_ok :: "members_db \<Rightarrow> bool" where
  "members_ok db \<longleftrightarrow> distinct (map member_key (md_members db))"

text \<open>A request that invites the address of the only owner again, under a lesser role.\<close>

fun reinvites_sole_owner :: "string \<Rightarrow> member_request \<Rightarrow> members_db \<Rightarrow> bool" where
  "reinvites_sole_owner e (InviteRequest ctx newId now address roleName) db \<longleftrightarrow>
     rc_entityId ctx = e \<and> hasPermission ctx (permission ''manageMembers'') \<and>
     (\<exists>email r u. requireEmail address ''email'' = Inr email \<and> find_role roleName = Some r \<and> r \<noteq> Owner \<and>
       find (\<lambda>u. us_email u = normaliseEmail email) (md_users db) = Some u \<and> sole_owner e (us_id u) db)"
| "reinvites_sole_owner e _ db \<longleftrightarrow> False"

lemma audit_members [simp]:
  "md_members (member_audit who e action i b a db) = md_members db"
  by (simp add: member_audit_def)

lemma has_owner_cong: "md_members db' = md_members db \<Longrightarrow> has_owner e db' = has_owner e db \<and> members_ok db' = members_ok db"
  by (simp add: has_owner_def members_ok_def)

definition change_role :: "string \<Rightarrow> string \<Rightarrow> string \<Rightarrow> member_row list \<Rightarrow> member_row list" where
  "change_role e u t ms = map (\<lambda>m. if is_member e u m then m\<lparr>mr_role := t\<rparr> else m) ms"

lemma change_role_keys [simp]: "map member_key (change_role e u t ms) = map member_key ms"
  by (simp add: change_role_def)

lemma change_role_owner:
  "(\<exists>m \<in> set (change_role e' u t ms). owns e m) \<longleftrightarrow>
   (t = role_text Owner \<and> e = e' \<and> (\<exists>m \<in> set ms. is_member e' u m)) \<or> (\<exists>m \<in> set ms. owns e m \<and> \<not> is_member e' u m)"
proof -
  have "owns e (if is_member e' u m then m\<lparr>mr_role := t\<rparr> else m) \<longleftrightarrow>
      (if is_member e' u m then t = role_text Owner \<and> e = e' else owns e m)" for m
    by (auto simp: owns_def is_member_def)
  then show ?thesis unfolding change_role_def set_map bex_simps(7) by (auto simp only: if_split_asm split: if_split)
qed

lemma owner_elsewhere:
  "has_owner e db \<Longrightarrow> (\<exists>m \<in> set (md_members db). owns e m \<and> \<not> is_member e u m) \<longleftrightarrow> \<not> sole_owner e u db"
  by (auto simp: sole_owner_def is_member_def owns_def)

lemma keeps_owner_rows:
  assumes "assertKeepsAnOwner (membersOf e db) u next_role = Inr ()" "has_owner e db" "members_ok db"
  shows "next_role = Some Owner \<or> (\<exists>m \<in> set (md_members db). owns e m \<and> \<not> is_member e u m)"
proof -
  let ?ms = "filter (\<lambda>m. mr_entityId m = e) (md_members db)"
  have "inj_on mr_userId (set ?ms)"
    using assms(3) by (auto simp: members_ok_def distinct_map inj_on_def)
  moreover have "distinct ?ms" using assms(3) by (simp add: members_ok_def distinct_map)
  ultimately have "distinct (map mb_userId (membersOf e db))" by (simp add: membersOf_def distinct_map comp_def)
  moreover have "\<exists>m \<in> set (membersOf e db). mb_role m = role_text Owner"
    using assms(2) by (auto simp: membersOf_def has_owner_def owns_def)
  ultimately have "next_role = Some Owner \<or> (\<exists>m \<in> set (membersOf e db). mb_role m = role_text Owner \<and> mb_userId m \<noteq> u)"
    using keeps_an_owner [OF assms(1)] by blast
  then show ?thesis by (auto simp: membersOf_def owns_def is_member_def)
qed

lemma upsert_member_rows:
  "md_members (upsert_member overwrite m db) =
     (if \<exists>r \<in> set (md_members db). is_member (mr_entityId m) (mr_userId m) r
      then if overwrite then change_role (mr_entityId m) (mr_userId m) (mr_role m) (md_members db) else md_members db
      else md_members db @ [m])"
  by (simp add: upsert_member_def change_role_def list_ex_iff)

lemma upsert_keeps_keys: "members_ok db \<Longrightarrow> members_ok (upsert_member overwrite m db)"
  by (auto simp: members_ok_def upsert_member_rows is_member_def)

lemma member_found:
  assumes "members_ok db" "m \<in> set (md_members db)" "is_member e u m"
  shows "find (is_member e u) (md_members db) = Some m"
proof -
  have "find (is_member e u) (md_members db) \<noteq> None" using assms(2,3) by (auto simp: find_None_iff)
  then obtain m' where m': "find (is_member e u) (md_members db) = Some m'" by auto
  then have "m' \<in> set (md_members db)" "is_member e u m'" by (auto simp: find_Some_iff)
  with assms have "m' = m" by (auto simp: members_ok_def distinct_map is_member_def dest: inj_onD)
  with m' show ?thesis by simp
qed

lemma change_role_same: "(\<And>m. m \<in> set ms \<Longrightarrow> is_member e u m \<Longrightarrow> mr_role m = t) \<Longrightarrow> change_role e u t ms = ms"
  by (auto simp: change_role_def intro!: map_idI)

lemma invite_rows:
  assumes ok: "members_ok db"
  shows "md_members (snd (invite newId now entityId address r who db)) =
     (case find (\<lambda>u. us_email u = normaliseEmail address) (md_users db) of
        None \<Rightarrow> md_members db
      | Some u \<Rightarrow>
          if \<exists>m \<in> set (md_members db). is_member entityId (us_id u) m
          then change_role entityId (us_id u) (role_text r) (md_members db)
          else md_members db @ [\<lparr>mr_id = newId 0, mr_entityId = entityId, mr_userId = us_id u, mr_role = role_text r\<rparr>])"
proof (cases "find (\<lambda>u. us_email u = normaliseEmail address) (md_users db)")
  case None
  then show ?thesis by (auto simp: invite_def Let_def invite_address_def split: option.splits)
next
  case (Some u)
  show ?thesis
  proof (cases "find (is_member entityId (us_id u)) (md_members db)")
    case None
    then have "\<not> (\<exists>m \<in> set (md_members db). is_member entityId (us_id u) m)" by (auto simp: find_None_iff)
    with None Some show ?thesis by (simp add: invite_def Let_def invite_user_def upsert_member_rows)
  next
    case (Some m)
    then have m: "m \<in> set (md_members db)" "is_member entityId (us_id u) m" by (auto simp: find_Some_iff)
    then have ex: "\<exists>m \<in> set (md_members db). is_member entityId (us_id u) m" by blast
    have "change_role entityId (us_id u) (role_text r) (md_members db) = md_members db" if "mr_role m = role_text r"
      by (rule change_role_same) (use member_found [OF ok] Some that in fastforce)
    with Some ex \<open>find (\<lambda>u. us_email u = _) _ = Some u\<close> show ?thesis
      by (simp add: invite_def Let_def invite_user_def upsert_member_rows)
  qed
qed

lemma setRole_rows:
  assumes "setRole e u r who db = Inr (x, db')"
  shows "md_members db' = change_role e u (role_text r) (md_members db)"
    and "assertKeepsAnOwner (membersOf e db) u (Some r) = Inr ()" and "\<exists>m \<in> set (md_members db). is_member e u m"
proof -
  from assms obtain current where current: "find (\<lambda>m. mb_userId m = u) (membersOf e db) = Some current"
    by (auto simp: setRole_def Let_def split: option.splits)
  with assms show "md_members db' = change_role e u (role_text r) (md_members db)"
    "assertKeepsAnOwner (membersOf e db) u (Some r) = Inr ()"
    by (auto simp: setRole_def Let_def and_then_Inr change_role_def)
  from current have "current \<in> set (membersOf e db)" "mb_userId current = u" by (auto simp: find_Some_iff)
  then show "\<exists>m \<in> set (md_members db). is_member e u m" by (auto simp: membersOf_def is_member_def)
qed

lemma remove_rows:
  assumes "remove now e user invitation who db = Inr (x, db')"
  shows "md_members db' = md_members db \<or>
    (\<exists>u. md_members db' = filter (\<lambda>m. \<not> is_member e u m) (md_members db) \<and>
      assertKeepsAnOwner (membersOf e db) u None = Inr ())"
  using assms
  by (auto simp: remove_def revoke_invitation_def remove_member_def Let_def and_then_Inr split: option.splits)

lemma claim_step_rows:
  assumes "members_ok (snd st)" "has_owner e (snd st)"
  shows "members_ok (snd (claim_step newId now u address st i)) \<and> has_owner e (snd (claim_step newId now u address st i))"
proof (cases st)
  case (Pair claimed db)
  let ?m = "\<lparr>mr_id = newId claimed, mr_entityId = iv_entityId i, mr_userId = u, mr_role = iv_role i\<rparr>"
  have "md_members (snd (claim_step newId now u address st i)) =
      (if iv_expiresAt i < now then md_members db else md_members (upsert_member False ?m db))"
    by (simp add: Pair claim_step_def Let_def)
  moreover have "has_owner e (upsert_member False ?m db)"
    using assms(2) by (auto simp: Pair has_owner_def upsert_member_rows)
  moreover have "members_ok (upsert_member False ?m db)" using assms(1) by (intro upsert_keeps_keys) (simp add: Pair)
  ultimately show ?thesis using assms by (simp add: Pair has_owner_def members_ok_def)
qed

lemma claim_rows:
  assumes "members_ok db" "has_owner e db"
  shows "members_ok (snd (claimInvitations newId now u email db)) \<and> has_owner e (snd (claimInvitations newId now u email db))"
proof -
  have "members_ok (snd (foldl (claim_step newId now u address) st is)) \<and>
      has_owner e (snd (foldl (claim_step newId now u address) st is))"
    if "members_ok (snd st)" "has_owner e (snd st)" for address st "is"
    using that by (induction "is" arbitrary: st) (simp_all add: claim_step_rows)
  from this [of "(0, db)"] assms show ?thesis by (simp add: claimInvitations_def Let_def)
qed

lemma change_role_has_owner:
  assumes "md_members db' = change_role e' u t (md_members db)" "has_owner e db" "\<exists>m \<in> set (md_members db). is_member e' u m"
  shows "has_owner e db' \<longleftrightarrow> \<not> (e' = e \<and> t \<noteq> role_text Owner \<and> sole_owner e u db)"
proof -
  have "\<exists>m \<in> set (md_members db). owns e m \<and> \<not> is_member e' u m" if "e' \<noteq> e"
    using assms(2) that by (auto simp: has_owner_def owns_def is_member_def)
  then show ?thesis
    using assms(3) owner_elsewhere [OF assms(2), of u]
    unfolding has_owner_def [of e db'] assms(1) change_role_owner by blast
qed

lemma invite_keeps_owner:
  assumes "members_ok db" "has_owner e db"
  shows "members_ok (snd (invite newId now e' address r who db))"
    and "has_owner e (snd (invite newId now e' address r who db)) \<longleftrightarrow>
      \<not> (e' = e \<and> r \<noteq> Owner \<and> (\<exists>u. find (\<lambda>u. us_email u = normaliseEmail address) (md_users db) = Some u \<and> sole_owner e (us_id u) db))"
proof -
  note rows = invite_rows [OF assms(1), of newId now e' address r who]
  let ?f = "find (\<lambda>u. us_email u = normaliseEmail address) (md_users db)"
  show "members_ok (snd (invite newId now e' address r who db))"
    using assms(1) by (auto simp: members_ok_def rows is_member_def split: option.splits)
  show "has_owner e (snd (invite newId now e' address r who db)) \<longleftrightarrow>
      \<not> (e' = e \<and> r \<noteq> Owner \<and> (\<exists>u. ?f = Some u \<and> sole_owner e (us_id u) db))"
  proof (cases ?f)
    case None
    with assms(2) show ?thesis by (simp add: has_owner_def rows)
  next
    case (Some u)
    show ?thesis
    proof (cases "\<exists>m \<in> set (md_members db). is_member e' (us_id u) m")
      case True
      with change_role_has_owner [OF _ assms(2) True, of "snd (invite newId now e' address r who db)" "role_text r"]
      show ?thesis by (simp add: rows Some)
    next
      case False
      then have "\<not> sole_owner e (us_id u) db" if "e' = e"
        using assms(2) that by (auto simp: sole_owner_def has_owner_def owns_def is_member_def)
      moreover have "has_owner e (snd (invite newId now e' address r who db))"
        using assms(2) False by (simp add: has_owner_def rows Some)
      ultimately show ?thesis by (auto simp: Some)
    qed
  qed
qed

lemma request_keeps_owner:
  assumes "members_ok db" "has_owner e db"
  shows "members_ok (handle_member_request req db) \<and>
    (has_owner e (handle_member_request req db) \<longleftrightarrow> \<not> reinvites_sole_owner e req db)"
proof (cases req)
  case (InviteRequest ctx newId now address roleName)
  show ?thesis
  proof (cases "handleInviteMember ctx newId now address roleName db")
    case (Inl f)
    then have "\<not> reinvites_sole_owner e req db"
      by (auto simp: InviteRequest handleInviteMember_def and_then_def requireOwner_def requireRole_def)
    with assms Inl show ?thesis by (simp add: InviteRequest)
  next
    case (Inr y)
    then obtain email r where ok: "hasPermission ctx (permission ''manageMembers'')"
      "requireEmail address ''email'' = Inr email" "find_role roleName = Some r"
      and y: "y = invite newId now (rc_entityId ctx) email r (actorFor ctx) db"
      by (auto simp: handleInviteMember_def and_then_Inr requireOwner_def requireRole_def split: option.splits if_splits)
    then have "handle_member_request req db = snd (invite newId now (rc_entityId ctx) email r (actorFor ctx) db)"
      using Inr by (simp add: InviteRequest case_prod_unfold)
    moreover have "reinvites_sole_owner e req db \<longleftrightarrow> rc_entityId ctx = e \<and> r \<noteq> Owner \<and>
        (\<exists>u. find (\<lambda>u. us_email u = normaliseEmail email) (md_users db) = Some u \<and> sole_owner e (us_id u) db)"
      using ok by (simp add: InviteRequest)
    ultimately show ?thesis by (simp only: invite_keeps_owner [OF assms])
  qed
next
  case (SetRoleRequest ctx memberId roleName)
  show ?thesis
  proof (cases "handleSetMemberRole ctx memberId roleName db")
    case (Inr y)
    obtain x db' where y: "y = (x, db')" by (cases y)
    with Inr obtain r where s: "setRole (rc_entityId ctx) memberId r (actorFor ctx) db = Inr (x, db')"
      by (auto simp: handleSetMemberRole_def and_then_Inr)
    note rows = setRole_rows [OF s]
    have "\<not> (rc_entityId ctx = e \<and> role_text r \<noteq> role_text Owner \<and> sole_owner e memberId db)"
      using keeps_owner_rows [OF rows(2) _ assms(1)] owner_elsewhere [OF assms(2)] assms(2) by auto
    then have "has_owner e db'" using change_role_has_owner [OF rows(1) assms(2) rows(3)] by blast
    moreover have "members_ok db'" using assms(1) by (simp add: members_ok_def rows(1))
    ultimately show ?thesis by (simp add: SetRoleRequest Inr y)
  qed (use assms SetRoleRequest in simp)
next
  case (RemoveRequest ctx now memberId)
  show ?thesis
  proof (cases "handleRemoveMember ctx now memberId db")
    case (Inr y)
    obtain x db' where y: "y = (x, db')" by (cases y)
    with Inr obtain user invitation where "remove now (rc_entityId ctx) user invitation (actorFor ctx) db = Inr (x, db')"
      by (auto simp: handleRemoveMember_def and_then_Inr Let_def split: if_splits)
    note rows = remove_rows [OF this]
    have "has_owner e db'"
    proof (cases "rc_entityId ctx = e")
      case True
      have "\<exists>m \<in> set (md_members db). owns e m \<and> \<not> is_member e u m"
        if "assertKeepsAnOwner (membersOf e db) u None = Inr ()" for u
        using keeps_owner_rows [OF that assms(2,1)] by simp
      then have "has_owner e db'" if "md_members db' = filter (\<lambda>m. \<not> is_member e u m) (md_members db)"
          "assertKeepsAnOwner (membersOf e db) u None = Inr ()" for u
        using that by (simp add: has_owner_def) blast
      moreover have "has_owner e db'" if "md_members db' = md_members db"
        using that assms(2) by (simp add: has_owner_def)
      ultimately show ?thesis using rows unfolding True by blast
    next
      case False
      with rows assms(2) show ?thesis by (auto simp: has_owner_def owns_def is_member_def)
    qed
    moreover have "members_ok db'" using rows assms(1) by (auto simp: members_ok_def distinct_map_filter)
    ultimately show ?thesis by (simp add: RemoveRequest Inr y)
  qed (use assms RemoveRequest in simp)
next
  case (ClaimRequest newId now userId email)
  with claim_rows [OF assms] show ?thesis by simp
qed

text \<open>
  C16: An administration that has an owner keeps one through every request of the members' API, whoever makes it, and
  through every claim of an invitation, with exactly one exception: inviting the address of its only owner again
  under a lesser role, which the repository carries out without the check that setting a role and removing make.
\<close>

theorem owner_lost_only_by_invitation:
  assumes "members_ok db" "has_owner e db"
  shows "members_ok (handle_member_request req db) \<and>
    (has_owner e (handle_member_request req db) \<longleftrightarrow> \<not> reinvites_sole_owner e req db)"
  by (rule request_keeps_owner [OF assms])

definition sample_members :: members_db where
  "sample_members = \<lparr>md_users = [\<lparr>us_id = ''u1'', us_email = ''a@b.nl''\<rparr>],
     md_members = [\<lparr>mr_id = ''m1'', mr_entityId = ''e'', mr_userId = ''u1'', mr_role = ''owner''\<rparr>],
     md_invitations = [], md_sessions = [], md_audit = []\<rparr>"

definition sample_context :: request_context where
  "sample_context = \<lparr>rc_actor = \<lparr>act_kind = Human, act_id = ''u1'', act_principalId = None\<rparr>, rc_entityId = ''e'',
     rc_permissions = {''members:manage''}, rc_requestId = ''r'', rc_ip = None, rc_idempotencyKey = None, rc_ifMatch = None\<rparr>"

definition self_demotion :: member_request where
  "self_demotion = InviteRequest sample_context (\<lambda>_. ''x'') 0 ''A@b.nl'' ''auditor''"

theorem owner_lost_only_by_invitation_witness:
  "has_owner ''e'' (handle_member_request (RemoveRequest sample_context 0 ''u1'') sample_members) \<and>
   \<not> has_owner ''e'' (handle_member_request self_demotion sample_members)"
proof
  have ok: "members_ok sample_members" and own: "has_owner ''e'' sample_members"
    by (simp_all add: members_ok_def has_owner_def owns_def sample_members_def)
  from owner_lost_only_by_invitation [OF ok own, of "RemoveRequest sample_context 0 ''u1''"]
  show "has_owner ''e'' (handle_member_request (RemoveRequest sample_context 0 ''u1'') sample_members)" by simp
  have "hasPermission sample_context (permission ''manageMembers'')" by code_simp
  moreover have "requireEmail ''A@b.nl'' ''email'' = Inr ''a@b.nl''" "normaliseEmail ''a@b.nl'' = ''a@b.nl''" by code_simp+
  moreover have "find_role ''auditor'' = Some Auditor" using find_role_text [of Auditor] by simp
  ultimately have "reinvites_sole_owner ''e'' self_demotion sample_members"
    using own by (simp add: self_demotion_def sole_owner_def owns_def) (simp add: sample_context_def sample_members_def)
  with owner_lost_only_by_invitation [OF ok own, of self_demotion]
  show "\<not> has_owner ''e'' (handle_member_request self_demotion sample_members)" by blast
qed

end
