(* ===== verification/Money_Format.thy ===== *)
theory Money_Format
  imports Sales_Pricing
begin

text \<open>
  Amounts and dates for a Dutch reader (\<open>packages/core/src/format/index.ts\<close>): writing an amount with grouping and a
  decimal comma, reading what was typed, and the arithmetic of the preview. What is written reads back unchanged.
\<close>

datatype negative_style = Minus | Parentheses

record money_format =
  mf_negative :: negative_style
  mf_showZero :: bool

definition DEFAULT_MONEY_FORMAT :: money_format where
  "DEFAULT_MONEY_FORMAT = \<lparr>mf_negative = Minus, mf_showZero = True\<rparr>"

text \<open>The loop over the digits: what is left of them decides where a separator goes.\<close>

fun group_digits :: "bool \<Rightarrow> string \<Rightarrow> string" where
  "group_digits at_start [] = []"
| "group_digits at_start (c # cs) =
     (if \<not> at_start \<and> length (c # cs) mod 3 = 0 then ''.'' else []) @ c # group_digits False cs"

definition formatMinorUnits :: "money_format \<Rightarrow> int \<Rightarrow> string" where
  "formatMinorUnits style units =
     (if units = 0 \<and> \<not> mf_showZero style then []
      else let digits = pad_start 3 (CHR ''0'') (int_to_string \<bar>units\<bar>);
               whole = take (length digits - 2) digits; cents = drop (length digits - 2) digits;
               rendered = group_digits True whole @ '','' @ cents
           in if 0 \<le> units then rendered
              else (case mf_negative style of Parentheses \<Rightarrow> ''('' @ rendered @ '')'' | Minus \<Rightarrow> ''-'' @ rendered))"

text \<open>\<open>lastIndexOf\<close> of a character; \<open>None\<close> is its -1.\<close>

definition last_index :: "char \<Rightarrow> string \<Rightarrow> nat option" where
  "last_index c s = find (\<lambda>i. s ! i = c) (rev [0..<length s])"

definition decimal_position :: "string \<Rightarrow> nat option" where
  "decimal_position unsigned =
     (case (last_index (CHR '','') unsigned, last_index (CHR ''.'') unsigned) of
        (Some lastComma, Some lastDot) \<Rightarrow> Some (max lastComma lastDot)
      | (None, None) \<Rightarrow> None
      | (lastComma, lastDot) \<Rightarrow>
          let only = (if lastComma \<noteq> None then CHR '','' else CHR ''.'');
              occurrences = length (split_on only unsigned) - 1;
              position = the (last_index only unsigned); trailing = length unsigned - position - 1
          in if occurrences = 1 \<and> 1 \<le> trailing \<and> trailing \<le> 2 then Some position else None)"

definition parse_groups :: "string \<Rightarrow> string option" where
  "parse_groups wholePart =
     (let groups = split_on (CHR ''.'') (map (\<lambda>c. if c = CHR '','' then CHR ''.'' else c) wholePart);
          all_digits = list_all is_digit
      in if 1 < length groups
         then (if \<not> (1 \<le> length (hd groups) \<and> length (hd groups) \<le> 3 \<and> all_digits (hd groups)) then None
               else if \<not> list_all (\<lambda>g. length g = 3 \<and> all_digits g) (tl groups) then None
               else Some (concat groups))
         else if hd groups \<noteq> [] \<and> all_digits (hd groups) then Some (concat groups) else None)"

definition parseMinorUnits :: "string \<Rightarrow> int option" where
  "parseMinorUnits input =
     (let cleaned = filter (\<lambda>c. \<not> is_space c) (js_trim input)
      in if cleaned = [] then None
         else
           let negative = starts_with ''-'' cleaned \<or> (starts_with ''('' cleaned \<and> last cleaned = CHR '')'');
               front = (if starts_with ''-'' cleaned \<or> starts_with ''('' cleaned then drop 1 cleaned else cleaned);
               unsigned = (if front \<noteq> [] \<and> last front = CHR '')'' then butlast front else front)
           in if unsigned = [] \<or> \<not> list_all (\<lambda>c. is_digit c \<or> c = CHR ''.'' \<or> c = CHR '','') unsigned then None
              else
                let decimalAt = decimal_position unsigned;
                    wholePart = (case decimalAt of None \<Rightarrow> unsigned | Some i \<Rightarrow> take i unsigned);
                    fraction = (case decimalAt of None \<Rightarrow> [] | Some i \<Rightarrow> drop (i + 1) unsigned)
                in if \<not> (length fraction \<le> 2 \<and> list_all is_digit fraction) then None
                   else case parse_groups wholePart of
                          None \<Rightarrow> None
                        | Some whole \<Rightarrow>
                            let v = int (digits_value (whole @ pad_end 2 (CHR ''0'') fraction))
                            in Some (if negative then - v else v))"

section \<open>The arithmetic of the preview\<close>

definition preview_divideRound :: "int \<Rightarrow> int \<Rightarrow> int" where
  "preview_divideRound numerator denominator =
     (let negative = ((numerator < 0) \<noteq> (denominator < 0)); rounded = (\<bar>numerator\<bar> * 2 + \<bar>denominator\<bar>) div (\<bar>denominator\<bar> * 2)
      in if negative then - rounded else rounded)"

definition multiplyByDecimal :: "int \<Rightarrow> string \<Rightarrow> int" where
  "multiplyByDecimal minor decimal =
     (let trimmed = js_trim decimal; negative = starts_with ''-'' trimmed;
          unsigned = (if negative then drop 1 trimmed else trimmed)
      in if \<not> is_decimal unsigned then 0
         else let parts = split_on (CHR ''.'') unsigned; whole = item_or parts 0 ''0''; fraction = item_or parts 1 [];
                  scaled = int (digits_value (whole @ fraction)); scale = 10 ^ length fraction;
                  product = preview_divideRound (minor * scaled) scale
              in if negative then - product else product)"

definition percentOf :: "int \<Rightarrow> string \<Rightarrow> int" where
  "percentOf minor percent = preview_divideRound (multiplyByDecimal minor percent) 100"

definition formatDate :: "string \<Rightarrow> string" where
  "formatDate day_text =
     (case split_on (CHR ''-'') day_text of
        year # month # day # _ \<Rightarrow> day @ ''-'' @ month @ ''-'' @ year
      | _ \<Rightarrow> day_text)"

section \<open>Reading back what was written\<close>

lemma group_digits_split:
  "ds \<noteq> [] \<Longrightarrow> list_all is_digit ds \<Longrightarrow>
   \<exists>g gs. split_on (CHR ''.'') (group_digits b ds) = g # gs \<and> concat (g # gs) = ds \<and> (\<forall>h \<in> set gs. length h = 3) \<and>
     length g = (if length ds mod 3 = 0 then (if b then 3 else 0) else length ds mod 3)"
proof (induction ds arbitrary: b)
  case (Cons c cs)
  have c: "c \<noteq> CHR ''.''" using Cons.prems(2) by (auto simp: is_digit_def)
  show ?case
  proof (cases "cs = []")
    case True
    with c show ?thesis by simp
  next
    case False
    obtain g gs where g: "split_on (CHR ''.'') (group_digits False cs) = g # gs"
      "concat (g # gs) = cs" "\<forall>h \<in> set gs. length h = 3" "length g = (if length cs mod 3 = 0 then 0 else length cs mod 3)"
      using Cons.IH [of False, OF False] Cons.prems(2) by (elim exE conjE meta_impE) (simp_all split del: if_split cong: if_cong)
    have l: "length (c # cs) mod 3 = 0 \<longleftrightarrow> length cs mod 3 = 2" "length cs mod 3 \<noteq> 2 \<Longrightarrow> length (c # cs) mod 3 = length cs mod 3 + 1"
      by (simp_all add: mod_Suc)
    show ?thesis
    proof (cases "length (c # cs) mod 3 = 0")
      case True
      then have "length g = 2" using g(4) l(1) by simp
      with True g c show ?thesis by (cases b) auto
    next
      case False
      then have "length g + 1 = length (c # cs) mod 3" using g(4) l by simp
      with False g c show ?thesis by auto
    qed
  qed
qed simp

lemma group_digits_chars: "c \<in> set (group_digits b ds) \<Longrightarrow> c \<in> set ds \<or> c = CHR ''.''"
  by (induction b ds rule: group_digits.induct) (auto split: if_splits)

lemma group_digits_Nil [simp]: "group_digits b ds = [] \<longleftrightarrow> ds = []"
  by (cases ds) auto

lemma last_index_snoc [simp]: "last_index c (s @ [x]) = (if x = c then Some (length s) else last_index c s)"
proof -
  have "find (\<lambda>i. (s @ [x]) ! i = c) (rev [0..<length s]) = find (\<lambda>i. s ! i = c) (rev [0..<length s])"
    by (rule find_cong) (auto simp: nth_append)
  then show ?thesis by (simp add: last_index_def)
qed

lemma last_index_Nil [simp]: "last_index c [] = None"
  by (simp add: last_index_def)

lemma last_index_after: "c \<notin> set b \<Longrightarrow> last_index c (a @ c # b) = Some (length a)"
proof (induction b rule: rev_induct)
  case (snoc x b)
  then have "last_index c ((a @ c # b) @ [x]) = Some (length a)" by (auto simp del: append_assoc)
  then show ?case by simp
qed simp

lemma last_index_skip: "c \<notin> set b \<Longrightarrow> last_index c (a @ b) = last_index c a"
proof (induction b rule: rev_induct)
  case (snoc x b)
  then have "last_index c ((a @ b) @ [x]) = last_index c a" by (auto simp del: append_assoc)
  then show ?case by simp
qed simp

lemma last_index_less: "last_index c s = Some i \<Longrightarrow> i < length s"
  by (induction s rule: rev_induct) (auto split: if_splits)

lemma decimal_position_comma:
  assumes "CHR '','' \<notin> set a" "CHR '','' \<notin> set b" "CHR ''.'' \<notin> set b" "length b = 2"
  shows "decimal_position (a @ CHR '','' # b) = Some (length a)"
proof -
  have comma: "last_index (CHR '','') (a @ CHR '','' # b) = Some (length a)" using assms(2) by (rule last_index_after)
  have dot: "last_index (CHR ''.'') (a @ CHR '','' # b) = last_index (CHR ''.'') a"
    using assms(3) by (intro last_index_skip) auto
  show ?thesis
  proof (cases "last_index (CHR ''.'') a")
    case None
    then show ?thesis using assms by (simp add: decimal_position_def comma dot Let_def)
  next
    case (Some i)
    then show ?thesis using last_index_less [OF Some] by (simp add: decimal_position_def comma dot)
  qed
qed

lemma parse_groups_digits:
  assumes "ds \<noteq> []" "list_all is_digit ds"
  shows "parse_groups (group_digits True ds) = Some ds"
proof -
  obtain g gs where g: "split_on (CHR ''.'') (group_digits True ds) = g # gs" "concat (g # gs) = ds"
    "\<forall>h \<in> set gs. length h = 3" "length g = (if length ds mod 3 = 0 then 3 else length ds mod 3)"
    using group_digits_split [OF assms, of True, unfolded if_True] by blast
  have "map (\<lambda>c. if c = CHR '','' then CHR ''.'' else c) (group_digits True ds) = group_digits True ds"
    using assms(2) by (intro map_idI) (auto dest!: group_digits_chars simp: list_all_iff is_digit_def)
  moreover have "1 \<le> length g \<and> length g \<le> 3"
  proof (cases "length ds mod 3 = 0")
    case False
    moreover have "length ds mod 3 < 3" by simp
    ultimately show ?thesis unfolding g(4) by (simp del: mod_less_divisor)
  qed (simp add: g(4))
  moreover have "list_all is_digit g" "list_all (\<lambda>h. length h = 3 \<and> list_all is_digit h) gs"
    using g(2,3) assms(2) by (auto simp: list_all_iff)
  ultimately show ?thesis unfolding parse_groups_def Let_def using g(1,2) by auto
qed

lemma trim_clean: "list_all (\<lambda>c. \<not> is_space c) s \<Longrightarrow> filter (\<lambda>c. \<not> is_space c) (js_trim s) = s"
proof -
  assume s: "list_all (\<lambda>c. \<not> is_space c) s"
  have "dropWhile is_space t = t" if "\<forall>c \<in> set t. \<not> is_space c" for t using that by (cases t) auto
  then have "dropWhile is_space s = s" "dropWhile is_space (rev s) = rev s" using s by (metis list_all_iff, metis list_all_iff set_rev)
  with s show ?thesis by (simp add: js_trim_def filter_id_conv list_all_iff)
qed

lemma starts_with_single: "starts_with [x] s \<longleftrightarrow> s \<noteq> [] \<and> hd s = x"
  by (cases s) auto

lemma format_reads_back:
  assumes "units \<noteq> 0 \<or> mf_showZero style"
  shows "parseMinorUnits (formatMinorUnits style units) = Some units"
proof -
  define digits where "digits = pad_start 3 (CHR ''0'') (nat_to_string (nat \<bar>units\<bar>))"
  define whole where "whole = take (length digits - 2) digits"
  define cents where "cents = drop (length digits - 2) digits"
  define rendered where "rendered = group_digits True whole @ CHR '','' # cents"
  have d: "list_all is_digit digits" "int (digits_value digits) = \<bar>units\<bar>" "3 \<le> length digits"
    by (simp_all add: digits_def digits_pad_start digits_value_pad_start nat_to_string_digits)
  then have w: "list_all is_digit whole" "list_all is_digit cents" "length cents = 2" "whole \<noteq> []" "whole @ cents = digits"
    by (auto simp: whole_def cents_def)
  have free: "CHR '','' \<notin> set cents" "CHR ''.'' \<notin> set cents" "CHR '','' \<notin> set (group_digits True whole)"
    using w(1,2) by (auto simp: list_all_iff is_digit_def dest!: group_digits_chars)
  have chars: "list_all (\<lambda>c. is_digit c \<or> c = CHR ''.'' \<or> c = CHR '','') rendered"
    using w(1,2) by (auto simp: rendered_def list_all_iff dest!: group_digits_chars)
  then have plain: "list_all (\<lambda>c. \<not> is_space c) rendered" by (auto simp: list_all_iff is_space_def is_digit_def)
  have ends: "rendered \<noteq> []" "last rendered \<noteq> CHR '')''" "\<not> starts_with ''-'' rendered" "\<not> starts_with ''('' rendered"
  proof -
    show ne: "rendered \<noteq> []" by (simp add: rendered_def)
    have "is_digit c \<or> c = CHR ''.'' \<or> c = CHR '',''" if "c = last rendered \<or> c = hd rendered" for c
    proof -
      have "c \<in> set rendered" using that ne by auto
      with chars show ?thesis unfolding list_all_iff by (rule bspec)
    qed
    from this [of "last rendered"] this [of "hd rendered"]
    show "last rendered \<noteq> CHR '')''" "\<not> starts_with ''-'' rendered" "\<not> starts_with ''('' rendered"
      using ne by (auto simp: starts_with_single is_digit_def)
  qed
  have decimal: "decimal_position rendered = Some (length (group_digits True whole))"
    unfolding rendered_def by (rule decimal_position_comma [OF free(3,1,2) w(3)])
  have spelled: "int_to_string \<bar>units\<bar> = nat_to_string (nat \<bar>units\<bar>)" by (simp add: int_to_string_def)
  have "\<not> (units = 0 \<and> \<not> mf_showZero style)" using assms by blast
  then have form: "formatMinorUnits style units = (if 0 \<le> units then rendered
      else (case mf_negative style of Parentheses \<Rightarrow> ''('' @ rendered @ '')'' | Minus \<Rightarrow> ''-'' @ rendered))"
    by (simp only: formatMinorUnits_def Let_def spelled if_False digits_def whole_def cents_def rendered_def append_Cons append_Nil)
  have v: "int (digits_value (whole @ cents)) = \<bar>units\<bar>" using w(5) d(2) by simp
  have parts: "take (length (group_digits True whole)) rendered = group_digits True whole"
    "drop (Suc (length (group_digits True whole))) rendered = cents" by (simp_all add: rendered_def)
  note core = decimal parts v w(2,3) parse_groups_digits [OF w(4,1)] chars ends
  have spaces: "\<not> is_space (CHR ''-'')" "\<not> is_space (CHR ''('')" "\<not> is_space (CHR '')'')" by (simp_all add: is_space_def)
  have "parseMinorUnits rendered = Some \<bar>units\<bar>"
    by (simp add: parseMinorUnits_def Let_def trim_clean [OF plain] core)
  moreover have "parseMinorUnits (''-'' @ rendered) = Some (- \<bar>units\<bar>)"
    using trim_clean [of "''-'' @ rendered"] plain by (simp add: parseMinorUnits_def Let_def core spaces)
  moreover have "parseMinorUnits (''('' @ rendered @ '')'') = Some (- \<bar>units\<bar>)"
    using trim_clean [of "''('' @ rendered @ '')''"] plain
    by (simp add: parseMinorUnits_def Let_def core spaces butlast_append)
  ultimately show ?thesis unfolding form by (auto split: negative_style.split)
qed

text \<open>
  C40: An amount written for a reader is read back as the amount it was, in either style for negative amounts: grouping,
  the decimal comma and the sign lose nothing, however large the amount. Only a zero that is not shown is not read.
\<close>

theorem formatted_amount_reads_back:
  "units \<noteq> 0 \<or> mf_showZero style \<Longrightarrow> parseMinorUnits (formatMinorUnits style units) = Some units"
  by (rule format_reads_back)

theorem formatted_amount_reads_back_witness:
  "formatMinorUnits \<lparr>mf_negative = Parentheses, mf_showZero = False\<rparr> (- 123456789) = ''(1.234.567,89)'' \<and>
   parseMinorUnits ''(1.234.567,89)'' = Some (- 123456789)"
proof -
  have text_of: "formatMinorUnits \<lparr>mf_negative = Parentheses, mf_showZero = False\<rparr> (- 123456789) = ''(1.234.567,89)''"
    by (simp add: formatMinorUnits_def Let_def int_to_string_def pad_start_def nat_to_string.simps digit_char_def) code_simp
  from formatted_amount_reads_back [of "- 123456789" "\<lparr>mf_negative = Parentheses, mf_showZero = False\<rparr>", unfolded text_of]
  have "parseMinorUnits ''(1.234.567,89)'' = Some (- 123456789)" by simp
  with text_of show ?thesis by blast
qed

text \<open>
  The preview of the tax on a line rounds twice, to cents and then by the percentage, so at a rate with a fraction it
  can show another amount than the invoice charges.
\<close>

lemma preview_rounds_twice: "percentOf 99 ''0.50'' = 1" "taxOn 99 50 = 0"
  by code_simp+

end
