(* ===== verification/Purchase_Model.thy ===== *)
theory Purchase_Model
  imports Vat_Tax_Code Money_Format Ledger_Types Finding_Messages
begin

text \<open>
  Purchase invoices: the states one goes through (\<open>packages/core/src/purchase/model.ts\<close>) and the check of what was
  captured (\<open>check.ts\<close>), which changes no amount and only classifies.
\<close>

section \<open>States\<close>

datatype purchase_status = PurchaseDraft | Booked | PurchaseApproved | Disputed | PurchaseCancelled

datatype purchase_kind = PurchaseInvoice | PurchaseCreditNote

datatype purchase_action = BookInvoice | ApproveInvoice | DisputeInvoice | ResolveInvoice | CancelInvoice

fun purchase_status_text :: "purchase_status \<Rightarrow> string" where
  "purchase_status_text PurchaseDraft = ''draft''"
| "purchase_status_text Booked = ''booked''"
| "purchase_status_text PurchaseApproved = ''approved''"
| "purchase_status_text Disputed = ''disputed''"
| "purchase_status_text PurchaseCancelled = ''cancelled''"

fun purchase_action_text :: "purchase_action \<Rightarrow> string" where
  "purchase_action_text BookInvoice = ''book''"
| "purchase_action_text ApproveInvoice = ''approve''"
| "purchase_action_text DisputeInvoice = ''dispute''"
| "purchase_action_text ResolveInvoice = ''resolve''"
| "purchase_action_text CancelInvoice = ''cancel''"

fun allowed_from :: "purchase_action \<Rightarrow> purchase_status list" where
  "allowed_from BookInvoice = [PurchaseDraft]"
| "allowed_from ApproveInvoice = [Booked]"
| "allowed_from DisputeInvoice = [Booked, PurchaseApproved]"
| "allowed_from ResolveInvoice = [Disputed]"
| "allowed_from CancelInvoice = [PurchaseDraft]"

fun resulting :: "purchase_action \<Rightarrow> purchase_status" where
  "resulting BookInvoice = Booked"
| "resulting ApproveInvoice = PurchaseApproved"
| "resulting DisputeInvoice = Disputed"
| "resulting ResolveInvoice = Booked"
| "resulting CancelInvoice = PurchaseCancelled"

fun purchaseStatusLabel :: "purchase_status \<Rightarrow> string" where
  "purchaseStatusLabel PurchaseDraft = ''concept''"
| "purchaseStatusLabel Booked = ''geboekt''"
| "purchaseStatusLabel PurchaseApproved = ''goedgekeurd''"
| "purchaseStatusLabel Disputed = ''in geschil''"
| "purchaseStatusLabel PurchaseCancelled = ''vervallen''"

definition PURCHASE_INVOICE_STATUSES :: "purchase_status list" where
  "PURCHASE_INVOICE_STATUSES = [PurchaseDraft, Booked, PurchaseApproved, Disputed, PurchaseCancelled]"

record purchase_actor =
  ua_userId :: string
  ua_actorKind :: actor_kind

record purchase_transition =
  ut_from :: purchase_status
  ut_to :: purchase_status
  ut_action :: purchase_action

fun ACTION_PAST :: "purchase_action \<Rightarrow> string" where
  "ACTION_PAST BookInvoice = ''booked''"
| "ACTION_PAST ApproveInvoice = ''approved''"
| "ACTION_PAST DisputeInvoice = ''disputed''"
| "ACTION_PAST ResolveInvoice = ''resolved''"
| "ACTION_PAST CancelInvoice = ''cancelled''"

definition nextPurchaseStatus ::
  "purchase_action \<Rightarrow> purchase_status \<Rightarrow> purchase_actor \<Rightarrow> thrown + purchase_transition" where
  "nextPurchaseStatus action current who =
     (if current \<notin> set (allowed_from action)
      then throw ''wrong_invoice_state'' (Some ''status'')
        (Some [(''current'', purchaseStatusLabel current), (''actionPast'', ACTION_PAST action),
           (''allowedFrom'', join_with '', '' (map purchaseStatusLabel (allowed_from action))),
           (''status'', purchase_status_text current), (''action'', purchase_action_text action)])
      else if action = ApproveInvoice \<and> ua_actorKind who \<noteq> Human
      then throw ''approval_by_script'' (Some ''actor'') (Some [(''actorKind'', actor_kind_text (ua_actorKind who))])
      else Inr \<lparr>ut_from = current, ut_to = resulting action, ut_action = action\<rparr>)"

definition isPayable :: "purchase_status \<Rightarrow> bool" where
  "isPayable status \<longleftrightarrow> status = PurchaseApproved"

fun payableRefusal :: "purchase_status \<Rightarrow> string option" where
  "payableRefusal PurchaseApproved = None"
| "payableRefusal Booked = Some ''Deze factuur is nog niet goedgekeurd.''"
| "payableRefusal PurchaseDraft = Some ''Deze factuur is nog een concept en staat nog niet in de boeken.''"
| "payableRefusal Disputed = Some ''Deze factuur staat in geschil en wordt niet betaald zolang dat zo is.''"
| "payableRefusal PurchaseCancelled = Some ''Deze factuur is vervallen.''"

section \<open>What was captured\<close>

record purchase_line_input =
  ul_description :: string
  ul_accountNumber :: string
  ul_taxCode :: string
  ul_net :: int
  ul_tax :: int

record purchase_invoice_input =
  ui_supplierInvoiceNumber :: string
  ui_kind :: purchase_kind
  ui_invoiceDate :: string
  ui_dueDate :: string
  ui_currency :: string
  ui_net :: int
  ui_tax :: int
  ui_total :: int
  ui_lines :: "purchase_line_input list"

datatype purchase_finding_code =
    LinesDoNotSumToNet | LinesDoNotSumToTax | NetPlusTaxIsNotTotal | RateMismatch | ReverseChargeWithTax
  | UnknownPurchaseTaxCode | NoRuleInForce | NotDeductible | ProRataFinding | DuplicateInvoiceNumber

fun purchase_code_text :: "purchase_finding_code \<Rightarrow> string" where
  "purchase_code_text LinesDoNotSumToNet = ''lines_do_not_sum_to_net''"
| "purchase_code_text LinesDoNotSumToTax = ''lines_do_not_sum_to_tax''"
| "purchase_code_text NetPlusTaxIsNotTotal = ''net_plus_tax_is_not_total''"
| "purchase_code_text RateMismatch = ''rate_mismatch''"
| "purchase_code_text ReverseChargeWithTax = ''reverse_charge_with_tax''"
| "purchase_code_text UnknownPurchaseTaxCode = ''unknown_tax_code''"
| "purchase_code_text NoRuleInForce = ''no_rule_in_force''"
| "purchase_code_text NotDeductible = ''not_deductible''"
| "purchase_code_text ProRataFinding = ''pro_rata''"
| "purchase_code_text DuplicateInvoiceNumber = ''duplicate_invoice_number''"

datatype purchase_severity = PurchaseBlocking | PurchaseWarning | PurchaseNote

record purchase_finding =
  uf_code :: purchase_finding_code
  uf_severity :: purchase_severity
  uf_message :: string
  uf_messageKey :: string
  uf_detail :: "violation_detail option"
  uf_lineNumber :: "nat option"
  uf_amount :: int

record purchase_check_request =
  uc_invoice :: purchase_invoice_input
  uc_rules :: "tax_code_rule list"
  uc_isDuplicate :: bool

definition purchase_add ::
  "purchase_finding_code \<Rightarrow> purchase_severity \<Rightarrow> string \<Rightarrow> violation_detail option \<Rightarrow> nat option \<Rightarrow> int \<Rightarrow> purchase_finding" where
  "purchase_add code severity messageKey detail lineNumber amt =
     \<lparr>uf_code = code, uf_severity = severity, uf_message = renderFindingMessage messageKey detail,
      uf_messageKey = messageKey, uf_detail = detail, uf_lineNumber = lineNumber, uf_amount = amt\<rparr>"

definition cents :: "int \<Rightarrow> string" where
  "cents units = formatMinorUnits DEFAULT_MONEY_FORMAT units"

text \<open>\<open>(n / 100).toFixed(2)\<close> of a number of basis points.\<close>

definition percent_text :: "int \<Rightarrow> string" where
  "percent_text n =
     (let digits = pad_start 3 (CHR ''0'') (int_to_string \<bar>n\<bar>)
      in (if n < 0 then ''-'' else []) @ take (length digits - 2) digits @ ''.'' @ drop (length digits - 2) digits)"

definition selfAssesses :: "tax_code_rule \<Rightarrow> bool" where
  "selfAssesses rule \<longleftrightarrow> tc_reverseCharge rule \<noteq> NoReverseCharge \<or> tc_scope rule = IntraCommunityAcquisition \<or>
     tc_scope rule = ImportScope"

definition deductibility_notes :: "tax_code_rule \<Rightarrow> nat \<Rightarrow> purchase_line_input \<Rightarrow> purchase_finding list" where
  "deductibility_notes rule lineNumber l =
     (case tc_deductibility rule of
        FullDeduction \<Rightarrow> []
      | NoDeduction \<Rightarrow>
          [purchase_add NotDeductible PurchaseNote ''purchase.not_deductible''
             (Some [(''taxCode'', ul_taxCode l), (''taxMinorUnits'', cents (ul_tax l)),
                (''lineNumber'', nat_to_string lineNumber)]) (Some lineNumber) (ul_tax l)]
      | ProRata \<Rightarrow>
          (let share = (case tc_proRataBasisPoints rule of Some n \<Rightarrow> n | None \<Rightarrow> 0);
               deductible = (ul_tax l * share) sdiv 10000
           in [purchase_add ProRataFinding PurchaseNote ''purchase.pro_rata''
                 (Some [(''taxCode'', ul_taxCode l), (''share'', percent_text share), (''deductible'', cents deductible),
                    (''lineNumber'', nat_to_string lineNumber)]) (Some lineNumber) deductible]))"

definition line_findings ::
  "purchase_invoice_input \<Rightarrow> tax_code_rule list \<Rightarrow> nat \<Rightarrow> purchase_line_input \<Rightarrow> purchase_finding list" where
  "line_findings invoice rules lineNumber l =
     (case ruleInForce rules (ul_taxCode l) (ui_invoiceDate invoice) of
        None \<Rightarrow>
          if list_ex (\<lambda>r. tc_code r = ul_taxCode l) rules
          then [purchase_add NoRuleInForce PurchaseBlocking ''purchase.no_rule_in_force''
            (Some [(''taxCode'', ul_taxCode l), (''invoiceDate'', ui_invoiceDate invoice)]) (Some lineNumber) 0]
          else [purchase_add UnknownPurchaseTaxCode PurchaseBlocking ''purchase.unknown_tax_code.no_such_code''
            (Some [(''taxCode'', ul_taxCode l)]) (Some lineNumber) 0]
      | Some rule \<Rightarrow>
          if tc_direction rule \<noteq> InputTax
          then [purchase_add UnknownPurchaseTaxCode PurchaseBlocking ''purchase.unknown_tax_code''
            (Some [(''taxCode'', ul_taxCode l)]) (Some lineNumber) 0]
          else if selfAssesses rule then
            (if ul_tax l = 0 then []
             else [purchase_add ReverseChargeWithTax PurchaseBlocking ''purchase.reverse_charge_with_tax''
               (Some [(''lineNumber'', nat_to_string lineNumber), (''taxCode'', ul_taxCode l),
                  (''taxMinorUnits'', cents (ul_tax l))]) (Some lineNumber) (ul_tax l)])
          else
            (let expected = (ul_net l * tc_rateBasisPoints rule) sdiv 10000
             in (if \<bar>ul_tax l - expected\<bar> > 1
                 then [purchase_add RateMismatch PurchaseWarning ''purchase.rate_mismatch''
                   (Some [(''lineNumber'', nat_to_string lineNumber), (''taxMinorUnits'', cents (ul_tax l)),
                      (''taxCode'', ul_taxCode l), (''rate'', percent_text (tc_rateBasisPoints rule)),
                      (''netMinorUnits'', cents (ul_net l)), (''expected'', cents expected)])
                   (Some lineNumber) (ul_tax l - expected)]
                 else []) @ deductibility_notes rule lineNumber l))"

fun finding_order :: "purchase_severity \<Rightarrow> int" where
  "finding_order PurchaseBlocking = 0"
| "finding_order PurchaseWarning = 1"
| "finding_order PurchaseNote = 2"

definition document_findings :: "purchase_check_request \<Rightarrow> purchase_finding list" where
  "document_findings request =
     (let invoice = uc_invoice request;
          lineNet = (\<Sum>l\<leftarrow>ui_lines invoice. ul_net l); lineTax = (\<Sum>l\<leftarrow>ui_lines invoice. ul_tax l)
      in (if uc_isDuplicate request
          then [purchase_add DuplicateInvoiceNumber PurchaseBlocking ''purchase.duplicate_invoice_number''
            (Some [(''supplierInvoiceNumber'', ui_supplierInvoiceNumber invoice)]) None 0] else []) @
         (if lineNet \<noteq> ui_net invoice
          then [purchase_add LinesDoNotSumToNet PurchaseBlocking ''purchase.lines_do_not_sum_to_net''
            (Some [(''lineNet'', cents lineNet), (''netMinorUnits'', cents (ui_net invoice))]) None (lineNet - ui_net invoice)]
          else []) @
         (if lineTax \<noteq> ui_tax invoice
          then [purchase_add LinesDoNotSumToTax PurchaseBlocking ''purchase.lines_do_not_sum_to_tax''
            (Some [(''lineTax'', cents lineTax), (''taxMinorUnits'', cents (ui_tax invoice))]) None (lineTax - ui_tax invoice)]
          else []) @
         (if ui_net invoice + ui_tax invoice \<noteq> ui_total invoice
          then [purchase_add NetPlusTaxIsNotTotal PurchaseBlocking ''purchase.net_plus_tax_is_not_total''
            (Some [(''netMinorUnits'', cents (ui_net invoice)), (''taxMinorUnits'', cents (ui_tax invoice)),
               (''totalMinorUnits'', cents (ui_total invoice))]) None
            (ui_net invoice + ui_tax invoice - ui_total invoice)]
          else []))"

definition checkPurchaseInvoice :: "purchase_check_request \<Rightarrow> purchase_finding list" where
  "checkPurchaseInvoice request =
     sort_by (\<lambda>a b. cmp_or (finding_order (uf_severity a) - finding_order (uf_severity b))
         (int (case uf_lineNumber a of Some n \<Rightarrow> n | None \<Rightarrow> 0) - int (case uf_lineNumber b of Some n \<Rightarrow> n | None \<Rightarrow> 0)))
       (document_findings request @
        concat (map (\<lambda>i. line_findings (uc_invoice request) (uc_rules request) (i + 1) (ui_lines (uc_invoice request) ! i))
          [0..<length (ui_lines (uc_invoice request))]))"

definition isBookable :: "purchase_finding list \<Rightarrow> bool" where
  "isBookable findings \<longleftrightarrow> \<not> list_ex (\<lambda>f. uf_severity f = PurchaseBlocking) findings"

definition assertBookable :: "purchase_finding list \<Rightarrow> thrown + unit" where
  "assertBookable findings =
     (let blocking = filter (\<lambda>f. uf_severity f = PurchaseBlocking) findings
      in if blocking = [] then Inr ()
         else Inl (LedgerError (map (\<lambda>f. forwarded ''invoice_not_bookable''
           (Some (case uf_lineNumber f of None \<Rightarrow> ''invoice'' | Some n \<Rightarrow> ''lines.'' @ int_to_string (int n - 1)))
           (uf_message f) (Some (uf_messageKey f))
           (Some [(''code'', purchase_code_text (uf_code f)), (''amount'', int_to_string (uf_amount f))])) blocking)))"

section \<open>What a bookable invoice satisfies\<close>

lemma assertBookable_isBookable: "assertBookable findings = Inr u \<longleftrightarrow> isBookable findings"
  by (auto simp: assertBookable_def isBookable_def Let_def filter_empty_conv list_ex_iff)

lemma purchase_add_severity [simp]: "uf_severity (purchase_add c s k d n a) = s"
  by (simp add: purchase_add_def)

text \<open>The facts about a line that leaves no blocking finding: its rule, and no VAT under a reverse charge.\<close>

definition sound_line :: "tax_code_rule list \<Rightarrow> string \<Rightarrow> purchase_line_input \<Rightarrow> bool" where
  "sound_line rules date l \<longleftrightarrow> (case ruleInForce rules (ul_taxCode l) date of
     None \<Rightarrow> False
   | Some rule \<Rightarrow> tc_direction rule = InputTax \<and> (selfAssesses rule \<longrightarrow> ul_tax l = 0))"

lemma sound_line_iff:
  "list_ex (\<lambda>f. uf_severity f = PurchaseBlocking) (line_findings invoice rules n l) \<longleftrightarrow>
   \<not> sound_line rules (ui_invoiceDate invoice) l"
  by (auto simp: line_findings_def sound_line_def deductibility_notes_def Let_def split: option.splits deductibility.splits)

lemma isBookable_iff:
  "isBookable (checkPurchaseInvoice request) \<longleftrightarrow>
   \<not> uc_isDuplicate request \<and>
   (\<Sum>l\<leftarrow>ui_lines (uc_invoice request). ul_net l) = ui_net (uc_invoice request) \<and>
   (\<Sum>l\<leftarrow>ui_lines (uc_invoice request). ul_tax l) = ui_tax (uc_invoice request) \<and>
   ui_net (uc_invoice request) + ui_tax (uc_invoice request) = ui_total (uc_invoice request) \<and>
   (\<forall>l \<in> set (ui_lines (uc_invoice request)). sound_line (uc_rules request) (ui_invoiceDate (uc_invoice request)) l)"
proof -
  let ?inv = "uc_invoice request"
  have lines: "(\<exists>i < length (ui_lines ?inv). \<not> sound_line (uc_rules request) (ui_invoiceDate ?inv) (ui_lines ?inv ! i)) \<longleftrightarrow>
      \<not> (\<forall>l \<in> set (ui_lines ?inv). sound_line (uc_rules request) (ui_invoiceDate ?inv) l)"
    by (auto simp: set_conv_nth)
  have "isBookable (checkPurchaseInvoice request) \<longleftrightarrow>
      \<not> list_ex (\<lambda>f. uf_severity f = PurchaseBlocking) (document_findings request) \<and>
      \<not> (\<exists>i < length (ui_lines ?inv). list_ex (\<lambda>f. uf_severity f = PurchaseBlocking)
        (line_findings ?inv (uc_rules request) (i + 1) (ui_lines ?inv ! i)))"
    unfolding isBookable_def checkPurchaseInvoice_def list_ex_iff set_sort_by by auto
  also have "\<dots> \<longleftrightarrow> \<not> list_ex (\<lambda>f. uf_severity f = PurchaseBlocking) (document_findings request) \<and>
      (\<forall>l \<in> set (ui_lines ?inv). sound_line (uc_rules request) (ui_invoiceDate ?inv) l)"
    unfolding sound_line_iff lines by simp
  finally show ?thesis unfolding document_findings_def Let_def by auto
qed

end
