(* ===== verification/Purchase_Posting.thy ===== *)
theory Purchase_Posting
  imports Purchase_Model Sales_Posting
begin

text \<open>
  A purchase invoice as a journal entry (\<open>packages/core/src/purchase/posting.ts\<close>): the costs per account and tax code,
  the VAT that cannot be deducted as cost, the VAT we assess ourselves on both sides, and the liability.
\<close>

record purchase_posting_request =
  pq_entityId :: string
  pq_journalCode :: string
  pq_bookingDate :: string
  pq_contactNumber :: string
  pq_contactName :: string
  pq_contactId :: string
  pq_payableAccountNumber :: string
  pq_invoice :: purchase_invoice_input

definition purchase_line :: "string \<Rightarrow> int \<Rightarrow> bool \<Rightarrow> string \<Rightarrow> journal_line_input" where
  "purchase_line accountNumber amt isDebit description =
     \<lparr>li_accountNumber = accountNumber, li_description = Some description, li_debit = (if isDebit then amt else 0),
      li_credit = (if isDebit then 0 else amt), li_currency = None, li_exchangeRate = None,
      li_exchangeRateSource = None, li_taxCode = None, li_taxRole = None, li_taxAmount = None, li_dimensions = [],
      li_subledgerKind = None, li_subledgerId = None\<rparr>"

definition ruleFor :: "tax_code_rule list \<Rightarrow> string \<Rightarrow> string \<Rightarrow> tax_code_rule option" where
  "ruleFor rules code onDate =
     find (\<lambda>rule. tc_code rule = code \<and> tc_validFrom rule \<le> onDate \<and>
       (case tc_validTo rule of None \<Rightarrow> True | Some t \<Rightarrow> onDate \<le> t)) rules"

record cost_group =
  cg_accountNumber :: string
  cg_taxCode :: string
  cg_net :: int
  cg_deductible :: int
  cg_sunk :: int
  cg_selfAssessed :: int
  cg_rule :: tax_code_rule

text \<open>One line of the document as a group of its own.\<close>

definition cost_item :: "purchase_invoice_input \<Rightarrow> tax_code_rule list \<Rightarrow> purchase_line_input \<Rightarrow> thrown + cost_group" where
  "cost_item invoice rules item =
     (case ruleFor rules (ul_taxCode item) (ui_invoiceDate invoice) of
        None \<Rightarrow> throw ''invalid_tax_code.tax_code_rule'' (Some (''lines.'' @ ul_taxCode item))
          (Some [(''taxCode'', ul_taxCode item), (''invoiceDate'', ui_invoiceDate invoice)])
      | Some rule \<Rightarrow>
          let charged = (if selfAssesses rule then (ul_net item * tc_rateBasisPoints rule) sdiv 10000 else ul_tax item);
              deductible = (charged * recoverableBasisPoints rule) sdiv 10000
          in Inr \<lparr>cg_accountNumber = ul_accountNumber item, cg_taxCode = ul_taxCode item, cg_net = ul_net item,
               cg_deductible = deductible, cg_sunk = charged - deductible,
               cg_selfAssessed = (if selfAssesses rule then charged else 0), cg_rule = rule\<rparr>)"

definition cost_key :: "cost_group \<Rightarrow> string" where
  "cost_key g = cg_accountNumber g @ CHR 0x00 # cg_taxCode g"

definition merge_costs :: "cost_group list \<Rightarrow> cost_group" where
  "merge_costs gs =
     \<lparr>cg_accountNumber = cg_accountNumber (hd gs), cg_taxCode = cg_taxCode (hd gs), cg_net = (\<Sum>g\<leftarrow>gs. cg_net g),
      cg_deductible = (\<Sum>g\<leftarrow>gs. cg_deductible g), cg_sunk = (\<Sum>g\<leftarrow>gs. cg_sunk g),
      cg_selfAssessed = (\<Sum>g\<leftarrow>gs. cg_selfAssessed g), cg_rule = cg_rule (hd gs)\<rparr>"

definition cost_groups :: "(string \<Rightarrow> string \<Rightarrow> int) \<Rightarrow> cost_group list \<Rightarrow> cost_group list" where
  "cost_groups collation items =
     sort_by (\<lambda>a b. cmp_or (collation (cg_accountNumber a) (cg_accountNumber b)) (collation (cg_taxCode a) (cg_taxCode b)))
       (map (\<lambda>g. merge_costs (snd g)) (group_by cost_key items))"

definition cost_lines :: "purchase_posting_request \<Rightarrow> bool \<Rightarrow> cost_group \<Rightarrow> journal_line_input list" where
  "cost_lines request payableIsCredit g =
     (if cg_net g = 0 then []
      else [with_tax (cg_taxCode g) Base (if payableIsCredit then cg_deductible g else - cg_deductible g)
             (purchase_line (cg_accountNumber g) (cg_net g) payableIsCredit
               (ui_supplierInvoiceNumber (pq_invoice request) @ '' '' @ pq_contactName request))]) @
     (if cg_sunk g = 0 then []
      else [purchase_line (cg_accountNumber g) (cg_sunk g) payableIsCredit
             (''Niet-aftrekbare BTW '' @ cg_taxCode g @ '' '' @ ui_supplierInvoiceNumber (pq_invoice request))])"

definition self_assessed_lines ::
  "purchase_posting_request \<Rightarrow> (string \<Rightarrow> string option) \<Rightarrow> bool \<Rightarrow> cost_group \<Rightarrow> thrown + journal_line_input list" where
  "self_assessed_lines request taxAccountFor payableIsCredit g =
     (if cg_selfAssessed g = 0 then Inr []
      else case taxAccountFor (cg_taxCode g) of
             None \<Rightarrow> throw ''unknown_account.tax_code_no_account'' (Some (''taxCodes.'' @ cg_taxCode g))
               (Some [(''taxCode'', cg_taxCode g)])
           | Some accountNumber \<Rightarrow>
               Inr [with_tax (cg_taxCode g) Tax (if payableIsCredit then - cg_selfAssessed g else cg_selfAssessed g)
                 (purchase_line accountNumber (cg_selfAssessed g) (\<not> payableIsCredit)
                   (cg_taxCode g @ '' verlegd over '' @ ui_supplierInvoiceNumber (pq_invoice request)))])"

definition deduction_lines ::
  "purchase_posting_request \<Rightarrow> (string \<Rightarrow> string option) \<Rightarrow> bool \<Rightarrow> cost_group \<Rightarrow> thrown + journal_line_input list" where
  "deduction_lines request taxAccountFor payableIsCredit g =
     (if cg_deductible g = 0 then Inr []
      else case (if cg_selfAssessed g = 0 then Some (cg_taxCode g) else tc_deductionCode (cg_rule g)) of
             None \<Rightarrow> throw ''invalid_tax_code.self_assesses_vat'' (Some (''taxCodes.'' @ cg_taxCode g))
               (Some [(''taxCode'', cg_taxCode g)])
           | Some deductionCode \<Rightarrow>
               (case taxAccountFor deductionCode of
                  None \<Rightarrow> throw ''unknown_account.deduction_code_no_account'' (Some (''taxCodes.'' @ deductionCode))
                    (Some [(''deductionCode'', deductionCode)])
                | Some accountNumber \<Rightarrow>
                    Inr [with_tax deductionCode Tax (if payableIsCredit then cg_deductible g else - cg_deductible g)
                      (purchase_line accountNumber (cg_deductible g) payableIsCredit
                        (deductionCode @ '' over '' @ ui_supplierInvoiceNumber (pq_invoice request)))]))"

definition liability_line :: "purchase_posting_request \<Rightarrow> bool \<Rightarrow> journal_line_input" where
  "liability_line request payableIsCredit =
     (purchase_line (pq_payableAccountNumber request) (ui_total (pq_invoice request)) (\<not> payableIsCredit)
        (pq_contactNumber request @ '' '' @ pq_contactName request @ '' '' @ ui_supplierInvoiceNumber (pq_invoice request)))
      \<lparr>li_subledgerKind := Some Supplier, li_subledgerId := Some (pq_contactId request)\<rparr>"

definition buildPurchaseEntry ::
  "(string \<Rightarrow> string \<Rightarrow> int) \<Rightarrow> purchase_posting_request \<Rightarrow> tax_code_rule list \<Rightarrow> (string \<Rightarrow> string option)
   \<Rightarrow> thrown + post_command" where
  "buildPurchaseEntry collation request rules taxAccountFor =
     (let invoice = pq_invoice request; payableIsCredit = (ui_kind invoice = PurchaseInvoice)
      in if ui_total invoice = 0 \<and> ui_net invoice = 0
         then throw ''line_no_amount.invoice_totalling_zero'' (Some ''lines'') None
         else
           and_then (map_result (cost_item invoice rules) (ui_lines invoice)) (\<lambda>items.
           let groups = cost_groups collation items
           in and_then (map_result (self_assessed_lines request taxAccountFor payableIsCredit) groups) (\<lambda>owed.
              and_then (map_result (deduction_lines request taxAccountFor payableIsCredit) groups) (\<lambda>deducted.
                Inr \<lparr>cmd_entityId = pq_entityId request, cmd_journalCode = pq_journalCode request,
                  cmd_bookingDate = pq_bookingDate request, cmd_documentDate = ui_invoiceDate invoice,
                  cmd_description = (if ui_kind invoice = PurchaseCreditNote then ''Creditnota'' else ''Inkoopfactuur'') @
                    '' '' @ ui_supplierInvoiceNumber invoice @ '' '' @ pq_contactName request,
                  cmd_sourceDocumentRef = Some (ui_supplierInvoiceNumber invoice), cmd_reversesEntryId = None,
                  cmd_lines = concat (map (cost_lines request payableIsCredit) groups) @ concat owed @ concat deducted @
                    [liability_line request payableIsCredit]\<rparr>))))"

section \<open>Sides\<close>

lemma purchase_line_is [simp]: "purchase_line = invoice_line"
  by (intro ext) (simp add: purchase_line_def invoice_line_def)

lemma ruleFor_is [simp]: "ruleFor = ruleInForce"
  by (intro ext) (simp add: ruleFor_def ruleInForce_def)

lemma cost_lines_side:
  "side_sum d (cost_lines request pic g) = (if d = pic then cg_net g + cg_sunk g else 0)"
  by (simp add: cost_lines_def)

lemma self_assessed_side:
  "self_assessed_lines request taf pic g = Inr ls \<Longrightarrow> side_sum d ls = (if d = pic then 0 else cg_selfAssessed g)"
  by (auto simp: self_assessed_lines_def split: if_splits option.splits)

lemma deduction_side:
  "deduction_lines request taf pic g = Inr ls \<Longrightarrow> side_sum d ls = (if d = pic then cg_deductible g else 0)"
  by (auto simp: deduction_lines_def split: if_splits option.splits)

lemma map_result_sides:
  assumes "\<And>g ls. f g = Inr ls \<Longrightarrow> side_sum d ls = h g" "map_result f gs = Inr lss"
  shows "side_sum d (concat lss) = (\<Sum>g\<leftarrow>gs. h g)"
  using assms(2)
proof (induction gs arbitrary: lss)
  case (Cons g gs)
  then obtain ls rest where "f g = Inr ls" "lss = ls # rest" "map_result f gs = Inr rest" by (auto simp: and_then_Inr)
  with assms(1) Cons.IH show ?case by simp
qed simp

lemma sum_cost_groups:
  assumes "\<And>gs. h (merge_costs gs) = (\<Sum>g\<leftarrow>gs. h g)"
  shows "(\<Sum>g\<leftarrow>cost_groups collation items. h g) = (\<Sum>g\<leftarrow>items. h g :: int)"
  unfolding cost_groups_def by (simp add: comp_def assms sum_group_by)

lemma cost_group_sums:
  "(\<Sum>g\<leftarrow>cost_groups collation items. cg_net g) = (\<Sum>g\<leftarrow>items. cg_net g)"
  "(\<Sum>g\<leftarrow>cost_groups collation items. cg_sunk g) = (\<Sum>g\<leftarrow>items. cg_sunk g)"
  "(\<Sum>g\<leftarrow>cost_groups collation items. cg_deductible g) = (\<Sum>g\<leftarrow>items. cg_deductible g)"
  "(\<Sum>g\<leftarrow>cost_groups collation items. cg_selfAssessed g) = (\<Sum>g\<leftarrow>items. cg_selfAssessed g)"
  by (rule sum_cost_groups, simp add: merge_costs_def)+

text \<open>What a line comes to: its net and the VAT on the document, because self-assessed VAT is on both sides.\<close>

lemma cost_item_total:
  assumes "cost_item invoice rules item = Inr g" "sound_line rules (ui_invoiceDate invoice) item"
  shows "cg_net g + cg_sunk g + cg_deductible g - cg_selfAssessed g = ul_net item + ul_tax item"
  using assms by (auto simp: cost_item_def sound_line_def Let_def split: option.splits if_splits)

lemma cost_items_total:
  assumes "map_result (cost_item invoice rules) items = Inr gs" "\<forall>l \<in> set items. sound_line rules (ui_invoiceDate invoice) l"
  shows "(\<Sum>g\<leftarrow>gs. cg_net g) + (\<Sum>g\<leftarrow>gs. cg_sunk g) + (\<Sum>g\<leftarrow>gs. cg_deductible g) - (\<Sum>g\<leftarrow>gs. cg_selfAssessed g) =
    (\<Sum>l\<leftarrow>items. ul_net l) + (\<Sum>l\<leftarrow>items. ul_tax l)"
  using assms
proof (induction items arbitrary: gs)
  case (Cons item items)
  then obtain g rest where g: "cost_item invoice rules item = Inr g" "gs = g # rest"
    "map_result (cost_item invoice rules) items = Inr rest" by (auto simp: and_then_Inr)
  with Cons.IH [OF g(3)] cost_item_total [OF g(1)] Cons.prems(2) show ?case by simp
qed simp

lemma purchase_built:
  assumes "buildPurchaseEntry collation request rules taf = Inr cmd"
  obtains items owed deducted where
    "map_result (cost_item (pq_invoice request) rules) (ui_lines (pq_invoice request)) = Inr items"
    "map_result (self_assessed_lines request taf (ui_kind (pq_invoice request) = PurchaseInvoice)) (cost_groups collation items) = Inr owed"
    "map_result (deduction_lines request taf (ui_kind (pq_invoice request) = PurchaseInvoice)) (cost_groups collation items) = Inr deducted"
    "cmd_lines cmd = concat (map (cost_lines request (ui_kind (pq_invoice request) = PurchaseInvoice)) (cost_groups collation items)) @
      concat owed @ concat deducted @ [liability_line request (ui_kind (pq_invoice request) = PurchaseInvoice)]"
    "cmd_bookingDate cmd = pq_bookingDate request" "cmd_documentDate cmd = ui_invoiceDate (pq_invoice request)"
    "cmd_entityId cmd = pq_entityId request"
  using assms by (auto simp: buildPurchaseEntry_def Let_def and_then_Inr split: if_splits)

lemma liability_sides [simp]:
  "li_debit (liability_line request pic) = (if pic then 0 else ui_total (pq_invoice request))"
  "li_credit (liability_line request pic) = (if pic then ui_total (pq_invoice request) else 0)"
  "plain (liability_line request pic)"
  by (simp_all add: liability_line_def invoice_line_def plain_def)

lemma purchase_sides:
  assumes "isBookable (checkPurchaseInvoice \<lparr>uc_invoice = pq_invoice request, uc_rules = rules, uc_isDuplicate = dup\<rparr>)"
    "buildPurchaseEntry collation request rules taf = Inr cmd"
  shows "\<exists>assessed. \<forall>d. side_sum d (cmd_lines cmd) = ui_total (pq_invoice request) + assessed"
proof -
  let ?inv = "pq_invoice request" and ?pic = "ui_kind (pq_invoice request) = PurchaseInvoice"
  from purchase_built [OF assms(2)] obtain items owed deducted where b:
    "map_result (cost_item ?inv rules) (ui_lines ?inv) = Inr items"
    "map_result (self_assessed_lines request taf ?pic) (cost_groups collation items) = Inr owed"
    "map_result (deduction_lines request taf ?pic) (cost_groups collation items) = Inr deducted"
    "cmd_lines cmd = concat (map (cost_lines request ?pic) (cost_groups collation items)) @
      concat owed @ concat deducted @ [liability_line request ?pic]" by blast
  from assms(1) have sound: "\<forall>l \<in> set (ui_lines ?inv). sound_line rules (ui_invoiceDate ?inv) l"
    and total: "(\<Sum>l\<leftarrow>ui_lines ?inv. ul_net l) + (\<Sum>l\<leftarrow>ui_lines ?inv. ul_tax l) = ui_total ?inv" by (auto simp: isBookable_iff)
  have owed: "side_sum d (concat owed) = (if d = ?pic then 0 else (\<Sum>g\<leftarrow>items. cg_selfAssessed g))" for d
    using map_result_sides [where d = d, OF self_assessed_side b(2)] by (simp add: cost_group_sums)
  have deducted: "side_sum d (concat deducted) = (if d = ?pic then (\<Sum>g\<leftarrow>items. cg_deductible g) else 0)" for d
    using map_result_sides [where d = d, OF deduction_side b(3)] by (simp add: cost_group_sums)
  have costs: "side_sum d (concat (map (cost_lines request ?pic) (cost_groups collation items))) =
      (if d = ?pic then (\<Sum>g\<leftarrow>items. cg_net g) + (\<Sum>g\<leftarrow>items. cg_sunk g) else 0)" for d
    by (simp add: side_sum_concat comp_def cost_lines_side sum_list_addf cost_group_sums)
  have "side_sum d (cmd_lines cmd) = ui_total ?inv + (\<Sum>g\<leftarrow>items. cg_selfAssessed g)" for d
    using cost_items_total [OF b(1) sound] total unfolding b(4) by (auto simp: owed deducted costs)
  then show ?thesis by blast
qed

section \<open>What the ledger accepts\<close>

definition no_minus :: "cost_group \<Rightarrow> bool" where
  "no_minus g \<longleftrightarrow> 0 \<le> cg_net g \<and> 0 \<le> cg_deductible g \<and> 0 \<le> cg_sunk g \<and> 0 \<le> cg_selfAssessed g"

lemma accepted_rate: "assertTaxCodeRule rule = Inr () \<Longrightarrow> 0 \<le> tc_rateBasisPoints rule"
  by (simp add: assertTaxCodeRule_def Let_def checkTaxCodeRule_def split: if_splits)

lemma share_bounds:
  fixes charged :: int
  assumes "0 \<le> charged" "0 \<le> share" "share \<le> 10000"
  shows "0 \<le> (charged * share) sdiv 10000" "(charged * share) sdiv 10000 \<le> charged"
proof -
  have "0 \<le> charged * share" "charged * share \<le> charged * 10000" using assms by (simp_all add: mult_left_mono)
  then show "0 \<le> (charged * share) sdiv 10000" "(charged * share) sdiv 10000 \<le> charged" by (simp_all add: sdiv_nonneg)
qed

lemma cost_item_no_minus:
  assumes "cost_item invoice rules item = Inr g" "\<forall>r \<in> set rules. assertTaxCodeRule r = Inr ()" "0 \<le> ul_net item" "0 \<le> ul_tax item"
  shows "no_minus g"
proof -
  from assms(1) obtain rule where rule: "ruleInForce rules (ul_taxCode item) (ui_invoiceDate invoice) = Some rule"
    by (auto simp: cost_item_def split: option.splits)
  then have "rule \<in> set rules" by (auto simp: ruleInForce_def find_Some_iff)
  with assms(2) have ok: "assertTaxCodeRule rule = Inr ()" by blast
  define charged where "charged = (if selfAssesses rule then (ul_net item * tc_rateBasisPoints rule) sdiv 10000 else ul_tax item)"
  have whole: "0 \<le> x sdiv 10000" if "0 \<le> x" for x :: int using that by (simp add: sdiv_nonneg)
  have "0 \<le> ul_net item * tc_rateBasisPoints rule" using assms(3) accepted_rate [OF ok] by simp
  then have charged: "0 \<le> charged" using assms(4) whole unfolding charged_def by simp
  note share = share_bounds [OF charged, of "recoverableBasisPoints rule"] coherent_rule [OF ok]
  have "g = \<lparr>cg_accountNumber = ul_accountNumber item, cg_taxCode = ul_taxCode item, cg_net = ul_net item,
      cg_deductible = (charged * recoverableBasisPoints rule) sdiv 10000,
      cg_sunk = charged - (charged * recoverableBasisPoints rule) sdiv 10000,
      cg_selfAssessed = (if selfAssesses rule then charged else 0), cg_rule = rule\<rparr>"
    using assms(1) rule by (cases "selfAssesses rule") (auto simp: cost_item_def Let_def charged_def)
  then show ?thesis using share charged assms(3) by (simp add: no_minus_def)
qed

lemma merge_no_minus: "\<forall>g \<in> set gs. no_minus g \<Longrightarrow> no_minus (merge_costs gs)"
  unfolding no_minus_def merge_costs_def cost_group.simps by (auto intro!: sum_list_nonneg)

lemma groups_no_minus:
  assumes "\<forall>g \<in> set items. no_minus g" "g \<in> set (cost_groups collation items)"
  shows "no_minus g"
proof -
  from assms(2) obtain k gs where gs: "(k, gs) \<in> set (group_by cost_key items)" "g = merge_costs gs"
    by (auto simp: cost_groups_def)
  have "set gs \<subseteq> set items" using set_group_by [OF gs(1)] by auto
  then show ?thesis unfolding gs(2) using assms(1) by (blast intro: merge_no_minus)
qed

definition acceptable :: "journal_line_input \<Rightarrow> bool" where
  "acceptable l \<longleftrightarrow> plain l \<and> one_sided l"

lemma group_lines_acceptable:
  assumes "no_minus g"
  shows "\<forall>l \<in> set (cost_lines request pic g). acceptable l"
    "self_assessed_lines request taf pic g = Inr ls \<Longrightarrow> \<forall>l \<in> set ls. acceptable l"
    "deduction_lines request taf pic g = Inr ls \<Longrightarrow> \<forall>l \<in> set ls. acceptable l"
  using assms
  by (auto simp: acceptable_def cost_lines_def self_assessed_lines_def deduction_lines_def one_sided_def no_minus_def
      split: if_splits option.splits)

lemma map_result_acceptable:
  assumes "\<And>g ls. g \<in> set gs \<Longrightarrow> f g = Inr ls \<Longrightarrow> \<forall>l \<in> set ls. acceptable l" "map_result f gs = Inr lss"
  shows "\<forall>l \<in> set (concat lss). acceptable l"
  using assms
proof (induction gs arbitrary: lss)
  case (Cons g gs)
  then obtain ls rest where parts: "f g = Inr ls" "lss = ls # rest" "map_result f gs = Inr rest" by (auto simp: and_then_Inr)
  have "\<forall>l \<in> set (concat rest). acceptable l" by (rule Cons.IH [OF _ parts(3)], rule Cons.prems(1)) simp_all
  moreover have "\<forall>l \<in> set ls. acceptable l" using Cons.prems(1) [OF _ parts(1)] by simp
  ultimately show ?case by (auto simp: parts(2))
qed simp

lemma map_result_all: "map_result f xs = Inr ys \<Longrightarrow> (\<And>x y. x \<in> set xs \<Longrightarrow> f x = Inr y \<Longrightarrow> P y) \<Longrightarrow> \<forall>y \<in> set ys. P y"
proof (induction xs arbitrary: ys)
  case (Cons x xs)
  then obtain y rest where "f x = Inr y" "ys = y # rest" "map_result f xs = Inr rest" by (auto simp: and_then_Inr)
  moreover from this(3) have "\<forall>y \<in> set rest. P y" by (rule Cons.IH) (rule Cons.prems(2), simp_all)
  ultimately show ?case using Cons.prems(2) [of x y] by simp
qed simp

lemma purchase_lines_acceptable:
  assumes "buildPurchaseEntry collation request rules taf = Inr cmd" "\<forall>r \<in> set rules. assertTaxCodeRule r = Inr ()"
    "\<forall>l \<in> set (ui_lines (pq_invoice request)). 0 \<le> ul_net l \<and> 0 \<le> ul_tax l" "0 < ui_total (pq_invoice request)"
  shows "\<forall>l \<in> set (cmd_lines cmd). acceptable l"
proof -
  let ?pic = "ui_kind (pq_invoice request) = PurchaseInvoice"
  from purchase_built [OF assms(1)] obtain items owed deducted where b:
    "map_result (cost_item (pq_invoice request) rules) (ui_lines (pq_invoice request)) = Inr items"
    "map_result (self_assessed_lines request taf ?pic) (cost_groups collation items) = Inr owed"
    "map_result (deduction_lines request taf ?pic) (cost_groups collation items) = Inr deducted"
    "cmd_lines cmd = concat (map (cost_lines request ?pic) (cost_groups collation items)) @
      concat owed @ concat deducted @ [liability_line request ?pic]" by blast
  have "\<forall>g \<in> set items. no_minus g" using assms(3) by (intro map_result_all [OF b(1)]) (blast intro: cost_item_no_minus [OF _ assms(2)])
  then have groups: "no_minus g" if "g \<in> set (cost_groups collation items)" for g using groups_no_minus that by blast
  have "\<forall>l \<in> set (concat owed). acceptable l"
    by (rule map_result_acceptable [OF _ b(2)]) (rule group_lines_acceptable(2) [OF groups])
  moreover have "\<forall>l \<in> set (concat deducted). acceptable l"
    by (rule map_result_acceptable [OF _ b(3)]) (rule group_lines_acceptable(3) [OF groups])
  moreover have "\<forall>l \<in> set (concat (map (cost_lines request ?pic) (cost_groups collation items))). acceptable l"
    using group_lines_acceptable(1) groups by auto
  moreover have "acceptable (liability_line request ?pic)" using assms(4) by (simp add: acceptable_def one_sided_def)
  ultimately show ?thesis unfolding b(4) by auto
qed

lemma purchase_liability: "buildPurchaseEntry collation request rules taf = Inr cmd \<Longrightarrow>
    \<exists>ls. cmd_lines cmd = ls @ [liability_line request (ui_kind (pq_invoice request) = PurchaseInvoice)]"
  by (erule purchase_built) auto

lemma bookable_is_postable:
  assumes "isBookable (checkPurchaseInvoice \<lparr>uc_invoice = pq_invoice request, uc_rules = rules, uc_isDuplicate = dup\<rparr>)"
    and "buildPurchaseEntry collation request rules taxAccountFor = Inr cmd"
    and "\<forall>r \<in> set rules. assertTaxCodeRule r = Inr ()"
    and "\<forall>l \<in> set (ui_lines (pq_invoice request)). 0 \<le> ul_net l \<and> 0 \<le> ul_tax l" "0 < ui_total (pq_invoice request)"
    and "isValidDate (pq_bookingDate request)" "isValidDate (ui_invoiceDate (pq_invoice request))"
  shows "validateCommandShape cmd fc = []"
proof -
  let ?pic = "ui_kind (pq_invoice request) = PurchaseInvoice"
  from purchase_sides [OF assms(1,2)] obtain assessed where
    sides: "side_sum d (cmd_lines cmd) = ui_total (pq_invoice request) + assessed" for d by blast
  have ok: "\<forall>l \<in> set (cmd_lines cmd). plain l \<and> one_sided l"
    using purchase_lines_acceptable [OF assms(2,3,4,5)] by (simp add: acceptable_def)
  from purchase_liability [OF assms(2)] obtain ls where ls: "cmd_lines cmd = ls @ [liability_line request ?pic]" by blast
  have "ls \<noteq> []"
  proof
    assume "ls = []"
    with sides [of ?pic] sides [of "\<not> ?pic"] assms(5) show False by (simp add: ls split: if_splits)
  qed
  then have two: "2 \<le> length (cmd_lines cmd)" unfolding ls by (cases ls) auto
  from assms(2) have dates: "cmd_bookingDate cmd = pq_bookingDate request" "cmd_documentDate cmd = ui_invoiceDate (pq_invoice request)"
    by (auto elim!: purchase_built)
  have "(\<Sum>l\<leftarrow>cmd_lines cmd. li_debit l) = (\<Sum>l\<leftarrow>cmd_lines cmd. li_credit l)"
    using sides [of True] sides [of False] by (simp add: side_sum_def)
  then have "well_formed_command cmd fc"
    unfolding well_formed_command_def balances_in_one_currency_def
    using dates assms(6,7) two ok by (auto simp: well_formed_line_def plain_def rate_fits_def effective_currency_def)
  then show ?thesis by (simp add: validateCommandShape_Nil)
qed

text \<open>
  C37: A bookable purchase invoice makes a balanced entry, credit notes and reverse charges included: whatever VAT is assessed
  by ourselves is on both sides, the liability is the total on the document and nothing else, and with accepted tax code
  rules and no negative line the ledger's own shape check has nothing against it.
\<close>

theorem bookable_entry_is_postable:
  assumes "isBookable (checkPurchaseInvoice \<lparr>uc_invoice = pq_invoice request, uc_rules = rules, uc_isDuplicate = dup\<rparr>)"
    and "buildPurchaseEntry collation request rules taxAccountFor = Inr cmd"
    and "\<forall>r \<in> set rules. assertTaxCodeRule r = Inr ()"
    and "\<forall>l \<in> set (ui_lines (pq_invoice request)). 0 \<le> ul_net l \<and> 0 \<le> ul_tax l" "0 < ui_total (pq_invoice request)"
    and "isValidDate (pq_bookingDate request)" "isValidDate (ui_invoiceDate (pq_invoice request))"
  shows "validateCommandShape cmd fc = [] \<and>
    (\<Sum>l\<leftarrow>cmd_lines cmd. li_debit l) = (\<Sum>l\<leftarrow>cmd_lines cmd. li_credit l) \<and>
    (\<exists>ls. cmd_lines cmd = ls @ [liability_line request (ui_kind (pq_invoice request) = PurchaseInvoice)])"
proof -
  have "(\<Sum>l\<leftarrow>cmd_lines cmd. li_debit l) = (\<Sum>l\<leftarrow>cmd_lines cmd. li_credit l)"
  proof -
    from purchase_sides [OF assms(1,2)] obtain assessed where
      "side_sum d (cmd_lines cmd) = ui_total (pq_invoice request) + assessed" for d by blast
    from this [of True] this [of False] show ?thesis by (simp add: side_sum_def)
  qed
  with bookable_is_postable [OF assms] purchase_liability [OF assms(2)] show ?thesis by blast
qed

definition acquisition_rule :: tax_code_rule where
  "acquisition_rule = \<lparr>tc_code = ''ICV'', tc_description = ''Verwerving'', tc_rateBasisPoints = 2100, tc_validFrom = ''2019-01-01'',
     tc_validTo = None, tc_direction = InputTax, tc_baseRubriek = Some ''4b'', tc_vatRubriek = Some ''4b'',
     tc_reverseCharge = NoReverseCharge, tc_scope = IntraCommunityAcquisition, tc_deductibility = ProRata,
     tc_proRataBasisPoints = Some 6000, tc_supplyKind = NotApplicable, tc_ublCategory = ''K'',
     tc_deductionCode = Some ''VOB''\<rparr>"

definition sample_purchase :: purchase_posting_request where
  "sample_purchase = \<lparr>pq_entityId = ''e'', pq_journalCode = ''INK'', pq_bookingDate = ''2026-03-01'', pq_contactNumber = ''C1'',
     pq_contactName = ''Schmidt'', pq_contactId = ''c'', pq_payableAccountNumber = ''1600'',
     pq_invoice = \<lparr>ui_supplierInvoiceNumber = ''R1'', ui_kind = PurchaseInvoice, ui_invoiceDate = ''2026-03-01'',
       ui_dueDate = ''2026-03-31'', ui_currency = ''EUR'', ui_net = 10001, ui_tax = 0, ui_total = 10001,
       ui_lines = [\<lparr>ul_description = ''Papier'', ul_accountNumber = ''4000'', ul_taxCode = ''ICV'', ul_net = 10001, ul_tax = 0\<rparr>]\<rparr>\<rparr>"

lemma sample_purchase_entry:
  "(case buildPurchaseEntry (\<lambda>_ _. 0) sample_purchase [acquisition_rule] (\<lambda>_. Some ''1500'') of
      Inr cmd \<Rightarrow> map (\<lambda>l. (li_debit l, li_credit l)) (cmd_lines cmd) = [(10001, 0), (840, 0), (0, 2100), (1260, 0), (0, 10001)]
    | Inl _ \<Rightarrow> False)"
  by code_simp

lemma acquisition_accepted: "assertTaxCodeRule acquisition_rule = Inr ()"
proof -
  have "checkTaxCodeRule acquisition_rule = []"
    unfolding checkTaxCodeRule_Nil pro_rata_problems_def scope_problems_def by (intro conjI; code_simp)
  then show ?thesis by (simp add: assertTaxCodeRule_def)
qed

theorem bookable_entry_is_postable_witness:
  "\<exists>cmd. buildPurchaseEntry (\<lambda>_ _. 0) sample_purchase [acquisition_rule] (\<lambda>_. Some ''1500'') = Inr cmd \<and>
    validateCommandShape cmd ''EUR'' = []"
proof -
  obtain cmd where cmd: "buildPurchaseEntry (\<lambda>_ _. 0) sample_purchase [acquisition_rule] (\<lambda>_. Some ''1500'') = Inr cmd"
    using sample_purchase_entry by (auto split: sum.splits)
  have bookable: "isBookable (checkPurchaseInvoice \<lparr>uc_invoice = pq_invoice sample_purchase, uc_rules = [acquisition_rule],
      uc_isDuplicate = False\<rparr>)" by code_simp
  have rules: "\<forall>r \<in> set [acquisition_rule]. assertTaxCodeRule r = Inr ()" by (simp add: acquisition_accepted)
  have lines: "\<forall>l \<in> set (ui_lines (pq_invoice sample_purchase)). 0 \<le> ul_net l \<and> 0 \<le> ul_tax l" "0 < ui_total (pq_invoice sample_purchase)"
    by code_simp+
  have dates: "isValidDate (pq_bookingDate sample_purchase)" "isValidDate (ui_invoiceDate (pq_invoice sample_purchase))"
    by code_simp+
  from bookable_entry_is_postable [OF bookable cmd rules lines dates, of "''EUR''"] cmd show ?thesis by blast
qed

end
