(* ===== verification/Payment_Model.thy ===== *)
theory Payment_Model
  imports Finding_Messages Calendar
begin

text \<open>
  Payment batches and what makes one payable: \<^verbatim>\<open>packages/core/src/payments/model.ts\<close>, with the IBAN check digits.
\<close>

datatype payment_batch_state = Draft | Submitted | Approved | Exported | Rejected

record payment_instruction =
  pm_id :: string
  pm_endToEndId :: string
  pm_creditorName :: string
  pm_creditorIban :: string
  pm_creditorBic :: "string option"
  pm_amount :: int
  pm_currency :: string
  pm_remittanceInformation :: string
  pm_remittanceReference :: "string option"

record payment_batch =
  pb_id :: string
  pb_reference :: string
  pb_state :: payment_batch_state
  pb_debtorName :: string
  pb_debtorIban :: string
  pb_debtorBic :: "string option"
  pb_requestedExecutionDate :: string
  pb_approvedAt :: "string option"
  pb_instructions :: "payment_instruction list"

section \<open>Account numbers\<close>

definition is_capital :: "char \<Rightarrow> bool" where
  "is_capital c \<longleftrightarrow> (let n = (of_char c :: nat) in 65 \<le> n \<and> n \<le> 90)"

definition is_iban_char :: "char \<Rightarrow> bool" where
  "is_iban_char c \<longleftrightarrow> is_capital c \<or> is_digit c"

definition strip_and_upper :: "string \<Rightarrow> string" where
  "strip_and_upper v = toUpperCase (filter (\<lambda>c. \<not> is_space c) v)"

text \<open>The pattern \<open>^[A-Z]{2}\d{2}[A-Z0-9]{10,30}$\<close>.\<close>

definition iban_shaped :: "string \<Rightarrow> bool" where
  "iban_shaped s \<longleftrightarrow> 14 \<le> length s \<and> length s \<le> 34 \<and> list_all is_capital (take 2 s) \<and>
     list_all is_digit (take 2 (drop 2 s)) \<and> list_all is_iban_char (drop 4 s)"

definition iban_char_value :: "char \<Rightarrow> int" where
  "iban_char_value c = (if CHR ''0'' \<le> c \<and> c \<le> CHR ''9'' then of_char c - 48 else of_char c - 55)"

definition iban_step :: "int \<Rightarrow> char \<Rightarrow> int" where
  "iban_step remainder c =
     (let v = iban_char_value c in (remainder * (if v > 9 then 100 else 10) + v) mod 97)"

definition isValidIban :: "string \<Rightarrow> bool" where
  "isValidIban v =
     (let iban = strip_and_upper v
      in if \<not> iban_shaped iban then False
         else foldl iban_step 0 (drop 4 iban @ take 4 iban) = 1)"

text \<open>The pattern \<open>^[A-Z]{6}[A-Z0-9]{2}([A-Z0-9]{3})?$\<close>.\<close>

definition isValidBic :: "string \<Rightarrow> bool" where
  "isValidBic v =
     (let bic = strip_and_upper v
      in (length bic = 8 \<or> length bic = 11) \<and> list_all is_capital (take 6 bic) \<and> list_all is_iban_char (drop 6 bic))"

section \<open>Validation\<close>

definition is_sepa_char :: "char \<Rightarrow> bool" where
  "is_sepa_char c \<longleftrightarrow> is_capital c \<or> (let n = (of_char c :: nat) in 97 \<le> n \<and> n \<le> 122) \<or> is_digit c \<or>
     c \<in> set ''/-?:().,+ '' \<or> c = CHR 0x27"

definition offendingSepaCharacters :: "string \<Rightarrow> char list" where
  "offendingSepaCharacters v = js_set (filter (\<lambda>c. \<not> is_sepa_char c) v)"

datatype payment_problem_code =
    InvalidIban | InvalidBic | InvalidAmount | InvalidCurrency | InvalidDate | InvalidCharacters
  | DuplicateEndToEndId | EmptyBatch | MissingName

fun problem_code_text :: "payment_problem_code \<Rightarrow> string" where
  "problem_code_text InvalidIban = ''invalid_iban''"
| "problem_code_text InvalidBic = ''invalid_bic''"
| "problem_code_text InvalidAmount = ''invalid_amount''"
| "problem_code_text InvalidCurrency = ''invalid_currency''"
| "problem_code_text InvalidDate = ''invalid_date''"
| "problem_code_text InvalidCharacters = ''invalid_characters''"
| "problem_code_text DuplicateEndToEndId = ''duplicate_end_to_end_id''"
| "problem_code_text EmptyBatch = ''empty_batch''"
| "problem_code_text MissingName = ''missing_name''"

record payment_problem =
  pp_code :: payment_problem_code
  pp_path :: string
  pp_message :: string
  pp_messageKey :: string
  pp_detail :: "violation_detail option"

definition problem_if :: "bool \<Rightarrow> payment_problem_code \<Rightarrow> string \<Rightarrow> string \<Rightarrow> violation_detail option \<Rightarrow> payment_problem list" where
  "problem_if c code path key detail =
     (if c then [\<lparr>pp_code = code, pp_path = path, pp_message = renderFindingMessage key detail, pp_messageKey = key,
        pp_detail = detail\<rparr>] else [])"

definition character_problem :: "string \<Rightarrow> string \<Rightarrow> payment_problem list" where
  "character_problem path v =
     (let offending = offendingSepaCharacters v;
          characters = join_with '', '' (map (\<lambda>c. dquote @ [c] @ dquote) offending)
      in problem_if (offending \<noteq> []) InvalidCharacters path ''payment.invalid_characters'' (Some [(''characters'', characters)]))"

definition instruction_problems :: "string list \<Rightarrow> nat \<Rightarrow> payment_instruction \<Rightarrow> payment_problem list" where
  "instruction_problems seen index instruction =
     (let at = ''instructions.'' @ nat_to_string index in
      problem_if (js_trim (pm_creditorName instruction) = []) MissingName (at @ ''.creditorName'') ''payment.missing_name.payee'' None @
      problem_if (\<not> isValidIban (pm_creditorIban instruction)) InvalidIban (at @ ''.creditorIban'')
        ''payment.invalid_iban.creditor'' (Some [(''creditorIban'', pm_creditorIban instruction)]) @
      (case pm_creditorBic instruction of None \<Rightarrow> []
       | Some bic \<Rightarrow> problem_if (\<not> isValidBic bic) InvalidBic (at @ ''.creditorBic'') ''payment.invalid_bic.creditor''
           (Some [(''creditorBic'', bic)])) @
      problem_if (pm_amount instruction \<le> 0) InvalidAmount (at @ ''.amount'') ''payment.invalid_amount'' None @
      problem_if (pm_currency instruction \<noteq> ''EUR'') InvalidCurrency (at @ ''.currency'') ''payment.invalid_currency'' None @
      problem_if (pm_endToEndId instruction \<in> set seen) DuplicateEndToEndId (at @ ''.endToEndId'')
        ''payment.duplicate_end_to_end_id'' (Some [(''endToEndId'', pm_endToEndId instruction)]) @
      character_problem (at @ ''.creditorName'') (pm_creditorName instruction) @
      character_problem (at @ ''.remittanceInformation'') (pm_remittanceInformation instruction) @
      character_problem (at @ ''.endToEndId'') (pm_endToEndId instruction))"

fun instructions_problems :: "string list \<Rightarrow> nat \<Rightarrow> payment_instruction list \<Rightarrow> payment_problem list" where
  "instructions_problems seen index [] = []"
| "instructions_problems seen index (i # is') =
     instruction_problems seen index i @ instructions_problems (pm_endToEndId i # seen) (Suc index) is'"

definition validatePaymentBatch :: "'a payment_batch_scheme \<Rightarrow> payment_problem list" where
  "validatePaymentBatch batch =
     problem_if (pb_instructions batch = []) EmptyBatch ''instructions'' ''payment.empty_batch'' None @
     problem_if (js_trim (pb_debtorName batch) = []) MissingName ''debtorName'' ''payment.missing_name.payer'' None @
     problem_if (\<not> isValidIban (pb_debtorIban batch)) InvalidIban ''debtorIban'' ''payment.invalid_iban.debtor''
       (Some [(''debtorIban'', pb_debtorIban batch)]) @
     (case pb_debtorBic batch of None \<Rightarrow> []
      | Some bic \<Rightarrow> problem_if (\<not> isValidBic bic) InvalidBic ''debtorBic'' ''payment.invalid_bic.debtor''
          (Some [(''debtorBic'', bic)])) @
     problem_if (\<not> is_date_shaped (pb_requestedExecutionDate batch)) InvalidDate ''requestedExecutionDate''
       ''payment.invalid_date'' None @
     instructions_problems [] 0 (pb_instructions batch)"

definition batchTotal :: "'a payment_batch_scheme \<Rightarrow> int" where
  "batchTotal batch = (\<Sum>i\<leftarrow>pb_instructions batch. pm_amount i)"

definition assertPayable :: "'a payment_batch_scheme \<Rightarrow> thrown + unit" where
  "assertPayable batch =
     (let problems = validatePaymentBatch batch
      in if problems = [] then Inr ()
         else Inl (LedgerError (map (\<lambda>p. forwarded ''invalid_payment'' (Some (pp_path p)) (pp_message p) (Some (pp_messageKey p))
           (Some [(''code'', problem_code_text (pp_code p))])) problems)))"

lemma problem_if_Nil [simp]: "problem_if c code path key detail = [] \<longleftrightarrow> \<not> c"
  by (simp add: problem_if_def)

lemma instructions_problems_Nil:
  "instructions_problems seen n is = [] \<Longrightarrow> i \<in> set is \<Longrightarrow> 0 < pm_amount i \<and> isValidIban (pm_creditorIban i) \<and> pm_currency i = ''EUR''"
  by (induction "is" arbitrary: seen n) (auto simp: instruction_problems_def Let_def split: option.splits)

lemma valid_batch_amounts:
  "validatePaymentBatch batch = [] \<Longrightarrow> i \<in> set (pb_instructions batch) \<Longrightarrow> 0 < pm_amount i \<and> isValidIban (pm_creditorIban i) \<and> pm_currency i = ''EUR''"
  using instructions_problems_Nil [of "[]" 0 "pb_instructions batch" i] by (simp add: validatePaymentBatch_def)

section \<open>Check digits catch a mistyped character\<close>

text \<open>The number an account number spells, and the power of ten its characters shift by.\<close>

definition iban_weight :: "char \<Rightarrow> int" where
  "iban_weight c = (if iban_char_value c > 9 then 100 else 10)"

definition iban_number_step :: "int \<Rightarrow> char \<Rightarrow> int" where
  "iban_number_step n c = n * iban_weight c + iban_char_value c"

abbreviation iban_number :: "string \<Rightarrow> int" where
  "iban_number \<equiv> foldl iban_number_step 0"

lemma iban_step_mod: "iban_step (n mod 97) c = iban_number_step n c mod 97"
proof -
  have "(n mod 97 * k + v) mod 97 = (n * k + v) mod 97" for k v :: int by (metis mod_add_left_eq mod_mult_left_eq)
  then show ?thesis by (simp only: iban_step_def iban_number_step_def iban_weight_def Let_def)
qed

lemma iban_loop_mod: "foldl iban_step (n mod 97) s = foldl iban_number_step n s mod 97"
  by (induction s arbitrary: n) (simp_all add: iban_step_mod)

lemma isValidIban_number:
  "isValidIban v \<longleftrightarrow> iban_shaped (strip_and_upper v) \<and>
     iban_number (drop 4 (strip_and_upper v) @ take 4 (strip_and_upper v)) mod 97 = 1"
proof -
  have "foldl iban_step 0 s = iban_number s mod 97" for s using iban_loop_mod [of 0 s] by simp
  then show ?thesis by (simp only: isValidIban_def Let_def) simp
qed

lemma iban_number_affine: "\<exists>k. \<forall>n. foldl iban_number_step n s = n * 10 ^ k + iban_number s"
proof (induction s)
  case (Cons c s)
  then obtain k where k: "\<And>n. foldl iban_number_step n s = n * 10 ^ k + iban_number s" by blast
  have "iban_weight c = 10 ^ (if iban_char_value c > 9 then 2 else 1)" by (simp add: iban_weight_def)
  then obtain j where "iban_weight c = 10 ^ j" by blast
  then have "foldl iban_number_step n (c # s) = n * 10 ^ (j + k) + iban_number (c # s)" for n
    using k [of "n * 10 ^ j + iban_char_value c"] k [of "iban_char_value c"]
    by (simp add: iban_number_step_def power_add algebra_simps)
  then show ?case by blast
qed (simp add: exI [of _ 0])

lemma digit_between: "CHR ''0'' \<le> c \<and> c \<le> CHR ''9'' \<longleftrightarrow> is_digit c"
  by (auto simp: less_eq_char_def is_digit_def)

lemma iban_char_bounds:
  assumes "is_iban_char c"
  shows "0 \<le> iban_char_value c" "iban_char_value c < 36" "is_digit c \<longleftrightarrow> iban_char_value c \<le> 9"
    "of_char c = iban_char_value c + (if iban_char_value c \<le> 9 then 48 else 55)"
proof -
  define n where "n = (of_char c :: nat)"
  have "of_char c = int n" unfolding n_def by (rule of_nat_of_char [symmetric])
  with assms show "0 \<le> iban_char_value c" "iban_char_value c < 36" "is_digit c \<longleftrightarrow> iban_char_value c \<le> 9"
    "of_char c = iban_char_value c + (if iban_char_value c \<le> 9 then 48 else 55)"
    unfolding iban_char_value_def digit_between
    by (auto simp: is_iban_char_def is_capital_def is_digit_def Let_def n_def [symmetric])
qed

lemma iban_char_value_inject:
  "is_iban_char c \<Longrightarrow> is_iban_char d \<Longrightarrow> iban_char_value c = iban_char_value d \<Longrightarrow> c = d"
  using iban_char_bounds(4) [of c] iban_char_bounds(4) [of d] by (metis of_char_eq_iff)

lemma ninety_seven_power: "97 dvd 10 ^ k * (x :: int) \<Longrightarrow> 97 dvd x"
proof -
  assume d: "97 dvd 10 ^ k * x"
  have "gcd (97 :: int) 10 = 1" by code_simp
  then have "coprime (97 :: int) 10" by (simp only: coprime_iff_gcd_eq_1)
  then have "coprime (97 :: int) (10 ^ k)" by simp
  with d show ?thesis by (simp add: coprime_dvd_mult_right_iff)
qed

lemma small_multiple: "\<bar>x\<bar> < 97 \<Longrightarrow> 97 dvd x \<Longrightarrow> x = 0" for x :: int
proof (rule ccontr)
  assume "\<bar>x\<bar> < 97" "97 dvd x" "x \<noteq> 0"
  then have "\<bar>97\<bar> \<le> \<bar>x\<bar>" by (intro dvd_imp_le_int)
  with \<open>\<bar>x\<bar> < 97\<close> show False by (simp only: abs_numeral not_le [symmetric])
qed

text \<open>Changing one character of the number, a digit for a digit or a letter for a letter, changes it modulo 97.\<close>

lemma one_character:
  assumes "is_iban_char c" "is_iban_char d" "c \<noteq> d" "is_digit c \<longleftrightarrow> is_digit d"
  shows "iban_number (a @ c # b) mod 97 \<noteq> iban_number (a @ d # b) mod 97"
proof
  assume "iban_number (a @ c # b) mod 97 = iban_number (a @ d # b) mod 97"
  then have same: "97 dvd iban_number (a @ c # b) - iban_number (a @ d # b)" by (simp only: mod_eq_dvd_iff)
  obtain k where k: "\<And>n. foldl iban_number_step n b = n * 10 ^ k + iban_number b" using iban_number_affine by blast
  have "iban_weight c = iban_weight d"
    using assms(4) iban_char_bounds(3) [OF assms(1)] iban_char_bounds(3) [OF assms(2)] by (auto simp: iban_weight_def)
  then have shift: "iban_number_step n c = iban_number_step n d + (iban_char_value c - iban_char_value d)" for n
    by (simp add: iban_number_step_def)
  have spell: "iban_number (a @ e # b) = iban_number_step (iban_number a) e * 10 ^ k + iban_number b" for e
    by (simp only: foldl_append foldl.simps k [of "iban_number_step (iban_number a) e"])
  have "(x + y) * z + m - (x * z + m) = z * y" for x y z m :: int by (simp add: algebra_simps)
  then have "iban_number (a @ c # b) - iban_number (a @ d # b) = 10 ^ k * (iban_char_value c - iban_char_value d)"
    unfolding spell shift .
  with same have dvd: "97 dvd iban_char_value c - iban_char_value d" by (simp only: ninety_seven_power)
  have "\<bar>iban_char_value c - iban_char_value d\<bar> < 97"
    using iban_char_bounds(1,2) [OF assms(1)] iban_char_bounds(1,2) [OF assms(2)] by linarith
  with dvd have "iban_char_value c - iban_char_value d = 0" by (intro small_multiple)
  with iban_char_value_inject [OF assms(1,2)] assms(3) show False by simp
qed

lemma iban_shaped_chars: "iban_shaped s \<Longrightarrow> c \<in> set s \<Longrightarrow> is_iban_char c"
proof -
  assume s: "iban_shaped s" "c \<in> set s"
  have "s = take 2 s @ take 2 (drop 2 s) @ drop 4 s" by (metis append_assoc append_take_drop_id drop_drop numeral_Bit0)
  with s(2) have "c \<in> set (take 2 s) \<or> c \<in> set (take 2 (drop 2 s)) \<or> c \<in> set (drop 4 s)" by (metis UnE set_append)
  with s(1) show ?thesis by (auto simp: iban_shaped_def list_all_iff is_iban_char_def)
qed

lemma rearranged_update:
  assumes "j < length s" "4 \<le> length s"
  shows "\<exists>a b. drop 4 s @ take 4 s = a @ s ! j # b \<and> (\<forall>d. drop 4 (s[j := d]) @ take 4 (s[j := d]) = a @ d # b)"
proof (cases "j < 4")
  case True
  have "take 4 s = take j (take 4 s) @ s ! j # drop (Suc j) (take 4 s)"
    using True assms id_take_nth_drop [of j "take 4 s"] by simp
  moreover have "take 4 (s[j := d]) = take j (take 4 s) @ d # drop (Suc j) (take 4 s)" for d
    using True assms upd_conv_take_nth_drop [of j "take 4 s" d] by (simp add: take_update_swap)
  ultimately show ?thesis
    using True by (intro exI [of _ "drop 4 s @ take j (take 4 s)"] exI [of _ "drop (Suc j) (take 4 s)"]) simp
next
  case False
  let ?i = "j - 4"
  have "drop 4 s = take ?i (drop 4 s) @ s ! j # drop (Suc ?i) (drop 4 s)"
    using False assms id_take_nth_drop [of ?i "drop 4 s"] by simp
  moreover have "drop 4 (s[j := d]) = take ?i (drop 4 s) @ d # drop (Suc ?i) (drop 4 s)" for d
    using False assms upd_conv_take_nth_drop [of ?i "drop 4 s" d] by (simp add: drop_update_swap)
  ultimately show ?thesis
    using False by (intro exI [of _ "take ?i (drop 4 s)"] exI [of _ "drop (Suc ?i) (drop 4 s) @ take 4 s"]) simp
qed

text \<open>
  C39: The check digits catch every mistyped character: an account number that differs from a valid one in a single
  character, a digit for another digit or a letter for another letter, is refused.
\<close>

theorem mistyped_iban_is_refused:
  assumes "isValidIban v" "j < length (strip_and_upper v)" "strip_and_upper w = (strip_and_upper v)[j := c]"
    and "c \<noteq> strip_and_upper v ! j" "is_digit c \<longleftrightarrow> is_digit (strip_and_upper v ! j)"
  shows "\<not> isValidIban w"
proof
  assume w: "isValidIban w"
  let ?s = "strip_and_upper v"
  have shaped: "iban_shaped ?s" "iban_shaped (?s[j := c])" using assms(1,3) w by (simp_all add: isValidIban_number)
  then have chars: "is_iban_char (?s ! j)" "is_iban_char c"
    using assms(2) by (auto intro: iban_shaped_chars set_update_memI)
  have "4 \<le> length ?s" using shaped(1) by (simp add: iban_shaped_def)
  with assms(2) obtain a b where ab: "drop 4 ?s @ take 4 ?s = a @ ?s ! j # b"
    "drop 4 (?s[j := c]) @ take 4 (?s[j := c]) = a @ c # b"
    using rearranged_update by blast
  have "iban_number (a @ ?s ! j # b) mod 97 = 1" "iban_number (a @ c # b) mod 97 = 1"
    using assms(1) w unfolding isValidIban_number assms(3) ab by blast+
  with one_character [OF chars assms(4) [symmetric] assms(5) [symmetric], of a b] show False by (simp only:)
qed

theorem mistyped_iban_is_refused_witness: "\<not> isValidIban ''NL91 ABNA 0417 1643 01''"
proof (rule mistyped_iban_is_refused)
  show "isValidIban ''nl91ABNA0417164300''" by code_simp
  show "strip_and_upper ''NL91 ABNA 0417 1643 01'' = (strip_and_upper ''nl91ABNA0417164300'')[17 := CHR ''1'']" by code_simp
  show "17 < length (strip_and_upper ''nl91ABNA0417164300'')" by code_simp
  show "CHR ''1'' \<noteq> strip_and_upper ''nl91ABNA0417164300'' ! 17" by code_simp
  show "is_digit CHR ''1'' \<longleftrightarrow> is_digit (strip_and_upper ''nl91ABNA0417164300'' ! 17)" by code_simp
qed

end
