(* ===== verification/Payment_File.thy ===== *)
theory Payment_File
  imports Payment_Model
begin

text \<open>
  The payment file (\<open>packages/core/src/payments/pain001.ts\<close>): the XML writer, the escaping of
  \<open>packages/core/src/xml/writer.ts\<close>, and the \<open>pain.001\<close> document of a batch as the sequence of calls that writes it.
\<close>

section \<open>Writing XML\<close>

definition forbidden_control :: "char \<Rightarrow> bool" where
  "forbidden_control c \<longleftrightarrow> (let n = (of_char c :: nat) in n \<le> 8 \<or> n = 11 \<or> n = 12 \<or> (14 \<le> n \<and> n \<le> 31) \<or> n = 127)"

definition escape_char :: "char \<Rightarrow> string" where
  "escape_char c =
     (if c = CHR ''&'' then ''&amp;'' else if c = CHR ''<'' then ''&lt;'' else if c = CHR ''>'' then ''&gt;''
      else if [c] = dquote then ''&quot;'' else [c])"

definition escapeXml :: "string \<Rightarrow> string" where
  "escapeXml v = concat (map escape_char (filter (\<lambda>c. \<not> forbidden_control c) v))"

text \<open>A call of the writer; the attributes are in the order of the object.\<close>

datatype xml_call =
    XOpen string "(string \<times> string) list"
  | XClose string
  | XLeaf string "string option" "(string \<times> string) list"

record xml_writer =
  xw_parts :: "string list"
  xw_depth :: nat

definition attributes_text :: "(string \<times> string) list \<Rightarrow> string" where
  "attributes_text attributes =
     concat (map (\<lambda>(key, v). '' '' @ key @ ''='' @ dquote @ escapeXml v @ dquote) attributes)"

definition indent :: "nat \<Rightarrow> string" where
  "indent depth = concat (replicate depth ''  '')"

definition line_break :: string where
  "line_break = [char_of (10 :: nat)]"

fun xml_write :: "xml_writer \<Rightarrow> xml_call \<Rightarrow> xml_writer" where
  "xml_write w (XOpen name attributes) =
     w\<lparr>xw_parts := xw_parts w @ [indent (xw_depth w) @ ''<'' @ name @ attributes_text attributes @ ''>'' @ line_break],
       xw_depth := xw_depth w + 1\<rparr>"
| "xml_write w (XClose name) =
     w\<lparr>xw_depth := xw_depth w - 1,
       xw_parts := xw_parts w @ [indent (xw_depth w - 1) @ ''</'' @ name @ ''>'' @ line_break]\<rparr>"
| "xml_write w (XLeaf name None attributes) = w"
| "xml_write w (XLeaf name (Some v) attributes) =
     w\<lparr>xw_parts := xw_parts w @
        [indent (xw_depth w) @ ''<'' @ name @ attributes_text attributes @ ''>'' @ escapeXml v @ ''</'' @ name @ ''>'' @ line_break]\<rparr>"

definition xml_text :: "xml_call list \<Rightarrow> string" where
  "xml_text calls = concat (xw_parts (foldl xml_write \<lparr>xw_parts = [], xw_depth = 0\<rparr> calls))"

section \<open>Amounts and texts\<close>

definition painAmount :: "int \<Rightarrow> thrown + string" where
  "painAmount minorUnits =
     (if minorUnits < 0
      then Inl (GenericError (''A payment amount is unsigned: got '' @ int_to_string minorUnits @ ''.''))
      else let digits = pad_start 3 (CHR ''0'') (int_to_string minorUnits)
           in Inr (take (length digits - 2) digits @ ''.'' @ drop (length digits - 2) digits))"

function collapse_spaces :: "string \<Rightarrow> string" where
  "collapse_spaces [] = []"
| "collapse_spaces (c # cs) =
     (if is_space c then CHR '' '' # collapse_spaces (dropWhile is_space cs) else c # collapse_spaces cs)"
  by pat_completeness auto
termination by (relation "measure length") (auto simp: le_imp_less_Suc length_dropWhile_le)

text \<open>\<open>lastIndexOf\<close> of a blank, when there is one.\<close>

definition last_space :: "string \<Rightarrow> nat option" where
  "last_space s = find (\<lambda>i. s ! i = CHR '' '') (rev [0..<length s])"

definition painText :: "string \<Rightarrow> nat \<Rightarrow> string" where
  "painText v maximum =
     (let collapsed = js_trim (collapse_spaces v); cut = take maximum collapsed
      in if length collapsed \<le> maximum then collapsed
         else case last_space cut of
                Some i \<Rightarrow> if int i > int maximum - 20 then take i cut else cut
              | None \<Rightarrow> cut)"

section \<open>The document\<close>

definition instruction_calls :: "payment_instruction \<Rightarrow> thrown + xml_call list" where
  "instruction_calls instruction =
     and_then (painAmount (pm_amount instruction)) (\<lambda>amount.
     Inr (
       [XOpen ''CdtTrfTxInf'' [],
        XOpen ''PmtId'' [], XLeaf ''EndToEndId'' (Some (painText (pm_endToEndId instruction) 35)) [], XClose ''PmtId'',
        XOpen ''Amt'' [], XLeaf ''InstdAmt'' (Some amount) [(''Ccy'', pm_currency instruction)], XClose ''Amt''] @
       (case pm_creditorBic instruction of
          None \<Rightarrow> []
        | Some bic \<Rightarrow>
            [XOpen ''CdtrAgt'' [], XOpen ''FinInstnId'' [], XLeaf ''BIC'' (Some (toUpperCase bic)) [],
             XClose ''FinInstnId'', XClose ''CdtrAgt'']) @
       [XOpen ''Cdtr'' [], XLeaf ''Nm'' (Some (painText (pm_creditorName instruction) 70)) [], XClose ''Cdtr'',
        XOpen ''CdtrAcct'' [], XOpen ''Id'' [], XLeaf ''IBAN'' (Some (strip_and_upper (pm_creditorIban instruction))) [],
        XClose ''Id'', XClose ''CdtrAcct'',
        XOpen ''RmtInf'' []] @
       (case pm_remittanceReference instruction of
          Some ref \<Rightarrow>
            if ref \<noteq> [] then
              [XOpen ''Strd'' [], XOpen ''CdtrRefInf'' [], XOpen ''Tp'' [], XOpen ''CdOrPrtry'' [],
               XLeaf ''Cd'' (Some ''SCOR'') [], XClose ''CdOrPrtry'', XClose ''Tp'',
               XLeaf ''Ref'' (Some (painText ref 35)) [], XClose ''CdtrRefInf'', XClose ''Strd'']
            else [XLeaf ''Ustrd'' (Some (painText (pm_remittanceInformation instruction) 140)) []]
        | None \<Rightarrow> [XLeaf ''Ustrd'' (Some (painText (pm_remittanceInformation instruction) 140)) []]) @
       [XClose ''RmtInf'', XClose ''CdtTrfTxInf'']))"

record pain_options =
  po_version :: "string option"
  po_createdAt :: "string option"
  po_initiatingParty :: "string option"

definition default_pain_options :: pain_options where
  "default_pain_options = \<lparr>po_version = None, po_createdAt = None, po_initiatingParty = None\<rparr>"

definition or_else :: "'a option \<Rightarrow> 'a \<Rightarrow> 'a" where
  "or_else x d = (case x of Some v \<Rightarrow> v | None \<Rightarrow> d)"

text \<open>Everything before the instructions: the group header and the head of the one payment block.\<close>

definition header_calls :: "string \<Rightarrow> pain_options \<Rightarrow> string \<Rightarrow> 'a payment_batch_scheme \<Rightarrow> xml_call list" where
  "header_calls now options total_text batch =
     (let version = or_else (po_version options) ''pain.001.001.03'';
          createdAt = or_else (po_createdAt options)
            (or_else (map_option (take 19) (pb_approvedAt batch)) (take 19 now));
          count = nat_to_string (length (pb_instructions batch))
      in [XOpen ''Document'' [(''xmlns'', ''urn:iso:std:iso:20022:tech:xsd:'' @ version),
            (''xmlns:xsi'', ''http://www.w3.org/2001/XMLSchema-instance'')],
          XOpen ''CstmrCdtTrfInitn'' [],
          XOpen ''GrpHdr'' [],
          XLeaf ''MsgId'' (Some (painText (pb_reference batch) 35)) [], XLeaf ''CreDtTm'' (Some createdAt) [],
          XLeaf ''NbOfTxs'' (Some count) [], XLeaf ''CtrlSum'' (Some total_text) [],
          XOpen ''InitgPty'' [],
          XLeaf ''Nm'' (Some (painText (or_else (po_initiatingParty options) (pb_debtorName batch)) 70)) [],
          XClose ''InitgPty'', XClose ''GrpHdr'',
          XOpen ''PmtInf'' [],
          XLeaf ''PmtInfId'' (Some (painText (pb_reference batch) 35)) [], XLeaf ''PmtMtd'' (Some ''TRF'') [],
          XLeaf ''BtchBookg'' (Some ''false'') [], XLeaf ''NbOfTxs'' (Some count) [], XLeaf ''CtrlSum'' (Some total_text) [],
          XOpen ''PmtTpInf'' [], XOpen ''SvcLvl'' [], XLeaf ''Cd'' (Some ''SEPA'') [], XClose ''SvcLvl'', XClose ''PmtTpInf'',
          XLeaf ''ReqdExctnDt'' (Some (pb_requestedExecutionDate batch)) [],
          XOpen ''Dbtr'' [], XLeaf ''Nm'' (Some (painText (pb_debtorName batch) 70)) [], XClose ''Dbtr'',
          XOpen ''DbtrAcct'' [], XOpen ''Id'' [], XLeaf ''IBAN'' (Some (strip_and_upper (pb_debtorIban batch))) [],
          XClose ''Id'', XClose ''DbtrAcct'',
          XOpen ''DbtrAgt'' [], XOpen ''FinInstnId'' []] @
         (case pb_debtorBic batch of
            None \<Rightarrow> [XOpen ''Othr'' [], XLeaf ''Id'' (Some ''NOTPROVIDED'') [], XClose ''Othr'']
          | Some bic \<Rightarrow> [XLeaf ''BIC'' (Some (toUpperCase bic)) []]) @
         [XClose ''FinInstnId'', XClose ''DbtrAgt'', XLeaf ''ChrgBr'' (Some ''SLEV'') []])"

definition document_calls :: "string \<Rightarrow> pain_options \<Rightarrow> 'a payment_batch_scheme \<Rightarrow> thrown + xml_call list" where
  "document_calls now options batch =
     and_then (painAmount (batchTotal batch)) (\<lambda>total_text.
     and_then (map_result instruction_calls (pb_instructions batch)) (\<lambda>instructions.
       Inr (header_calls now options total_text batch @ concat instructions @
         [XClose ''PmtInf'', XClose ''CstmrCdtTrfInitn'', XClose ''Document''])))"

definition xml_declaration :: string where
  "xml_declaration = ''<?xml version='' @ dquote @ ''1.0'' @ dquote @ '' encoding='' @ dquote @ ''UTF-8'' @ dquote @ ''?>'' @ line_break"

definition generatePain001 :: "string \<Rightarrow> pain_options \<Rightarrow> 'a payment_batch_scheme \<Rightarrow> thrown + string" where
  "generatePain001 now options batch =
     and_then (document_calls now options batch) (\<lambda>calls. Inr (xml_declaration @ xml_text calls))"

section \<open>What the file says\<close>

text \<open>The stack of open elements after a sequence of calls; \<open>None\<close> when an element is closed that is not the last one opened.\<close>

fun nests :: "string list \<Rightarrow> xml_call list \<Rightarrow> string list option" where
  "nests opened [] = Some opened"
| "nests opened (XOpen name _ # calls) = nests (name # opened) calls"
| "nests opened (XLeaf _ _ _ # calls) = nests opened calls"
| "nests opened (XClose name # calls) =
     (case opened of [] \<Rightarrow> None | innermost # rest \<Rightarrow> if innermost = name then nests rest calls else None)"

definition leaf_text :: "string \<Rightarrow> xml_call \<Rightarrow> string list" where
  "leaf_text name call = (case call of XLeaf n (Some v) _ \<Rightarrow> if n = name then [v] else [] | _ \<Rightarrow> [])"

definition leaves :: "string \<Rightarrow> xml_call list \<Rightarrow> string list" where
  "leaves name calls = concat (map (leaf_text name) calls)"

text \<open>The minor units an amount in the file stands for.\<close>

definition read_amount :: "string \<Rightarrow> int" where
  "read_amount v = int (digits_value (filter is_digit v))"

lemma leaves_simps [simp]:
  "leaves n [] = []" "leaves n (c # cs) = leaf_text n c @ leaves n cs" "leaves n (as @ bs) = leaves n as @ leaves n bs"
  by (simp_all add: leaves_def)

lemma leaf_text_simps [simp]:
  "leaf_text n (XOpen m a) = []" "leaf_text n (XClose m) = []" "leaf_text n (XLeaf m None a) = []"
  "leaf_text n (XLeaf m (Some v) a) = (if m = n then [v] else [])"
  by (simp_all add: leaf_text_def)

lemma painAmount_reads:
  "0 \<le> a \<Longrightarrow> \<exists>v. painAmount a = Inr v \<and> read_amount v = a"
proof -
  assume a: "0 \<le> a"
  define d where "d = pad_start 3 (CHR ''0'') (nat_to_string (nat a))"
  have d: "list_all is_digit d" "digits_value d = nat a"
    by (simp_all add: d_def digits_pad_start digits_value_pad_start nat_to_string_digits)
  have digits: "filter is_digit (take k d @ ''.'' @ drop k d) = d" for k
  proof -
    have "filter is_digit (take k d) = take k d" "filter is_digit (drop k d) = drop k d"
      using d(1) by (auto simp: list_all_iff filter_id_conv dest: in_set_takeD in_set_dropD)
    then show ?thesis by simp
  qed
  have "int_to_string a = nat_to_string (nat a)" using a by (simp add: int_to_string_def)
  then have "painAmount a = Inr (take (length d - 2) d @ ''.'' @ drop (length d - 2) d)"
    using a by (simp add: painAmount_def Let_def d_def)
  then show ?thesis using digits [of "length d - 2"] d(2) a by (simp add: read_amount_def)
qed

lemma instruction_file:
  assumes "0 \<le> pm_amount i"
  shows "\<exists>calls. instruction_calls i = Inr calls \<and> (\<forall>opened rest. nests opened (calls @ rest) = nests opened rest) \<and>
    map read_amount (leaves ''InstdAmt'' calls) = [pm_amount i] \<and>
    leaves ''IBAN'' calls = [strip_and_upper (pm_creditorIban i)] \<and>
    leaves ''EndToEndId'' calls = [painText (pm_endToEndId i) 35] \<and> leaves ''CtrlSum'' calls = [] \<and> leaves ''NbOfTxs'' calls = []"
proof -
  obtain v where "painAmount (pm_amount i) = Inr v" "read_amount v = pm_amount i" using painAmount_reads [OF assms] by blast
  then show ?thesis by (simp add: instruction_calls_def split: option.splits)
qed

lemma instructions_file:
  assumes "\<forall>i \<in> set is. 0 \<le> pm_amount i"
  shows "\<exists>css. map_result instruction_calls is = Inr css \<and> (\<forall>opened rest. nests opened (concat css @ rest) = nests opened rest) \<and>
    map read_amount (leaves ''InstdAmt'' (concat css)) = map pm_amount is \<and>
    leaves ''IBAN'' (concat css) = map (\<lambda>i. strip_and_upper (pm_creditorIban i)) is \<and>
    leaves ''EndToEndId'' (concat css) = map (\<lambda>i. painText (pm_endToEndId i) 35) is \<and>
    leaves ''CtrlSum'' (concat css) = [] \<and> leaves ''NbOfTxs'' (concat css) = []"
  using assms
proof (induction "is")
  case (Cons i "is")
  from Cons.IH Cons.prems obtain css where css: "map_result instruction_calls is = Inr css"
    "\<And>opened rest. nests opened (concat css @ rest) = nests opened rest"
    "map read_amount (leaves ''InstdAmt'' (concat css)) = map pm_amount is"
    "leaves ''IBAN'' (concat css) = map (\<lambda>i. strip_and_upper (pm_creditorIban i)) is"
    "leaves ''EndToEndId'' (concat css) = map (\<lambda>i. painText (pm_endToEndId i) 35) is"
    "leaves ''CtrlSum'' (concat css) = []" "leaves ''NbOfTxs'' (concat css) = []" by auto
  from instruction_file [of i] Cons.prems obtain cs where cs: "instruction_calls i = Inr cs"
    "\<And>opened rest. nests opened (cs @ rest) = nests opened rest"
    "map read_amount (leaves ''InstdAmt'' cs) = [pm_amount i]"
    "leaves ''IBAN'' cs = [strip_and_upper (pm_creditorIban i)]"
    "leaves ''EndToEndId'' cs = [painText (pm_endToEndId i) 35]" "leaves ''CtrlSum'' cs = []" "leaves ''NbOfTxs'' cs = []" by auto
  show ?case by (intro exI [of _ "cs # css"]) (simp add: cs css)
qed simp

lemma document_file:
  assumes "\<forall>i \<in> set (pb_instructions batch). 0 \<le> pm_amount i"
  shows "\<exists>calls. document_calls now options batch = Inr calls \<and> nests [] calls = Some [] \<and>
    map read_amount (leaves ''InstdAmt'' calls) = map pm_amount (pb_instructions batch) \<and>
    leaves ''IBAN'' calls =
      strip_and_upper (pb_debtorIban batch) # map (\<lambda>i. strip_and_upper (pm_creditorIban i)) (pb_instructions batch) \<and>
    leaves ''EndToEndId'' calls = map (\<lambda>i. painText (pm_endToEndId i) 35) (pb_instructions batch) \<and>
    map read_amount (leaves ''CtrlSum'' calls) = [batchTotal batch, batchTotal batch] \<and>
    leaves ''NbOfTxs'' calls = replicate 2 (nat_to_string (length (pb_instructions batch)))"
proof -
  have "0 \<le> batchTotal batch" unfolding batchTotal_def by (rule sum_list_nonneg) (use assms in auto)
  then obtain v where v: "painAmount (batchTotal batch) = Inr v" "read_amount v = batchTotal batch"
    using painAmount_reads by blast
  from instructions_file [OF assms] obtain css where css: "map_result instruction_calls (pb_instructions batch) = Inr css"
    "\<And>opened rest. nests opened (concat css @ rest) = nests opened rest"
    "map read_amount (leaves ''InstdAmt'' (concat css)) = map pm_amount (pb_instructions batch)"
    "leaves ''IBAN'' (concat css) = map (\<lambda>i. strip_and_upper (pm_creditorIban i)) (pb_instructions batch)"
    "leaves ''EndToEndId'' (concat css) = map (\<lambda>i. painText (pm_endToEndId i) 35) (pb_instructions batch)"
    "leaves ''CtrlSum'' (concat css) = []" "leaves ''NbOfTxs'' (concat css) = []" by auto
  show ?thesis
    by (simp add: document_calls_def v css header_calls_def Let_def numeral_2_eq_2 split: option.split)
qed

lemma generates:
  assumes "validatePaymentBatch batch = []"
  shows "\<exists>xml. generatePain001 now options batch = Inr xml"
proof -
  have "\<forall>i \<in> set (pb_instructions batch). 0 \<le> pm_amount i" by (blast dest: valid_batch_amounts [OF assms] intro: less_imp_le)
  then obtain calls where "document_calls now options batch = Inr calls" using document_file by blast
  then show ?thesis by (simp add: generatePain001_def)
qed


definition sample_instruction :: payment_instruction where
  "sample_instruction = \<lparr>pm_id = ''i'', pm_endToEndId = ''RUN-1'', pm_creditorName = ''Jansen'',
     pm_creditorIban = ''NL91 ABNA 0417 1643 00'', pm_creditorBic = None, pm_amount = 12345, pm_currency = ''EUR'',
     pm_remittanceInformation = ''F1'', pm_remittanceReference = None\<rparr>"

definition sample_batch :: payment_batch where
  "sample_batch = \<lparr>pb_id = ''b'', pb_reference = ''RUN'', pb_state = Draft, pb_debtorName = ''Bakker BV'',
     pb_debtorIban = ''NL91ABNA0417164300'', pb_debtorBic = None, pb_requestedExecutionDate = ''2026-03-01'',
     pb_approvedAt = None, pb_instructions = [sample_instruction]\<rparr>"

lemma sample_batch_valid: "validatePaymentBatch sample_batch = []"
  by code_simp


end
