(* ===== verification/Payment_Run.thy ===== *)
theory Payment_Run
  imports Payment_Model Money_Format
begin

text \<open>
  Turning approved purchase invoices into payments (\<open>packages/core/src/payments/run.ts\<close>): one instruction per supplier,
  credit notes netted, and what keeps a supplier out of the run.
\<close>

definition REMITTANCE_LIMIT :: nat where
  "REMITTANCE_LIMIT = 140"

datatype document_kind = InvoiceDocument | CreditNoteDocument

record payable_item =
  pi_invoiceId :: string
  pi_supplierInvoiceNumber :: string
  pi_kind :: document_kind
  pi_dueDate :: string
  pi_outstanding :: int
  pi_paymentReference :: "string option"
  pi_currency :: string

record payable_supplier =
  ps_contactId :: string
  ps_contactNumber :: string
  ps_contactName :: string
  ps_iban :: "string option"
  ps_bic :: "string option"
  ps_items :: "payable_item list"

record planned_allocation =
  pa_invoiceId :: string
  pa_supplierInvoiceNumber :: string
  pa_kind :: document_kind
  pa_amount :: int

record planned_instruction =
  pl_contactId :: string
  pl_contactNumber :: string
  pl_creditorName :: string
  pl_creditorIban :: string
  pl_creditorBic :: "string option"
  pl_amountDue :: int
  pl_payCurrency :: string
  pl_remittanceInformation :: string
  pl_remittanceReference :: "string option"
  pl_endToEndId :: string
  pl_allocations :: "planned_allocation list"
  pl_dueDate :: string

datatype run_finding_code = NoIban | RunInvalidIban | NothingOwed | CreditExceedsInvoices | MixedCurrencies

fun run_code_text :: "run_finding_code \<Rightarrow> string" where
  "run_code_text NoIban = ''no_iban''"
| "run_code_text RunInvalidIban = ''invalid_iban''"
| "run_code_text NothingOwed = ''nothing_owed''"
| "run_code_text CreditExceedsInvoices = ''credit_exceeds_invoices''"
| "run_code_text MixedCurrencies = ''mixed_currencies''"

datatype run_severity = RunBlocking | RunNote

record run_finding =
  rf_code :: run_finding_code
  rf_severity :: run_severity
  rf_contactNumber :: string
  rf_message :: string
  rf_messageKey :: string
  rf_detail :: "violation_detail option"
  rf_amount :: int

record payment_run_plan =
  rp_instructions :: "planned_instruction list"
  rp_findings :: "run_finding list"
  rp_total :: int

record payment_run_request =
  rq_suppliers :: "payable_supplier list"
  rq_currency :: string
  rq_batchReference :: string

definition money_text :: "int \<Rightarrow> string" where
  "money_text units = formatMinorUnits DEFAULT_MONEY_FORMAT units"

text \<open>The characters SEPA accepts in a reference, after \<open>toUpperCase\<close>; the others become a hyphen.\<close>

definition is_reference_char :: "char \<Rightarrow> bool" where
  "is_reference_char c \<longleftrightarrow> is_capital c \<or> is_digit c \<or> c \<in> set ''/?:().,'' \<or> c = CHR 0x27 \<or> c \<in> set ''+ -''"

definition endToEndIdFor :: "string \<Rightarrow> string \<Rightarrow> string" where
  "endToEndIdFor batchReference contactNumber =
     (let cleaned = map (\<lambda>c. if is_reference_char c then c else CHR ''-'') (toUpperCase (batchReference @ ''-'' @ contactNumber))
      in take 35 cleaned)"

definition run_flag ::
  "run_finding_code \<Rightarrow> run_severity \<Rightarrow> string \<Rightarrow> string \<Rightarrow> violation_detail option \<Rightarrow> int \<Rightarrow> run_finding" where
  "run_flag code severity contactNumber messageKey detail amount_due =
     \<lparr>rf_code = code, rf_severity = severity, rf_contactNumber = contactNumber,
      rf_message = renderFindingMessage messageKey detail, rf_messageKey = messageKey, rf_detail = detail,
      rf_amount = amount_due\<rparr>"

definition outstanding :: "payable_item list \<Rightarrow> int" where
  "outstanding is = (\<Sum>i\<leftarrow>is. pi_outstanding i)"

definition allocation_of :: "payable_item \<Rightarrow> planned_allocation" where
  "allocation_of i = \<lparr>pa_invoiceId = pi_invoiceId i, pa_supplierInvoiceNumber = pi_supplierInvoiceNumber i,
     pa_kind = pi_kind i, pa_amount = pi_outstanding i\<rparr>"

definition oldest_first :: "(string \<Rightarrow> string \<Rightarrow> int) \<Rightarrow> payable_item list \<Rightarrow> payable_item list" where
  "oldest_first collation is = sort_by (\<lambda>a b. cmp_or (collation (pi_dueDate a) (pi_dueDate b))
     (collation (pi_supplierInvoiceNumber a) (pi_supplierInvoiceNumber b))) is"

text \<open>The ellipsis ends a list of document numbers that does not fit; it is written as its UTF-8 bytes.\<close>

definition ellipsis :: string where
  "ellipsis = [CHR 0xE2, CHR 0x80, CHR 0xA6]"

definition remittance_text :: "payable_item list \<Rightarrow> string" where
  "remittance_text settled =
     (let numbers = join_with '', '' (map pi_supplierInvoiceNumber settled)
      in if length numbers > REMITTANCE_LIMIT then take (REMITTANCE_LIMIT - 1) numbers @ ellipsis else numbers)"

text \<open>One turn of the loop: an instruction for the supplier, or the finding that keeps the supplier out.\<close>

definition plan_supplier ::
  "(string \<Rightarrow> string \<Rightarrow> int) \<Rightarrow> payment_run_request \<Rightarrow> payable_supplier \<Rightarrow> run_finding + planned_instruction" where
  "plan_supplier collation request supplier =
     (let wrongCurrency = filter (\<lambda>i. pi_currency i \<noteq> rq_currency request) (ps_items supplier);
          ordered = oldest_first collation (ps_items supplier);
          invoices = filter (\<lambda>i. pi_kind i = InvoiceDocument) ordered;
          credits = filter (\<lambda>i. pi_kind i = CreditNoteDocument) ordered;
          net = outstanding invoices - outstanding credits; name = (''contactName'', ps_contactName supplier)
      in if wrongCurrency \<noteq> [] then
           Inl (run_flag MixedCurrencies RunBlocking (ps_contactNumber supplier) ''paymentRun.mixed_currencies''
             (Some [name, (''count'', nat_to_string (length wrongCurrency)), (''currency'', rq_currency request)]) 0)
         else if net = 0 then
           Inl (run_flag NothingOwed RunNote (ps_contactNumber supplier) ''paymentRun.nothing_owed'' (Some [name]) 0)
         else if net < 0 then
           Inl (run_flag CreditExceedsInvoices RunNote (ps_contactNumber supplier) ''paymentRun.credit_exceeds_invoices''
             (Some [name, (''net'', money_text (- net))]) (- net))
         else case ps_iban supplier of
           None \<Rightarrow> Inl (run_flag NoIban RunBlocking (ps_contactNumber supplier) ''paymentRun.no_iban''
             (Some [name, (''net'', money_text net)]) net)
         | Some iban \<Rightarrow>
           if js_trim iban = [] then Inl (run_flag NoIban RunBlocking (ps_contactNumber supplier) ''paymentRun.no_iban''
             (Some [name, (''net'', money_text net)]) net)
           else if \<not> isValidIban iban then
             Inl (run_flag RunInvalidIban RunBlocking (ps_contactNumber supplier) ''paymentRun.invalid_iban'' (Some [name]) net)
           else
             Inr \<lparr>pl_contactId = ps_contactId supplier, pl_contactNumber = ps_contactNumber supplier,
               pl_creditorName = ps_contactName supplier, pl_creditorIban = strip_and_upper iban,
               pl_creditorBic = ps_bic supplier, pl_amountDue = net, pl_payCurrency = rq_currency request,
               pl_remittanceInformation = remittance_text (invoices @ credits),
               pl_remittanceReference = (if length invoices = 1 \<and> credits = []
                 then pi_paymentReference (hd invoices) else None),
               pl_endToEndId = endToEndIdFor (rq_batchReference request) (ps_contactNumber supplier),
               pl_allocations = map allocation_of invoices @ map allocation_of credits,
               pl_dueDate = (case ordered of [] \<Rightarrow> [] | i # _ \<Rightarrow> pi_dueDate i)\<rparr>)"

fun run_severity_order :: "run_severity \<Rightarrow> int" where
  "run_severity_order RunBlocking = 0"
| "run_severity_order RunNote = 1"

definition planPaymentRun :: "(string \<Rightarrow> string \<Rightarrow> int) \<Rightarrow> payment_run_request \<Rightarrow> payment_run_plan" where
  "planPaymentRun collation request =
     (let planned = map (plan_supplier collation request) (rq_suppliers request);
          instructions = concat (map (\<lambda>r. case r of Inr i \<Rightarrow> [i] | Inl _ \<Rightarrow> []) planned);
          findings = concat (map (\<lambda>r. case r of Inl f \<Rightarrow> [f] | Inr _ \<Rightarrow> []) planned);
          ordered = sort_by (\<lambda>a b. cmp_or (collation (pl_dueDate a) (pl_dueDate b))
            (collation (pl_contactNumber a) (pl_contactNumber b))) instructions
      in \<lparr>rp_instructions = ordered,
          rp_findings = sort_by (\<lambda>a b. cmp_or (run_severity_order (rf_severity a) - run_severity_order (rf_severity b))
            (collation (rf_contactNumber a) (rf_contactNumber b))) findings,
          rp_total = (\<Sum>i\<leftarrow>ordered. pl_amountDue i)\<rparr>)"

definition assertRunnable :: "payment_run_plan \<Rightarrow> thrown + unit" where
  "assertRunnable plan =
     (let blocking = filter (\<lambda>f. rf_severity f = RunBlocking) (rp_findings plan)
      in if blocking = [] then Inr ()
         else Inl (LedgerError (map (\<lambda>f. forwarded ''invalid_payment'' (Some (''suppliers.'' @ rf_contactNumber f))
           (rf_message f) (Some (rf_messageKey f))
           (Some [(''code'', run_code_text (rf_code f)), (''amount'', int_to_string (rf_amount f))])) blocking)))"

section \<open>What a run settles\<close>

definition net_owed :: "payable_supplier \<Rightarrow> int" where
  "net_owed supplier = (\<Sum>i\<leftarrow>ps_items supplier. if pi_kind i = InvoiceDocument then pi_outstanding i else - pi_outstanding i)"

definition settled_by :: "planned_instruction \<Rightarrow> int" where
  "settled_by p = (\<Sum>a\<leftarrow>pl_allocations p. if pa_kind a = InvoiceDocument then pa_amount a else - pa_amount a)"

definition settles :: "payable_supplier \<Rightarrow> planned_instruction \<Rightarrow> bool" where
  "settles supplier p \<longleftrightarrow> pl_contactNumber p = ps_contactNumber supplier \<and> pl_amountDue p = net_owed supplier \<and>
     0 < pl_amountDue p \<and> settled_by p = pl_amountDue p \<and> isValidIban (pl_creditorIban p) \<and>
     mset (pl_allocations p) = mset (map allocation_of (ps_items supplier))"

lemma upper_plain: "is_iban_char c \<Longrightarrow> upper_char c = [c] \<and> \<not> is_space c"
  by (auto simp: is_iban_char_def is_capital_def is_digit_def upper_char_def is_space_def Let_def)

lemma valid_iban_stripped: "isValidIban v \<Longrightarrow> isValidIban (strip_and_upper v)"
proof -
  assume v: "isValidIban v"
  then have "iban_shaped (strip_and_upper v)" by (simp add: isValidIban_number)
  then have "\<forall>c \<in> set (strip_and_upper v). is_iban_char c" by (blast intro: iban_shaped_chars)
  then have "concat (map upper_char (filter (\<lambda>c. \<not> is_space c) s)) = s" if "set s \<subseteq> set (strip_and_upper v)" for s
    using that by (induction s) (auto dest: upper_plain)
  then have "strip_and_upper (strip_and_upper v) = strip_and_upper v"
    unfolding strip_and_upper_def [of "strip_and_upper v"] toUpperCase_def by blast
  with v show ?thesis by (simp add: isValidIban_number)
qed

lemma kinds: "pi_kind i \<noteq> InvoiceDocument \<longleftrightarrow> pi_kind i = CreditNoteDocument"
  by (cases "pi_kind i") simp_all

lemma oldest_first_mset [simp]: "mset (oldest_first collation is) = mset is"
  by (simp add: oldest_first_def mset_sort_by)

lemma net_of_parts:
  "outstanding (filter (\<lambda>i. pi_kind i = InvoiceDocument) (oldest_first collation (ps_items s))) -
   outstanding (filter (\<lambda>i. pi_kind i = CreditNoteDocument) (oldest_first collation (ps_items s))) = net_owed s"
proof -
  have split_kinds: "outstanding (filter (\<lambda>i. pi_kind i = InvoiceDocument) is) - outstanding (filter (\<lambda>i. pi_kind i = CreditNoteDocument) is)
      = (\<Sum>i\<leftarrow>is. if pi_kind i = InvoiceDocument then pi_outstanding i else - pi_outstanding i)" for "is"
    by (induction "is") (auto simp: outstanding_def kinds)
  show ?thesis unfolding split_kinds net_owed_def
    by (simp add: sum_mset_sum_list [symmetric])
qed

lemma planned_supplier:
  "plan_supplier collation request s = Inr p \<Longrightarrow> settles s p"
  "plan_supplier collation request s = Inl f \<Longrightarrow> rf_severity f = RunNote \<Longrightarrow> rf_amount f = - net_owed s \<and> 0 \<le> rf_amount f"
proof -
  let ?o = "oldest_first collation (ps_items s)"
  let ?is = "filter (\<lambda>i. pi_kind i = InvoiceDocument) ?o" and ?cs = "filter (\<lambda>i. pi_kind i = CreditNoteDocument) ?o"
  note net = net_of_parts [of collation s]
  show "plan_supplier collation request s = Inl f \<Longrightarrow> rf_severity f = RunNote \<Longrightarrow> rf_amount f = - net_owed s \<and> 0 \<le> rf_amount f"
    using net by (auto simp: plan_supplier_def Let_def run_flag_def split: if_splits option.splits)
  assume p: "plan_supplier collation request s = Inr p"
  then obtain iban where iban: "isValidIban iban" "pl_creditorIban p = strip_and_upper iban" "0 < net_owed s"
    and fields: "pl_contactNumber p = ps_contactNumber s" "pl_amountDue p = net_owed s"
      "pl_allocations p = map allocation_of ?is @ map allocation_of ?cs"
    using net by (auto simp: plan_supplier_def Let_def split: if_splits option.splits)
  have parts: "mset (?is @ ?cs) = mset (ps_items s)"
    by (simp add: kinds [symmetric])
  have "settled_by p = outstanding ?is - outstanding ?cs"
  proof -
    have "(\<Sum>a\<leftarrow>map allocation_of (filter (\<lambda>i. pi_kind i = InvoiceDocument) is). if pa_kind a = InvoiceDocument then pa_amount a else - pa_amount a)
        = outstanding (filter (\<lambda>i. pi_kind i = InvoiceDocument) is)"
      "(\<Sum>a\<leftarrow>map allocation_of (filter (\<lambda>i. pi_kind i = CreditNoteDocument) is). if pa_kind a = InvoiceDocument then pa_amount a else - pa_amount a)
        = - outstanding (filter (\<lambda>i. pi_kind i = CreditNoteDocument) is)" for "is"
      by (induction "is") (simp_all add: outstanding_def allocation_of_def)
    then show ?thesis unfolding settled_by_def fields by simp
  qed
  moreover have "mset (pl_allocations p) = mset (map allocation_of (ps_items s))"
    unfolding fields map_append [symmetric] mset_map parts ..
  ultimately show "settles s p" using iban fields net by (simp add: settles_def valid_iban_stripped)
qed

lemma run_parts:
  "rp_total (planPaymentRun collation request) =
     (\<Sum>s\<leftarrow>rq_suppliers request. case plan_supplier collation request s of Inr p \<Rightarrow> pl_amountDue p | Inl _ \<Rightarrow> 0)"
  "(\<Sum>f\<leftarrow>rp_findings (planPaymentRun collation request). rf_amount f) =
     (\<Sum>s\<leftarrow>rq_suppliers request. case plan_supplier collation request s of Inr _ \<Rightarrow> 0 | Inl f \<Rightarrow> rf_amount f)"
  "p \<in> set (rp_instructions (planPaymentRun collation request)) \<longleftrightarrow>
     (\<exists>s \<in> set (rq_suppliers request). plan_supplier collation request s = Inr p)"
  "f \<in> set (rp_findings (planPaymentRun collation request)) \<longleftrightarrow>
     (\<exists>s \<in> set (rq_suppliers request). plan_supplier collation request s = Inl f)"
  "length (rp_instructions (planPaymentRun collation request)) + length (rp_findings (planPaymentRun collation request)) =
     length (rq_suppliers request)"
proof -
  have sums: "(\<Sum>p\<leftarrow>concat (map (\<lambda>r. case r of Inr i \<Rightarrow> [i] | Inl _ \<Rightarrow> []) (map plan ss)). pl_amountDue p) =
      (\<Sum>s\<leftarrow>ss. case plan s of Inr p \<Rightarrow> pl_amountDue p | Inl _ \<Rightarrow> 0)"
    "(\<Sum>f\<leftarrow>concat (map (\<lambda>r. case r of Inl f \<Rightarrow> [f] | Inr _ \<Rightarrow> []) (map plan ss)). rf_amount f) =
      (\<Sum>s\<leftarrow>ss. case plan s of Inr _ \<Rightarrow> 0 | Inl f \<Rightarrow> rf_amount f)"
    "length (concat (map (\<lambda>r. case r of Inr i \<Rightarrow> [i] | Inl _ \<Rightarrow> []) (map plan ss))) +
      length (concat (map (\<lambda>r. case r of Inl f \<Rightarrow> [f] | Inr _ \<Rightarrow> []) (map plan ss))) = length ss"
    for plan :: "payable_supplier \<Rightarrow> run_finding + planned_instruction" and ss
    by (induction ss) (auto split: sum.split)
  show "rp_total (planPaymentRun collation request) =
     (\<Sum>s\<leftarrow>rq_suppliers request. case plan_supplier collation request s of Inr p \<Rightarrow> pl_amountDue p | Inl _ \<Rightarrow> 0)"
    "(\<Sum>f\<leftarrow>rp_findings (planPaymentRun collation request). rf_amount f) =
     (\<Sum>s\<leftarrow>rq_suppliers request. case plan_supplier collation request s of Inr _ \<Rightarrow> 0 | Inl f \<Rightarrow> rf_amount f)"
    "length (rp_instructions (planPaymentRun collation request)) + length (rp_findings (planPaymentRun collation request)) =
     length (rq_suppliers request)"
    unfolding planPaymentRun_def Let_def payment_run_plan.simps sum_list_sort_by length_sort_by by (rule sums)+
  show "p \<in> set (rp_instructions (planPaymentRun collation request)) \<longleftrightarrow>
      (\<exists>s \<in> set (rq_suppliers request). plan_supplier collation request s = Inr p)"
    "f \<in> set (rp_findings (planPaymentRun collation request)) \<longleftrightarrow>
      (\<exists>s \<in> set (rq_suppliers request). plan_supplier collation request s = Inl f)"
    by (force simp: planPaymentRun_def Let_def split: sum.splits)+
qed


definition sample_item :: "string \<Rightarrow> document_kind \<Rightarrow> int \<Rightarrow> payable_item" where
  "sample_item number k open_amount = \<lparr>pi_invoiceId = number, pi_supplierInvoiceNumber = number, pi_kind = k,
     pi_dueDate = ''2026-03-01'', pi_outstanding = open_amount, pi_paymentReference = None, pi_currency = ''EUR''\<rparr>"

definition sample_run :: payment_run_request where
  "sample_run = \<lparr>rq_suppliers = [\<lparr>ps_contactId = ''c'', ps_contactNumber = ''CR1'', ps_contactName = ''Jansen'',
       ps_iban = Some ''NL91 ABNA 0417 1643 00'', ps_bic = None,
       ps_items = [sample_item ''F1'' InvoiceDocument 10000, sample_item ''C1'' CreditNoteDocument 2500]\<rparr>],
     rq_currency = ''EUR'', rq_batchReference = ''RUN''\<rparr>"


text \<open>
  Cutting the reference to 35 characters can make two suppliers' end-to-end ids the same, and the ellipsis of a long
  list of document numbers is not a character the payment file accepts.
\<close>

lemma end_to_end_ids_collide:
  "endToEndIdFor ''BATCH-2026-04-01-LEVERANCIERS-WK-14'' ''CR1'' = endToEndIdFor ''BATCH-2026-04-01-LEVERANCIERS-WK-14'' ''CR2''"
  by code_simp

lemma ellipsis_is_refused: "offendingSepaCharacters (s @ ellipsis) \<noteq> []"
proof -
  have "\<exists>c \<in> set ellipsis. \<not> is_sepa_char c" by code_simp
  then have "filter (\<lambda>c. \<not> is_sepa_char c) (s @ ellipsis) \<noteq> []" by (auto simp: filter_empty_conv)
  then show ?thesis unfolding offendingSepaCharacters_def by simp
qed

end
