(* ===== verification/Payment_Approval.thy ===== *)
theory Payment_Approval
  imports Payment_File Payment_Run Api_Context Events
begin

text \<open>
  The two-person flow of a payment batch: the transitions of \<open>packages/core/src/payments/approval.ts\<close>, the tables of
  \<open>packages/db/src/repositories/payments.ts\<close> and the handlers of \<open>apps/web/src/api/handlers/payments.ts\<close>.
\<close>

section \<open>Transitions\<close>

datatype payment_action = Submit | Approve | Reject | Export | Reopen

fun action_text :: "payment_action \<Rightarrow> string" where
  "action_text Submit = ''submit''"
| "action_text Approve = ''approve''"
| "action_text Reject = ''reject''"
| "action_text Export = ''export''"
| "action_text Reopen = ''reopen''"

fun state_text :: "payment_batch_state \<Rightarrow> string" where
  "state_text Draft = ''draft''"
| "state_text Submitted = ''submitted''"
| "state_text Approved = ''approved''"
| "state_text Exported = ''exported''"
| "state_text Rejected = ''rejected''"

fun ALLOWED :: "payment_action \<Rightarrow> payment_batch_state list" where
  "ALLOWED Submit = [Draft]"
| "ALLOWED Approve = [Submitted]"
| "ALLOWED Reject = [Submitted]"
| "ALLOWED Export = [Approved]"
| "ALLOWED Reopen = [Rejected]"

fun RESULT :: "payment_action \<Rightarrow> payment_batch_state" where
  "RESULT Submit = Submitted"
| "RESULT Approve = Approved"
| "RESULT Reject = Rejected"
| "RESULT Export = Exported"
| "RESULT Reopen = Draft"

record batch_actor =
  ba_userId :: string
  ba_submittedBy :: "string option"
  ba_actorKind :: actor_kind

definition action_past :: "payment_action \<Rightarrow> string" where
  "action_past action =
     (if action = Reopen then ''reopened''
      else action_text action @ (if last (action_text action) = CHR ''e'' then ''d'' else ''ed''))"

definition nextState :: "payment_action \<Rightarrow> payment_batch_state \<Rightarrow> batch_actor \<Rightarrow> thrown + payment_batch_state" where
  "nextState action current who =
     (if current \<notin> set (ALLOWED action)
      then throw ''wrong_batch_state'' (Some ''state'')
        (Some [(''current'', state_text current), (''actionPast'', action_past action)])
      else if action = Approve \<and> ba_actorKind who \<noteq> Human
      then throw ''approval_by_submitter.not_a_script'' (Some ''approvedBy'') None
      else if action = Approve \<and> ba_submittedBy who = Some (ba_userId who)
      then throw ''approval_by_submitter.not_the_submitter'' (Some ''approvedBy'') None
      else Inr (RESULT action))"

definition isEditable :: "payment_batch_state \<Rightarrow> bool" where
  "isEditable state \<longleftrightarrow> state = Draft"

section \<open>Tables\<close>

record batch_row =
  bw_id :: string
  bw_entityId :: string
  bw_reference :: string
  bw_state :: payment_batch_state
  bw_bankAccountId :: string
  bw_requestedExecutionDate :: string
  bw_submittedBy :: "string option"
  bw_submittedAt :: "string option"
  bw_approvedBy :: "string option"
  bw_approvedAt :: "string option"
  bw_rejectedBy :: "string option"
  bw_rejectedAt :: "string option"
  bw_rejectionReason :: "string option"
  bw_exportedAt :: "string option"
  bw_exportedHash :: "string option"

record instruction_row = payment_instruction +
  nw_entityId :: string
  nw_batchId :: string
  nw_contactId :: "string option"
  nw_createdAt :: int

record bank_account_row =
  bk_id :: string
  bk_entityId :: string
  bk_iban :: string

text \<open>What an instruction settles of a purchase invoice; the rows go with their instruction.\<close>

record allocation_row =
  al_entityId :: string
  al_instructionId :: string
  al_invoiceId :: string
  al_amount :: int

record payments_db =
  py_batches :: "batch_row list"
  py_instructions :: "instruction_row list"
  py_accounts :: "bank_account_row list"
  py_legalNames :: "(string \<times> string) list"
  py_allocations :: "allocation_row list"
  py_events :: "domain_event list"

definition is_batch :: "string \<Rightarrow> string \<Rightarrow> batch_row \<Rightarrow> bool" where
  "is_batch entityId batchId b \<longleftrightarrow> bw_entityId b = entityId \<and> bw_id b = batchId"

definition text_compare :: "string \<Rightarrow> string \<Rightarrow> int" where
  "text_compare a b = (if a < b then - 1 else if a = b then 0 else 1)"

text \<open>The batch in the shape of the payment file, with who submitted and approved it.\<close>

record found_batch =
  fb_batch :: payment_batch
  fb_submittedBy :: "string option"
  fb_approvedBy :: "string option"
  fb_bankAccountId :: string
  fb_exportedHash :: "string option"

definition instructions_of :: "string \<Rightarrow> payments_db \<Rightarrow> payment_instruction list" where
  "instructions_of batchId db =
     map payment_instruction.truncate
       (sort_by (\<lambda>a b. cmp_or (int_compare (nw_createdAt a) (nw_createdAt b)) (text_compare (pm_id a) (pm_id b)))
         (filter (\<lambda>i. nw_batchId i = batchId) (py_instructions db)))"

definition findBatch :: "string \<Rightarrow> string \<Rightarrow> payments_db \<Rightarrow> found_batch option" where
  "findBatch entityId batchId db =
     (case find (is_batch entityId batchId) (py_batches db) of
        None \<Rightarrow> None
      | Some row \<Rightarrow>
          (case (find (\<lambda>k. bk_id k = bw_bankAccountId row) (py_accounts db), map_of (py_legalNames db) (bw_entityId row)) of
             (Some account, Some legalName) \<Rightarrow>
               Some \<lparr>fb_batch = \<lparr>pb_id = bw_id row, pb_reference = bw_reference row, pb_state = bw_state row,
                   pb_debtorName = legalName, pb_debtorIban = bk_iban account, pb_debtorBic = None,
                   pb_requestedExecutionDate = bw_requestedExecutionDate row, pb_approvedAt = bw_approvedAt row,
                   pb_instructions = instructions_of batchId db\<rparr>,
                 fb_submittedBy = bw_submittedBy row, fb_approvedBy = bw_approvedBy row,
                 fb_bankAccountId = bw_bankAccountId row, fb_exportedHash = bw_exportedHash row\<rparr>
           | _ \<Rightarrow> None))"

definition createBatch :: "string \<Rightarrow> string \<Rightarrow> string \<Rightarrow> string \<Rightarrow> string \<Rightarrow> payments_db \<Rightarrow> thrown + payments_db" where
  "createBatch newId entityId reference bankAccountId date db =
     (if list_ex (\<lambda>b. bw_id b = newId) (py_batches db) then Inl (GenericError ''payment_batches_pkey'')
      else if list_ex (\<lambda>b. bw_entityId b = entityId \<and> bw_reference b = reference) (py_batches db)
      then Inl (GenericError ''payment_batches_entity_reference'')
      else Inr (db\<lparr>py_batches := py_batches db @
        [\<lparr>bw_id = newId, bw_entityId = entityId, bw_reference = reference, bw_state = Draft,
          bw_bankAccountId = bankAccountId, bw_requestedExecutionDate = date, bw_submittedBy = None,
          bw_submittedAt = None, bw_approvedBy = None, bw_approvedAt = None, bw_rejectedBy = None,
          bw_rejectedAt = None, bw_rejectionReason = None, bw_exportedAt = None, bw_exportedHash = None\<rparr>]\<rparr>))"

text \<open>The constraints of the table: its primary key, a positive amount, and end-to-end ids unique in the batch.\<close>

definition addInstruction :: "instruction_row \<Rightarrow> payments_db \<Rightarrow> thrown + payments_db" where
  "addInstruction row db =
     (if pm_amount row \<le> 0 then Inl (GenericError ''payment_instructions_positive'')
      else if list_ex (\<lambda>i. pm_id i = pm_id row) (py_instructions db) then Inl (GenericError ''payment_instructions_pkey'')
      else if list_ex (\<lambda>i. nw_batchId i = nw_batchId row \<and> pm_endToEndId i = pm_endToEndId row) (py_instructions db)
      then Inl (GenericError ''payment_instructions_end_to_end'')
      else Inr (db\<lparr>py_instructions := py_instructions db @ [row]\<rparr>))"

definition removeInstruction :: "string \<Rightarrow> string \<Rightarrow> string \<Rightarrow> payments_db \<Rightarrow> bool \<times> payments_db" where
  "removeInstruction entityId batchId instructionId db =
     (let hit = (\<lambda>i. nw_entityId i = entityId \<and> nw_batchId i = batchId \<and> pm_id i = instructionId);
          gone = map pm_id (filter hit (py_instructions db))
      in (list_ex hit (py_instructions db),
          db\<lparr>py_instructions := filter (\<lambda>i. \<not> hit i) (py_instructions db),
             py_allocations := filter (\<lambda>a. al_instructionId a \<notin> set gone) (py_allocations db)\<rparr>))"

definition allocateToInstruction ::
  "string \<Rightarrow> string \<Rightarrow> (string \<times> int) list \<Rightarrow> payments_db \<Rightarrow> thrown + payments_db" where
  "allocateToInstruction entityId instructionId allocations db =
     (let taken = map al_invoiceId (filter (\<lambda>a. al_instructionId a = instructionId) (py_allocations db))
      in if allocations = [] then Inr db
         else if list_ex (\<lambda>a. snd a \<le> 0) allocations then Inl (GenericError ''payment_instruction_invoices_positive'')
         else if \<not> distinct (taken @ map fst allocations) then Inl (GenericError ''payment_instruction_invoices_unique'')
         else Inr (db\<lparr>py_allocations := py_allocations db @
           map (\<lambda>a. \<lparr>al_entityId = entityId, al_instructionId = instructionId, al_invoiceId = fst a, al_amount = snd a\<rparr>)
             allocations\<rparr>))"

text \<open>What a transition writes besides the state.\<close>

fun stamp :: "payment_action \<Rightarrow> string \<Rightarrow> string \<Rightarrow> string option \<Rightarrow> batch_row \<Rightarrow> batch_row" where
  "stamp Submit userId now reason b = b\<lparr>bw_submittedBy := Some userId, bw_submittedAt := Some now\<rparr>"
| "stamp Approve userId now reason b = b\<lparr>bw_approvedBy := Some userId, bw_approvedAt := Some now\<rparr>"
| "stamp Reject userId now reason b =
     b\<lparr>bw_rejectedBy := Some userId, bw_rejectedAt := Some now, bw_rejectionReason := reason\<rparr>"
| "stamp Reopen userId now reason b =
     b\<lparr>bw_submittedBy := None, bw_submittedAt := None, bw_approvedBy := None, bw_approvedAt := None,
       bw_rejectedBy := None, bw_rejectedAt := None, bw_rejectionReason := None\<rparr>"
| "stamp Export userId now reason b = b\<lparr>bw_exportedAt := Some now\<rparr>"

definition update_batch :: "string \<Rightarrow> string \<Rightarrow> (batch_row \<Rightarrow> batch_row) \<Rightarrow> payments_db \<Rightarrow> payments_db" where
  "update_batch entityId batchId f db =
     db\<lparr>py_batches := map (\<lambda>b. if is_batch entityId batchId b then f b else b) (py_batches db)\<rparr>"

text \<open>The check of the table: the approver is not the submitter.\<close>

definition two_person :: "batch_row \<Rightarrow> bool" where
  "two_person b \<longleftrightarrow> bw_approvedBy b = None \<or> bw_submittedBy b = None \<or> bw_approvedBy b \<noteq> bw_submittedBy b"

definition transition ::
  "string \<Rightarrow> string \<Rightarrow> payment_action \<Rightarrow> string \<Rightarrow> actor_kind \<Rightarrow> string option \<Rightarrow> string \<Rightarrow> payments_db
   \<Rightarrow> thrown + payment_batch_state \<times> payments_db" where
  "transition entityId batchId action userId kind reason now db =
     (case find (is_batch entityId batchId) (py_batches db) of
        None \<Rightarrow> Inl (GenericError (''No payment batch '' @ batchId @ ''.''))
      | Some row \<Rightarrow>
          and_then (nextState action (bw_state row)
              \<lparr>ba_userId = userId, ba_submittedBy = bw_submittedBy row, ba_actorKind = kind\<rparr>) (\<lambda>state.
            let patch = (\<lambda>b. stamp action userId now reason (b\<lparr>bw_state := state\<rparr>))
            in if \<not> two_person (patch row) then Inl (GenericError ''payment_batches_two_person'')
               else Inr (state, update_batch entityId batchId patch db)))"

definition recordExport :: "string \<Rightarrow> string \<Rightarrow> string \<Rightarrow> payments_db \<Rightarrow> payments_db" where
  "recordExport entityId batchId hash db = update_batch entityId batchId (\<lambda>b. b\<lparr>bw_exportedHash := Some hash\<rparr>) db"

definition batch_exported_event :: "string \<Rightarrow> string \<Rightarrow> payments_db \<Rightarrow> payments_db" where
  "batch_exported_event entityId batchId db =
     db\<lparr>py_events := py_events db @
       [\<lparr>ev_entityId = entityId, ev_type = ''payments.batch.exported'', ev_version = versionOf ''payments.batch.exported'',
         ev_payload = [(''resourceType'', resourceOf ''payments.batch.exported''), (''resourceId'', batchId)]\<rparr>]\<rparr>"

section \<open>Handlers\<close>

text \<open>
  Every handler opens with the permission and the idempotency key. The audit row a handler ends with is written in a
  transaction of its own, and a failure to write it is swallowed, so it is not part of the state here.
\<close>

definition write_guard :: "request_context \<Rightarrow> string \<Rightarrow> api_thrown + unit" where
  "write_guard ctx required =
     and_then (requirePermission ctx required) (\<lambda>_. and_then (requireIdempotencyKey ctx) (\<lambda>_. Inr ()))"

definition found_or_404 :: "request_context \<Rightarrow> string \<Rightarrow> payments_db \<Rightarrow> api_thrown + found_batch" where
  "found_or_404 ctx batchId db =
     (case findBatch (rc_entityId ctx) batchId db of
        None \<Rightarrow> api_error NotFound ''No such payment batch.''
      | Some found \<Rightarrow> Inr found)"

definition handleCreateBatch ::
  "request_context \<Rightarrow> string \<Rightarrow> string \<Rightarrow> string \<Rightarrow> string \<Rightarrow> payments_db \<Rightarrow> api_thrown + string \<times> payments_db" where
  "handleCreateBatch ctx newId reference bankAccountId date db =
     and_then (write_guard ctx (permission ''preparePayments'')) (\<lambda>_.
     (case find (\<lambda>k. bk_entityId k = rc_entityId ctx \<and> bk_id k = bankAccountId) (py_accounts db) of
        None \<Rightarrow> api_error NotFound ''No such bank account.''
      | Some _ \<Rightarrow> and_then (in_domain (createBatch newId (rc_entityId ctx) reference bankAccountId date db)) (\<lambda>db'.
          Inr (newId, db'))))"

text \<open>The batch an edit was checked against: it is read first, and the write that follows takes no lock on it.\<close>

definition editable_batch :: "request_context \<Rightarrow> string \<Rightarrow> string \<Rightarrow> payments_db \<Rightarrow> api_thrown + found_batch" where
  "editable_batch ctx batchId advice db =
     and_then (found_or_404 ctx batchId db) (\<lambda>found.
       if isEditable (pb_state (fb_batch found)) then Inr found
       else api_error Conflict (''A '' @ state_text (pb_state (fb_batch found)) @ '' batch cannot be changed.'' @ advice))"

definition REJECT_FIRST :: string where
  "REJECT_FIRST = '' Reject it first, or start another.''"

definition add_instruction_between ::
  "request_context \<Rightarrow> string \<Rightarrow> string \<Rightarrow> int \<Rightarrow> payment_instruction \<Rightarrow> payments_db \<Rightarrow> payments_db \<Rightarrow> api_thrown + string \<times> payments_db" where
  "add_instruction_between ctx batchId newId createdAt body at_read at_write =
     and_then (write_guard ctx (permission ''preparePayments'')) (\<lambda>_.
     and_then (editable_batch ctx batchId REJECT_FIRST at_read) (\<lambda>_.
     and_then (in_domain (addInstruction
         (payment_instruction.extend (body\<lparr>pm_id := newId\<rparr>)
           \<lparr>nw_entityId = rc_entityId ctx, nw_batchId = batchId, nw_contactId = None, nw_createdAt = createdAt\<rparr>) at_write)) (\<lambda>db'.
       Inr (newId, db'))))"

definition handleAddInstruction ::
  "request_context \<Rightarrow> string \<Rightarrow> string \<Rightarrow> int \<Rightarrow> payment_instruction \<Rightarrow> payments_db \<Rightarrow> api_thrown + string \<times> payments_db" where
  "handleAddInstruction ctx batchId newId createdAt body db = add_instruction_between ctx batchId newId createdAt body db db"

definition planned_row :: "request_context \<Rightarrow> string \<Rightarrow> string \<Rightarrow> int \<Rightarrow> planned_instruction \<Rightarrow> instruction_row" where
  "planned_row ctx batchId newId createdAt p =
     \<lparr>pm_id = newId, pm_endToEndId = pl_endToEndId p, pm_creditorName = pl_creditorName p,
      pm_creditorIban = pl_creditorIban p, pm_creditorBic = pl_creditorBic p, pm_amount = pl_amountDue p,
      pm_currency = pl_payCurrency p, pm_remittanceInformation = pl_remittanceInformation p,
      pm_remittanceReference = pl_remittanceReference p, nw_entityId = rc_entityId ctx, nw_batchId = batchId,
      nw_contactId = Some (pl_contactId p), nw_createdAt = createdAt\<rparr>"

fun add_planned ::
  "request_context \<Rightarrow> string \<Rightarrow> (nat \<Rightarrow> string) \<Rightarrow> int \<Rightarrow> nat \<Rightarrow> planned_instruction list \<Rightarrow> payments_db \<Rightarrow> thrown + payments_db" where
  "add_planned ctx batchId newId createdAt n [] db = Inr db"
| "add_planned ctx batchId newId createdAt n (p # ps) db =
     and_then (addInstruction (planned_row ctx batchId (newId n) createdAt p) db) (\<lambda>db1.
     and_then (allocateToInstruction (rc_entityId ctx) (newId n)
         (map (\<lambda>a. (pa_invoiceId a, pa_amount a)) (pl_allocations p)) db1) (\<lambda>db2.
       add_planned ctx batchId newId createdAt (n + 1) ps db2))"

text \<open>The suppliers with what is outstanding to them are what the purchase repository answers.\<close>

definition handleAddApprovedInvoices ::
  "request_context \<Rightarrow> (string \<Rightarrow> string \<Rightarrow> int) \<Rightarrow> payable_supplier list \<Rightarrow> string \<Rightarrow> (nat \<Rightarrow> string) \<Rightarrow> int \<Rightarrow> payments_db
   \<Rightarrow> api_thrown + nat \<times> payments_db" where
  "handleAddApprovedInvoices ctx collation suppliers batchId newId createdAt db =
     and_then (write_guard ctx (permission ''preparePayments'')) (\<lambda>_.
     and_then (editable_batch ctx batchId REJECT_FIRST db) (\<lambda>found.
       let plan = planPaymentRun collation \<lparr>rq_suppliers = suppliers, rq_currency = ''EUR'',
             rq_batchReference = pb_reference (fb_batch found)\<rparr>
       in and_then (in_domain (assertRunnable plan)) (\<lambda>_.
          if rp_instructions plan = [] then api_error ValidationFailed
            ''There is nothing approved and unpaid to put in this batch. An invoice has to be booked and approved before it can be paid.''
          else and_then (in_domain (add_planned ctx batchId newId createdAt 0 (rp_instructions plan) db)) (\<lambda>db'.
            Inr (length (rp_instructions plan), db')))))"

definition handleRemoveInstruction ::
  "request_context \<Rightarrow> string \<Rightarrow> string \<Rightarrow> payments_db \<Rightarrow> api_thrown + unit \<times> payments_db" where
  "handleRemoveInstruction ctx batchId instructionId db =
     and_then (write_guard ctx (permission ''preparePayments'')) (\<lambda>_.
     and_then (editable_batch ctx batchId [] db) (\<lambda>_.
       let (removed, db') = removeInstruction (rc_entityId ctx) batchId instructionId db
       in if removed then Inr ((), db') else api_error NotFound ''No such payment in this batch.''))"

definition api_problem :: "payment_problem \<Rightarrow> api_violation" where
  "api_problem p = \<lparr>lv_code = problem_code_text (pp_code p), lv_path = Some (pp_path p), lv_message = pp_message p,
     lv_messageKey = None, lv_detail = None\<rparr>"

definition not_payable :: "payment_problem list \<Rightarrow> string" where
  "not_payable problems = ''This batch is not payable: '' @ nat_to_string (length problems) @ '' problem'' @
     (if length problems = 1 then [] else ''s'') @ ''.''"

definition handleTransitionBatch ::
  "request_context \<Rightarrow> string \<Rightarrow> payment_action \<Rightarrow> string option \<Rightarrow> string \<Rightarrow> payments_db
   \<Rightarrow> api_thrown + payment_batch_state \<times> payments_db" where
  "handleTransitionBatch ctx batchId action reason now db =
     and_then (write_guard ctx (permission (if action = Approve then ''approvePayments'' else ''preparePayments''))) (\<lambda>_.
     and_then (found_or_404 ctx batchId db) (\<lambda>found.
       let problems = (if action = Submit \<or> action = Approve then validatePaymentBatch (fb_batch found) else [])
       in if problems \<noteq> [] then Inl (ApiError ValidationFailed (not_payable problems) (map api_problem problems))
          else and_then (in_domain (transition (rc_entityId ctx) batchId action (act_id (rc_actor ctx))
                 (act_kind (rc_actor ctx)) reason now db)) (\<lambda>(state, db1).
            Inr (state, if state = Exported then batch_exported_event (rc_entityId ctx) batchId db1 else db1))))"

text \<open>The download: the first one of an approved batch is the export.\<close>

definition handleGetBatchPain001 ::
  "(string \<Rightarrow> string) \<Rightarrow> request_context \<Rightarrow> string \<Rightarrow> string \<Rightarrow> payments_db \<Rightarrow> api_thrown + string \<times> payments_db" where
  "handleGetBatchPain001 sha256 ctx batchId now db =
     and_then (requirePermission ctx (permission ''export'')) (\<lambda>_.
     and_then (found_or_404 ctx batchId db) (\<lambda>found.
       let batch = fb_batch found; problems = validatePaymentBatch batch
       in if pb_state batch \<noteq> Approved \<and> pb_state batch \<noteq> Exported
          then api_error Conflict (''A '' @ state_text (pb_state batch) @ '' batch has no payment file. It has to be approved first.'')
          else if problems \<noteq> [] then Inl (ApiError ValidationFailed
            ''This batch is no longer payable. Reject it, correct it and approve it again.'' (map api_problem problems))
          else and_then
            (if pb_state batch = Approved
             then and_then (in_domain (transition (rc_entityId ctx) batchId Export (act_id (rc_actor ctx))
                    (act_kind (rc_actor ctx)) None now db)) (\<lambda>(_, db1). Inr (batch_exported_event (rc_entityId ctx) batchId db1))
             else Inr db) (\<lambda>db2.
          and_then (in_domain (generatePain001 now default_pain_options batch)) (\<lambda>xml.
            Inr (xml, recordExport (rc_entityId ctx) batchId (sha256 xml) db2)))))"

section \<open>What a request can do to a batch\<close>

datatype payment_request =
    CreateRequest request_context string string string string
  | AddRequest request_context string string int payment_instruction
  | AddInvoicesRequest request_context "string \<Rightarrow> string \<Rightarrow> int" "payable_supplier list" string "nat \<Rightarrow> string" int
  | RemoveInstructionRequest request_context string string
  | TransitionRequest request_context string payment_action "string option" string
  | DownloadRequest request_context string string

text \<open>The database after a request; the transaction of a request that throws is rolled back.\<close>

definition after :: "payments_db \<Rightarrow> api_thrown + 'a \<times> payments_db \<Rightarrow> payments_db" where
  "after db r = (case r of Inl _ \<Rightarrow> db | Inr (_, db') \<Rightarrow> db')"

fun serve :: "(string \<Rightarrow> string) \<Rightarrow> payments_db \<Rightarrow> payment_request \<Rightarrow> payments_db" where
  "serve sha256 db (CreateRequest ctx newId reference bankAccountId date) =
     after db (handleCreateBatch ctx newId reference bankAccountId date db)"
| "serve sha256 db (AddRequest ctx batchId newId createdAt body) =
     after db (handleAddInstruction ctx batchId newId createdAt body db)"
| "serve sha256 db (AddInvoicesRequest ctx collation suppliers batchId newId createdAt) =
     after db (handleAddApprovedInvoices ctx collation suppliers batchId newId createdAt db)"
| "serve sha256 db (RemoveInstructionRequest ctx batchId instructionId) =
     after db (handleRemoveInstruction ctx batchId instructionId db)"
| "serve sha256 db (TransitionRequest ctx batchId action reason now) =
     after db (handleTransitionBatch ctx batchId action reason now db)"
| "serve sha256 db (DownloadRequest ctx batchId now) = after db (handleGetBatchPain001 sha256 ctx batchId now db)"

definition keys_ok :: "payments_db \<Rightarrow> bool" where
  "keys_ok db \<longleftrightarrow> distinct (map bw_id (py_batches db))"

text \<open>The columns that decide who released a batch.\<close>

definition same_release :: "batch_row \<Rightarrow> batch_row \<Rightarrow> bool" where
  "same_release b b' \<longleftrightarrow> bw_id b' = bw_id b \<and> bw_entityId b' = bw_entityId b \<and> bw_submittedBy b' = bw_submittedBy b \<and>
     bw_approvedBy b' = bw_approvedBy b \<and> bw_approvedAt b' = bw_approvedAt b \<and> bw_reference b' = bw_reference b \<and>
     bw_bankAccountId b' = bw_bankAccountId b \<and> bw_requestedExecutionDate b' = bw_requestedExecutionDate b"

definition moved :: "request_context \<Rightarrow> payment_action \<Rightarrow> string option \<Rightarrow> string \<Rightarrow> batch_row \<Rightarrow> batch_row" where
  "moved ctx action reason now b = stamp action (act_id (rc_actor ctx)) now reason (b\<lparr>bw_state := RESULT action\<rparr>)"

definition may_move :: "request_context \<Rightarrow> payment_action \<Rightarrow> batch_row \<Rightarrow> bool" where
  "may_move ctx action b \<longleftrightarrow> rc_entityId ctx = bw_entityId b \<and> bw_state b \<in> set (ALLOWED action) \<and>
     (action = Approve \<longrightarrow> act_kind (rc_actor ctx) = Human \<and> bw_submittedBy b \<noteq> Some (act_id (rc_actor ctx)))"

inductive batch_step :: "payment_request \<Rightarrow> batch_row option \<Rightarrow> batch_row \<Rightarrow> bool" where
  kept: "same_release b b' \<Longrightarrow> bw_state b' = bw_state b \<Longrightarrow> batch_step req (Some b) b'"
| created: "bw_state b' = Draft \<Longrightarrow> bw_submittedBy b' = None \<Longrightarrow> bw_approvedBy b' = None \<Longrightarrow> batch_step req None b'"
| transitioned: "may_move ctx action b \<Longrightarrow>
     hasPermission ctx (permission (if action = Approve then ''approvePayments'' else ''preparePayments'')) \<Longrightarrow>
     batch_step (TransitionRequest ctx (bw_id b) action reason now) (Some b) (moved ctx action reason now b)"
| downloaded: "bw_state b = Approved \<Longrightarrow> same_release b b' \<Longrightarrow> bw_state b' = Exported \<Longrightarrow>
     batch_step (DownloadRequest ctx (bw_id b) now) (Some b) b'"

inductive_cases batch_step_old: "batch_step req (Some b) b'"
inductive_cases batch_step_new: "batch_step req None b'"

lemma same_release_refl [simp]: "same_release b b"
  by (simp add: same_release_def)

lemma after_Inr [simp]: "after db (Inr (x, db')) = db'" "after db (Inl f) = db"
  by (simp_all add: after_def)

lemma nextState_may_move:
  "nextState action (bw_state b) \<lparr>ba_userId = act_id (rc_actor ctx), ba_submittedBy = bw_submittedBy b,
     ba_actorKind = act_kind (rc_actor ctx)\<rparr> = Inr state \<Longrightarrow> rc_entityId ctx = bw_entityId b \<Longrightarrow>
   may_move ctx action b \<and> state = RESULT action"
  by (auto simp: nextState_def may_move_def split: if_splits)

lemma transition_rows:
  assumes "transition (rc_entityId ctx) batchId action (act_id (rc_actor ctx)) (act_kind (rc_actor ctx)) reason now db = Inr (state, db')"
    and "keys_ok db"
  shows "state = RESULT action \<and> (\<exists>b \<in> set (py_batches db). is_batch (rc_entityId ctx) batchId b \<and> may_move ctx action b \<and>
    db' = update_batch (rc_entityId ctx) batchId (moved ctx action reason now) db)"
proof -
  obtain row where row: "find (is_batch (rc_entityId ctx) batchId) (py_batches db) = Some row"
    and ns: "nextState action (bw_state row) \<lparr>ba_userId = act_id (rc_actor ctx), ba_submittedBy = bw_submittedBy row,
       ba_actorKind = act_kind (rc_actor ctx)\<rparr> = Inr state"
    and db': "db' = update_batch (rc_entityId ctx) batchId
       (\<lambda>b. stamp action (act_id (rc_actor ctx)) now reason (b\<lparr>bw_state := state\<rparr>)) db"
    using assms(1) by (auto simp: transition_def and_then_Inr Let_def split: option.splits if_splits)
  from row have hit: "row \<in> set (py_batches db)" "is_batch (rc_entityId ctx) batchId row" by (auto simp: find_Some_iff)
  then have "rc_entityId ctx = bw_entityId row" by (simp add: is_batch_def)
  note moves = nextState_may_move [OF ns this]
  have "(\<lambda>b. stamp action (act_id (rc_actor ctx)) now reason (b\<lparr>bw_state := RESULT action\<rparr>)) = moved ctx action reason now"
    by (rule ext) (simp add: moved_def)
  with db' moves have "db' = update_batch (rc_entityId ctx) batchId (moved ctx action reason now) db" by simp
  with hit moves show ?thesis by blast
qed

lemma update_batch_simps [simp]:
  "py_instructions (update_batch e i f db) = py_instructions db" "py_accounts (update_batch e i f db) = py_accounts db"
  "py_legalNames (update_batch e i f db) = py_legalNames db"
  "py_batches (update_batch e i f db) = map (\<lambda>b. if is_batch e i b then f b else b) (py_batches db)"
  by (simp_all add: update_batch_def)

lemma event_simps [simp]:
  "py_instructions (batch_exported_event e i db) = py_instructions db" "py_accounts (batch_exported_event e i db) = py_accounts db"
  "py_legalNames (batch_exported_event e i db) = py_legalNames db" "py_batches (batch_exported_event e i db) = py_batches db"
  by (simp_all add: batch_exported_event_def)

lemma one_row:
  "keys_ok db \<Longrightarrow> b \<in> set (py_batches db) \<Longrightarrow> b' \<in> set (py_batches db) \<Longrightarrow> bw_id b = bw_id b' \<Longrightarrow> b = b'"
  by (auto simp: keys_ok_def distinct_map dest: inj_onD)

text \<open>The rows a request leaves: all other columns and tables as far as a batch's release depends on them.\<close>

definition same_payers :: "payments_db \<Rightarrow> payments_db \<Rightarrow> bool" where
  "same_payers db db' \<longleftrightarrow> py_accounts db' = py_accounts db \<and> py_legalNames db' = py_legalNames db"

lemma add_rows:
  "addInstruction row db = Inr db' \<Longrightarrow>
   py_batches db' = py_batches db \<and> same_payers db db' \<and> py_instructions db' = py_instructions db @ [row]"
  by (auto simp: addInstruction_def same_payers_def split: if_splits)

lemma allocate_rows:
  "allocateToInstruction e i allocations db = Inr db' \<Longrightarrow>
   py_batches db' = py_batches db \<and> same_payers db db' \<and> py_instructions db' = py_instructions db"
  by (auto simp: allocateToInstruction_def Let_def same_payers_def split: if_splits)

lemma add_planned_rows:
  "add_planned ctx batchId newId createdAt n ps db = Inr db' \<Longrightarrow>
   py_batches db' = py_batches db \<and> same_payers db db' \<and>
   (\<exists>rows. py_instructions db' = py_instructions db @ rows \<and> (\<forall>r \<in> set rows. nw_batchId r = batchId))"
proof (induction ps arbitrary: n db)
  case (Cons p ps)
  then obtain db1 db2 where db1: "addInstruction (planned_row ctx batchId (newId n) createdAt p) db = Inr db1"
    and db2: "allocateToInstruction (rc_entityId ctx) (newId n) (map (\<lambda>a. (pa_invoiceId a, pa_amount a)) (pl_allocations p)) db1 = Inr db2"
    and rest: "add_planned ctx batchId newId createdAt (n + 1) ps db2 = Inr db'" by (auto simp: and_then_Inr)
  have "nw_batchId (planned_row ctx batchId (newId n) createdAt p) = batchId" by (simp add: planned_row_def)
  with Cons.IH [OF rest] add_rows [OF db1] allocate_rows [OF db2] show ?case by (fastforce simp: same_payers_def)
qed (auto simp: same_payers_def)

lemma editable_row:
  "editable_batch ctx batchId advice db = Inr found \<Longrightarrow>
   \<exists>b \<in> set (py_batches db). bw_id b = batchId \<and> bw_state b = Draft"
  by (auto simp: editable_batch_def found_or_404_def findBatch_def isEditable_def is_batch_def and_then_Inr find_Some_iff
      split: option.splits if_splits)

text \<open>Requests that edit a batch change no row of it, and the instructions of no batch that is not a draft.\<close>

definition edits :: "payments_db \<Rightarrow> payments_db \<Rightarrow> bool" where
  "edits db db' \<longleftrightarrow> py_batches db' = py_batches db \<and> same_payers db db' \<and>
     (\<forall>b \<in> set (py_batches db). bw_state b \<noteq> Draft \<longrightarrow> instructions_of (bw_id b) db' = instructions_of (bw_id b) db)"

lemma edits_refl [simp]: "edits db db"
  by (simp add: edits_def same_payers_def)

lemma edit_one_batch:
  assumes "keys_ok db" "editable_batch ctx batchId advice db = Inr found" "py_batches db' = py_batches db" "same_payers db db'"
    and "\<And>i. i \<noteq> batchId \<Longrightarrow> filter (\<lambda>r. nw_batchId r = i) (py_instructions db') = filter (\<lambda>r. nw_batchId r = i) (py_instructions db)"
  shows "edits db db'"
proof -
  obtain d where d: "d \<in> set (py_batches db)" "bw_id d = batchId" "bw_state d = Draft" using editable_row [OF assms(2)] by blast
  have "bw_id b \<noteq> batchId" if "b \<in> set (py_batches db)" "bw_state b \<noteq> Draft" for b
    using one_row [OF assms(1) that(1) d(1)] that(2) d(2,3) by auto
  then show ?thesis using assms(3-5) by (auto simp: edits_def instructions_of_def)
qed

lemma edit_requests:
  assumes "keys_ok db"
  shows "edits db (serve sha256 db (AddRequest ctx batchId newId createdAt body))"
    and "edits db (serve sha256 db (AddInvoicesRequest ctx collation suppliers batchId newIds createdAt))"
    and "edits db (serve sha256 db (RemoveInstructionRequest ctx batchId instructionId))"
proof -
  show "edits db (serve sha256 db (AddRequest ctx batchId newId createdAt body))"
  proof (cases "handleAddInstruction ctx batchId newId createdAt body db")
    case (Inr y)
    obtain x db' where y: "y = (x, db')" by (cases y)
    define row where "row = payment_instruction.extend (body\<lparr>pm_id := newId\<rparr>)
      \<lparr>nw_entityId = rc_entityId ctx, nw_batchId = batchId, nw_contactId = None, nw_createdAt = createdAt\<rparr>"
    from Inr y obtain found where found: "editable_batch ctx batchId REJECT_FIRST db = Inr found"
      and add: "addInstruction row db = Inr db'"
      by (auto simp: handleAddInstruction_def add_instruction_between_def and_then_Inr row_def)
    have "nw_batchId row = batchId" by (simp add: row_def payment_instruction.defs)
    with edit_one_batch [OF assms found, of db'] add_rows [OF add] have "edits db db'" by auto
    then show ?thesis by (simp add: Inr y)
  qed simp
  show "edits db (serve sha256 db (AddInvoicesRequest ctx collation suppliers batchId newIds createdAt))"
  proof (cases "handleAddApprovedInvoices ctx collation suppliers batchId newIds createdAt db")
    case (Inr y)
    obtain x db' where y: "y = (x, db')" by (cases y)
    from Inr y obtain found ps where found: "editable_batch ctx batchId REJECT_FIRST db = Inr found"
      and add: "add_planned ctx batchId newIds createdAt 0 ps db = Inr db'"
      by (auto simp: handleAddApprovedInvoices_def and_then_Inr Let_def split: if_splits)
    from add_planned_rows [OF add] obtain rows where "py_instructions db' = py_instructions db @ rows"
      "\<forall>r \<in> set rows. nw_batchId r = batchId" by blast
    with edit_one_batch [OF assms found, of db'] add_planned_rows [OF add] have "edits db db'"
      by (auto simp: filter_empty_conv)
    then show ?thesis by (simp add: Inr y)
  qed simp
  show "edits db (serve sha256 db (RemoveInstructionRequest ctx batchId instructionId))"
  proof (cases "handleRemoveInstruction ctx batchId instructionId db")
    case (Inr y)
    obtain x db' where y: "y = (x, db')" by (cases y)
    from Inr y obtain found where found: "editable_batch ctx batchId [] db = Inr found"
      and db': "db' = snd (removeInstruction (rc_entityId ctx) batchId instructionId db)"
      by (auto simp: handleRemoveInstruction_def and_then_Inr Let_def split: prod.splits if_splits)
    have "edits db db'"
      by (rule edit_one_batch [OF assms found])
        (auto simp: db' removeInstruction_def Let_def same_payers_def intro!: filter_cong)
    then show ?thesis by (simp add: Inr y)
  qed simp
qed

text \<open>A transition and a download change at most the batch they name, by one step.\<close>

definition steps_to :: "payment_request \<Rightarrow> payments_db \<Rightarrow> payments_db \<Rightarrow> bool" where
  "steps_to req db db' \<longleftrightarrow> py_instructions db' = py_instructions db \<and> same_payers db db' \<and>
     (\<exists>f. py_batches db' = map f (py_batches db) \<and>
       (\<forall>b \<in> set (py_batches db). bw_id (f b) = bw_id b \<and> batch_step req (Some b) (f b)))"

lemma steps_to_refl [simp]: "steps_to req db db"
  unfolding steps_to_def by (auto simp: same_payers_def intro!: exI [of _ "\<lambda>b. b"] batch_step.kept)

lemma moved_id [simp]: "bw_id (moved ctx action reason now b) = bw_id b"
  by (cases action) (simp_all add: moved_def)

lemma transition_steps:
  assumes "keys_ok db"
  shows "steps_to (TransitionRequest ctx batchId action reason now) db (serve sha256 db (TransitionRequest ctx batchId action reason now))"
proof (cases "handleTransitionBatch ctx batchId action reason now db")
  case (Inr y)
  obtain x db' where y: "y = (x, db')" by (cases y)
  from Inr y obtain state db1 where
    t: "transition (rc_entityId ctx) batchId action (act_id (rc_actor ctx)) (act_kind (rc_actor ctx)) reason now db = Inr (state, db1)"
    and db': "py_batches db' = py_batches db1" "py_instructions db' = py_instructions db1" "same_payers db1 db'"
    and perm: "hasPermission ctx (permission (if action = Approve then ''approvePayments'' else ''preparePayments''))"
    by (auto simp: handleTransitionBatch_def write_guard_def and_then_Inr Let_def same_payers_def split: if_splits)
  from transition_rows [OF t assms] obtain b where b: "b \<in> set (py_batches db)" "is_batch (rc_entityId ctx) batchId b"
    "may_move ctx action b" and db1: "db1 = update_batch (rc_entityId ctx) batchId (moved ctx action reason now) db" by blast
  let ?f = "\<lambda>b. if is_batch (rc_entityId ctx) batchId b then moved ctx action reason now b else b"
  have "bw_id (?f c) = bw_id c \<and> batch_step (TransitionRequest ctx batchId action reason now) (Some c) (?f c)"
    if c: "c \<in> set (py_batches db)" for c
  proof (cases "is_batch (rc_entityId ctx) batchId c")
    case True
    then have "bw_id c = batchId" "c = b" using one_row [OF assms c b(1)] b(2) by (auto simp: is_batch_def)
    then show ?thesis using True batch_step.transitioned [of ctx action c reason now] b(3) perm by simp
  qed (auto intro: batch_step.kept)
  then have "steps_to (TransitionRequest ctx batchId action reason now) db db'"
    using db' by (auto simp: steps_to_def same_payers_def db1 intro!: exI [of _ ?f])
  then show ?thesis by (simp add: Inr y)
qed simp

lemma download_steps:
  assumes "keys_ok db"
  shows "steps_to (DownloadRequest ctx batchId now) db (serve sha256 db (DownloadRequest ctx batchId now))"
proof (cases "handleGetBatchPain001 sha256 ctx batchId now db")
  case (Inr y)
  obtain xml db' where y: "y = (xml, db')" by (cases y)
  from Inr y obtain found db2 where found: "findBatch (rc_entityId ctx) batchId db = Some found"
    and db': "db' = recordExport (rc_entityId ctx) batchId (sha256 xml) db2"
    and state: "pb_state (fb_batch found) = Approved \<and> (\<exists>state db1. transition (rc_entityId ctx) batchId Export
        (act_id (rc_actor ctx)) (act_kind (rc_actor ctx)) None now db = Inr (state, db1) \<and>
        db2 = batch_exported_event (rc_entityId ctx) batchId db1) \<or> db2 = db"
    by (auto simp: handleGetBatchPain001_def found_or_404_def and_then_Inr Let_def split: if_splits option.splits)
  let ?hash = "\<lambda>b. b\<lparr>bw_exportedHash := Some (sha256 xml)\<rparr>"
  obtain g where g: "py_batches db2 = map g (py_batches db)" "py_instructions db2 = py_instructions db" "same_payers db db2"
    "\<And>b. b \<in> set (py_batches db) \<Longrightarrow> is_batch (rc_entityId ctx) batchId (g b) = is_batch (rc_entityId ctx) batchId b"
    "\<And>b. b \<in> set (py_batches db) \<Longrightarrow> same_release b (g b) \<and>
      (bw_state (g b) = bw_state b \<or> is_batch (rc_entityId ctx) batchId b \<and> bw_state b = Approved \<and> bw_state (g b) = Exported)"
  proof (cases "db2 = db")
    case True
    then show ?thesis by (intro that [of "\<lambda>b. b"]) (simp_all add: same_payers_def)
  next
    case False
    with state obtain st db1 where t: "transition (rc_entityId ctx) batchId Export (act_id (rc_actor ctx))
        (act_kind (rc_actor ctx)) None now db = Inr (st, db1)" and db2: "db2 = batch_exported_event (rc_entityId ctx) batchId db1" by blast
    from transition_rows [OF t assms] obtain b where b: "b \<in> set (py_batches db)" "is_batch (rc_entityId ctx) batchId b"
      "may_move ctx Export b" and db1: "db1 = update_batch (rc_entityId ctx) batchId (moved ctx Export None now) db" by blast
    have "c = b" if "c \<in> set (py_batches db)" "is_batch (rc_entityId ctx) batchId c" for c
      using one_row [OF assms that(1) b(1)] that(2) b(2) by (simp add: is_batch_def)
    then show ?thesis using b(3)
      by (intro that [of "\<lambda>b. if is_batch (rc_entityId ctx) batchId b then moved ctx Export None now b else b"])
        (auto simp: db2 db1 same_payers_def moved_def is_batch_def same_release_def may_move_def)
  qed
  let ?f = "\<lambda>b. if is_batch (rc_entityId ctx) batchId (g b) then ?hash (g b) else g b"
  have "bw_id (?f b) = bw_id b \<and> batch_step (DownloadRequest ctx batchId now) (Some b) (?f b)" if b: "b \<in> set (py_batches db)" for b
  proof -
    have r: "same_release b (?f b)" "bw_state (?f b) = bw_state (g b)" using g(5) [OF b] by (auto simp: same_release_def)
    show ?thesis
    proof (cases "bw_state (g b) = bw_state b")
      case True
      with r show ?thesis by (auto simp: same_release_def intro!: batch_step.kept)
    next
      case False
      with g(5) [OF b] have "bw_id b = batchId" "bw_state b = Approved" "bw_state (?f b) = Exported" using r(2) by (auto simp: is_batch_def)
      with batch_step.downloaded [of b "?f b" ctx now] r(1) show ?thesis by (simp add: same_release_def)
    qed
  qed
  moreover have "py_batches db' = map ?f (py_batches db)" by (simp add: db' recordExport_def g(1) comp_def)
  moreover have "py_instructions db' = py_instructions db" "same_payers db db'"
    using g(2,3) by (auto simp: db' recordExport_def same_payers_def)
  ultimately have "steps_to (DownloadRequest ctx batchId now) db db'"
    unfolding steps_to_def by (intro conjI exI [of _ ?f] ballI) blast+
  then show ?thesis by (simp add: Inr y)
qed simp

text \<open>Every request opens a new draft, edits drafts, or moves the batch it names.\<close>

lemma create_steps:
  "let db' = serve sha256 db (CreateRequest ctx newId reference account date)
   in db' = db \<or> (newId \<notin> bw_id ` set (py_batches db) \<and> (\<exists>b. py_batches db' = py_batches db @ [b] \<and> bw_id b = newId \<and>
       bw_state b = Draft \<and> bw_submittedBy b = None \<and> bw_approvedBy b = None) \<and>
     py_instructions db' = py_instructions db \<and> same_payers db db')"
  by (cases "handleCreateBatch ctx newId reference account date db")
    (auto simp: handleCreateBatch_def createBatch_def and_then_Inr Let_def list_ex_iff same_payers_def split: if_splits option.splits)

lemma request_cases:
  assumes "keys_ok db"
  shows "edits db (serve sha256 db req) \<or> steps_to req db (serve sha256 db req) \<or>
    (\<exists>b. py_batches (serve sha256 db req) = py_batches db @ [b] \<and> bw_id b \<notin> bw_id ` set (py_batches db) \<and>
      batch_step req None b \<and> py_instructions (serve sha256 db req) = py_instructions db \<and> same_payers db (serve sha256 db req))"
proof (cases req)
  case (CreateRequest ctx newId reference account date)
  from create_steps [of sha256 db ctx newId reference account date, unfolded Let_def]
  show ?thesis unfolding CreateRequest by (fastforce intro: batch_step.created)
next
  case (AddRequest ctx batchId newId createdAt body)
  then show ?thesis using edit_requests(1) [OF assms] by blast
next
  case (AddInvoicesRequest ctx collation suppliers batchId newIds createdAt)
  then show ?thesis using edit_requests(2) [OF assms] by blast
next
  case (RemoveInstructionRequest ctx batchId instructionId)
  then show ?thesis using edit_requests(3) [OF assms] by blast
next
  case (TransitionRequest ctx batchId action reason now)
  then show ?thesis using transition_steps [OF assms] by blast
next
  case (DownloadRequest ctx batchId now)
  then show ?thesis using download_steps [OF assms] by blast
qed

lemma serve_keys: "keys_ok db \<Longrightarrow> keys_ok (serve sha256 db req)"
proof -
  assume ok: "keys_ok db"
  have "distinct (map bw_id (map f bs))" if "\<forall>b \<in> set bs. bw_id (f b) = bw_id b" "distinct (map bw_id bs)" for f bs
    using that by (simp cong: map_cong)
  with ok request_cases [OF ok, of sha256 req] show ?thesis
    unfolding keys_ok_def edits_def steps_to_def by (elim disjE exE conjE) (force, force, simp)
qed

lemma serve_origin:
  assumes "keys_ok db" "b' \<in> set (py_batches (serve sha256 db req))"
  shows "\<exists>old. batch_step req old b' \<and> (\<forall>b. old = Some b \<longrightarrow> b \<in> set (py_batches db))"
proof -
  have keep: "batch_step req (Some b') b'" by (rule batch_step.kept) simp_all
  from request_cases [OF assms(1), of sha256 req] show ?thesis
  proof (elim disjE exE conjE)
    assume "edits db (serve sha256 db req)"
    with assms(2) keep show ?thesis by (intro exI [of _ "Some b'"]) (simp add: edits_def)
  next
    assume "steps_to req db (serve sha256 db req)"
    then obtain f where "py_batches (serve sha256 db req) = map f (py_batches db)"
      "\<forall>b \<in> set (py_batches db). bw_id (f b) = bw_id b \<and> batch_step req (Some b) (f b)" by (auto simp: steps_to_def)
    with assms(2) obtain b where "b \<in> set (py_batches db)" "batch_step req (Some b) b'" by auto
    then show ?thesis by (intro exI [of _ "Some b"]) simp
  next
    fix b assume "py_batches (serve sha256 db req) = py_batches db @ [b]" "batch_step req None b"
    moreover from this(1) assms(2) have "b' = b \<or> b' \<in> set (py_batches db)" by simp
    ultimately show ?thesis using keep by (metis option.distinct(1) option.inject)
  qed
qed

lemma serve_next:
  assumes "keys_ok db" "b \<in> set (py_batches db)"
  shows "\<exists>b' \<in> set (py_batches (serve sha256 db req)). bw_id b' = bw_id b \<and> batch_step req (Some b) b'"
proof -
  have keep: "batch_step req (Some b) b" by (rule batch_step.kept) simp_all
  from request_cases [OF assms(1), of sha256 req] keep assms(2) show ?thesis
    by (elim disjE exE conjE) (force simp: edits_def, force simp: steps_to_def, force)
qed

lemma serve_frozen:
  assumes "keys_ok db" "b \<in> set (py_batches db)" "bw_state b \<noteq> Draft"
  shows "instructions_of (bw_id b) (serve sha256 db req) = instructions_of (bw_id b) db"
  using request_cases [OF assms(1), of sha256 req] assms(2,3)
  by (elim disjE exE conjE) (simp_all add: edits_def steps_to_def instructions_of_def)

lemma serve_payers: "keys_ok db \<Longrightarrow> same_payers db (serve sha256 db req)"
  by (drule request_cases [of db sha256 req]) (auto simp: edits_def steps_to_def)

section \<open>Two people\<close>

text \<open>What a sequence of requests says of who submitted and who approved a batch.\<close>

definition submitted_in :: "payment_request list \<Rightarrow> batch_row \<Rightarrow> string \<Rightarrow> bool" where
  "submitted_in reqs b who \<longleftrightarrow> (\<exists>ctx reason now. TransitionRequest ctx (bw_id b) Submit reason now \<in> set reqs \<and>
     act_id (rc_actor ctx) = who \<and> rc_entityId ctx = bw_entityId b \<and> hasPermission ctx (permission ''preparePayments''))"

definition approved_in :: "payment_request list \<Rightarrow> batch_row \<Rightarrow> string \<Rightarrow> bool" where
  "approved_in reqs b who \<longleftrightarrow> (\<exists>ctx reason now. TransitionRequest ctx (bw_id b) Approve reason now \<in> set reqs \<and>
     act_id (rc_actor ctx) = who \<and> act_kind (rc_actor ctx) = Human \<and> rc_entityId ctx = bw_entityId b \<and>
     hasPermission ctx (permission ''approvePayments''))"

definition released_by_two :: "payment_request list \<Rightarrow> batch_row \<Rightarrow> bool" where
  "released_by_two reqs b \<longleftrightarrow> (\<exists>maker checker. bw_submittedBy b = Some maker \<and> bw_approvedBy b = Some checker \<and>
     maker \<noteq> checker \<and> submitted_in reqs b maker \<and> approved_in reqs b checker \<and> bw_approvedAt b \<noteq> None)"

definition waits_for_one :: "payment_request list \<Rightarrow> batch_row \<Rightarrow> bool" where
  "waits_for_one reqs b \<longleftrightarrow> bw_approvedBy b = None \<and> (\<exists>maker. bw_submittedBy b = Some maker \<and> submitted_in reqs b maker)"

fun row_ok :: "payment_request list \<Rightarrow> batch_row \<Rightarrow> payment_batch_state \<Rightarrow> bool" where
  "row_ok reqs b Draft \<longleftrightarrow> bw_submittedBy b = None \<and> bw_approvedBy b = None"
| "row_ok reqs b Submitted \<longleftrightarrow> waits_for_one reqs b"
| "row_ok reqs b Rejected \<longleftrightarrow> waits_for_one reqs b"
| "row_ok reqs b Approved \<longleftrightarrow> released_by_two reqs b"
| "row_ok reqs b Exported \<longleftrightarrow> released_by_two reqs b"

lemma evidence_more:
  "submitted_in reqs b who \<Longrightarrow> submitted_in (reqs @ [req]) b who" "approved_in reqs b who \<Longrightarrow> approved_in (reqs @ [req]) b who"
  unfolding submitted_in_def approved_in_def by (simp, blast)+

lemma row_ok_more: "row_ok reqs b s \<Longrightarrow> row_ok (reqs @ [req]) b s"
  by (cases s) (auto simp: waits_for_one_def released_by_two_def intro: evidence_more)

lemma row_ok_same: "same_release b b' \<Longrightarrow> row_ok reqs b' s \<longleftrightarrow> row_ok reqs b s"
  by (cases s) (simp_all add: same_release_def waits_for_one_def released_by_two_def submitted_in_def approved_in_def)

lemma evidence_moved:
  "submitted_in reqs (moved ctx action reason now b) who = submitted_in reqs b who"
  "approved_in reqs (moved ctx action reason now b) who = approved_in reqs b who"
  by (cases action; simp add: submitted_in_def approved_in_def moved_def)+

lemma moved_columns:
  "bw_state (moved ctx action reason now b) = RESULT action"
  "bw_submittedBy (moved ctx action reason now b) =
     (if action = Submit then Some (act_id (rc_actor ctx)) else if action = Reopen then None else bw_submittedBy b)"
  "bw_approvedBy (moved ctx action reason now b) =
     (if action = Approve then Some (act_id (rc_actor ctx)) else if action = Reopen then None else bw_approvedBy b)"
  "bw_approvedAt (moved ctx action reason now b) =
     (if action = Approve then Some now else if action = Reopen then None else bw_approvedAt b)"
  by (cases action; simp add: moved_def)+

lemma row_ok_step:
  assumes "batch_step req old b'" "\<And>b. old = Some b \<Longrightarrow> row_ok reqs b (bw_state b)"
  shows "row_ok (reqs @ [req]) b' (bw_state b')"
  using assms
proof (cases rule: batch_step.cases)
  case (kept b)
  with assms(2) show ?thesis by (simp add: row_ok_more row_ok_same)
next
  case (downloaded b ctx now)
  then have "released_by_two (reqs @ [req]) b" using row_ok_more [OF assms(2), of b] by simp
  then show ?thesis using row_ok_same [of b b' "reqs @ [req]" Exported] downloaded by simp
next
  case (transitioned ctx action b reason now)
  have old: "row_ok (reqs @ [req]) b (bw_state b)" using row_ok_more [OF assms(2) [OF transitioned(2)]] .
  have sub: "submitted_in (reqs @ [req]) b (act_id (rc_actor ctx))" if "action = Submit"
    using transitioned(1,4,5) that unfolding submitted_in_def may_move_def by auto
  have app: "approved_in (reqs @ [req]) b (act_id (rc_actor ctx))" if "action = Approve"
    using transitioned(1,4,5) that unfolding approved_in_def may_move_def by auto
  show ?thesis
    using old transitioned(4) sub app unfolding transitioned(3)
    by (cases action) (auto simp: evidence_moved waits_for_one_def released_by_two_def may_move_def moved_columns)
qed simp

lemma reached_rows:
  assumes "py_batches db0 = []"
  shows "keys_ok (foldl (serve sha256) db0 reqs) \<and>
    (\<forall>b \<in> set (py_batches (foldl (serve sha256) db0 reqs)). row_ok reqs b (bw_state b))"
proof (induction reqs rule: rev_induct)
  case (snoc req reqs)
  let ?db = "foldl (serve sha256) db0 reqs"
  have "row_ok (reqs @ [req]) b' (bw_state b')" if h: "b' \<in> set (py_batches (serve sha256 ?db req))" for b'
  proof -
    obtain old where "batch_step req old b'" "\<forall>b. old = Some b \<longrightarrow> b \<in> set (py_batches ?db)"
      using serve_origin [OF _ h] snoc by blast
    then show ?thesis using snoc by (intro row_ok_step) auto
  qed
  with snoc show ?case by (simp add: serve_keys)
qed (simp add: assms keys_ok_def)


section \<open>An approved batch is final\<close>

lemma same_release_trans: "same_release a b \<Longrightarrow> same_release b c \<Longrightarrow> same_release a c"
  by (simp add: same_release_def)

lemma final_step:
  assumes "batch_step req (Some b) b'" "bw_state b \<in> {Approved, Exported}"
  shows "same_release b b' \<and> bw_state b' \<in> {Approved, Exported}"
  using assms
proof (cases rule: batch_step.cases)
  case (transitioned ctx action reason now)
  then show ?thesis using assms(2) by (cases action) (auto simp: may_move_def moved_def same_release_def)
qed (use assms(2) in \<open>auto simp: same_release_def\<close>)

lemma final_run:
  assumes "keys_ok db" "b \<in> set (py_batches db)" "bw_state b \<in> {Approved, Exported}"
  shows "keys_ok (foldl (serve sha256) db reqs) \<and> same_payers db (foldl (serve sha256) db reqs) \<and>
    instructions_of (bw_id b) (foldl (serve sha256) db reqs) = instructions_of (bw_id b) db \<and>
    (\<exists>b' \<in> set (py_batches (foldl (serve sha256) db reqs)). same_release b b' \<and> bw_state b' \<in> {Approved, Exported})"
proof (induction reqs rule: rev_induct)
  case Nil
  have "\<exists>b' \<in> set (py_batches db). same_release b b' \<and> bw_state b' \<in> {Approved, Exported}"
    by (rule bexI [OF _ assms(2)]) (use assms(3) in simp)
  with assms(1) show ?case by (simp add: same_payers_def)
next
  case (snoc req reqs)
  let ?db = "foldl (serve sha256) db reqs"
  from snoc obtain b1 where b1: "keys_ok ?db" "b1 \<in> set (py_batches ?db)" "same_release b b1" "bw_state b1 \<in> {Approved, Exported}"
    by blast
  obtain b2 where b2: "b2 \<in> set (py_batches (serve sha256 ?db req))" "batch_step req (Some b1) b2"
    using serve_next [OF b1(1,2)] by blast
  have "bw_id b1 = bw_id b" using b1(3) by (simp add: same_release_def)
  moreover have "bw_state b1 \<noteq> Draft" using b1(4) by auto
  ultimately have "instructions_of (bw_id b) (serve sha256 ?db req) = instructions_of (bw_id b) ?db"
    using serve_frozen [OF b1(1,2)] by simp
  moreover have "same_release b b2 \<and> bw_state b2 \<in> {Approved, Exported}"
    using final_step [OF b2(2) b1(4)] same_release_trans [OF b1(3)] by blast
  ultimately show ?case using snoc b2(1) serve_keys [OF b1(1)] serve_payers [OF b1(1), of sha256 req]
    by (auto simp: same_payers_def)
qed

lemma found_row:
  "findBatch e i db = Some found \<Longrightarrow> \<exists>b \<in> set (py_batches db). is_batch e i b \<and>
     (\<exists>account legalName. find (\<lambda>k. bk_id k = bw_bankAccountId b) (py_accounts db) = Some account \<and>
       map_of (py_legalNames db) e = Some legalName \<and>
       fb_batch found = \<lparr>pb_id = i, pb_reference = bw_reference b, pb_state = bw_state b, pb_debtorName = legalName,
         pb_debtorIban = bk_iban account, pb_debtorBic = None, pb_requestedExecutionDate = bw_requestedExecutionDate b,
         pb_approvedAt = bw_approvedAt b, pb_instructions = instructions_of i db\<rparr>)"
proof -
  assume "findBatch e i db = Some found"
  then obtain row account legalName where row: "find (is_batch e i) (py_batches db) = Some row"
    "find (\<lambda>k. bk_id k = bw_bankAccountId row) (py_accounts db) = Some account"
    "map_of (py_legalNames db) (bw_entityId row) = Some legalName"
    "fb_batch found = \<lparr>pb_id = bw_id row, pb_reference = bw_reference row, pb_state = bw_state row, pb_debtorName = legalName,
       pb_debtorIban = bk_iban account, pb_debtorBic = None, pb_requestedExecutionDate = bw_requestedExecutionDate row,
       pb_approvedAt = bw_approvedAt row, pb_instructions = instructions_of i db\<rparr>"
    by (auto simp: findBatch_def split: option.splits)
  have "row \<in> set (py_batches db) \<and> is_batch e i row" using row(1) by (auto simp: find_Some_iff)
  moreover from this have "bw_id row = i" "bw_entityId row = e" by (simp_all add: is_batch_def)
  ultimately show ?thesis using row(2,3,4) by (intro bexI [of _ row]) auto
qed

lemma downloaded_file:
  assumes "handleGetBatchPain001 sha256 ctx i now db = Inr (xml, db')"
  obtains found where "findBatch (rc_entityId ctx) i db = Some found" "pb_state (fb_batch found) \<in> {Approved, Exported}"
    "validatePaymentBatch (fb_batch found) = []" "generatePain001 now default_pain_options (fb_batch found) = Inr xml"
  using assms by (auto simp: handleGetBatchPain001_def found_or_404_def and_then_Inr Let_def split: if_splits option.splits)

text \<open>The file depends on the approval and not on the clock or the state.\<close>

lemma file_of_approved:
  "pb_approvedAt batch = Some t \<Longrightarrow>
   generatePain001 now default_pain_options (batch\<lparr>pb_state := s\<rparr>) = generatePain001 now' default_pain_options batch"
  by (simp add: generatePain001_def document_calls_def header_calls_def batchTotal_def default_pain_options_def or_else_def)


end
