(* ===== verification/Purchase_Repository.thy ===== *)
theory Purchase_Repository
  imports Purchase_Posting Ledger_Journal Payment_Approval
begin

text \<open>
  Purchase invoices in the database (\<open>packages/db/src/repositories/purchase.ts\<close>): the tables with the constraints of
  \<open>packages/db/src/schema/purchase.ts\<close>, what is outstanding and what is scheduled, and what a payment run may pick up.
\<close>

section \<open>Tables\<close>

record contact_row =
  ct_id :: string
  ct_entityId :: string
  ct_number :: string
  ct_name :: string
  ct_paymentTermsDays :: int
  ct_isBlocked :: bool
  ct_iban :: "string option"

record tax_code_row =
  tx_id :: string
  tx_entityId :: string
  tx_rule :: tax_code_rule
  tx_accountId :: "string option"

record purchase_row =
  pr_invoiceId :: string
  pr_entity :: string
  pr_contactId :: string
  pr_kind :: purchase_kind
  pr_state :: purchase_status
  pr_supplierInvoiceNumber :: string
  pr_invoiceDate :: string
  pr_dueDate :: string
  pr_currency :: string
  pr_net :: int
  pr_tax :: int
  pr_total :: int
  pr_paymentReference :: "string option"
  pr_notes :: "string option"
  pr_journalEntryId :: "string option"
  pr_bookedBy :: "string option"
  pr_approvedBy :: "string option"
  pr_approvedAt :: "string option"
  pr_disputedReason :: "string option"
  pr_createdAt :: int

record purchase_line_row =
  pn_invoiceId :: string
  pn_line :: nat
  pn_text :: string
  pn_accountId :: string
  pn_taxCodeId :: string
  pn_netAmount :: int
  pn_vatAmount :: int

record bank_allocation_row =
  ba_entityId :: string
  ba_transactionId :: string
  ba_invoiceId :: string
  ba_amount :: int

record purchase_db =
  pu_contacts :: "contact_row list"
  pu_taxCodes :: "tax_code_row list"
  pu_invoices :: "purchase_row list"
  pu_lines :: "purchase_line_row list"
  pu_bankAllocations :: "bank_allocation_row list"

definition is_purchase :: "string \<Rightarrow> string \<Rightarrow> purchase_row \<Rightarrow> bool" where
  "is_purchase entityId invoiceId r \<longleftrightarrow> pr_entity r = entityId \<and> pr_invoiceId r = invoiceId"

section \<open>The context of an invoice\<close>

record purchase_context =
  px_currency :: string
  px_contact :: contact_row
  px_rules :: "tax_code_rule list"
  px_taxCodeIdByCode :: "(string \<times> string) list"
  px_taxAccountByCode :: "(string \<times> string) list"
  px_accountIdByNumber :: "(string \<times> string) list"
  px_payableAccountNumber :: "string option"

definition first_of :: "'a option list \<Rightarrow> 'a option" where
  "first_of answers = (case filter (\<lambda>x. x \<noteq> None) answers of [] \<Rightarrow> None | x # _ \<Rightarrow> x)"

definition payable_account :: "account_row list \<Rightarrow> account_row option" where
  "payable_account chart =
     first_of [find (\<lambda>a. aw_rgsCode a = Some ''BSchCreHac'') chart,
       find (\<lambda>a. case aw_rgsCode a of Some c \<Rightarrow> starts_with ''BSchCre'' c | None \<Rightarrow> False) chart,
       find (\<lambda>a. aw_number a = ''1600'') chart]"

definition entity_chart :: "string \<Rightarrow> ledger_db \<Rightarrow> account_row list" where
  "entity_chart entityId db = filter (\<lambda>a. aw_entityId a = entityId) (t_accounts db)"

definition payableAccountNumber :: "string \<Rightarrow> ledger_db \<Rightarrow> string option" where
  "payableAccountNumber entityId db = map_option aw_number (payable_account (entity_chart entityId db))"

definition functionalCurrency :: "string \<Rightarrow> ledger_db \<Rightarrow> string" where
  "functionalCurrency entityId db =
     (case find (\<lambda>e. en_id e = entityId) (t_entities db) of Some e \<Rightarrow> en_functionalCurrency e | None \<Rightarrow> ''EUR'')"

definition suspenseAccountNumber :: "string \<Rightarrow> ledger_db \<Rightarrow> string option" where
  "suspenseAccountNumber entityId db =
     map_option aw_number (first_of [find (\<lambda>a. aw_rgsCode a = Some ''BVorTusTin'') (entity_chart entityId db),
       find (\<lambda>a. case aw_rgsCode a of Some c \<Rightarrow> starts_with ''BVorTus'' c | None \<Rightarrow> False) (entity_chart entityId db),
       find (\<lambda>a. aw_number a = ''2000'') (entity_chart entityId db)])"

text \<open>The tax codes by code, the newest window of a code first.\<close>

definition codes_of :: "string \<Rightarrow> purchase_db \<Rightarrow> tax_code_row list" where
  "codes_of entityId pdb =
     sort_by (\<lambda>a b. cmp_or (text_compare (tc_code (tx_rule a)) (tc_code (tx_rule b)))
         (text_compare (tc_validFrom (tx_rule b)) (tc_validFrom (tx_rule a))))
       (filter (\<lambda>t. tx_entityId t = entityId) (pu_taxCodes pdb))"

definition code_account :: "ledger_db \<Rightarrow> tax_code_row \<Rightarrow> string option" where
  "code_account db t = Option.bind (tx_accountId t) (\<lambda>i. map_option aw_number (find (\<lambda>a. aw_id a = i) (t_accounts db)))"

definition loadContext :: "string \<Rightarrow> string \<Rightarrow> purchase_db \<Rightarrow> ledger_db \<Rightarrow> purchase_context option" where
  "loadContext entityId contactNumber pdb db =
     (case (find (\<lambda>e. en_id e = entityId) (t_entities db),
            find (\<lambda>c. ct_entityId c = entityId \<and> ct_number c = contactNumber) (pu_contacts pdb)) of
        (Some entity, Some contact) \<Rightarrow>
          let codes = codes_of entityId pdb; chart = entity_chart entityId db
          in Some \<lparr>px_currency = en_functionalCurrency entity, px_contact = contact, px_rules = map tx_rule codes,
               px_taxCodeIdByCode = js_map (map (\<lambda>t. (tc_code (tx_rule t), tx_id t)) (rev codes)),
               px_taxAccountByCode = js_map (concat (map (\<lambda>t. case code_account db t of
                   None \<Rightarrow> [] | Some number \<Rightarrow> [(tc_code (tx_rule t), number)]) codes)),
               px_accountIdByNumber = js_map (map (\<lambda>a. (aw_number a, aw_id a)) chart),
               px_payableAccountNumber = map_option aw_number (payable_account chart)\<rparr>
      | _ \<Rightarrow> None)"

definition isDuplicate :: "string \<Rightarrow> string \<Rightarrow> string \<Rightarrow> string option \<Rightarrow> purchase_db \<Rightarrow> bool" where
  "isDuplicate entityId contactId number exceptId pdb =
     list_ex (\<lambda>r. pr_entity r = entityId \<and> pr_contactId r = contactId \<and> pr_supplierInvoiceNumber r = number \<and>
       pr_state r \<noteq> PurchaseCancelled \<and> Some (pr_invoiceId r) \<noteq> exceptId) (pu_invoices pdb)"

section \<open>Outstanding and scheduled\<close>

text \<open>
  What the bank paid and what instructions schedule of an invoice. The maps of the source answer for the invoices they
  were asked about; an invoice without allocations is absent there and counts as nothing.
\<close>

definition allocatedFor :: "string \<Rightarrow> purchase_db \<Rightarrow> payments_db \<Rightarrow> string \<Rightarrow> int \<times> int" where
  "allocatedFor entityId pdb payments invoiceId =
     (\<Sum>a\<leftarrow>filter (\<lambda>a. ba_entityId a = entityId \<and> ba_invoiceId a = invoiceId) (pu_bankAllocations pdb). ba_amount a,
      \<Sum>a\<leftarrow>filter (\<lambda>a. al_entityId a = entityId \<and> al_invoiceId a = invoiceId) (py_allocations payments). al_amount a)"

record purchase_invoice_row =
  pv_row :: purchase_row
  pv_contactNumber :: string
  pv_contactName :: string
  pv_allocated :: int
  pv_outstanding :: int
  pv_scheduled :: int
  pv_unscheduled :: int
  pv_signedOutstanding :: int

definition settlement :: "purchase_row \<Rightarrow> contact_row \<Rightarrow> int \<times> int \<Rightarrow> purchase_invoice_row" where
  "settlement r contact allocated =
     (let paid = fst allocated; scheduled = snd allocated; open_amount = pr_total r - paid
      in \<lparr>pv_row = r, pv_contactNumber = ct_number contact, pv_contactName = ct_name contact, pv_allocated = paid,
          pv_outstanding = open_amount, pv_scheduled = scheduled, pv_unscheduled = open_amount - scheduled,
          pv_signedOutstanding = (if pr_kind r = PurchaseCreditNote then - open_amount else open_amount)\<rparr>)"

definition contact_of :: "purchase_db \<Rightarrow> purchase_row \<Rightarrow> contact_row option" where
  "contact_of pdb r = find (\<lambda>c. ct_id c = pr_contactId r) (pu_contacts pdb)"

definition with_settlement :: "purchase_db \<Rightarrow> payments_db \<Rightarrow> string \<Rightarrow> purchase_row \<Rightarrow> purchase_invoice_row option" where
  "with_settlement pdb payments entityId r =
     map_option (\<lambda>c. settlement r c (allocatedFor entityId pdb payments (pr_invoiceId r))) (contact_of pdb r)"

definition captured_line :: "purchase_db \<Rightarrow> ledger_db \<Rightarrow> purchase_line_row \<Rightarrow> purchase_line_input option" where
  "captured_line pdb db l =
     (case (find (\<lambda>a. aw_id a = pn_accountId l) (t_accounts db), find (\<lambda>t. tx_id t = pn_taxCodeId l) (pu_taxCodes pdb)) of
        (Some a, Some t) \<Rightarrow> Some \<lparr>ul_description = pn_text l, ul_accountNumber = aw_number a,
          ul_taxCode = tc_code (tx_rule t), ul_net = pn_netAmount l, ul_tax = pn_vatAmount l\<rparr>
      | _ \<Rightarrow> None)"

definition load :: "string \<Rightarrow> string \<Rightarrow> purchase_db \<Rightarrow> payments_db \<Rightarrow> ledger_db
    \<Rightarrow> (purchase_invoice_input \<times> purchase_invoice_row) option" where
  "load entityId invoiceId pdb payments db =
     (case find (\<lambda>r. is_purchase entityId invoiceId r \<and> contact_of pdb r \<noteq> None) (pu_invoices pdb) of
        None \<Rightarrow> None
      | Some r \<Rightarrow>
          (case with_settlement pdb payments entityId r of
             None \<Rightarrow> None
           | Some v \<Rightarrow> Some (
               \<lparr>ui_supplierInvoiceNumber = pr_supplierInvoiceNumber r, ui_kind = pr_kind r, ui_invoiceDate = pr_invoiceDate r,
                ui_dueDate = pr_dueDate r, ui_currency = pr_currency r, ui_net = pr_net r, ui_tax = pr_tax r,
                ui_total = pr_total r,
                ui_lines = List.map_filter (captured_line pdb db)
                  (sort_by (\<lambda>a b. int_compare (int (pn_line a)) (int (pn_line b)))
                    (filter (\<lambda>l. pn_invoiceId l = invoiceId) (pu_lines pdb)))\<rparr>, v)))"

text \<open>The invoices of an administration, newest first, and those that are open.\<close>

definition list_purchases :: "string \<Rightarrow> bool \<Rightarrow> purchase_db \<Rightarrow> payments_db \<Rightarrow> purchase_invoice_row list" where
  "list_purchases entityId openOnly pdb payments =
     (let rows = List.map_filter (with_settlement pdb payments entityId)
            (sort_by (\<lambda>a b. cmp_or (text_compare (pr_invoiceDate b) (pr_invoiceDate a)) (int_compare (pr_createdAt b) (pr_createdAt a)))
              (filter (\<lambda>r. pr_entity r = entityId) (pu_invoices pdb)))
      in if openOnly
         then filter (\<lambda>v. pv_outstanding v \<noteq> 0 \<and> pr_state (pv_row v) \<noteq> PurchaseCancelled \<and>
           pr_state (pv_row v) \<noteq> PurchaseDraft) rows
         else rows)"

section \<open>Aged creditors\<close>

record ageing_bucket =
  ab_contactNumber :: string
  ab_contactName :: string
  ab_current :: int
  ab_upTo30 :: int
  ab_upTo60 :: int
  ab_upTo90 :: int
  ab_over90 :: int
  ab_total :: int

datatype ageing_column = CurrentColumn | UpTo30 | UpTo60 | UpTo90 | Over90

text \<open>An impossible date is not a number, which no comparison places, so it lands in the last column.\<close>

definition ageing_column_of :: "string \<Rightarrow> purchase_invoice_row \<Rightarrow> ageing_column" where
  "ageing_column_of asOf v =
     (case daysBetween (pr_dueDate (pv_row v)) asOf of
        None \<Rightarrow> Over90
      | Some overdueDays \<Rightarrow>
          if overdueDays \<le> 0 then CurrentColumn else if overdueDays \<le> 30 then UpTo30
          else if overdueDays \<le> 60 then UpTo60 else if overdueDays \<le> 90 then UpTo90 else Over90)"

definition in_column :: "string \<Rightarrow> ageing_column \<Rightarrow> purchase_invoice_row list \<Rightarrow> int" where
  "in_column asOf column vs = (\<Sum>v\<leftarrow>filter (\<lambda>v. ageing_column_of asOf v = column) vs. pv_signedOutstanding v)"

definition bucket_of :: "string \<Rightarrow> purchase_invoice_row list \<Rightarrow> ageing_bucket" where
  "bucket_of asOf vs =
     \<lparr>ab_contactNumber = pv_contactNumber (hd vs), ab_contactName = pv_contactName (hd vs),
      ab_current = in_column asOf CurrentColumn vs, ab_upTo30 = in_column asOf UpTo30 vs,
      ab_upTo60 = in_column asOf UpTo60 vs, ab_upTo90 = in_column asOf UpTo90 vs,
      ab_over90 = in_column asOf Over90 vs, ab_total = (\<Sum>v\<leftarrow>vs. pv_signedOutstanding v)\<rparr>"

definition ageing ::
  "(string \<Rightarrow> string \<Rightarrow> int) \<Rightarrow> string \<Rightarrow> string \<Rightarrow> purchase_db \<Rightarrow> payments_db \<Rightarrow> ageing_bucket list" where
  "ageing collation entityId asOf pdb payments =
     sort_by (\<lambda>a b. collation (ab_contactNumber a) (ab_contactNumber b))
       (map (\<lambda>g. bucket_of asOf (snd g)) (group_by pv_contactNumber (list_purchases entityId True pdb payments)))"

section \<open>What a payment run may pick up\<close>

fun item_kind :: "purchase_kind \<Rightarrow> document_kind" where
  "item_kind PurchaseInvoice = InvoiceDocument"
| "item_kind PurchaseCreditNote = CreditNoteDocument"

definition payable_of :: "purchase_invoice_row \<Rightarrow> payable_item" where
  "payable_of v =
     \<lparr>pi_invoiceId = pr_invoiceId (pv_row v), pi_supplierInvoiceNumber = pr_supplierInvoiceNumber (pv_row v),
      pi_kind = item_kind (pr_kind (pv_row v)), pi_dueDate = pr_dueDate (pv_row v), pi_outstanding = \<bar>pv_unscheduled v\<bar>,
      pi_paymentReference = pr_paymentReference (pv_row v), pi_currency = pr_currency (pv_row v)\<rparr>"

definition payable_rows :: "string \<Rightarrow> purchase_db \<Rightarrow> payments_db \<Rightarrow> purchase_invoice_row list" where
  "payable_rows entityId pdb payments =
     filter (\<lambda>v. pr_state (pv_row v) = PurchaseApproved \<and> pv_unscheduled v \<noteq> 0) (list_purchases entityId True pdb payments)"

definition supplier_of :: "purchase_db \<Rightarrow> purchase_invoice_row list \<Rightarrow> payable_supplier" where
  "supplier_of pdb vs =
     (let r = pv_row (hd vs); contact = the (contact_of pdb r)
      in \<lparr>ps_contactId = ct_id contact, ps_contactNumber = ct_number contact, ps_contactName = ct_name contact,
          ps_iban = ct_iban contact, ps_bic = None, ps_items = map payable_of vs\<rparr>)"

definition payableSuppliers ::
  "(string \<Rightarrow> string \<Rightarrow> int) \<Rightarrow> string \<Rightarrow> purchase_db \<Rightarrow> payments_db \<Rightarrow> payable_supplier list" where
  "payableSuppliers collation entityId pdb payments =
     sort_by (\<lambda>a b. collation (ps_contactNumber a) (ps_contactNumber b))
       (map (\<lambda>g. supplier_of pdb (snd g)) (group_by (\<lambda>v. pr_contactId (pv_row v)) (payable_rows entityId pdb payments)))"

section \<open>Writes\<close>

definition createDraft ::
  "string \<Rightarrow> int \<Rightarrow> string \<Rightarrow> string \<Rightarrow> purchase_invoice_input \<Rightarrow> string option \<Rightarrow> string option \<Rightarrow> purchase_context \<Rightarrow> purchase_db
   \<Rightarrow> thrown + purchase_db" where
  "createDraft newId createdAt entityId contactId invoice paymentReference notes ctx pdb =
     (if list_ex (\<lambda>r. pr_invoiceId r = newId) (pu_invoices pdb) then Inl (GenericError ''purchase_invoices_pkey'')
      else if list_ex (\<lambda>r. pr_entity r = entityId \<and> pr_contactId r = contactId \<and>
          pr_supplierInvoiceNumber r = ui_supplierInvoiceNumber invoice) (pu_invoices pdb)
      then Inl (GenericError ''purchase_invoices_supplier_number'')
      else if ui_dueDate invoice < ui_invoiceDate invoice then Inl (GenericError ''purchase_invoices_dates'')
      else if ui_net invoice + ui_tax invoice \<noteq> ui_total invoice then Inl (GenericError ''purchase_invoices_totals'')
      else Inr (pdb\<lparr>pu_invoices := pu_invoices pdb @
          [\<lparr>pr_invoiceId = newId, pr_entity = entityId, pr_contactId = contactId, pr_kind = ui_kind invoice,
            pr_state = PurchaseDraft, pr_supplierInvoiceNumber = ui_supplierInvoiceNumber invoice,
            pr_invoiceDate = ui_invoiceDate invoice, pr_dueDate = ui_dueDate invoice, pr_currency = ui_currency invoice,
            pr_net = ui_net invoice, pr_tax = ui_tax invoice, pr_total = ui_total invoice,
            pr_paymentReference = paymentReference, pr_notes = notes, pr_journalEntryId = None, pr_bookedBy = None,
            pr_approvedBy = None, pr_approvedAt = None, pr_disputedReason = None, pr_createdAt = createdAt\<rparr>],
        pu_lines := pu_lines pdb @ map (\<lambda>i. let l = ui_lines invoice ! i in
          \<lparr>pn_invoiceId = newId, pn_line = i + 1, pn_text = ul_description l,
            pn_accountId = the (map_of (px_accountIdByNumber ctx) (ul_accountNumber l)),
            pn_taxCodeId = the (map_of (px_taxCodeIdByCode ctx) (ul_taxCode l)),
            pn_netAmount = ul_net l, pn_vatAmount = ul_tax l\<rparr>) [0..<length (ui_lines invoice)]\<rparr>))"

text \<open>An open payable brought across from another system is booked by whoever ran the import.\<close>

definition createImportedInvoice ::
  "string \<Rightarrow> int \<Rightarrow> string \<Rightarrow> string \<Rightarrow> purchase_invoice_input \<Rightarrow> string \<Rightarrow> string \<Rightarrow> string \<Rightarrow> purchase_db \<Rightarrow> thrown + purchase_db" where
  "createImportedInvoice newId createdAt entityId contactId item notes entryId bookedBy pdb =
     (let due = (if ui_dueDate item < ui_invoiceDate item then ui_invoiceDate item else ui_dueDate item)
      in if list_ex (\<lambda>r. pr_invoiceId r = newId) (pu_invoices pdb) then Inl (GenericError ''purchase_invoices_pkey'')
      else if list_ex (\<lambda>r. pr_entity r = entityId \<and> pr_contactId r = contactId \<and>
          pr_supplierInvoiceNumber r = ui_supplierInvoiceNumber item) (pu_invoices pdb)
      then Inl (GenericError ''purchase_invoices_supplier_number'')
      else Inr (pdb\<lparr>pu_invoices := pu_invoices pdb @
          [\<lparr>pr_invoiceId = newId, pr_entity = entityId, pr_contactId = contactId, pr_kind = ui_kind item,
            pr_state = Booked, pr_supplierInvoiceNumber = ui_supplierInvoiceNumber item,
            pr_invoiceDate = ui_invoiceDate item, pr_dueDate = due, pr_currency = ui_currency item,
            pr_net = ui_total item, pr_tax = 0, pr_total = ui_total item, pr_paymentReference = None, pr_notes = Some notes,
            pr_journalEntryId = Some entryId, pr_bookedBy = Some bookedBy, pr_approvedBy = None, pr_approvedAt = None,
            pr_disputedReason = None, pr_createdAt = createdAt\<rparr>]\<rparr>))"

definition update_purchase :: "string \<Rightarrow> string \<Rightarrow> (purchase_row \<Rightarrow> purchase_row) \<Rightarrow> purchase_db \<Rightarrow> purchase_db" where
  "update_purchase entityId invoiceId f pdb =
     pdb\<lparr>pu_invoices := map (\<lambda>r. if is_purchase entityId invoiceId r then f r else r) (pu_invoices pdb)\<rparr>"

definition markBooked :: "string \<Rightarrow> string \<Rightarrow> string \<Rightarrow> string \<Rightarrow> purchase_db \<Rightarrow> purchase_db" where
  "markBooked entityId invoiceId entryId actorId =
     update_purchase entityId invoiceId
       (\<lambda>r. r\<lparr>pr_state := Booked, pr_journalEntryId := Some entryId, pr_bookedBy := Some actorId\<rparr>)"

text \<open>The check of the table: what is past the draft has an entry and somebody who booked it.\<close>

definition booked_is_complete :: "purchase_row \<Rightarrow> bool" where
  "booked_is_complete r \<longleftrightarrow> pr_state r \<in> {PurchaseDraft, PurchaseCancelled} \<or>
     pr_journalEntryId r \<noteq> None \<and> pr_bookedBy r \<noteq> None"

definition transition_purchase ::
  "string \<Rightarrow> string \<Rightarrow> purchase_status \<Rightarrow> string \<Rightarrow> string option \<Rightarrow> string \<Rightarrow> purchase_db \<Rightarrow> thrown + purchase_db" where
  "transition_purchase entityId invoiceId to actorId reason now pdb =
     (let patch = (\<lambda>r. r\<lparr>pr_state := to, pr_approvedBy := (if to = PurchaseApproved then Some actorId else None),
            pr_approvedAt := (if to = PurchaseApproved then Some now else None),
            pr_disputedReason := (if to = Disputed then reason else None)\<rparr>)
      in if list_ex (\<lambda>r. is_purchase entityId invoiceId r \<and> \<not> booked_is_complete (patch r)) (pu_invoices pdb)
         then Inl (GenericError ''purchase_invoices_booked_is_complete'')
         else Inr (update_purchase entityId invoiceId patch pdb))"

definition recordBankPayment :: "string \<Rightarrow> string \<Rightarrow> string \<Rightarrow> int \<Rightarrow> purchase_db \<Rightarrow> thrown + purchase_db" where
  "recordBankPayment entityId transactionId invoiceId amt pdb =
     (if amt = 0 then Inr pdb
      else if list_ex (\<lambda>a. ba_transactionId a = transactionId \<and> ba_invoiceId a = invoiceId) (pu_bankAllocations pdb)
      then Inl (GenericError ''purchase_allocations_unique'')
      else Inr (pdb\<lparr>pu_bankAllocations := pu_bankAllocations pdb @
        [\<lparr>ba_entityId = entityId, ba_transactionId = transactionId, ba_invoiceId = invoiceId, ba_amount = \<bar>amt\<bar>\<rparr>]\<rparr>))"

section \<open>The subledger against its control account\<close>

definition supplier_lines :: "string \<Rightarrow> string \<Rightarrow> ledger_db \<Rightarrow> line_row list" where
  "supplier_lines entityId accountNumber db =
     filter (\<lambda>l. lw_entityId l = entityId \<and> lw_subledgerKind l = Some Supplier \<and>
       list_ex (\<lambda>a. aw_id a = lw_accountId l \<and> aw_number a = accountNumber) (t_accounts db)) (t_lines db)"

record reconciliation_result =
  rc_subledger :: int
  rc_control :: int
  rc_difference :: int

definition reconcileToControlAccount ::
  "string \<Rightarrow> string \<Rightarrow> purchase_db \<Rightarrow> payments_db \<Rightarrow> ledger_db \<Rightarrow> reconciliation_result" where
  "reconcileToControlAccount entityId accountNumber pdb payments db =
     (let subledger = (\<Sum>v\<leftarrow>list_purchases entityId True pdb payments. pv_signedOutstanding v);
          control = (\<Sum>l\<leftarrow>supplier_lines entityId accountNumber db. lw_credit l - lw_debit l)
      in \<lparr>rc_subledger = subledger, rc_control = control, rc_difference = subledger - control\<rparr>)"

end
