(* ===== verification/Payment_Release.thy ===== *)
theory Payment_Release
  imports Payment_Approval
begin

text \<open>
  That two people with the right permissions can always get a payable batch to the bank, and what happens to an
  instruction that is added while the batch is being approved.
\<close>

section \<open>A payable batch moves\<close>

definition ready :: "string \<Rightarrow> string \<Rightarrow> payments_db \<Rightarrow> batch_row \<Rightarrow> bool" where
  "ready e i db b \<longleftrightarrow> find (is_batch e i) (py_batches db) = Some b \<and>
     (\<exists>found. findBatch e i db = Some found \<and> validatePaymentBatch (fb_batch found) = [])"

definition may_write :: "request_context \<Rightarrow> string \<Rightarrow> bool" where
  "may_write ctx key \<longleftrightarrow> hasPermission ctx (permission key) \<and> (\<exists>k. rc_idempotencyKey ctx = Some k \<and> k \<noteq> [])"

definition releaser :: "string \<Rightarrow> request_context \<Rightarrow> bool" where
  "releaser e ctx \<longleftrightarrow> rc_entityId ctx = e \<and> act_kind (rc_actor ctx) = Human \<and> may_write ctx ''preparePayments'' \<and>
     may_write ctx ''approvePayments'' \<and> hasPermission ctx (permission ''export'')"

lemma write_guard_ok [simp]: "may_write ctx key \<Longrightarrow> write_guard ctx (permission key) = Inr ()"
  by (auto simp: may_write_def write_guard_def requireIdempotencyKey_def requirePermission_def)

lemma find_updated:
  "find P xs = Some b \<Longrightarrow> (\<And>r. P r \<Longrightarrow> P (f r)) \<Longrightarrow> find P (map (\<lambda>r. if P r then f r else r) xs) = Some (f b)"
  by (induction xs) (auto split: if_splits)

lemma validate_released [simp]:
  "validatePaymentBatch (b\<lparr>pb_state := s, pb_approvedAt := t\<rparr>) = validatePaymentBatch b"
  "validatePaymentBatch (b\<lparr>pb_state := s\<rparr>) = validatePaymentBatch b"
  by (simp_all add: validatePaymentBatch_def)

lemma is_batch_moved [simp]: "is_batch e i (moved ctx a r now b) = is_batch e i b"
  by (cases a) (simp_all add: is_batch_def moved_def)

lemma moved_payment [simp]:
  "bw_entityId (moved ctx a r now b) = bw_entityId b" "bw_reference (moved ctx a r now b) = bw_reference b"
  "bw_bankAccountId (moved ctx a r now b) = bw_bankAccountId b"
  "bw_requestedExecutionDate (moved ctx a r now b) = bw_requestedExecutionDate b"
  by (cases a; simp add: moved_def)+

lemma found_moved:
  assumes "find (is_batch e i) (py_batches db) = Some b" "findBatch e i db = Some found"
  shows "\<exists>found'. findBatch e i (update_batch e i (moved ctx a r now) db) = Some found' \<and>
    fb_batch found' = (fb_batch found)\<lparr>pb_state := RESULT a, pb_approvedAt := bw_approvedAt (moved ctx a r now b)\<rparr>"
proof -
  have "find (is_batch e i) (py_batches (update_batch e i (moved ctx a r now) db)) = Some (moved ctx a r now b)"
    unfolding update_batch_def using find_updated [OF assms(1)] by simp
  with assms show ?thesis
    by (auto simp: findBatch_def update_batch_def instructions_of_def moved_columns split: option.splits)
qed

lemma ready_moved:
  assumes "ready e i db b"
  shows "ready e i (update_batch e i (moved ctx a r now) db) (moved ctx a r now b)"
proof -
  from assms obtain found where found: "find (is_batch e i) (py_batches db) = Some b" "findBatch e i db = Some found"
    "validatePaymentBatch (fb_batch found) = []" by (auto simp: ready_def)
  obtain found' where "findBatch e i (update_batch e i (moved ctx a r now) db) = Some found'"
    "fb_batch found' = (fb_batch found)\<lparr>pb_state := RESULT a, pb_approvedAt := bw_approvedAt (moved ctx a r now b)\<rparr>"
    using found_moved [OF found(1,2)] by blast
  then show ?thesis using found find_updated [OF found(1), of "moved ctx a r now"] by (simp add: ready_def update_batch_def)
qed

lemma ready_row: "ready e i db b \<Longrightarrow> b \<in> set (py_batches db) \<and> is_batch e i b"
  by (auto simp: ready_def find_Some_iff)

lemma transition_moves:
  assumes "find (is_batch (rc_entityId ctx) i) (py_batches db) = Some b" "may_move ctx a b" "two_person (moved ctx a r now b)"
  shows "transition (rc_entityId ctx) i a (act_id (rc_actor ctx)) (act_kind (rc_actor ctx)) r now db =
    Inr (RESULT a, update_batch (rc_entityId ctx) i (moved ctx a r now) db)"
  using assms by (auto simp: transition_def nextState_def may_move_def Let_def moved_def [abs_def])

lemma serve_moves:
  assumes "ready e i db b" "releaser e ctx" "may_move ctx a b" "two_person (moved ctx a r now b)" "a \<noteq> Export"
  shows "serve sha256 db (TransitionRequest ctx i a r now) = update_batch e i (moved ctx a r now) db"
proof -
  from assms(1) obtain found where found: "find (is_batch e i) (py_batches db) = Some b" "findBatch e i db = Some found"
    "validatePaymentBatch (fb_batch found) = []" by (auto simp: ready_def)
  have e: "rc_entityId ctx = e" and w: "may_write ctx ''preparePayments''" "may_write ctx ''approvePayments''"
    using assms(2) by (simp_all add: releaser_def)
  have "RESULT a \<noteq> Exported" using assms(5) by (cases a) simp_all
  with found w transition_moves [of ctx i db b a r now] assms(3,4) show ?thesis
    by (simp add: e handleTransitionBatch_def found_or_404_def)
qed

lemma download_succeeds:
  assumes "ready e i db b" "releaser e ctx" "bw_state b \<in> {Approved, Exported}" "two_person b"
  shows "\<exists>xml db'. handleGetBatchPain001 sha256 ctx i now db = Inr (xml, db')"
proof -
  from assms(1) obtain found where found: "find (is_batch e i) (py_batches db) = Some b" "findBatch e i db = Some found"
    "validatePaymentBatch (fb_batch found) = []" by (auto simp: ready_def)
  have e: "rc_entityId ctx = e" and p: "hasPermission ctx (permission ''export'')" using assms(2) by (simp_all add: releaser_def)
  have state: "pb_state (fb_batch found) = bw_state b" using found(1,2) by (auto simp: findBatch_def split: option.splits)
  obtain xml where xml: "generatePain001 now default_pain_options (fb_batch found) = Inr xml"
    using generates [OF found(3)] by blast
  have "bw_entityId b = e" using ready_row [OF assms(1)] by (simp add: is_batch_def)
  then have "may_move ctx Export b" if "bw_state b = Approved" using that e by (simp add: may_move_def)
  moreover have "two_person (moved ctx Export None now b)" using assms(4) by (simp add: two_person_def moved_columns)
  ultimately have "transition e i Export (act_id (rc_actor ctx)) (act_kind (rc_actor ctx)) None now db =
    Inr (Exported, update_batch e i (moved ctx Export None now) db)" if "bw_state b = Approved"
    using transition_moves [of ctx i db b Export None now] found(1) e that by simp
  with assms(3) found p xml state show ?thesis
    by (auto simp: handleGetBatchPain001_def found_or_404_def requirePermission_def e)
qed

text \<open>A released batch stays ready, whatever is served after it.\<close>

lemma still_ready:
  assumes "keys_ok db" "ready e i db b" "bw_state b \<in> {Approved, Exported}" "two_person b"
  shows "\<exists>b'. ready e i (foldl (serve sha256) db reqs) b' \<and> bw_state b' \<in> {Approved, Exported} \<and> two_person b'"
proof -
  let ?db = "foldl (serve sha256) db reqs"
  have b: "b \<in> set (py_batches db)" "is_batch e i b" and i: "bw_id b = i" using ready_row [OF assms(2)] by (auto simp: is_batch_def)
  from assms(2) obtain found where found: "findBatch e i db = Some found" "validatePaymentBatch (fb_batch found) = []"
    by (auto simp: ready_def)
  note run = final_run [OF assms(1) b(1) assms(3), of sha256 reqs, unfolded i]
  from run obtain b' where b': "b' \<in> set (py_batches ?db)" "same_release b b'" "bw_state b' \<in> {Approved, Exported}" by blast
  have isb: "is_batch e i b'" using b(2) b'(2) by (simp add: is_batch_def same_release_def)
  have find: "find (is_batch e i) (py_batches ?db) = Some b'"
  proof (cases "find (is_batch e i) (py_batches ?db)")
    case None
    with b'(1) isb show ?thesis by (simp add: find_None_iff)
  next
    case (Some c)
    then have "c \<in> set (py_batches ?db) \<and> is_batch e i c" by (auto simp: find_Some_iff)
    then show ?thesis using one_row [of ?db c b'] run b'(1) isb Some by (simp add: is_batch_def)
  qed
  from assms(2) found(1) obtain account legalName where known: "find (\<lambda>k. bk_id k = bw_bankAccountId b) (py_accounts db) = Some account"
    "map_of (py_legalNames db) (bw_entityId b) = Some legalName"
    "fb_batch found = \<lparr>pb_id = bw_id b, pb_reference = bw_reference b, pb_state = bw_state b, pb_debtorName = legalName,
       pb_debtorIban = bk_iban account, pb_debtorBic = None, pb_requestedExecutionDate = bw_requestedExecutionDate b,
       pb_approvedAt = bw_approvedAt b, pb_instructions = instructions_of i db\<rparr>"
    by (auto simp: ready_def findBatch_def split: option.splits)
  obtain found' where "findBatch e i ?db = Some found'"
    "fb_batch found' = (fb_batch found)\<lparr>pb_state := bw_state b', pb_approvedAt := pb_approvedAt (fb_batch found)\<rparr>"
    using find known b'(2) run by (simp add: findBatch_def same_release_def same_payers_def)
  then have "ready e i ?db b'" using find found(2) by (simp add: ready_def)
  moreover have "two_person b'" using assms(4) b'(2) by (simp add: two_person_def same_release_def)
  ultimately show ?thesis using b'(3) by blast
qed

section \<open>Two people get a payable batch to the bank\<close>

text \<open>The approvals that are left: the states of a batch in which it is not released yet.\<close>

lemma finish_submitted:
  assumes "ready e i db b" "bw_state b = Submitted" "bw_approvedBy b = None" "releaser e c" "bw_submittedBy b \<noteq> Some (act_id (rc_actor c))"
    and "releaser e p"
  shows "\<exists>xml db'. handleGetBatchPain001 sha256 p i now' (serve sha256 db (TransitionRequest c i Approve None now)) = Inr (xml, db')"
proof -
  have "bw_entityId b = e" using ready_row [OF assms(1)] by (simp add: is_batch_def)
  then have m: "may_move c Approve b" using assms(2,4,5) by (simp add: may_move_def releaser_def)
  have t: "two_person (moved c Approve None now b)" using assms(5) by (auto simp: two_person_def moved_columns)
  show ?thesis
    using serve_moves [OF assms(1,4) m t] download_succeeds [OF ready_moved [OF assms(1)] assms(6) _ t] by (simp add: moved_columns)
qed

lemma finish_draft:
  assumes "ready e i db b" "bw_state b = Draft" "bw_approvedBy b = None" "releaser e p" "releaser e c"
    "act_id (rc_actor p) \<noteq> act_id (rc_actor c)"
  shows "\<exists>xml db'. handleGetBatchPain001 sha256 p i now'' (serve sha256 (serve sha256 db
    (TransitionRequest p i Submit None now)) (TransitionRequest c i Approve None now')) = Inr (xml, db')"
proof -
  have "bw_entityId b = e" using ready_row [OF assms(1)] by (simp add: is_batch_def)
  then have m: "may_move p Submit b" using assms(2,4) by (simp add: may_move_def releaser_def)
  have t: "two_person (moved p Submit None now b)" using assms(3) by (simp add: two_person_def moved_columns)
  show ?thesis
    using serve_moves [OF assms(1,4) m t] finish_submitted [OF ready_moved [OF assms(1)] _ _ assms(5) _ assms(4)] assms(3,6)
    by (simp add: moved_columns)
qed

lemma finish_rejected:
  assumes "ready e i db b" "bw_state b = Rejected" "releaser e p" "releaser e c" "act_id (rc_actor p) \<noteq> act_id (rc_actor c)"
  shows "\<exists>xml db'. handleGetBatchPain001 sha256 p i now4 (serve sha256 (serve sha256 (serve sha256 db
    (TransitionRequest p i Reopen None now1)) (TransitionRequest p i Submit None now2)) (TransitionRequest c i Approve None now3)) =
    Inr (xml, db')"
proof -
  have "bw_entityId b = e" using ready_row [OF assms(1)] by (simp add: is_batch_def)
  then have m: "may_move p Reopen b" using assms(2,3) by (simp add: may_move_def releaser_def)
  have t: "two_person (moved p Reopen None now1 b)" by (simp add: two_person_def moved_columns)
  show ?thesis
    using serve_moves [OF assms(1,3) m t] finish_draft [OF ready_moved [OF assms(1)] _ _ assms(3,4,5)] by (simp add: moved_columns)
qed

text \<open>
  C13: A payable batch can always be released: whatever requests brought the database where it is, two people who may
  prepare, approve and export payments need at most three requests before the payment file is handed out.
\<close>

theorem batch_can_be_released:
  assumes "py_batches db0 = []" "findBatch e i (foldl (serve sha256) db0 reqs) = Some found"
    and "validatePaymentBatch (fb_batch found) = []"
    and "releaser e p" "releaser e c" "act_id (rc_actor p) \<noteq> act_id (rc_actor c)"
  shows "\<exists>more xml db'. length more \<le> 3 \<and> (\<forall>req \<in> set more. \<exists>q a. q \<in> {p, c} \<and> req = TransitionRequest q i a None now) \<and>
    handleGetBatchPain001 sha256 p i now (foldl (serve sha256) db0 (reqs @ more)) = Inr (xml, db')"
proof -
  let ?db = "foldl (serve sha256) db0 reqs"
  obtain b where b: "find (is_batch e i) (py_batches ?db) = Some b" using assms(2) by (auto simp: findBatch_def split: option.splits)
  have ready: "ready e i ?db b" using b assms(2,3) by (simp add: ready_def)
  have row: "row_ok reqs b (bw_state b)" using reached_rows [OF assms(1)] ready_row [OF ready] by blast
  have swap: "act_id (rc_actor c) \<noteq> act_id (rc_actor p)" using assms(6) by simp
  show ?thesis
  proof (cases "bw_state b")
    case Draft
    then show ?thesis using finish_draft [OF ready Draft _ assms(4,5,6), of sha256 now now now] row
      by (intro exI [of _ "[TransitionRequest p i Submit None now, TransitionRequest c i Approve None now]"]) auto
  next
    case Submitted
    then have "bw_approvedBy b = None" using row by (simp add: waits_for_one_def)
    moreover obtain q where q: "q \<in> {p, c}" "releaser e q" "bw_submittedBy b \<noteq> Some (act_id (rc_actor q))"
      using assms(4,5,6) by (cases "bw_submittedBy b = Some (act_id (rc_actor p))") auto
    ultimately show ?thesis using finish_submitted [OF ready Submitted _ q(2,3) assms(4), of sha256 now now] q(1)
      by (intro exI [of _ "[TransitionRequest q i Approve None now]"]) auto
  next
    case Rejected
    show ?thesis using finish_rejected [OF ready Rejected assms(4,5,6), of sha256 now now now now]
      by (intro exI [of _ "[TransitionRequest p i Reopen None now, TransitionRequest p i Submit None now,
        TransitionRequest c i Approve None now]"]) auto
  next
    case Approved
    then have "two_person b" using row by (auto simp: released_by_two_def two_person_def)
    then show ?thesis using download_succeeds [OF ready assms(4), of sha256 now] Approved by (intro exI [of _ "[] :: payment_request list"]) simp
  next
    case Exported
    then have "two_person b" using row by (auto simp: released_by_two_def two_person_def)
    then show ?thesis using download_succeeds [OF ready assms(4), of sha256 now] Exported by (intro exI [of _ "[] :: payment_request list"]) simp
  qed
qed

section \<open>A concrete administration\<close>

definition sample_payments :: payments_db where
  "sample_payments = \<lparr>py_batches = [], py_instructions = [],
     py_accounts = [\<lparr>bk_id = ''k'', bk_entityId = ''e'', bk_iban = ''NL91ABNA0417164300''\<rparr>],
     py_legalNames = [(''e'', ''Bakker BV'')], py_allocations = [], py_events = []\<rparr>"

definition person :: "string \<Rightarrow> request_context" where
  "person who = \<lparr>rc_actor = \<lparr>act_kind = Human, act_id = who, act_principalId = None\<rparr>, rc_entityId = ''e'',
     rc_permissions = {''*''}, rc_requestId = ''r'', rc_ip = None, rc_idempotencyKey = Some ''k'', rc_ifMatch = None\<rparr>"

definition prepared :: "payment_request list" where
  "prepared = [CreateRequest (person ''u1'') ''b'' ''RUN'' ''k'' ''2026-03-01'',
     AddRequest (person ''u1'') ''b'' ''i'' 1 sample_instruction]"

definition released :: "payment_request list" where
  "released = prepared @ [TransitionRequest (person ''u1'') ''b'' Submit None ''2026-02-27T10:00:00.000Z'',
     TransitionRequest (person ''u2'') ''b'' Approve None ''2026-02-28T10:00:00.000Z'']"

lemma person_releases [simp]: "releaser ''e'' (person who)"
  by (simp add: releaser_def may_write_def person_def hasPermission_def grants_def)

lemma prepared_batch:
  "(case findBatch ''e'' ''b'' (foldl (serve (\<lambda>s. s)) sample_payments prepared) of
      Some found \<Rightarrow> validatePaymentBatch (fb_batch found) = [] | None \<Rightarrow> False)"
  by code_simp

lemma released_batch: "map bw_state (py_batches (foldl (serve (\<lambda>s. s)) sample_payments released)) = [Approved]"
  by code_simp

theorem batch_can_be_released_witness:
  "\<exists>more xml db'. length more \<le> 3 \<and>
    handleGetBatchPain001 (\<lambda>s. s) (person ''u1'') ''b'' ''2026-03-01T10:00:00.000Z''
      (foldl (serve (\<lambda>s. s)) sample_payments (prepared @ more)) = Inr (xml, db')"
proof -
  obtain found where found: "findBatch ''e'' ''b'' (foldl (serve (\<lambda>s. s)) sample_payments prepared) = Some found"
    "validatePaymentBatch (fb_batch found) = []" using prepared_batch by (auto split: option.splits)
  have "py_batches sample_payments = []" "act_id (rc_actor (person ''u1'')) \<noteq> act_id (rc_actor (person ''u2''))"
    by (simp_all add: sample_payments_def person_def)
  from batch_can_be_released [OF this(1) found person_releases person_releases this(2), of "''2026-03-01T10:00:00.000Z''"]
  show ?thesis by blast
qed


lemma released_ready:
  obtains b where "ready ''e'' ''b'' (foldl (serve (\<lambda>s. s)) sample_payments released) b" "bw_state b = Approved" "two_person b"
proof -
  let ?db = "foldl (serve (\<lambda>s. s)) sample_payments released"
  have "(case findBatch ''e'' ''b'' ?db of Some found \<Rightarrow> validatePaymentBatch (fb_batch found) = [] | None \<Rightarrow> False)" by code_simp
  then obtain found where found: "findBatch ''e'' ''b'' ?db = Some found" "validatePaymentBatch (fb_batch found) = []"
    by (auto split: option.splits)
  then obtain b where find: "find (is_batch ''e'' ''b'') (py_batches ?db) = Some b" by (auto simp: findBatch_def split: option.splits)
  have "b \<in> set (py_batches ?db)" using find by (auto simp: find_Some_iff)
  then have "bw_state b = Approved" using released_batch by (auto simp: map_eq_Cons_conv)
  moreover have "py_batches sample_payments = []" by (simp add: sample_payments_def)
  ultimately have "row_ok released b Approved" using reached_rows [of sample_payments "\<lambda>s. s" released] \<open>b \<in> set (py_batches ?db)\<close> by auto
  then have "two_person b" by (auto simp: released_by_two_def two_person_def)
  with find found \<open>bw_state b = Approved\<close> show ?thesis by (intro that [of b]) (simp_all add: ready_def)
qed


section \<open>An instruction that slips in\<close>

text \<open>
  The handler that adds an instruction reads the batch first and writes afterwards, and nothing holds the batch in
  between: when the batch is submitted and approved after the read, the instruction joins the approved batch, and the
  file that is downloaded pays it.
\<close>

definition extra_instruction :: payment_instruction where
  "extra_instruction = sample_instruction\<lparr>pm_endToEndId := ''RUN-2'', pm_amount := 999999\<rparr>"

lemma concurrent_add_slips_in:
  "(case add_instruction_between (person ''u1'') ''b'' ''j'' 2 extra_instruction
      (foldl (serve (\<lambda>s. s)) sample_payments prepared) (foldl (serve (\<lambda>s. s)) sample_payments released) of
      Inr (newId, db) \<Rightarrow> map bw_state (py_batches db) = [Approved] \<and> map pm_amount (instructions_of ''b'' db) = [12345, 999999]
    | Inl _ \<Rightarrow> False)"
  by code_simp

end
