(* ===== verification/Purchase_Handlers.thy ===== *)
theory Purchase_Handlers
  imports Purchase_Repository Payment_Release
begin

text \<open>
  Purchase invoices over HTTP (\<open>apps/web/src/api/handlers/purchase.ts\<close>): capturing, booking, approving and disputing, and
  the requests on the three parts of the books together: the ledger, the purchase invoices and the payment batches.
  A document of the inbox that is linked to the captured invoice in the same transaction is left out.
\<close>

record books =
  bo_ledger :: ledger_db
  bo_purchase :: purchase_db
  bo_payments :: payments_db

definition require_token_permission :: "request_context \<Rightarrow> string \<Rightarrow> api_thrown + unit" where
  "require_token_permission ctx required =
     (if hasPermission ctx required then Inr ()
      else api_error Forbidden (''This token does not have '' @ required @ ''.''))"

definition token_guard :: "request_context \<Rightarrow> string \<Rightarrow> api_thrown + string" where
  "token_guard ctx required =
     and_then (require_token_permission ctx required) (\<lambda>_. requireIdempotencyKey ctx)"

section \<open>Capturing\<close>

text \<open>
  The body after the schema of the boundary: an amount is a string of digits there, so it is never negative. The numbers
  become \<open>bigint\<close>s in \<open>toInput\<close>.
\<close>

record capture_line =
  kl_description :: string
  kl_accountNumber :: string
  kl_taxCode :: string
  kl_net :: nat
  kl_tax :: nat

record capture_body =
  kb_contactNumber :: string
  kb_supplierInvoiceNumber :: string
  kb_kind :: purchase_kind
  kb_invoiceDate :: string
  kb_dueDate :: string
  kb_currency :: string
  kb_net :: nat
  kb_tax :: nat
  kb_total :: nat
  kb_paymentReference :: "string option"
  kb_notes :: "string option"
  kb_lines :: "capture_line list"

definition toInput :: "capture_body \<Rightarrow> purchase_invoice_input" where
  "toInput body =
     \<lparr>ui_supplierInvoiceNumber = kb_supplierInvoiceNumber body, ui_kind = kb_kind body,
      ui_invoiceDate = kb_invoiceDate body, ui_dueDate = kb_dueDate body, ui_currency = kb_currency body,
      ui_net = int (kb_net body), ui_tax = int (kb_tax body), ui_total = int (kb_total body),
      ui_lines = map (\<lambda>l. \<lparr>ul_description = kl_description l, ul_accountNumber = kl_accountNumber l,
        ul_taxCode = kl_taxCode l, ul_net = int (kl_net l), ul_tax = int (kl_tax l)\<rparr>) (kb_lines body)\<rparr>"

definition known_line :: "purchase_context \<Rightarrow> purchase_line_input \<Rightarrow> api_thrown + unit" where
  "known_line ctx l =
     (if map_of (px_accountIdByNumber ctx) (ul_accountNumber l) = None
      then api_error ValidationFailed (''No account '' @ ul_accountNumber l @ ''.'')
      else if map_of (px_taxCodeIdByCode ctx) (ul_taxCode l) = None
      then api_error ValidationFailed (''No tax code '' @ ul_taxCode l @ ''.'')
      else Inr ())"

definition already_sent :: "string \<Rightarrow> string \<Rightarrow> string" where
  "already_sent name number = name @ '' has already sent invoice '' @ number @
     ''. Booking it twice is how an invoice gets paid twice '' @ em_dash @ '' open the one that is already here.''"

definition handleCapturePurchaseInvoice ::
  "request_context \<Rightarrow> string \<Rightarrow> int \<Rightarrow> capture_body \<Rightarrow> books \<Rightarrow> api_thrown + purchase_finding list \<times> books" where
  "handleCapturePurchaseInvoice ctx newId createdAt body bo =
     and_then (token_guard ctx (permission ''draft'')) (\<lambda>_.
     (case loadContext (rc_entityId ctx) (kb_contactNumber body) (bo_purchase bo) (bo_ledger bo) of
        None \<Rightarrow> api_error NotFound (''No contact '' @ kb_contactNumber body @ ''.'')
      | Some px \<Rightarrow>
          let contact = px_contact px; invoice = toInput body in
          if ct_isBlocked contact
          then api_error ValidationFailed (ct_name contact @ '' is blocked. Unblock the contact before booking against it.'')
          else and_then (map_result (known_line px) (ui_lines invoice)) (\<lambda>_.
            if isDuplicate (rc_entityId ctx) (ct_id contact) (ui_supplierInvoiceNumber invoice) None (bo_purchase bo)
            then api_error Conflict (already_sent (ct_name contact) (ui_supplierInvoiceNumber invoice))
            else and_then (in_domain (createDraft newId createdAt (rc_entityId ctx) (ct_id contact) invoice
                (kb_paymentReference body) (kb_notes body) px (bo_purchase bo))) (\<lambda>pdb.
              Inr (checkPurchaseInvoice \<lparr>uc_invoice = invoice, uc_rules = px_rules px, uc_isDuplicate = False\<rparr>,
                bo\<lparr>bo_purchase := pdb\<rparr>)))))"

section \<open>Booking\<close>

definition NO_CREDITORS_ACCOUNT :: string where
  "NO_CREDITORS_ACCOUNT = ''This chart has no creditors control account, so there is nowhere to post the liability. Map one to RGS BSchCre.''"

definition purchase_actor_of :: "request_context \<Rightarrow> purchase_actor" where
  "purchase_actor_of ctx = \<lparr>ua_userId = act_id (rc_actor ctx), ua_actorKind = act_kind (rc_actor ctx)\<rparr>"

definition purchase_event :: "string \<Rightarrow> string \<Rightarrow> string \<Rightarrow> domain_event" where
  "purchase_event entityId invoiceId eventType =
     \<lparr>ev_entityId = entityId, ev_type = eventType, ev_version = versionOf eventType,
      ev_payload = [(''resourceType'', resourceOf eventType), (''resourceId'', invoiceId)]\<rparr>"

definition booking_options :: "request_context \<Rightarrow> string \<Rightarrow> posting_options" where
  "booking_options ctx key =
     \<lparr>op_dryRun = False, op_idempotencyKey = key @ '':book'', op_requestId = Some (rc_requestId ctx), op_ip = rc_ip ctx,
      op_mayPostToSoftClosedPeriod = mayPostToSoftClosedPeriod ctx\<rparr>"

definition booking_request ::
  "string \<Rightarrow> string option \<Rightarrow> purchase_context \<Rightarrow> string \<Rightarrow> purchase_invoice_input \<Rightarrow> purchase_posting_request" where
  "booking_request entityId bookingDate px payable invoice =
     \<lparr>pq_entityId = entityId, pq_journalCode = ''INK'',
      pq_bookingDate = (case bookingDate of Some d \<Rightarrow> d | None \<Rightarrow> ui_invoiceDate invoice),
      pq_contactNumber = ct_number (px_contact px), pq_contactName = ct_name (px_contact px),
      pq_contactId = ct_id (px_contact px), pq_payableAccountNumber = payable, pq_invoice = invoice\<rparr>"

text \<open>The command a captured invoice is booked with, or the first reason to refuse.\<close>

definition booking_command ::
  "(string \<Rightarrow> string \<Rightarrow> int) \<Rightarrow> request_context \<Rightarrow> string \<Rightarrow> string option \<Rightarrow> books \<Rightarrow> api_thrown + post_command" where
  "booking_command collation ctx invoiceId bookingDate bo =
     (let entityId = rc_entityId ctx in
      case load entityId invoiceId (bo_purchase bo) (bo_payments bo) (bo_ledger bo) of
        None \<Rightarrow> api_error NotFound (''No purchase invoice '' @ invoiceId @ ''.'')
      | Some (invoice, found) \<Rightarrow>
          and_then (in_domain (nextPurchaseStatus BookInvoice (pr_state (pv_row found)) (purchase_actor_of ctx))) (\<lambda>_.
          case loadContext entityId (pv_contactNumber found) (bo_purchase bo) (bo_ledger bo) of
            None \<Rightarrow> api_error NotFound (''No contact '' @ pv_contactNumber found @ ''.'')
          | Some px \<Rightarrow>
              (case px_payableAccountNumber px of
                 None \<Rightarrow> api_error ValidationFailed NO_CREDITORS_ACCOUNT
               | Some payable \<Rightarrow>
                   and_then (in_domain (assertBookable (checkPurchaseInvoice \<lparr>uc_invoice = invoice, uc_rules = px_rules px,
                     uc_isDuplicate = isDuplicate entityId (pr_contactId (pv_row found)) (ui_supplierInvoiceNumber invoice)
                       (Some invoiceId) (bo_purchase bo)\<rparr>))) (\<lambda>_.
                   in_domain (buildPurchaseEntry collation (booking_request entityId bookingDate px payable invoice)
                     (px_rules px) (map_of (px_taxAccountByCode px)))))))"

definition handleBookPurchaseInvoice ::
  "platform \<Rightarrow> ledger_db posting_dependencies \<Rightarrow> request_context \<Rightarrow> string \<Rightarrow> string option \<Rightarrow> books
   \<Rightarrow> api_thrown + posted_entry \<times> books" where
  "handleBookPurchaseInvoice env deps ctx invoiceId bookingDate bo =
     and_then (token_guard ctx (permission ''post'')) (\<lambda>key.
     and_then (booking_command (localeCompare env) ctx invoiceId bookingDate bo) (\<lambda>command.
     and_then (in_domain (postJournalEntry env command (rc_actor ctx) (booking_options ctx key) deps (bo_ledger bo)))
       (\<lambda>(posted, ledger).
     and_then (in_domain (enqueueEvent (dep_repository deps)
         (purchase_event (rc_entityId ctx) invoiceId ''purchase.invoice.booked'') ledger)) (\<lambda>ledger'.
       Inr (res_entry posted, bo\<lparr>bo_ledger := ledger', bo_purchase :=
         markBooked (rc_entityId ctx) invoiceId (pe_id (res_entry posted)) (act_id (rc_actor ctx)) (bo_purchase bo)\<rparr>)))))"

section \<open>Approving and disputing\<close>

definition DISPUTE_NEEDS_REASON :: string where
  "DISPUTE_NEEDS_REASON =
     ''A dispute needs a reason. It is what the supplier gets told and what the next person reads.''"

definition handleTransitionPurchaseInvoice ::
  "ledger_db posting_dependencies \<Rightarrow> request_context \<Rightarrow> string \<Rightarrow> purchase_action \<Rightarrow> string option \<Rightarrow> books
   \<Rightarrow> api_thrown + purchase_transition \<times> books" where
  "handleTransitionPurchaseInvoice deps ctx invoiceId action reason bo =
     and_then (token_guard ctx (permission ''approvePurchase'')) (\<lambda>_.
     (case load (rc_entityId ctx) invoiceId (bo_purchase bo) (bo_payments bo) (bo_ledger bo) of
        None \<Rightarrow> api_error NotFound (''No purchase invoice '' @ invoiceId @ ''.'')
      | Some (_, found) \<Rightarrow>
          and_then (in_domain (nextPurchaseStatus action (pr_state (pv_row found)) (purchase_actor_of ctx))) (\<lambda>t.
          if ut_to t = Disputed \<and> js_trim (case reason of Some s \<Rightarrow> s | None \<Rightarrow> []) = []
          then api_error ValidationFailed DISPUTE_NEEDS_REASON
          else and_then (in_domain (transition_purchase (rc_entityId ctx) invoiceId (ut_to t) (act_id (rc_actor ctx)) reason
                (dep_now deps) (bo_purchase bo))) (\<lambda>pdb.
            if ut_to t = PurchaseApproved
            then and_then (in_domain (enqueueEvent (dep_repository deps)
                (purchase_event (rc_entityId ctx) invoiceId ''purchase.invoice.approved'') (bo_ledger bo))) (\<lambda>ledger.
              Inr (t, bo\<lparr>bo_purchase := pdb, bo_ledger := ledger\<rparr>))
            else Inr (t, bo\<lparr>bo_purchase := pdb\<rparr>)))))"

section \<open>The report\<close>

record ageing_report =
  ar_asOf :: string
  ar_payableAccountNumber :: string
  ar_buckets :: "ageing_bucket list"
  ar_total :: int
  ar_reconciliation :: reconciliation_result
  ar_reconciles :: bool

definition handleGetCreditorAgeing ::
  "(string \<Rightarrow> string \<Rightarrow> int) \<Rightarrow> request_context \<Rightarrow> string \<Rightarrow> books \<Rightarrow> api_thrown + ageing_report" where
  "handleGetCreditorAgeing collation ctx asOf bo =
     and_then (require_token_permission ctx (permission ''read'')) (\<lambda>_.
       let buckets = ageing collation (rc_entityId ctx) asOf (bo_purchase bo) (bo_payments bo) in
       case payableAccountNumber (rc_entityId ctx) (bo_ledger bo) of
         None \<Rightarrow> api_error ValidationFailed
           ''This chart has no creditors control account, so there is nothing to reconcile against. Map one to RGS BSchCre.''
       | Some account \<Rightarrow>
           let reconciliation = reconcileToControlAccount (rc_entityId ctx) account (bo_purchase bo) (bo_payments bo) (bo_ledger bo)
           in Inr \<lparr>ar_asOf = asOf, ar_payableAccountNumber = account, ar_buckets = buckets,
                ar_total = (\<Sum>b\<leftarrow>buckets. ab_total b), ar_reconciliation = reconciliation,
                ar_reconciles = (rc_difference reconciliation = 0)\<rparr>)"

section \<open>Requests on the books\<close>

datatype books_request =
    CaptureRequest request_context string int capture_body
  | BookRequest "ledger_db posting_dependencies" request_context string "string option"
  | MoveInvoiceRequest "ledger_db posting_dependencies" request_context string purchase_action "string option"
  | BatchRequest payment_request

text \<open>A payment run works on the suppliers the purchase repository answers in the same transaction.\<close>

fun with_suppliers :: "books \<Rightarrow> payment_request \<Rightarrow> payment_request" where
  "with_suppliers bo (AddInvoicesRequest ctx collation _ batchId newId createdAt) =
     AddInvoicesRequest ctx collation (payableSuppliers collation (rc_entityId ctx) (bo_purchase bo) (bo_payments bo))
       batchId newId createdAt"
| "with_suppliers bo req = req"

definition after_books :: "books \<Rightarrow> api_thrown + 'a \<times> books \<Rightarrow> books" where
  "after_books bo r = (case r of Inl _ \<Rightarrow> bo | Inr (_, bo') \<Rightarrow> bo')"

fun serve_books :: "platform \<Rightarrow> books \<Rightarrow> books_request \<Rightarrow> books" where
  "serve_books env bo (CaptureRequest ctx newId createdAt body) =
     after_books bo (handleCapturePurchaseInvoice ctx newId createdAt body bo)"
| "serve_books env bo (BookRequest deps ctx invoiceId bookingDate) =
     after_books bo (handleBookPurchaseInvoice env deps ctx invoiceId bookingDate bo)"
| "serve_books env bo (MoveInvoiceRequest deps ctx invoiceId action reason) =
     after_books bo (handleTransitionPurchaseInvoice deps ctx invoiceId action reason bo)"
| "serve_books env bo (BatchRequest req) =
     bo\<lparr>bo_payments := serve (sha256 env) (bo_payments bo) (with_suppliers bo req)\<rparr>"

text \<open>What holds of every request at the books it is served on.\<close>

fun all_requests :: "(books \<Rightarrow> books_request \<Rightarrow> bool) \<Rightarrow> platform \<Rightarrow> books \<Rightarrow> books_request list \<Rightarrow> bool" where
  "all_requests ok env bo [] \<longleftrightarrow> True"
| "all_requests ok env bo (req # reqs) \<longleftrightarrow> ok bo req \<and> all_requests ok env (serve_books env bo req) reqs"

lemma all_requests_True [simp]: "all_requests (\<lambda>_ _. True) env bo reqs"
  by (induction reqs arbitrary: bo) simp_all

section \<open>Invariants of the books\<close>

text \<open>
  An invariant is proved per handler: what each one does when it succeeds, because a request that is refused changes
  nothing. A side condition on the requests may be used.
\<close>

locale books_invariant =
  fixes env :: platform and I :: "books \<Rightarrow> bool" and ok :: "books \<Rightarrow> books_request \<Rightarrow> bool"
  assumes captured: "I bo \<Longrightarrow> handleCapturePurchaseInvoice ctx newId createdAt body bo = Inr (fs, bo') \<Longrightarrow> I bo'"
    and booked: "I bo \<Longrightarrow> ok bo (BookRequest deps ctx invoiceId bookingDate) \<Longrightarrow>
      handleBookPurchaseInvoice env deps ctx invoiceId bookingDate bo = Inr (e, bo') \<Longrightarrow> I bo'"
    and moved_on: "I bo \<Longrightarrow> ok bo (MoveInvoiceRequest deps ctx invoiceId action reason) \<Longrightarrow>
      handleTransitionPurchaseInvoice deps ctx invoiceId action reason bo = Inr (t, bo') \<Longrightarrow> I bo'"
    and batched: "I bo \<Longrightarrow> I (bo\<lparr>bo_payments := serve (sha256 env) (bo_payments bo) (with_suppliers bo req)\<rparr>)"
begin

lemma served: "I bo \<Longrightarrow> ok bo req \<Longrightarrow> I (serve_books env bo req)"
  by (cases req) (auto simp: after_books_def intro: captured booked moved_on batched split: sum.splits)

lemma kept: "I bo \<Longrightarrow> all_requests ok env bo reqs \<Longrightarrow> I (foldl (serve_books env) bo reqs)"
  by (induction reqs arbitrary: bo) (auto intro: served)

end

section \<open>What a handler that succeeds has done\<close>

lemma captured_draft:
  assumes "handleCapturePurchaseInvoice ctx newId createdAt body bo = Inr (fs, bo')"
  obtains px pdb where "loadContext (rc_entityId ctx) (kb_contactNumber body) (bo_purchase bo) (bo_ledger bo) = Some px"
    "createDraft newId createdAt (rc_entityId ctx) (ct_id (px_contact px)) (toInput body) (kb_paymentReference body)
       (kb_notes body) px (bo_purchase bo) = Inr pdb" "bo' = bo\<lparr>bo_purchase := pdb\<rparr>"
  using assms by (auto simp: handleCapturePurchaseInvoice_def and_then_Inr Let_def split: option.splits if_splits)

lemma booked_entry:
  assumes "handleBookPurchaseInvoice env deps ctx invoiceId bookingDate bo = Inr (e, bo')"
  obtains key command posted ledger ledger' where "requireIdempotencyKey ctx = Inr key"
    "booking_command (localeCompare env) ctx invoiceId bookingDate bo = Inr command"
    "postJournalEntry env command (rc_actor ctx) (booking_options ctx key) deps (bo_ledger bo) = Inr (posted, ledger)"
    "enqueueEvent (dep_repository deps) (purchase_event (rc_entityId ctx) invoiceId ''purchase.invoice.booked'') ledger = Inr ledger'"
    "bo' = bo\<lparr>bo_ledger := ledger', bo_purchase :=
       markBooked (rc_entityId ctx) invoiceId (pe_id (res_entry posted)) (act_id (rc_actor ctx)) (bo_purchase bo)\<rparr>"
  using assms by (auto simp: handleBookPurchaseInvoice_def token_guard_def and_then_Inr split: prod.splits)

lemma moved_invoice:
  assumes "handleTransitionPurchaseInvoice deps ctx invoiceId action reason bo = Inr (t, bo')"
  obtains invoice found pdb where
    "load (rc_entityId ctx) invoiceId (bo_purchase bo) (bo_payments bo) (bo_ledger bo) = Some (invoice, found)"
    "nextPurchaseStatus action (pr_state (pv_row found)) (purchase_actor_of ctx) = Inr t"
    "transition_purchase (rc_entityId ctx) invoiceId (ut_to t) (act_id (rc_actor ctx)) reason (dep_now deps) (bo_purchase bo) = Inr pdb"
    "bo_purchase bo' = pdb" "bo_payments bo' = bo_payments bo"
    "bo_ledger bo' = bo_ledger bo \<or> enqueueEvent (dep_repository deps)
       (purchase_event (rc_entityId ctx) invoiceId ''purchase.invoice.approved'') (bo_ledger bo) = Inr (bo_ledger bo')"
  using assms by (auto simp: handleTransitionPurchaseInvoice_def and_then_Inr Let_def split: option.splits prod.splits if_splits)

end
