(* ===== verification/Purchase_Runs.thy ===== *)
theory Purchase_Runs
  imports Purchase_Handlers Ledger_Sample
begin

text \<open>
  Payment runs over purchase invoices: whatever is captured, booked, approved and put in batches, no invoice is scheduled
  twice. The proof is an invariant of the books over every request of \<open>Purchase_Handlers\<close>.
\<close>

section \<open>What a payment run may pick up, as a multiset\<close>

definition due_of :: "purchase_invoice_row \<Rightarrow> string \<times> int" where
  "due_of v = (pr_invoiceId (pv_row v), \<bar>pv_unscheduled v\<bar>)"

definition item_due :: "payable_item \<Rightarrow> string \<times> int" where
  "item_due i = (pi_invoiceId i, pi_outstanding i)"

definition planned_due :: "planned_allocation \<Rightarrow> string \<times> int" where
  "planned_due a = (pa_invoiceId a, pa_amount a)"

definition allocated_due :: "allocation_row \<Rightarrow> string \<times> int" where
  "allocated_due a = (al_invoiceId a, al_amount a)"

lemma mset_concat_map: "mset (concat (map g xs)) = (\<Sum>x\<leftarrow>xs. mset (g x))"
  by (induction xs) simp_all

lemma sum_concat: "(\<Sum>x\<leftarrow>concat (map g ss). h x) = (\<Sum>s\<leftarrow>ss. \<Sum>x\<leftarrow>g s. h x :: 'b multiset)"
  by (induction ss) simp_all

lemma sum_mono_mset: "(\<And>s. f s \<subseteq># g s) \<Longrightarrow> (\<Sum>s\<leftarrow>ss. f s) \<subseteq># (\<Sum>s\<leftarrow>ss. g s)"
  by (induction ss) (simp_all add: subset_mset.add_mono)

lemma mset_singletons: "(\<Sum>x\<leftarrow>xs. {#h x#}) = mset (map h xs)"
  by (induction xs) simp_all

lemma mset_concat_groups: "mset (concat (map (\<lambda>g. map h (snd g)) (group_by key xs))) = mset (map h xs)"
proof -
  have "mset (concat (map (\<lambda>g. map h (snd g)) (group_by key xs))) = (\<Sum>g\<leftarrow>group_by key xs. \<Sum>x\<leftarrow>snd g. {#h x#})"
    unfolding mset_concat_map mset_singletons ..
  also have "\<dots> = (\<Sum>x\<leftarrow>xs. {#h x#})" by (rule sum_group_by)
  also have "\<dots> = mset (map h xs)" by (rule mset_singletons)
  finally show ?thesis .
qed

lemma supplier_items:
  "mset (map item_due (concat (map ps_items (payableSuppliers collation entityId pdb payments)))) =
   mset (map due_of (payable_rows entityId pdb payments))"
proof -
  have items: "map item_due (ps_items (supplier_of pdb vs)) = map due_of vs" for vs
    by (simp add: supplier_of_def Let_def payable_of_def item_due_def due_of_def)
  have "mset (map item_due (concat (map ps_items (payableSuppliers collation entityId pdb payments)))) =
      (\<Sum>s\<leftarrow>payableSuppliers collation entityId pdb payments. mset (map item_due (ps_items s)))"
    by (simp only: map_concat map_map comp_def mset_concat_map)
  also have "\<dots> = (\<Sum>g\<leftarrow>group_by (\<lambda>v. pr_contactId (pv_row v)) (payable_rows entityId pdb payments). mset (map due_of (snd g)))"
    unfolding payableSuppliers_def sum_list_sort_by by (simp only: map_map comp_def items)
  also have "\<dots> = mset (map due_of (payable_rows entityId pdb payments))"
    unfolding mset_concat_map [symmetric] mset_concat_groups ..
  finally show ?thesis .
qed

text \<open>A plan allocates documents of the suppliers it was given, each at most as often as it occurs there.\<close>

lemma planned_items:
  "mset (map planned_due (concat (map pl_allocations (rp_instructions (planPaymentRun collation request))))) \<subseteq>#
   mset (map item_due (concat (map ps_items (rq_suppliers request))))"
proof -
  let ?plan = "plan_supplier collation request"
  let ?out = "\<lambda>s. case ?plan s of Inr i \<Rightarrow> [i] | Inl _ \<Rightarrow> []"
  have one: "mset (map planned_due (concat (map pl_allocations (?out s)))) \<subseteq># mset (map item_due (ps_items s))" for s
  proof (cases "?plan s")
    case (Inr p)
    have same: "planned_due (allocation_of i) = item_due i" for i by (simp add: planned_due_def allocation_of_def item_due_def)
    from planned_supplier(1) [OF Inr] have "mset (pl_allocations p) = mset (map allocation_of (ps_items s))"
      by (simp add: settles_def)
    then have "image_mset planned_due (mset (pl_allocations p)) = image_mset planned_due (mset (map allocation_of (ps_items s)))" by simp
    then show ?thesis using Inr by (simp add: same comp_def flip: mset_map)
  qed simp
  have "mset (map planned_due (concat (map pl_allocations (rp_instructions (planPaymentRun collation request))))) =
      (\<Sum>p\<leftarrow>rp_instructions (planPaymentRun collation request). mset (map planned_due (pl_allocations p)))"
    by (simp only: map_concat map_map comp_def mset_concat_map)
  also have "\<dots> = (\<Sum>p\<leftarrow>concat (map ?out (rq_suppliers request)). mset (map planned_due (pl_allocations p)))"
    unfolding planPaymentRun_def Let_def payment_run_plan.simps sum_list_sort_by by (simp only: map_map comp_def)
  also have "\<dots> = (\<Sum>s\<leftarrow>rq_suppliers request. mset (map planned_due (concat (map pl_allocations (?out s)))))"
    unfolding sum_concat by (simp only: map_concat map_map comp_def mset_concat_map)
  also have "\<dots> \<subseteq># (\<Sum>s\<leftarrow>rq_suppliers request. mset (map item_due (ps_items s)))"
    by (rule sum_mono_mset) (rule one)
  also have "\<dots> = mset (map item_due (concat (map ps_items (rq_suppliers request))))"
    by (simp only: map_concat map_map comp_def mset_concat_map)
  finally show ?thesis .
qed

section \<open>What a request does to the allocations\<close>

lemma allocated_rows:
  assumes "allocateToInstruction e i allocations db = Inr db'"
  shows "\<exists>new. py_allocations db' = py_allocations db @ new \<and> map allocated_due new = allocations \<and> (\<forall>a \<in> set new. al_entityId a = e)"
  using assms by (auto simp: allocateToInstruction_def Let_def allocated_due_def comp_def split: if_splits)

lemma added_allocations: "addInstruction row db = Inr db' \<Longrightarrow> py_allocations db' = py_allocations db"
  by (auto simp: addInstruction_def split: if_splits)

lemma planned_allocations:
  assumes "add_planned ctx batchId newId createdAt n ps db = Inr db'"
  shows "\<exists>new. py_allocations db' = py_allocations db @ new \<and>
    map allocated_due new = map planned_due (concat (map pl_allocations ps)) \<and> (\<forall>a \<in> set new. al_entityId a = rc_entityId ctx)"
  using assms
proof (induction ps arbitrary: n db)
  case (Cons p ps)
  then obtain db1 db2 where db1: "addInstruction (planned_row ctx batchId (newId n) createdAt p) db = Inr db1"
    and db2: "allocateToInstruction (rc_entityId ctx) (newId n) (map (\<lambda>a. (pa_invoiceId a, pa_amount a)) (pl_allocations p)) db1 = Inr db2"
    and rest: "add_planned ctx batchId newId createdAt (n + 1) ps db2 = Inr db'" by (auto simp: and_then_Inr)
  obtain new1 where new1: "py_allocations db2 = py_allocations db1 @ new1" "map allocated_due new1 = map planned_due (pl_allocations p)"
    "\<forall>a \<in> set new1. al_entityId a = rc_entityId ctx" using allocated_rows [OF db2] by (auto simp: planned_due_def)
  obtain new2 where "py_allocations db' = py_allocations db2 @ new2"
    "map allocated_due new2 = map planned_due (concat (map pl_allocations ps))" "\<forall>a \<in> set new2. al_entityId a = rc_entityId ctx"
    using Cons.IH [OF rest] by blast
  with new1 added_allocations [OF db1] show ?case by (intro exI [of _ "new1 @ new2"]) auto
qed simp

text \<open>Every request but a payment run keeps allocations or removes some with their instruction.\<close>

lemma other_allocations:
  assumes "\<And>ctx collation suppliers batchId newId createdAt. req \<noteq> AddInvoicesRequest ctx collation suppliers batchId newId createdAt"
  shows "\<exists>P. py_allocations (serve digest db req) = filter P (py_allocations db)"
proof -
  have same: "\<exists>P. xs = filter P xs" for xs :: "allocation_row list" by (intro exI [of _ "\<lambda>_. True"]) simp
  have moved: "py_allocations db' = py_allocations db" if "transition e i a u k r now db = Inr (s, db')" for e i a u k r now s db'
    using that by (auto simp: transition_def and_then_Inr Let_def update_batch_def split: option.splits if_splits)
  have event: "py_allocations (batch_exported_event e i db') = py_allocations db'" for e i db' by (simp add: batch_exported_event_def)
  have hash: "py_allocations (recordExport e i h db') = py_allocations db'" for e i h db' by (simp add: recordExport_def update_batch_def)
  show ?thesis
  proof (cases req)
    case (CreateRequest ctx newId reference bankAccountId date)
    have "py_allocations (serve digest db req) = py_allocations db"
      by (auto simp: CreateRequest after_def handleCreateBatch_def createBatch_def and_then_Inr
          split: sum.splits prod.splits option.splits if_splits)
    then show ?thesis using same by metis
  next
    case (AddRequest ctx batchId newId createdAt body)
    have "py_allocations (serve digest db req) = py_allocations db"
      by (auto simp: AddRequest after_def handleAddInstruction_def add_instruction_between_def and_then_Inr
          split: sum.splits prod.splits dest: added_allocations)
    then show ?thesis using same by metis
  next
    case (RemoveInstructionRequest ctx batchId instructionId)
    show ?thesis
    proof (cases "handleRemoveInstruction ctx batchId instructionId db")
      case (Inl f)
      then show ?thesis using same RemoveInstructionRequest by simp
    next
      case (Inr y)
      then have "snd y = snd (removeInstruction (rc_entityId ctx) batchId instructionId db)"
        by (auto simp: handleRemoveInstruction_def and_then_Inr Let_def split: prod.splits if_splits)
      then show ?thesis using Inr RemoveInstructionRequest by (cases y) (auto simp: removeInstruction_def Let_def)
    qed
  next
    case (TransitionRequest ctx batchId action reason now)
    show ?thesis
    proof (cases "handleTransitionBatch ctx batchId action reason now db")
      case (Inl f)
      then show ?thesis using same TransitionRequest by simp
    next
      case (Inr y)
      then obtain state db1 where "transition (rc_entityId ctx) batchId action (act_id (rc_actor ctx)) (act_kind (rc_actor ctx))
          reason now db = Inr (state, db1)" "snd y = (if state = Exported then batch_exported_event (rc_entityId ctx) batchId db1 else db1)"
        by (auto simp: handleTransitionBatch_def and_then_Inr Let_def split: prod.splits if_splits)
      then have "py_allocations (snd y) = py_allocations db" using moved event by simp
      then have "py_allocations (serve digest db req) = py_allocations db" using Inr TransitionRequest by (cases y) simp
      then show ?thesis using same by metis
    qed
  next
    case (DownloadRequest ctx batchId now)
    show ?thesis
    proof (cases "handleGetBatchPain001 digest ctx batchId now db")
      case (Inl f)
      then show ?thesis using same DownloadRequest by simp
    next
      case (Inr y)
      then have "py_allocations (snd y) = py_allocations db"
        by (auto simp: handleGetBatchPain001_def and_then_Inr Let_def event hash split: if_splits prod.splits dest: moved)
      then have "py_allocations (serve digest db req) = py_allocations db" using Inr DownloadRequest by (cases y) simp
      then show ?thesis using same by metis
    qed
  qed (use assms in blast)
qed

lemma run_allocations:
  assumes "serve digest db (AddInvoicesRequest ctx collation suppliers batchId newId createdAt) = db'"
  shows "\<exists>new. py_allocations db' = py_allocations db @ new \<and>
    mset (map allocated_due new) \<subseteq># mset (map item_due (concat (map ps_items suppliers))) \<and> (\<forall>a \<in> set new. al_entityId a = rc_entityId ctx)"
proof (cases "handleAddApprovedInvoices ctx collation suppliers batchId newId createdAt db")
  case (Inr y)
  then obtain reference where "add_planned ctx batchId newId createdAt 0 (rp_instructions (planPaymentRun collation
      \<lparr>rq_suppliers = suppliers, rq_currency = ''EUR'', rq_batchReference = reference\<rparr>)) db = Inr (snd y)"
    by (auto simp: handleAddApprovedInvoices_def and_then_Inr Let_def split: if_splits)
  from planned_allocations [OF this] obtain new where new: "py_allocations (snd y) = py_allocations db @ new"
    "map allocated_due new = map planned_due (concat (map pl_allocations (rp_instructions (planPaymentRun collation
      \<lparr>rq_suppliers = suppliers, rq_currency = ''EUR'', rq_batchReference = reference\<rparr>))))"
    "\<forall>a \<in> set new. al_entityId a = rc_entityId ctx" by blast
  have "mset (map allocated_due new) \<subseteq># mset (map item_due (concat (map ps_items suppliers)))"
    unfolding new(2) using planned_items [of collation "\<lparr>rq_suppliers = suppliers, rq_currency = ''EUR'', rq_batchReference = reference\<rparr>"]
    by (simp only: payment_run_request.simps)
  with new(1,3) show ?thesis using Inr assms by (cases y) (auto simp: after_def)
qed (use assms in \<open>auto simp: after_def\<close>)

section \<open>The invariant\<close>

text \<open>
  Every allocation schedules one invoice of the same administration in full, and no invoice has two. Nothing is paid
  through the bank here, and the amounts of the captured documents are not negative.
\<close>

definition scheduled_once :: "purchase_db \<Rightarrow> payments_db \<Rightarrow> bool" where
  "scheduled_once pdb payments \<longleftrightarrow>
     distinct (map pr_invoiceId (pu_invoices pdb)) \<and> pu_bankAllocations pdb = [] \<and>
     distinct (map al_invoiceId (py_allocations payments)) \<and> (\<forall>r \<in> set (pu_invoices pdb). 0 \<le> pr_total r) \<and>
     (\<forall>a \<in> set (py_allocations payments). \<exists>r \<in> set (pu_invoices pdb). pr_invoiceId r = al_invoiceId a \<and>
        pr_entity r = al_entityId a \<and> pr_total r = al_amount a)"

lemma sum_one:
  "distinct (map f xs) \<Longrightarrow> (\<Sum>x\<leftarrow>filter (\<lambda>x. f x = k) xs. g x :: int) = (case find (\<lambda>x. f x = k) xs of None \<Rightarrow> 0 | Some x \<Rightarrow> g x)"
proof (induction xs)
  case (Cons x xs)
  show ?case
  proof (cases "f x = k")
    case True
    with Cons.prems have "\<forall>y \<in> set xs. f y \<noteq> k" by (auto simp: image_iff)
    then have "filter (\<lambda>x. f x = k) xs = []" by (simp add: filter_empty_conv)
    with True show ?thesis by simp
  qed (use Cons in simp)
qed simp

lemma scheduled_amount:
  assumes "scheduled_once pdb payments" "r \<in> set (pu_invoices pdb)"
  shows "fst (allocatedFor e pdb payments i) = 0"
    and "(\<forall>a \<in> set (py_allocations payments). al_invoiceId a \<noteq> pr_invoiceId r) \<and>
        snd (allocatedFor (pr_entity r) pdb payments (pr_invoiceId r)) = 0 \<or>
      (\<exists>a \<in> set (py_allocations payments). al_invoiceId a = pr_invoiceId r) \<and>
        snd (allocatedFor (pr_entity r) pdb payments (pr_invoiceId r)) = pr_total r"
proof -
  show "fst (allocatedFor e pdb payments i) = 0" using assms(1) by (simp add: scheduled_once_def allocatedFor_def)
  have own: "al_entityId a = pr_entity r \<and> al_amount a = pr_total r"
    if a: "a \<in> set (py_allocations payments)" "al_invoiceId a = pr_invoiceId r" for a
  proof -
    obtain r' where "r' \<in> set (pu_invoices pdb)" "pr_invoiceId r' = al_invoiceId a" "pr_entity r' = al_entityId a"
      "pr_total r' = al_amount a" using assms(1) a(1) by (auto simp: scheduled_once_def)
    moreover from this(1,2) a(2) assms have "r' = r" by (auto simp: scheduled_once_def distinct_map dest: inj_onD)
    ultimately show ?thesis by simp
  qed
  have "filter (\<lambda>a. al_entityId a = pr_entity r \<and> al_invoiceId a = pr_invoiceId r) (py_allocations payments) =
      filter (\<lambda>a. al_invoiceId a = pr_invoiceId r) (py_allocations payments)"
    using own by (intro filter_cong) auto
  then have "snd (allocatedFor (pr_entity r) pdb payments (pr_invoiceId r)) =
      (case find (\<lambda>a. al_invoiceId a = pr_invoiceId r) (py_allocations payments) of None \<Rightarrow> 0 | Some a \<Rightarrow> al_amount a)"
    using sum_one [where f = al_invoiceId and xs = "py_allocations payments" and k = "pr_invoiceId r" and g = al_amount] assms(1)
    by (simp add: allocatedFor_def scheduled_once_def)
  then show "(\<forall>a \<in> set (py_allocations payments). al_invoiceId a \<noteq> pr_invoiceId r) \<and>
        snd (allocatedFor (pr_entity r) pdb payments (pr_invoiceId r)) = 0 \<or>
      (\<exists>a \<in> set (py_allocations payments). al_invoiceId a = pr_invoiceId r) \<and>
        snd (allocatedFor (pr_entity r) pdb payments (pr_invoiceId r)) = pr_total r"
  proof (cases "find (\<lambda>a. al_invoiceId a = pr_invoiceId r) (py_allocations payments)")
    case None
    with \<open>snd _ = _\<close> show ?thesis by (simp add: find_None_iff)
  next
    case (Some a)
    then have "a \<in> set (py_allocations payments) \<and> al_invoiceId a = pr_invoiceId r" by (auto simp: find_Some_iff)
    with own Some \<open>snd _ = _\<close> show ?thesis by auto
  qed
qed

text \<open>The rows a run may pick up: distinct invoices of the administration, unscheduled, due in full.\<close>

lemma settled_row:
  "with_settlement pdb payments e r = Some v \<Longrightarrow> pv_row v = r \<and>
   pv_unscheduled v = pr_total r - fst (allocatedFor e pdb payments (pr_invoiceId r)) - snd (allocatedFor e pdb payments (pr_invoiceId r))"
  by (auto simp: with_settlement_def settlement_def Let_def)

lemma settled_rows: "map pv_row (List.map_filter (with_settlement pdb payments e) rs) = filter (\<lambda>r. contact_of pdb r \<noteq> None) rs"
proof (induction rs)
  case (Cons r rs)
  then show ?case
    by (cases "contact_of pdb r") (simp_all add: List.map_filter_simps with_settlement_def settlement_def Let_def)
qed (simp add: List.map_filter_simps)

lemma payable_row:
  assumes "scheduled_once pdb payments" "v \<in> set (payable_rows e pdb payments)"
  shows "pv_row v \<in> set (pu_invoices pdb)" "pr_entity (pv_row v) = e" "pv_unscheduled v = pr_total (pv_row v)"
    "\<forall>a \<in> set (py_allocations payments). al_invoiceId a \<noteq> pr_invoiceId (pv_row v)"
proof -
  from assms(2) obtain r where r: "r \<in> set (pu_invoices pdb)" "pr_entity r = e" "with_settlement pdb payments e r = Some v"
    and due: "pv_unscheduled v \<noteq> 0"
    by (auto simp: payable_rows_def list_purchases_def Let_def map_filter_def)
  note v = settled_row [OF r(3)]
  then show "pv_row v \<in> set (pu_invoices pdb)" "pr_entity (pv_row v) = e" using r by simp_all
  have "pv_unscheduled v = pr_total r - snd (allocatedFor e pdb payments (pr_invoiceId r))"
    using v scheduled_amount(1) [OF assms(1) r(1)] by simp
  with due scheduled_amount(2) [OF assms(1) r(1)] v r(2)
  show "pv_unscheduled v = pr_total (pv_row v)" "\<forall>a \<in> set (py_allocations payments). al_invoiceId a \<noteq> pr_invoiceId (pv_row v)"
    by auto
qed

lemma payable_distinct:
  assumes "distinct (map pr_invoiceId (pu_invoices pdb))"
  shows "distinct (map (\<lambda>v. pr_invoiceId (pv_row v)) (payable_rows e pdb payments))"
proof -
  let ?rs = "sort_by (\<lambda>a b. cmp_or (text_compare (pr_invoiceDate b) (pr_invoiceDate a)) (int_compare (pr_createdAt b) (pr_createdAt a)))
    (filter (\<lambda>r. pr_entity r = e) (pu_invoices pdb))"
  have "distinct (map pr_invoiceId (filter Q ?rs))" for Q
    using assms by (auto simp: distinct_map inj_on_def)
  then have "distinct (map pr_invoiceId (map pv_row (List.map_filter (with_settlement pdb payments e) ?rs)))"
    by (simp add: settled_rows)
  then show ?thesis unfolding payable_rows_def list_purchases_def Let_def
    by (simp add: comp_def distinct_map_filter)
qed

lemma distinct_mono_mset: "distinct ys \<Longrightarrow> mset xs \<subseteq># mset ys \<Longrightarrow> distinct xs"
proof -
  assume ys: "distinct ys" and sub: "mset xs \<subseteq># mset ys"
  have "count (mset xs) a = (if a \<in> set xs then 1 else 0)" for a
  proof -
    have "count (mset xs) a \<le> count (mset ys) a" by (rule mset_subset_eq_count [OF sub])
    also have "\<dots> \<le> 1" using ys by (simp add: distinct_count_atmost_1)
    finally have "count (mset xs) a \<le> 1" .
    moreover have "1 \<le> count (mset xs) a" if "a \<in> set xs" using that by (metis count_greater_eq_one_iff set_mset_mset)
    ultimately have "a \<in> set xs \<Longrightarrow> count (mset xs) a = 1" by (rule le_antisym)
    then show ?thesis by (simp add: not_in_iff [symmetric])
  qed
  then show "distinct xs" by (simp add: distinct_count_atmost_1)
qed

text \<open>A payment run keeps the invariant.\<close>

lemma run_keeps:
  assumes inv: "scheduled_once pdb payments"
    and new: "py_allocations payments' = py_allocations payments @ new" "\<forall>a \<in> set new. al_entityId a = e"
      "mset (map allocated_due new) \<subseteq># mset (map due_of (payable_rows e pdb payments))"
  shows "scheduled_once pdb payments'"
proof -
  have "image_mset fst (mset (map allocated_due new)) \<subseteq># image_mset fst (mset (map due_of (payable_rows e pdb payments)))"
    by (rule image_mset_subseteq_mono [OF new(3)])
  then have ids: "mset (map al_invoiceId new) \<subseteq># mset (map (\<lambda>v. pr_invoiceId (pv_row v)) (payable_rows e pdb payments))"
    by (simp add: allocated_due_def due_of_def comp_def multiset.map_comp)
  have "distinct (map pr_invoiceId (pu_invoices pdb))" using inv by (simp add: scheduled_once_def)
  from payable_distinct [OF this, of e payments] have fresh: "distinct (map al_invoiceId new)"
    using ids by (rule distinct_mono_mset)
  have row: "\<exists>v \<in> set (payable_rows e pdb payments). al_invoiceId a = pr_invoiceId (pv_row v) \<and> al_amount a = \<bar>pv_unscheduled v\<bar>"
    if "a \<in> set new" for a
  proof -
    have "allocated_due a \<in># mset (map due_of (payable_rows e pdb payments))"
      using mset_subset_eqD [OF new(3), of "allocated_due a"] that by simp
    then show ?thesis by (auto simp: allocated_due_def due_of_def)
  qed
  have "\<exists>r \<in> set (pu_invoices pdb). pr_invoiceId r = al_invoiceId a \<and> pr_entity r = al_entityId a \<and> pr_total r = al_amount a"
    if a: "a \<in> set new" for a
  proof -
    obtain v where v: "v \<in> set (payable_rows e pdb payments)" "al_invoiceId a = pr_invoiceId (pv_row v)" "al_amount a = \<bar>pv_unscheduled v\<bar>"
      using row [OF a] by blast
    note facts = payable_row [OF inv v(1)]
    have "0 \<le> pr_total (pv_row v)" using inv facts(1) by (simp add: scheduled_once_def)
    with v facts new(2) a show ?thesis by (intro bexI [of _ "pv_row v"]) auto
  qed
  moreover have "set (map al_invoiceId (py_allocations payments)) \<inter> set (map al_invoiceId new) = {}"
    using row payable_row(4) [OF inv] by fastforce
  ultimately show ?thesis using inv fresh new(1) by (auto simp: scheduled_once_def)
qed

section \<open>No invoice is scheduled twice\<close>

definition once :: "books \<Rightarrow> bool" where
  "once bo \<longleftrightarrow> scheduled_once (bo_purchase bo) (bo_payments bo)"

lemma once_update:
  assumes "\<And>r. pr_invoiceId (f r) = pr_invoiceId r \<and> pr_entity (f r) = pr_entity r \<and> pr_total (f r) = pr_total r"
    and "scheduled_once pdb payments"
  shows "scheduled_once (update_purchase e i f pdb) payments"
proof -
  define g where "g = (\<lambda>r. if is_purchase e i r then f r else r)"
  have g: "pr_invoiceId (g r) = pr_invoiceId r" "pr_entity (g r) = pr_entity r" "pr_total (g r) = pr_total r" for r
    using assms(1) by (simp_all add: g_def)
  have rows: "pu_invoices (update_purchase e i f pdb) = map g (pu_invoices pdb)"
    "pu_bankAllocations (update_purchase e i f pdb) = pu_bankAllocations pdb" by (simp_all add: update_purchase_def g_def)
  show ?thesis using assms(2) by (simp add: scheduled_once_def rows comp_def g)
qed

text \<open>A transition changes the status and who approved it.\<close>

lemma purchase_transition_rows:
  assumes "transition_purchase e i status who reason now pdb = Inr pdb'"
  shows "\<exists>f. pdb' = update_purchase e i f pdb \<and> (\<forall>r. pr_invoiceId (f r) = pr_invoiceId r \<and> pr_entity (f r) = pr_entity r \<and>
    pr_total (f r) = pr_total r \<and> pr_kind (f r) = pr_kind r \<and> pr_contactId (f r) = pr_contactId r \<and> pr_state (f r) = status \<and>
    pr_journalEntryId (f r) = pr_journalEntryId r) \<and> (\<forall>r \<in> set (pu_invoices pdb). is_purchase e i r \<longrightarrow> booked_is_complete (f r))"
proof -
  define f :: "purchase_row \<Rightarrow> purchase_row" where "f = (\<lambda>r. r\<lparr>pr_state := status, pr_approvedBy := (if status = PurchaseApproved then Some who else None),
    pr_approvedAt := (if status = PurchaseApproved then Some now else None),
    pr_disputedReason := (if status = Disputed then reason else None)\<rparr>)"
  have "pdb' = update_purchase e i f pdb \<and> (\<forall>r \<in> set (pu_invoices pdb). is_purchase e i r \<longrightarrow> booked_is_complete (f r))"
    using assms unfolding f_def by (auto simp: transition_purchase_def Let_def list_ex_iff split: if_splits)
  then show ?thesis by (intro exI [of _ f]) (simp add: f_def)
qed

lemma draft_row:
  assumes "createDraft newId createdAt e c invoice reference notes px pdb = Inr pdb'"
  shows "\<exists>r. pu_invoices pdb' = pu_invoices pdb @ [r] \<and> pr_invoiceId r = newId \<and> pr_state r = PurchaseDraft \<and>
    pr_total r = ui_total invoice \<and> pr_journalEntryId r = None \<and> pu_bankAllocations pdb' = pu_bankAllocations pdb \<and> pu_contacts pdb' = pu_contacts pdb \<and>
    newId \<notin> pr_invoiceId ` set (pu_invoices pdb)"
  using assms by (auto simp: createDraft_def list_ex_iff split: if_splits)

lemma draft_keeps:
  assumes "createDraft newId createdAt e c invoice reference notes px pdb = Inr pdb'" "0 \<le> ui_total invoice" "scheduled_once pdb payments"
  shows "scheduled_once pdb' payments"
  using draft_row [OF assms(1)] assms(2,3) by (auto simp: scheduled_once_def)

lemma fewer_allocations:
  "scheduled_once pdb payments \<Longrightarrow> py_allocations payments' = filter P (py_allocations payments) \<Longrightarrow> scheduled_once pdb payments'"
  by (simp add: scheduled_once_def distinct_map_filter)

lemma batch_keeps:
  assumes "once bo"
  shows "once (bo\<lparr>bo_payments := serve digest (bo_payments bo) (with_suppliers bo req)\<rparr>)"
proof (cases "\<exists>ctx collation ss batchId newId createdAt. req = AddInvoicesRequest ctx collation ss batchId newId createdAt")
  case True
  then obtain ctx collation ss batchId newId createdAt where req: "req = AddInvoicesRequest ctx collation ss batchId newId createdAt"
    by blast
  let ?e = "rc_entityId ctx"
  obtain new where "py_allocations (serve digest (bo_payments bo) (with_suppliers bo req)) = py_allocations (bo_payments bo) @ new"
    "mset (map allocated_due new) \<subseteq># mset (map item_due (concat (map ps_items (payableSuppliers collation ?e (bo_purchase bo) (bo_payments bo)))))"
    "\<forall>a \<in> set new. al_entityId a = ?e" using run_allocations [OF refl] unfolding req with_suppliers.simps by blast
  with run_keeps [of "bo_purchase bo" "bo_payments bo" _ new ?e] assms show ?thesis unfolding supplier_items by (simp add: once_def)
next
  case False
  then have "with_suppliers bo req = req" by (cases req) auto
  with False other_allocations [of req digest "bo_payments bo"] assms show ?thesis
    by (auto simp: once_def intro: fewer_allocations)
qed

interpretation single: books_invariant env once "\<lambda>_ _. True" for env
proof unfold_locales
  show "once bo'" if "once bo" "handleCapturePurchaseInvoice ctx newId createdAt body bo = Inr (fs, bo')" for bo ctx newId createdAt body fs bo'
    using that(2) by (rule captured_draft) (use that(1) in \<open>auto simp: once_def toInput_def intro: draft_keeps\<close>)
  show "once bo'" if "once bo" "handleBookPurchaseInvoice env deps ctx invoiceId bookingDate bo = Inr (e, bo')"
    for bo deps ctx invoiceId bookingDate e bo'
    using that(2) by (rule booked_entry) (use that(1) in \<open>auto simp: once_def markBooked_def intro: once_update\<close>)
  show "once bo'" if "once bo" "handleTransitionPurchaseInvoice deps ctx invoiceId action reason bo = Inr (t, bo')"
    for bo deps ctx invoiceId action reason t bo'
    using that(2)
  proof (rule moved_invoice)
    fix invoice found pdb
    assume step: "transition_purchase (rc_entityId ctx) invoiceId (ut_to t) (act_id (rc_actor ctx)) reason (dep_now deps) (bo_purchase bo) = Inr pdb"
      "bo_purchase bo' = pdb" "bo_payments bo' = bo_payments bo"
    obtain f where "pdb = update_purchase (rc_entityId ctx) invoiceId f (bo_purchase bo)"
      "\<And>r. pr_invoiceId (f r) = pr_invoiceId r \<and> pr_entity (f r) = pr_entity r \<and> pr_total (f r) = pr_total r"
      using purchase_transition_rows [OF step(1)] by metis
    with once_update that(1) step(2,3) show ?thesis by (simp add: once_def)
  qed
qed (rule batch_keeps)

definition nothing_scheduled :: "books \<Rightarrow> bool" where
  "nothing_scheduled bo \<longleftrightarrow> distinct (map pr_invoiceId (pu_invoices (bo_purchase bo))) \<and>
     (\<forall>r \<in> set (pu_invoices (bo_purchase bo)). 0 \<le> pr_total r) \<and> pu_bankAllocations (bo_purchase bo) = [] \<and>
     py_allocations (bo_payments bo) = []"


section \<open>A concrete run\<close>

definition plain_platform :: platform where
  "plain_platform = \<lparr>sha256 = (\<lambda>s. s), localeCompare = (\<lambda>_ _. 0)\<rparr>"

definition sample_contact :: contact_row where
  "sample_contact = \<lparr>ct_id = ''c'', ct_entityId = ''e'', ct_number = ''CR1'', ct_name = ''Jansen'', ct_paymentTermsDays = 30,
     ct_isBlocked = False, ct_iban = Some ''NL91ABNA0417164300''\<rparr>"

definition sample_invoice :: "string \<Rightarrow> purchase_status \<Rightarrow> int \<Rightarrow> purchase_row" where
  "sample_invoice i status amt = \<lparr>pr_invoiceId = i, pr_entity = ''e'', pr_contactId = ''c'', pr_kind = PurchaseInvoice,
     pr_state = status, pr_supplierInvoiceNumber = i, pr_invoiceDate = ''2026-02-01'', pr_dueDate = ''2026-03-01'',
     pr_currency = ''EUR'', pr_net = amt, pr_tax = 0, pr_total = amt, pr_paymentReference = None, pr_notes = None,
     pr_journalEntryId = Some ''n'', pr_bookedBy = Some ''u1'', pr_approvedBy = Some ''u2'', pr_approvedAt = Some ''2026-02-02'',
     pr_disputedReason = None, pr_createdAt = 1\<rparr>"

definition sample_purchases :: purchase_db where
  "sample_purchases = \<lparr>pu_contacts = [sample_contact], pu_taxCodes = [],
     pu_invoices = [sample_invoice ''F1'' PurchaseApproved 12100, sample_invoice ''F2'' Booked 500], pu_lines = [],
     pu_bankAllocations = []\<rparr>"

definition sample_books :: books where
  "sample_books = \<lparr>bo_ledger = small_db, bo_purchase = sample_purchases, bo_payments = sample_payments\<rparr>"

text \<open>A batch is opened and filled twice; the second time there is nothing left to add.\<close>

definition run_twice :: "books_request list" where
  "run_twice = [BatchRequest (CreateRequest (person ''u1'') ''b'' ''RUN'' ''k'' ''2026-03-01''),
     BatchRequest (AddInvoicesRequest (person ''u1'') (\<lambda>_ _. 0) [] ''b'' (\<lambda>n. CHR ''i'' # nat_to_string n) 1),
     BatchRequest (AddInvoicesRequest (person ''u1'') (\<lambda>_ _. 0) [] ''b'' (\<lambda>n. CHR ''j'' # nat_to_string n) 2)]"

lemma run_allocates:
  "map allocated_due (py_allocations (bo_payments (foldl (serve_books plain_platform) sample_books run_twice))) = [(''F1'', 12100)]"
  by code_simp

lemma run_keeps_invoices:
  "bo_purchase (foldl (serve_books plain_platform) sample_books run_twice) = sample_purchases"
  by (simp add: run_twice_def sample_books_def)


section \<open>Where the code falls short\<close>

text \<open>
  A bank payment of a part of an invoice that is scheduled in full makes what is unscheduled negative, and its absolute
  value is offered to the next run.
\<close>

lemma part_payment_is_offered_again:
  "(case recordBankPayment ''e'' ''t'' ''F1'' 5000 sample_purchases of
      Inr pdb \<Rightarrow> map due_of (payable_rows ''e'' pdb (bo_payments (foldl (serve_books plain_platform) sample_books run_twice))) = [(''F1'', 5000)]
    | Inl _ \<Rightarrow> False)"
  by code_simp

text \<open>
  Two runs that overlap both read the suppliers before the other one commits, and nothing in the tables keeps the second
  from scheduling the invoice again: an allocation is unique per instruction only.
\<close>

definition overlapping_runs :: payments_db where
  "overlapping_runs =
     (let ss = payableSuppliers (\<lambda>_ _. 0) ''e'' sample_purchases sample_payments
      in foldl (serve (\<lambda>s. s)) sample_payments
        [CreateRequest (person ''u1'') ''b1'' ''RUN1'' ''k'' ''2026-03-01'', CreateRequest (person ''u2'') ''b2'' ''RUN2'' ''k'' ''2026-03-01'',
         AddInvoicesRequest (person ''u1'') (\<lambda>_ _. 0) ss ''b1'' (\<lambda>n. CHR ''i'' # nat_to_string n) 1,
         AddInvoicesRequest (person ''u2'') (\<lambda>_ _. 0) ss ''b2'' (\<lambda>n. CHR ''j'' # nat_to_string n) 1])"

lemma overlapping_runs_schedule_twice:
  "map allocated_due (py_allocations overlapping_runs) = [(''F1'', 12100), (''F1'', 12100)]"
  by code_simp

text \<open>An invoice that is disputed after it was put in a batch stays in the batch.\<close>

lemma dispute_leaves_the_batches:
  "handleTransitionPurchaseInvoice deps ctx invoiceId action reason bo = Inr (t, bo') \<Longrightarrow> bo_payments bo' = bo_payments bo"
  by (erule moved_invoice) simp

text \<open>The number of a cancelled draft does not count as a duplicate, but the unique key of the table still holds it.\<close>

definition after_cancel :: purchase_db where
  "after_cancel = sample_purchases\<lparr>pu_invoices := [sample_invoice ''F1'' PurchaseCancelled 12100]\<rparr>"

definition same_number :: purchase_invoice_input where
  "same_number = \<lparr>ui_supplierInvoiceNumber = ''F1'', ui_kind = PurchaseInvoice, ui_invoiceDate = ''2026-02-01'',
     ui_dueDate = ''2026-03-01'', ui_currency = ''EUR'', ui_net = 12100, ui_tax = 0, ui_total = 12100, ui_lines = []\<rparr>"

lemma cancelled_number_is_taken:
  "\<not> isDuplicate ''e'' ''c'' ''F1'' None after_cancel \<and>
   createDraft ''new'' 2 ''e'' ''c'' same_number None None px after_cancel = Inl (GenericError ''purchase_invoices_supplier_number'')"
  by (simp add: isDuplicate_def createDraft_def after_cancel_def sample_invoice_def same_number_def sample_purchases_def)

end
