(* ===== verification/Purchase_Control.thy ===== *)
theory Purchase_Control
  imports Purchase_Runs
begin

text \<open>
  The creditors ledger against its control account: from empty books, whatever is captured, booked, approved or put in
  batches, the open invoices add up to the balance of the control account, and so does the ageing report.
\<close>

section \<open>The ledger side\<close>

text \<open>What a posting adds to the lines of a supplier account.\<close>

definition control_of :: "string \<Rightarrow> string \<Rightarrow> ledger_db \<Rightarrow> int" where
  "control_of e account db = (\<Sum>l\<leftarrow>supplier_lines e account db. lw_credit l - lw_debit l)"

definition owed_by_line :: "journal_line_input \<Rightarrow> int" where
  "owed_by_line l = li_credit l - li_debit l"

lemma position_frame:
  assumes "db_allocateChainPosition e db = Inr (chain, db1)"
  shows "t_lines db1 = t_lines db" "t_accounts db1 = t_accounts db"
proof -
  obtain sqn db2 where taken: "allocate_number (e, ''__chain'', []) db = (sqn, db2)"
    by (cases "allocate_number (e, ''__chain'', []) db")
  then have frame: "t_lines db2 = t_lines db" "t_accounts db2 = t_accounts db" by (auto simp: allocate_number_def Let_def)
  have "db1 = db2"
  proof (cases "sqn = 1")
    case False
    with assms taken show ?thesis unfolding db_allocateChainPosition_def taken Let_def prod.case by (simp split: option.splits)
  qed (use assms in \<open>simp add: db_allocateChainPosition_def taken\<close>)
  with frame show "t_lines db1 = t_lines db" "t_accounts db1 = t_accounts db" by simp_all
qed

lemma posted_lines:
  assumes "postJournalEntry env command who options deps db = Inr (r, db')" "\<not> res_replayed r" "\<not> op_dryRun options"
    and "dep_repository deps = DrizzleLedgerRepository num"
  obtains ctx fc where "t_lines db' = t_lines db @ map (row_of_line num (res_entry r)) (pe_lines (res_entry r))"
    "t_accounts db' = t_accounts db" "pe_entityId (res_entry r) = cmd_entityId command"
    "db_loadPostingContext (context_request command) db = Inr (Some ctx)"
    "list_all2 (line_resolves ctx fc) (cmd_lines command) (pe_lines (res_entry r))"
  using assms
proof (rule post_db_result, goal_cases)
  case (1 ctx ls chain n db1)
  note db1 = position_frame [OF 1(4)]
  have fields: "pe_lines (res_entry r) = ls" "pe_entityId (res_entry r) = cmd_entityId command"
    by (simp_all add: 1(3) sealed_entry_def draft_entry_def Let_def)
  have repo: "loadPostingContext (dep_repository deps) = db_loadPostingContext"
    by (simp add: assms(4) DrizzleLedgerRepository_def)
  show ?case
  proof (rule 1(1))
    show "t_lines db' = t_lines db @ map (row_of_line num (res_entry r)) (pe_lines (res_entry r))"
      unfolding 1(7) inserted_def by (simp add: allocate_number_def Let_def db1)
    show "t_accounts db' = t_accounts db" unfolding 1(7) inserted_def by (simp add: allocate_number_def Let_def db1)
    show "db_loadPostingContext (context_request command) db = Inr (Some ctx)" using checked_lines_ok(1) [OF 1(2)] unfolding repo .
    show "list_all2 (line_resolves ctx (en_functionalCurrency (ctx_entity ctx))) (cmd_lines command) (pe_lines (res_entry r))"
      unfolding fields by (rule checked_lines_ok(5) [OF 1(2)])
  qed (rule fields)
qed

text \<open>The rows an entry adds to a supplier account: those of the lines of a supplier that name the account.\<close>

definition in_control :: "string \<Rightarrow> string \<Rightarrow> ledger_db \<Rightarrow> line_row \<Rightarrow> bool" where
  "in_control e account db l \<longleftrightarrow> lw_entityId l = e \<and> lw_subledgerKind l = Some Supplier \<and>
     list_ex (\<lambda>a. aw_id a = lw_accountId l \<and> aw_number a = account) (t_accounts db)"

lemma control_of_append:
  "t_lines db' = t_lines db @ rows \<Longrightarrow> t_accounts db' = t_accounts db \<Longrightarrow>
   control_of e account db' = control_of e account db + (\<Sum>l\<leftarrow>filter (in_control e account db) rows. lw_credit l - lw_debit l)"
  by (simp add: control_of_def supplier_lines_def in_control_def [abs_def])

lemma row_simps [simp]:
  "lw_entityId (row_of_line num e l) = pe_entityId e" "lw_subledgerKind (row_of_line num e l) = pl_subledgerKind l"
  "lw_accountId (row_of_line num e l) = pl_accountId l" "lw_credit (row_of_line num e l) = pl_credit l"
  "lw_debit (row_of_line num e l) = pl_debit l"
  by (simp_all add: row_of_line_def)

lemma plain_rows_add_nothing:
  "list_all2 (line_resolves ctx fc) ls items \<Longrightarrow> \<forall>l \<in> set ls. li_subledgerKind l = None \<Longrightarrow>
   filter (in_control e account db) (map (row_of_line num entry) items) = []"
  by (induction rule: list_all2_induct) (auto simp: in_control_def line_resolves_def)

lemma posted_control:
  assumes "postJournalEntry env command who options deps db = Inr (r, db')" "\<not> res_replayed r" "\<not> op_dryRun options"
    and "dep_repository deps = DrizzleLedgerRepository num"
    and lines: "cmd_lines command = ls @ [supplier_line]" "\<forall>l \<in> set ls. li_subledgerKind l = None"
      "li_subledgerKind supplier_line = Some Supplier"
  shows "e \<noteq> cmd_entityId command \<Longrightarrow> control_of e number db' = control_of e number db"
    and "control_of (cmd_entityId command) (li_accountNumber supplier_line) db' =
      control_of (cmd_entityId command) (li_accountNumber supplier_line) db + owed_by_line supplier_line"
    and "t_accounts db' = t_accounts db"
proof -
  from assms(1-4) obtain ctx fc where new: "t_lines db' = t_lines db @ map (row_of_line num (res_entry r)) (pe_lines (res_entry r))"
    "t_accounts db' = t_accounts db" "pe_entityId (res_entry r) = cmd_entityId command"
    "db_loadPostingContext (context_request command) db = Inr (Some ctx)"
    "list_all2 (line_resolves ctx fc) (cmd_lines command) (pe_lines (res_entry r))" by (rule posted_lines)
  show "t_accounts db' = t_accounts db" by (rule new(2))
  show "control_of e number db' = control_of e number db" if "e \<noteq> cmd_entityId command"
    using that new(3) unfolding control_of_append [OF new(1,2)] by (simp add: in_control_def filter_map comp_def)
  obtain items item where items: "pe_lines (res_entry r) = items @ [item]" "list_all2 (line_resolves ctx fc) ls items"
    "line_resolves ctx fc supplier_line item"
    using new(5) unfolding lines(1) by (auto simp: list_all2_append1 list_all2_Cons1)
  from items(3) obtain account where account: "map_of (ctx_accountsByNumber ctx) (li_accountNumber supplier_line) = Some account"
    "pl_accountId item = ac_id account" and same: "pl_credit item = li_credit supplier_line" "pl_debit item = li_debit supplier_line"
    "pl_subledgerKind item = Some Supplier" using lines(3) by (auto simp: line_resolves_def)
  from db_context(6) [OF new(4) account(1)] account(2)
  have "in_control (cmd_entityId command) (li_accountNumber supplier_line) db (row_of_line num (res_entry r) item)"
    by (auto simp: in_control_def new(3) same list_ex_iff)
  then show "control_of (cmd_entityId command) (li_accountNumber supplier_line) db' =
      control_of (cmd_entityId command) (li_accountNumber supplier_line) db + owed_by_line supplier_line"
    unfolding control_of_append [OF new(1,2)] items(1) map_append filter_append plain_rows_add_nothing [OF items(2) lines(2)]
    by (simp add: same owed_by_line_def)
qed

text \<open>The entry of a purchase has one supplier line, for the whole amount.\<close>

lemma purchase_entry_lines:
  assumes "buildPurchaseEntry collation request rules taf = Inr cmd"
  shows "\<exists>ls. cmd_lines cmd = ls @ [liability_line request (ui_kind (pq_invoice request) = PurchaseInvoice)] \<and>
    (\<forall>l \<in> set ls. li_subledgerKind l = None)" "cmd_entityId cmd = pq_entityId request"
proof -
  let ?plain = "\<lambda>ls. \<forall>l \<in> set ls. li_subledgerKind l = None"
  have cost: "?plain (cost_lines request pic g)" for pic g
    by (auto simp: cost_lines_def with_tax_def invoice_line_def)
  have owed: "?plain ls" if "self_assessed_lines request taf pic g = Inr ls" for pic g ls
    using that by (auto simp: self_assessed_lines_def with_tax_def invoice_line_def split: if_splits option.splits)
  have deducted: "?plain ls" if "deduction_lines request taf pic g = Inr ls" for pic g ls
    using that by (auto simp: deduction_lines_def with_tax_def invoice_line_def split: if_splits option.splits)
  have all: "?plain (concat lss)" if "map_result f gs = Inr lss" "\<And>g ls. f g = Inr ls \<Longrightarrow> ?plain ls"
    for f :: "cost_group \<Rightarrow> thrown + journal_line_input list" and gs lss
    using that(1)
  proof (induction gs arbitrary: lss)
    case (Cons g gs)
    then obtain ls rest where "f g = Inr ls" "lss = ls # rest" "map_result f gs = Inr rest" by (auto simp: and_then_Inr)
    with that(2) Cons.IH show ?case by fastforce
  qed simp
  from assms show "cmd_entityId cmd = pq_entityId request" by (rule purchase_built)
  from assms show "\<exists>ls. cmd_lines cmd = ls @ [liability_line request (ui_kind (pq_invoice request) = PurchaseInvoice)] \<and> ?plain ls"
  proof (rule purchase_built)
    fix items owed_lines deducted_lines
    let ?pic = "ui_kind (pq_invoice request) = PurchaseInvoice"
    assume o: "map_result (self_assessed_lines request taf ?pic) (cost_groups collation items) = Inr owed_lines"
      and d: "map_result (deduction_lines request taf ?pic) (cost_groups collation items) = Inr deducted_lines"
      and c: "cmd_lines cmd = concat (map (cost_lines request ?pic) (cost_groups collation items)) @
        concat owed_lines @ concat deducted_lines @ [liability_line request ?pic]"
    have "?plain (concat (map (cost_lines request ?pic) (cost_groups collation items)))" using cost by fastforce
    with all [OF o owed] all [OF d deducted] show ?thesis
      by (intro exI [of _ "concat (map (cost_lines request ?pic) (cost_groups collation items)) @ concat owed_lines @ concat deducted_lines"])
        (auto simp: c)
  qed
qed

section \<open>The invoices\<close>

definition owed_by :: "purchase_row \<Rightarrow> int" where
  "owed_by r = (if pr_kind r = PurchaseCreditNote then - pr_total r else pr_total r)"

definition counted :: "contact_row list \<Rightarrow> string \<Rightarrow> purchase_row \<Rightarrow> bool" where
  "counted contacts e r \<longleftrightarrow> pr_entity r = e \<and> pr_state r \<notin> {PurchaseDraft, PurchaseCancelled} \<and>
     find (\<lambda>c. ct_id c = pr_contactId r) contacts \<noteq> None"

definition subledger_of :: "string \<Rightarrow> purchase_db \<Rightarrow> int" where
  "subledger_of e pdb = (\<Sum>r\<leftarrow>pu_invoices pdb. if counted (pu_contacts pdb) e r then owed_by r else 0)"

lemma settled_unpaid:
  "with_settlement pdb payments e r = Some v \<Longrightarrow> pu_bankAllocations pdb = [] \<Longrightarrow>
   pv_row v = r \<and> pv_outstanding v = pr_total r \<and> pv_signedOutstanding v = owed_by r"
  by (auto simp: with_settlement_def settlement_def Let_def allocatedFor_def owed_by_def)

lemma open_rows_total:
  assumes "pu_bankAllocations pdb = []"
  shows "(\<Sum>v\<leftarrow>filter (\<lambda>v. pv_outstanding v \<noteq> 0 \<and> pr_state (pv_row v) \<noteq> PurchaseCancelled \<and> pr_state (pv_row v) \<noteq> PurchaseDraft)
      (List.map_filter (with_settlement pdb payments e) rs). pv_signedOutstanding v) =
    (\<Sum>r\<leftarrow>rs. if pr_state r \<notin> {PurchaseDraft, PurchaseCancelled} \<and> contact_of pdb r \<noteq> None then owed_by r else 0)"
proof (induction rs)
  case (Cons r rs)
  show ?case
  proof (cases "with_settlement pdb payments e r")
    case None
    then have "contact_of pdb r = None" by (simp add: with_settlement_def)
    then show ?thesis using Cons None by (simp add: List.map_filter_simps)
  next
    case (Some v)
    then have "contact_of pdb r \<noteq> None" by (auto simp: with_settlement_def)
    moreover have "owed_by r = 0" if "pr_total r = 0" using that by (simp add: owed_by_def)
    ultimately show ?thesis using Cons Some settled_unpaid [OF Some assms] by (auto simp: List.map_filter_simps)
  qed
qed (simp add: List.map_filter_simps)

lemma open_invoices_total:
  assumes "pu_bankAllocations pdb = []"
  shows "(\<Sum>v\<leftarrow>list_purchases e True pdb payments. pv_signedOutstanding v) = subledger_of e pdb"
  unfolding list_purchases_def Let_def if_True
  unfolding open_rows_total [OF assms] sum_list_sort_by
  unfolding sum_list_map_filter' subledger_of_def counted_def contact_of_def [symmetric]
  by (intro arg_cong [of _ _ sum_list] map_cong refl) simp

text \<open>A change of one row, found by its id.\<close>

lemma update_total:
  fixes h :: "purchase_row \<Rightarrow> int"
  assumes "distinct (map pr_invoiceId xs)" "r \<in> set xs" "is_purchase e i r"
  shows "(\<Sum>x\<leftarrow>map (\<lambda>x. if is_purchase e i x then f x else x) xs. h x) = (\<Sum>x\<leftarrow>xs. h x) + h (f r) - h r"
  using assms(1,2)
proof (induction xs)
  case (Cons x xs)
  show ?case
  proof (cases "x = r")
    case True
    have "\<not> is_purchase e i y" if "y \<in> set xs" for y
      using Cons.prems(1) that assms(3) True by (auto simp: is_purchase_def image_iff)
    then have "map (\<lambda>x. if is_purchase e i x then f x else x) xs = xs" by (intro map_idI) simp
    then show ?thesis using assms(3) True by simp
  next
    case False
    then have r: "r \<in> set xs" using Cons.prems(2) by simp
    then have "\<not> is_purchase e i x" using Cons.prems(1) assms(3) by (auto simp: is_purchase_def image_iff)
    then show ?thesis using Cons.IH Cons.prems(1) r by simp
  qed
qed simp

section \<open>The invariant\<close>

definition reconciled :: "books \<Rightarrow> bool" where
  "reconciled bo \<longleftrightarrow> distinct (map pr_invoiceId (pu_invoices (bo_purchase bo))) \<and> pu_bankAllocations (bo_purchase bo) = [] \<and>
     (\<forall>r \<in> set (pu_invoices (bo_purchase bo)). pr_state r = PurchaseDraft \<longrightarrow> pr_journalEntryId r = None) \<and>
     (\<forall>e account. payableAccountNumber e (bo_ledger bo) = Some account \<longrightarrow>
        subledger_of e (bo_purchase bo) = control_of e account (bo_ledger bo))"

lemma loaded_row:
  assumes "load e i pdb payments db = Some (invoice, found)"
  obtains r where "r \<in> set (pu_invoices pdb)" "is_purchase e i r" "contact_of pdb r \<noteq> None" "pv_row found = r"
    "ui_total invoice = pr_total r" "ui_kind invoice = pr_kind r"
proof -
  from assms obtain r where r: "find (\<lambda>r. is_purchase e i r \<and> contact_of pdb r \<noteq> None) (pu_invoices pdb) = Some r"
    and v: "with_settlement pdb payments e r = Some found" and "ui_total invoice = pr_total r" "ui_kind invoice = pr_kind r"
    by (auto simp: load_def split: option.splits)
  moreover from r have "r \<in> set (pu_invoices pdb) \<and> is_purchase e i r \<and> contact_of pdb r \<noteq> None" by (auto simp: find_Some_iff)
  moreover have "pv_row found = r" using settled_row [OF v] by simp
  ultimately show ?thesis by (intro that [of r]) auto
qed

lemma same_accounts: "t_accounts db' = t_accounts db \<Longrightarrow> payableAccountNumber e db' = payableAccountNumber e db"
  by (simp add: payableAccountNumber_def entity_chart_def)

lemma event_frame:
  "enqueueEvent (DrizzleLedgerRepository num) v db = Inr db' \<Longrightarrow> t_accounts db' = t_accounts db \<and>
   (\<forall>e account. control_of e account db' = control_of e account db)"
  by (auto simp: DrizzleLedgerRepository_def db_enqueueEvent_def control_of_def supplier_lines_def)

lemma counted_update: "counted (pu_contacts (update_purchase e i f pdb)) = counted (pu_contacts pdb)"
  by (simp add: update_purchase_def)

lemma subledger_update:
  assumes "distinct (map pr_invoiceId (pu_invoices pdb))" "r \<in> set (pu_invoices pdb)" "is_purchase e i r"
  shows "subledger_of x (update_purchase e i f pdb) = subledger_of x pdb +
    (if counted (pu_contacts pdb) x (f r) then owed_by (f r) else 0) - (if counted (pu_contacts pdb) x r then owed_by r else 0)"
  using update_total [OF assms, where f = f and h = "\<lambda>r. if counted (pu_contacts pdb) x r then owed_by r else 0"]
  unfolding subledger_of_def counted_update by (simp add: update_purchase_def)

text \<open>
  The side condition: the repository is the one on the tables, and a booking does not find its idempotency key used. A key
  that is used replays an entry or is refused (\<open>Ledger_Posting\<close>), so the same key for two invoices books one of them.
\<close>

definition fresh_key :: "(string \<Rightarrow> string) \<Rightarrow> books \<Rightarrow> books_request \<Rightarrow> bool" where
  "fresh_key num bo req =
     (case req of
        BookRequest deps ctx invoiceId bookingDate \<Rightarrow> dep_repository deps = DrizzleLedgerRepository num \<and>
          (case rc_idempotencyKey ctx of None \<Rightarrow> True
           | Some key \<Rightarrow> db_findIdempotencyRecord (rc_entityId ctx) (key @ '':book'') (bo_ledger bo) = Inr None)
      | MoveInvoiceRequest deps ctx invoiceId action reason \<Rightarrow> dep_repository deps = DrizzleLedgerRepository num
      | _ \<Rightarrow> True)"

lemma booking_command_built:
  assumes "booking_command collation ctx invoiceId bookingDate bo = Inr command"
  obtains invoice found px payable where
    "load (rc_entityId ctx) invoiceId (bo_purchase bo) (bo_payments bo) (bo_ledger bo) = Some (invoice, found)"
    "pr_state (pv_row found) = PurchaseDraft" "payableAccountNumber (rc_entityId ctx) (bo_ledger bo) = Some payable"
    "buildPurchaseEntry collation (booking_request (rc_entityId ctx) bookingDate px payable invoice) (px_rules px)
       (map_of (px_taxAccountByCode px)) = Inr command"
proof -
  from assms obtain invoice found t px payable where step:
    "load (rc_entityId ctx) invoiceId (bo_purchase bo) (bo_payments bo) (bo_ledger bo) = Some (invoice, found)"
    "nextPurchaseStatus BookInvoice (pr_state (pv_row found)) (purchase_actor_of ctx) = Inr t"
    "loadContext (rc_entityId ctx) (pv_contactNumber found) (bo_purchase bo) (bo_ledger bo) = Some px"
    "px_payableAccountNumber px = Some payable"
    "buildPurchaseEntry collation (booking_request (rc_entityId ctx) bookingDate px payable invoice) (px_rules px)
       (map_of (px_taxAccountByCode px)) = Inr command"
    by (auto simp: booking_command_def and_then_Inr Let_def split: option.splits prod.splits)
  from step(2) have "pr_state (pv_row found) = PurchaseDraft" by (auto simp: nextPurchaseStatus_def split: if_splits)
  moreover have "payableAccountNumber (rc_entityId ctx) (bo_ledger bo) = Some payable"
    using step(3,4) by (auto simp: loadContext_def Let_def payableAccountNumber_def split: option.splits)
  ultimately show ?thesis using step(1,5) by (intro that)
qed

lemma posting_not_replayed:
  assumes "postJournalEntry env command who options (deps :: ledger_db posting_dependencies) db = Inr (r, db')"
    and "dep_repository deps = DrizzleLedgerRepository num"
    and "db_findIdempotencyRecord (cmd_entityId command) (op_idempotencyKey options) db = Inr None"
  shows "\<not> res_replayed r"
proof -
  have "replay_of env command options (dep_repository deps) db = Inr None"
    using assms(2,3) by (simp add: replay_of_def DrizzleLedgerRepository_def)
  then have "post_fresh env command who options deps db = Inr (r, db')" using assms(1) by (simp add: postJournalEntry_def)
  then show ?thesis by (auto simp: post_fresh_def and_then_Inr Let_def split: if_splits)
qed

lemma booking_reconciles:
  assumes inv: "reconciled bo" and ok: "fresh_key num bo (BookRequest deps ctx invoiceId bookingDate)"
    and step: "handleBookPurchaseInvoice env deps ctx invoiceId bookingDate bo = Inr (e, bo')"
  shows "reconciled bo'"
proof -
  let ?e = "rc_entityId ctx" and ?pdb = "bo_purchase bo"
  obtain key command posted ledger ledger' where key: "requireIdempotencyKey ctx = Inr key"
    and command: "booking_command (localeCompare env) ctx invoiceId bookingDate bo = Inr command"
    and post: "postJournalEntry env command (rc_actor ctx) (booking_options ctx key) deps (bo_ledger bo) = Inr (posted, ledger)"
    and event: "enqueueEvent (dep_repository deps) (purchase_event ?e invoiceId ''purchase.invoice.booked'') ledger = Inr ledger'"
    and bo': "bo' = bo\<lparr>bo_ledger := ledger', bo_purchase :=
       markBooked ?e invoiceId (pe_id (res_entry posted)) (act_id (rc_actor ctx)) ?pdb\<rparr>" using step by (rule booked_entry)
  obtain invoice found px payable where found: "load ?e invoiceId ?pdb (bo_payments bo) (bo_ledger bo) = Some (invoice, found)"
      "pr_state (pv_row found) = PurchaseDraft" and payable: "payableAccountNumber ?e (bo_ledger bo) = Some payable"
    and built: "buildPurchaseEntry (localeCompare env) (booking_request ?e bookingDate px payable invoice) (px_rules px)
       (map_of (px_taxAccountByCode px)) = Inr command" using command by (rule booking_command_built)
  obtain r where r: "r \<in> set (pu_invoices ?pdb)" "is_purchase ?e invoiceId r" "contact_of ?pdb r \<noteq> None" "pv_row found = r"
    "ui_total invoice = pr_total r" "ui_kind invoice = pr_kind r" using found(1) by (rule loaded_row)
  have entity: "cmd_entityId command = ?e" using purchase_entry_lines(2) [OF built] by (simp add: booking_request_def)
  let ?line = "liability_line (booking_request ?e bookingDate px payable invoice) (ui_kind invoice = PurchaseInvoice)"
  obtain ls where lines: "cmd_lines command = ls @ [?line]" "\<forall>l \<in> set ls. li_subledgerKind l = None"
    using purchase_entry_lines(1) [OF built] by (auto simp: booking_request_def)
  have line: "li_subledgerKind ?line = Some Supplier" "li_accountNumber ?line = payable" "owed_by_line ?line = owed_by r"
    using r(5,6) by (cases "pr_kind r"; simp add: liability_line_def invoice_line_def booking_request_def owed_by_line_def owed_by_def)+
  have repo: "dep_repository deps = DrizzleLedgerRepository num" using ok by (simp add: fresh_key_def)
  have "\<not> res_replayed posted"
    using ok key by (intro posting_not_replayed [OF post repo]) (simp add: entity fresh_key_def booking_options_def requireIdempotencyKey_Inr)
  then have control: "x \<noteq> ?e \<Longrightarrow> control_of x number ledger = control_of x number (bo_ledger bo)"
    "control_of ?e payable ledger = control_of ?e payable (bo_ledger bo) + owed_by r" "t_accounts ledger = t_accounts (bo_ledger bo)" for x number
    using posted_control [OF post _ _ repo lines line(1)] by (simp_all add: entity line(2,3) booking_options_def)
  have event: "t_accounts ledger' = t_accounts ledger" "control_of x number ledger' = control_of x number ledger" for x number
    using event_frame event unfolding repo by blast+
  define f :: "purchase_row \<Rightarrow> purchase_row" where "f = (\<lambda>r. r\<lparr>pr_state := Booked, pr_journalEntryId := Some (pe_id (res_entry posted)),
    pr_bookedBy := Some (act_id (rc_actor ctx))\<rparr>)"
  have pdb': "bo_purchase bo' = update_purchase ?e invoiceId f ?pdb" by (simp add: bo' markBooked_def f_def)
  have dist: "distinct (map pr_invoiceId (pu_invoices ?pdb))" using inv by (simp add: reconciled_def)
  have f: "counted cs x (f r) \<longleftrightarrow> x = ?e \<and> find (\<lambda>c. ct_id c = pr_contactId r) cs \<noteq> None" "\<not> counted cs x r" "owed_by (f r) = owed_by r" for cs x
    using r(2,4) found(2) by (auto simp: counted_def f_def is_purchase_def owed_by_def)
  have sub: "subledger_of x (bo_purchase bo') = subledger_of x ?pdb + (if x = ?e then owed_by r else 0)" for x
    unfolding pdb' subledger_update [OF dist r(1,2)] f(1,3) using r(3) f(2) by (simp add: contact_of_def)
  have "subledger_of x (bo_purchase bo') = control_of x account (bo_ledger bo')"
    if "payableAccountNumber x (bo_ledger bo') = Some account" for x account
  proof -
    have "payableAccountNumber x (bo_ledger bo) = Some account"
      using that same_accounts [of ledger' "bo_ledger bo"] event(1) control(3) by (simp add: bo')
    moreover from this payable have "x = ?e \<Longrightarrow> account = payable" by simp
    ultimately show ?thesis using inv control(1) [of x account] control(2) sub [of x] by (cases "x = ?e") (auto simp: bo' event reconciled_def)
  qed
  moreover have "distinct (map pr_invoiceId (pu_invoices (bo_purchase bo')))"
  proof -
    have "pr_invoiceId (if is_purchase ?e invoiceId r then f r else r) = pr_invoiceId r" for r by (simp add: f_def)
    then show ?thesis using dist by (simp add: pdb' update_purchase_def comp_def)
  qed
  ultimately show ?thesis using inv by (auto simp: reconciled_def pdb' update_purchase_def f_def)
qed

lemma capture_reconciles:
  assumes "reconciled bo" "handleCapturePurchaseInvoice ctx newId createdAt body bo = Inr (fs, bo')"
  shows "reconciled bo'"
  using assms(2)
proof (rule captured_draft)
  fix px pdb
  assume draft: "createDraft newId createdAt (rc_entityId ctx) (ct_id (px_contact px)) (toInput body) (kb_paymentReference body)
      (kb_notes body) px (bo_purchase bo) = Inr pdb" and bo': "bo' = bo\<lparr>bo_purchase := pdb\<rparr>"
  obtain r where r: "pu_invoices pdb = pu_invoices (bo_purchase bo) @ [r]" "pr_invoiceId r = newId" "pr_state r = PurchaseDraft"
    "pr_journalEntryId r = None" "pu_bankAllocations pdb = pu_bankAllocations (bo_purchase bo)"
    "pu_contacts pdb = pu_contacts (bo_purchase bo)" "newId \<notin> pr_invoiceId ` set (pu_invoices (bo_purchase bo))"
    using draft_row [OF draft] by blast
  have "subledger_of e pdb = subledger_of e (bo_purchase bo)" for e
    using r(3) by (simp add: subledger_of_def r(1,6) counted_def)
  with assms(1) r show "reconciled bo'" by (auto simp: reconciled_def bo')
qed

text \<open>A transition over HTTP leaves what is counted: a draft can only be cancelled, because it has no entry.\<close>

lemma transition_reconciles:
  assumes inv: "reconciled bo" and repo: "dep_repository deps = DrizzleLedgerRepository num"
    and step: "handleTransitionPurchaseInvoice deps ctx invoiceId action reason bo = Inr (t, bo')"
  shows "reconciled bo'"
  using step
proof (rule moved_invoice)
  fix invoice found pdb
  let ?e = "rc_entityId ctx" and ?pdb = "bo_purchase bo"
  assume found: "load ?e invoiceId ?pdb (bo_payments bo) (bo_ledger bo) = Some (invoice, found)"
    and t: "nextPurchaseStatus action (pr_state (pv_row found)) (purchase_actor_of ctx) = Inr t"
    and moved: "transition_purchase ?e invoiceId (ut_to t) (act_id (rc_actor ctx)) reason (dep_now deps) ?pdb = Inr pdb"
      "bo_purchase bo' = pdb"
    and ledger: "bo_ledger bo' = bo_ledger bo \<or> enqueueEvent (dep_repository deps)
      (purchase_event ?e invoiceId ''purchase.invoice.approved'') (bo_ledger bo) = Inr (bo_ledger bo')"
  obtain r where r: "r \<in> set (pu_invoices ?pdb)" "is_purchase ?e invoiceId r" "pv_row found = r" using found by (rule loaded_row)
  obtain f where f: "pdb = update_purchase ?e invoiceId f ?pdb" "pr_invoiceId (f x) = pr_invoiceId x" "pr_entity (f x) = pr_entity x"
    "pr_total (f x) = pr_total x" "pr_kind (f x) = pr_kind x" "pr_contactId (f x) = pr_contactId x" "pr_state (f x) = ut_to t"
    "pr_journalEntryId (f x) = pr_journalEntryId x" and complete: "booked_is_complete (f r)" for x
    using purchase_transition_rows [OF moved(1)] r(1,2) by metis
  have dist: "distinct (map pr_invoiceId (pu_invoices ?pdb))"
    and draft: "pr_state r = PurchaseDraft \<Longrightarrow> pr_journalEntryId r = None" using inv r(1) by (auto simp: reconciled_def)
  have to: "ut_to t = resulting action" "pr_state r \<in> set (allowed_from action)"
    using t r(3) by (auto simp: nextPurchaseStatus_def split: if_splits)
  have "(ut_to t \<in> {PurchaseDraft, PurchaseCancelled}) = (pr_state r \<in> {PurchaseDraft, PurchaseCancelled}) \<and> ut_to t \<noteq> PurchaseDraft"
    using to complete draft f(7,8) by (cases action) (auto simp: booked_is_complete_def)
  then have same: "counted cs x (f r) = counted cs x r" "owed_by (f r) = owed_by r" "ut_to t \<noteq> PurchaseDraft" for cs x
    by (auto simp: counted_def owed_by_def f(2-))
  have sub: "subledger_of x pdb = subledger_of x ?pdb" for x
    unfolding f(1) subledger_update [OF dist r(1,2)] same by simp
  have frame: "t_accounts (bo_ledger bo') = t_accounts (bo_ledger bo)" "control_of x account (bo_ledger bo') = control_of x account (bo_ledger bo)" for x account
    using ledger event_frame unfolding repo by auto
  have ids: "pr_invoiceId (if is_purchase ?e invoiceId r then f r else r) = pr_invoiceId r" for r by (simp add: f(2))
  have "distinct (map pr_invoiceId (pu_invoices pdb))" using dist ids by (simp add: f(1) update_purchase_def comp_def)
  moreover have "pu_bankAllocations pdb = []" using inv by (simp add: f(1) update_purchase_def reconciled_def)
  moreover have "pr_state x = PurchaseDraft \<Longrightarrow> pr_journalEntryId x = None" if "x \<in> set (pu_invoices pdb)" for x
    using that inv same(3) f(7) by (auto simp: f(1) update_purchase_def reconciled_def)
  ultimately show "reconciled bo'" using inv same_accounts [OF frame(1)] by (simp add: reconciled_def moved(2) sub frame(2))
qed

interpretation control: books_invariant env reconciled "fresh_key num" for env num
proof unfold_locales
  show "reconciled (bo\<lparr>bo_payments := serve (sha256 env) (bo_payments bo) (with_suppliers bo req)\<rparr>)" if "reconciled bo" for bo req
    using that by (simp add: reconciled_def)
  show "reconciled bo'" if "reconciled bo" "fresh_key num bo (MoveInvoiceRequest deps ctx invoiceId action reason)"
    "handleTransitionPurchaseInvoice deps ctx invoiceId action reason bo = Inr (t, bo')" for bo deps ctx invoiceId action reason t bo'
    using that(2) by (intro transition_reconciles [OF that(1) _ that(3)]) (simp add: fresh_key_def)
qed (rule capture_reconciles booking_reconciles; assumption)+

section \<open>The report\<close>

lemma bucket_total:
  "ab_total (bucket_of asOf vs) = ab_current (bucket_of asOf vs) + ab_upTo30 (bucket_of asOf vs) + ab_upTo60 (bucket_of asOf vs) +
     ab_upTo90 (bucket_of asOf vs) + ab_over90 (bucket_of asOf vs)"
proof -
  have "in_column asOf CurrentColumn vs + in_column asOf UpTo30 vs + in_column asOf UpTo60 vs + in_column asOf UpTo90 vs +
      in_column asOf Over90 vs = (\<Sum>v\<leftarrow>vs. pv_signedOutstanding v)"
  proof (induction vs)
    case (Cons v vs)
    then show ?case by (cases "ageing_column_of asOf v") (simp_all add: in_column_def)
  qed (simp add: in_column_def)
  then show ?thesis by (simp add: bucket_of_def)
qed

lemma ageing_total: "(\<Sum>b\<leftarrow>ageing collation e asOf pdb payments. ab_total b) = (\<Sum>v\<leftarrow>list_purchases e True pdb payments. pv_signedOutstanding v)"
proof -
  have "(\<Sum>b\<leftarrow>ageing collation e asOf pdb payments. ab_total b) =
      (\<Sum>g\<leftarrow>group_by pv_contactNumber (list_purchases e True pdb payments). \<Sum>v\<leftarrow>snd g. pv_signedOutstanding v)"
    unfolding ageing_def sum_list_sort_by by (simp add: comp_def bucket_of_def)
  then show ?thesis by (simp only: sum_group_by)
qed

definition empty_books :: "books \<Rightarrow> bool" where
  "empty_books bo \<longleftrightarrow> pu_invoices (bo_purchase bo) = [] \<and> pu_bankAllocations (bo_purchase bo) = [] \<and> t_lines (bo_ledger bo) = []"

text \<open>
  C9: The creditors report always reconciles: from empty books, after any requests that capture, book, approve, dispute or
  cancel purchase invoices and put them in payment batches, the buckets of the ageing add up to the balance of the control
  account in the ledger, each bucket is the sum of its columns, and the report says that it reconciles.
\<close>

theorem creditors_reconcile:
  assumes "empty_books bo" "all_requests (fresh_key num) env bo reqs"
    and "handleGetCreditorAgeing collation ctx asOf (foldl (serve_books env) bo reqs) = Inr report"
  shows "ar_reconciles report \<and> ar_total report = rc_control (ar_reconciliation report) \<and>
    ar_total report = (\<Sum>b\<leftarrow>ar_buckets report. ab_current b + ab_upTo30 b + ab_upTo60 b + ab_upTo90 b + ab_over90 b)"
proof -
  let ?bo = "foldl (serve_books env) bo reqs" and ?e = "rc_entityId ctx"
  have "reconciled bo" using assms(1) by (simp add: reconciled_def empty_books_def subledger_of_def control_of_def supplier_lines_def)
  then have inv: "reconciled ?bo" using assms(2) by (rule control.kept)
  from assms(3) obtain account where account: "payableAccountNumber ?e (bo_ledger ?bo) = Some account"
    and report: "ar_buckets report = ageing collation ?e asOf (bo_purchase ?bo) (bo_payments ?bo)"
      "ar_total report = (\<Sum>b\<leftarrow>ar_buckets report. ab_total b)"
      "ar_reconciliation report = reconcileToControlAccount ?e account (bo_purchase ?bo) (bo_payments ?bo) (bo_ledger ?bo)"
      "ar_reconciles report \<longleftrightarrow> rc_difference (ar_reconciliation report) = 0"
    by (auto simp: handleGetCreditorAgeing_def and_then_Inr Let_def split: option.splits)
  have "pu_bankAllocations (bo_purchase ?bo) = []" "subledger_of ?e (bo_purchase ?bo) = control_of ?e account (bo_ledger ?bo)"
    using inv account by (auto simp: reconciled_def)
  then have total: "(\<Sum>v\<leftarrow>list_purchases ?e True (bo_purchase ?bo) (bo_payments ?bo). pv_signedOutstanding v) = control_of ?e account (bo_ledger ?bo)"
    by (simp add: open_invoices_total)
  have "\<forall>b \<in> set (ar_buckets report). ab_total b = ab_current b + ab_upTo30 b + ab_upTo60 b + ab_upTo90 b + ab_over90 b"
    unfolding report(1) ageing_def using bucket_total by auto
  then have "(\<Sum>b\<leftarrow>ar_buckets report. ab_total b) = (\<Sum>b\<leftarrow>ar_buckets report. ab_current b + ab_upTo30 b + ab_upTo60 b + ab_upTo90 b + ab_over90 b)"
    by (intro arg_cong [of _ _ sum_list] map_cong) auto
  moreover have "ar_total report = control_of ?e account (bo_ledger ?bo)" unfolding report(2) unfolding report(1) ageing_total total ..
  ultimately show ?thesis using report(2,4) total
    by (simp add: report(3) reconcileToControlAccount_def Let_def control_of_def [symmetric])
qed

section \<open>A concrete purchase\<close>

definition creditor_ledger :: ledger_db where
  "creditor_ledger = small_db\<lparr>
     t_journals := [(''x'', \<lparr>jo_id = ''j'', jo_code = ''INK'', jo_name = ''Inkoop'', jo_type = Memoriaal\<rparr>)],
     t_accounts :=
       [\<lparr>aw_entityId = ''x'', aw_id = ''a'', aw_number = ''4000'', aw_name = ''Kosten'', aw_type = Expense,
         aw_normalBalance = DebitNormal, aw_rgsCode = None, aw_isBlocked = False\<rparr>,
        \<lparr>aw_entityId = ''x'', aw_id = ''b'', aw_number = ''1600'', aw_name = ''Crediteuren'', aw_type = Liability,
         aw_normalBalance = CreditNormal, aw_rgsCode = None, aw_isBlocked = False\<rparr>]\<rparr>"

definition no_vat_rule :: tax_code_rule where
  "no_vat_rule = \<lparr>tc_code = ''I0'', tc_description = ''Geen BTW'', tc_rateBasisPoints = 0, tc_validFrom = ''2019-01-01'',
     tc_validTo = None, tc_direction = InputTax, tc_baseRubriek = None, tc_vatRubriek = None,
     tc_reverseCharge = NoReverseCharge, tc_scope = DomesticScope, tc_deductibility = FullDeduction,
     tc_proRataBasisPoints = None, tc_supplyKind = NotApplicable, tc_ublCategory = ''Z'', tc_deductionCode = None\<rparr>"

definition new_books :: books where
  "new_books = \<lparr>bo_ledger = creditor_ledger,
     bo_purchase = \<lparr>pu_contacts = [sample_contact\<lparr>ct_entityId := ''x''\<rparr>],
       pu_taxCodes = [\<lparr>tx_id = ''t'', tx_entityId = ''x'', tx_rule = no_vat_rule, tx_accountId = None\<rparr>],
       pu_invoices = [], pu_lines = [], pu_bankAllocations = []\<rparr>,
     bo_payments = sample_payments\<rparr>"

definition clerk :: "string \<Rightarrow> request_context" where
  "clerk key = (person ''u1'')\<lparr>rc_entityId := ''x'', rc_idempotencyKey := Some key\<rparr>"

definition sample_capture :: capture_body where
  "sample_capture = \<lparr>kb_contactNumber = ''CR1'', kb_supplierInvoiceNumber = ''F1'', kb_kind = PurchaseInvoice,
     kb_invoiceDate = ''2026-01-15'', kb_dueDate = ''2026-02-15'', kb_currency = ''EUR'', kb_net = 250, kb_tax = 0, kb_total = 250,
     kb_paymentReference = None, kb_notes = None,
     kb_lines = [\<lparr>kl_description = ''Papier'', kl_accountNumber = ''4000'', kl_taxCode = ''I0'', kl_net = 250, kl_tax = 0\<rparr>]\<rparr>"

definition quiet_platform :: platform where
  "quiet_platform = \<lparr>sha256 = (\<lambda>s. []), localeCompare = (\<lambda>_ _. 0)\<rparr>"

definition plain_deps :: "ledger_db posting_dependencies" where
  "plain_deps = \<lparr>dep_repository = DrizzleLedgerRepository (\<lambda>s. s), dep_now = ''2026-01-16T10:00:00.000Z'',
     dep_newId = (\<lambda>k. CHR ''n'' # nat_to_string k)\<rparr>"

definition bought :: "books_request list" where
  "bought = [CaptureRequest (clerk ''k1'') ''f'' 1 sample_capture, BookRequest plain_deps (clerk ''k2'') ''f'' None]"

definition after_purchase :: books where
  "after_purchase = foldl (serve_books quiet_platform) new_books bought"

lemma purchase_is_booked: "map pr_state (pu_invoices (bo_purchase after_purchase)) = [Booked]"
  by code_simp

lemma purchase_report:
  "(case handleGetCreditorAgeing (\<lambda>_ _. 0) (clerk ''k3'') ''2026-03-01'' after_purchase of
      Inr report \<Rightarrow> ar_total report = 250 | Inl _ \<Rightarrow> False)"
  by code_simp

lemma key_is_fresh:
  "db_findIdempotencyRecord ''x'' (''k2'' @ '':book'') (bo_ledger (serve_books quiet_platform new_books (hd bought))) = Inr None"
  by code_simp

theorem creditors_reconcile_witness:
  "\<exists>report. handleGetCreditorAgeing (\<lambda>_ _. 0) (clerk ''k3'') ''2026-03-01'' (foldl (serve_books quiet_platform) new_books bought) = Inr report \<and>
    ar_total report = 250 \<and> ar_reconciles report"
proof -
  obtain report where report: "handleGetCreditorAgeing (\<lambda>_ _. 0) (clerk ''k3'') ''2026-03-01''
      (foldl (serve_books quiet_platform) new_books bought) = Inr report" "ar_total report = 250"
    using purchase_report unfolding after_purchase_def by (auto split: sum.splits)
  have "empty_books new_books" by (simp add: empty_books_def new_books_def creditor_ledger_def small_db_def)
  moreover have "all_requests (fresh_key (\<lambda>s. s)) quiet_platform new_books bought"
    using key_is_fresh by (simp add: bought_def fresh_key_def plain_deps_def clerk_def)
  ultimately show ?thesis using creditors_reconcile report by blast
qed

end
