(* ===== verification/Spec2Isabelle.thy ===== *)
theory Spec2Isabelle
  imports Money Ledger_Sample Year_Close Fiscal_Year Vat_Icp Vat_Filing Sales_Posting Sales_Dunning Auth_Members Purchase_Control
begin

text \<open>
  A verification development for Klopt, a bookkeeping system in TypeScript. It models the core of the program:
  the package \<open>packages/core\<close>, whose functions decide, the repositories of \<open>packages/db\<close>, which keep the state, and
  the handlers of \<open>apps/web/src/api\<close>, which check the caller and compose the two in a transaction.

  \<^bold>\<open>How the code is rendered.\<close> An interface is a record, a union of string literals a datatype with a function to its
  text, a function a HOL function with the name it has in the source. Amounts are \<open>bigint\<close> in the source and \<open>int\<close> here, so
  no width is lost; a JavaScript string is a \<open>string\<close> of code units below 256 (\<open>Prelude\<close>). A function that throws returns
  \<open>Inl\<close> with what it throws, and \<open>and_then\<close> is the sequence of two such calls. A table is the list of its rows in the order
  of insertion, a repository method takes the database and returns it changed, and the checks, unique keys and triggers of
  the schema are written out where a statement can violate them. A handler is its whole transaction: when it throws, the
  database is the one it started with. SHA-256, the collation of \<open>localeCompare\<close>, fresh identifiers and the clock are
  arguments, and what is used of them is a hypothesis (the laws of collation in \<open>Insertion_Maps\<close> and \<open>Sales_Pricing\<close>, and an
  injective digest where a theorem is about tampering).

  \<^bold>\<open>Foundations.\<close> \<open>Prelude\<close> has the language: results, text, stable sorting. \<open>Calendar\<close> and \<open>Iso_Order\<close> have the part of \<open>Date\<close>
  that is used and the fact that comparing two dates as text is comparing the days. \<open>Insertion_Maps\<close> is the \<open>Map\<close> that keeps
  the order of insertion. \<open>Violations\<close> and \<open>Finding_Messages\<close> are the two catalogues of sentences. \<open>Events\<close> is the catalogue of
  published events. \<open>Money\<close> and \<open>Money_Format\<close> are amounts on the wire and on the screen, each with its round trip.

  \<^bold>\<open>The ledger.\<close> \<open>Ledger_Types\<close> has its vocabulary, \<open>Ledger_Validation\<close> the shape of a command, \<open>Ledger_Currency\<close> the
  conversion into the functional currency, \<open>Ledger_Hash\<close> the hash chain. \<open>Ledger_Posting\<close> is \<open>postJournalEntry\<close> over any
  repository: the contract of the port is the locale \<open>ledger_port\<close>, and the lemmas on posting are proved in it.
  \<open>Ledger_Repository\<close> is the repository on the tables with the guards of the migration, and \<open>Ledger_Journal\<close> interprets the
  contract on it, so that those lemmas hold of the database. The steps of an administration are an inductive relation there,
  and the properties of the ledger (one balanced, sealed and linked entry per step, gapless numbers, maintained balances
  equal to the journal, an idempotent retry) are invariants of the databases it reaches. The abstract specification is a
  journal that only ever grows. \<open>Ledger_Rates\<close> follows a rate through its column, \<open>Ledger_Reports\<close> has the statements,
  \<open>Year_Close\<close> the two closing entries and \<open>Fiscal_Year\<close> the layout of a book year. \<open>Ledger_Sample\<close> is a small administration
  in which the witnesses are evaluated.

  \<^bold>\<open>VAT.\<close> \<open>Vat_Tax_Code\<close> has the boxes of the return and the rules of a tax code, \<open>Vat_Return\<close> the return derived from the
  journal with its reconciliation, \<open>Vat_Filing\<close> the decision to file or to supersede, \<open>Vat_Icp\<close> the statement of
  intra-Community supplies and how it relates to the return.

  \<^bold>\<open>Sales.\<close> \<open>Sales_Pricing\<close> adds up an invoice under either rounding policy, \<open>Sales_Posting\<close> turns it into a command that
  passes the shape check of the ledger, \<open>Sales_Dunning\<close> plans the reminders; its loop ends because the stages rise.

  \<^bold>\<open>Payments.\<close> \<open>Payment_Model\<close> says what makes a batch payable, with the check digits of an account number,
  \<open>Payment_Run\<close> plans one transfer per supplier from the approved invoices, \<open>Payment_File\<close> writes the file for the bank.
  \<open>Payment_Approval\<close> has the transitions, the tables and the handlers, and the relation \<open>batch_step\<close> that every request
  follows; \<open>Payment_Release\<close> shows that two people can always release a payable batch, and what happens when an instruction
  is added while a batch is being approved.

  \<^bold>\<open>Purchases.\<close> \<open>Purchase_Model\<close> has the states of a purchase invoice and the check of what was captured, \<open>Purchase_Posting\<close>
  its entry in the ledger, \<open>Purchase_Repository\<close> the tables with what is outstanding and what is scheduled, and
  \<open>Purchase_Handlers\<close> the handlers and the requests on the \<open>books\<close>: the ledger, the purchases and the payment batches as one
  state. The locale \<open>books_invariant\<close> reduces an invariant of the books to one law per handler, and is interpreted twice:
  in \<open>Purchase_Runs\<close>, where no invoice is scheduled for payment twice, and in \<open>Purchase_Control\<close>, where the creditors ledger
  and its control account agree.

  \<^bold>\<open>Access.\<close> \<open>Auth_Roles\<close> has the permissions and roles, \<open>Auth_Members\<close> who may see an administration and the rule that it
  keeps an owner, \<open>Api_Context\<close> the guards of the handlers and the problem documents they answer with.

  \<^bold>\<open>Bounds and fuel.\<close> No definition runs on fuel: every loop of the modelled code is structural or has a measure.

  \<^bold>\<open>Not modelled.\<close> Bank statements, the repository of the sales invoices, the audit file, UBL and XBRL
  documents, time stamps, OAuth, webhooks and the imports from other products are not modelled yet. The screens, the command
  line, the MCP server, the worker and the adapters only call what is modelled or an outside service. Audit rows that a handler
  writes in a transaction of its own are left out, and so are listings that only feed a screen. Transactions are serial,
  except where a theorem is about two that overlap.
\<close>

end
